(* ===== verification/Prelude.thy ===== *)
theory Prelude
  imports Main "HOL-Library.AList" "HOL-Library.Word" "HOL-Library.Sublist"
begin

text \<open>
  Shared vocabulary of the development: C++ strings as character lists, the decimal
  rendering \<open>std::to_string\<close>, the string searches the compiler uses, association lists for
  \<open>std::unordered_map\<close>, and the collections of facts the component theories extend.

  An \<open>unordered_map\<close> that the code iterates over is an association list whose order
  stands for the unspecified iteration order, and every theorem is about an arbitrary such list.
  A map that is only looked up is a HOL map.
\<close>

named_theorems pos_mono \<open>cursor operations never move backwards\<close>

subsection \<open>Characters and decimal numbers\<close>

definition digit_char :: "nat \<Rightarrow> char" where
  "digit_char d = char_of (48 + d)"

fun nat_to_string :: "nat \<Rightarrow> string" where
  "nat_to_string n =
     (if n < 10 then [digit_char n] else nat_to_string (n div 10) @ [digit_char (n mod 10)])"

declare nat_to_string.simps [simp del]

definition char_isdigit :: "char \<Rightarrow> bool" where
  "char_isdigit c \<longleftrightarrow> (let n = of_char c :: nat in 48 \<le> n \<and> n \<le> 57)"

definition char_isupper :: "char \<Rightarrow> bool" where
  "char_isupper c \<longleftrightarrow> (let n = of_char c :: nat in 65 \<le> n \<and> n \<le> 90)"

definition char_isalpha :: "char \<Rightarrow> bool" where
  "char_isalpha c \<longleftrightarrow> (let n = of_char c :: nat in 65 \<le> n \<and> n \<le> 90 \<or> 97 \<le> n \<and> n \<le> 122)"

definition char_isalnum :: "char \<Rightarrow> bool" where
  "char_isalnum c \<longleftrightarrow> char_isalpha c \<or> char_isdigit c"

definition starts_with :: "string \<Rightarrow> string \<Rightarrow> bool" where
  "starts_with s p \<longleftrightarrow> take (length p) s = p"

lemma of_char_digit_char [simp]: "d < 10 \<Longrightarrow> (of_char (digit_char d) :: nat) = 48 + d"
  by (simp add: digit_char_def)

lemma digit_char_isdigit [simp]: "d < 10 \<Longrightarrow> char_isdigit (digit_char d)"
  by (simp add: char_isdigit_def Let_def)

lemma digit_char_inject: "d < 10 \<Longrightarrow> e < 10 \<Longrightarrow> digit_char d = digit_char e \<Longrightarrow> d = e"
  by (metis add_left_cancel of_char_digit_char)

lemma digit_chars:
  "digit_char 0 = CHR ''0''" "digit_char (Suc 0) = CHR ''1''" "digit_char (Suc (Suc 0)) = CHR ''2''" "digit_char 2 = CHR ''2''" "digit_char 3 = CHR ''3''"
  "digit_char 4 = CHR ''4''" "digit_char 5 = CHR ''5''" "digit_char 6 = CHR ''6''" "digit_char 7 = CHR ''7''"
  "digit_char 8 = CHR ''8''" "digit_char 9 = CHR ''9''"
  by (code_simp)+

lemma nat_to_string_nonempty [simp]: "nat_to_string n \<noteq> []"
  by (subst nat_to_string.simps) simp

lemma nat_to_string_nonempty' [simp]: "[] \<noteq> nat_to_string n"
  using nat_to_string_nonempty [of n] by metis

lemma nat_to_string_digits: "c \<in> set (nat_to_string n) \<Longrightarrow> char_isdigit c"
proof (induction n rule: nat_to_string.induct)
  case (1 n)
  then show ?case
    by (cases "n < 10") (auto simp: nat_to_string.simps [of n])
qed

text \<open>\<open>std::to_string\<close> is injective: two symbol ids never print alike.\<close>

lemma nat_to_string_inject: "nat_to_string n = nat_to_string m \<Longrightarrow> n = m"
proof (induction n arbitrary: m rule: nat_to_string.induct)
  case (1 n)
  show ?case
  proof (cases "n < 10")
    case True
    with "1.prems" show ?thesis
      by (cases "m < 10")
        (auto simp: nat_to_string.simps [of n] nat_to_string.simps [of m]
          dest: digit_char_inject)
  next
    case False
    with "1.prems" have m: "\<not> m < 10"
      by (auto simp: nat_to_string.simps [of n] nat_to_string.simps [of m])
    with False "1.prems" have "nat_to_string (n div 10) = nat_to_string (m div 10)"
      and "digit_char (n mod 10) = digit_char (m mod 10)"
      by (auto simp: nat_to_string.simps [of n] nat_to_string.simps [of m])
    with "1.IH" [OF False] have "n div 10 = m div 10" and "n mod 10 = m mod 10"
      by (auto dest: digit_char_inject [rotated 2])
    then show ?thesis
      by (metis div_mult_mod_eq)
  qed
qed

end
