(* ===== verification/Diagnostics.thy ===== *)
theory Diagnostics
  imports Prelude
begin

text \<open>
  Source locations (include/uinx/common.hpp) and the diagnostic engine
  (include/uinx/diagnostic.hpp, src/diagnostic.cpp) that every phase of the compiler reports
  to. The engine keeps the list of reported diagnostics and, when it has a stream, the text it
  has written. The mutex that serialises reports has no counterpart: the model is one thread.
\<close>

type_synonym u32 = "32 word"

record src_loc =
  loc_file :: string
  loc_line :: u32
  loc_column :: u32
  loc_offset :: u32

record src_range =
  range_begin :: src_loc
  range_end :: src_loc

definition initial_loc :: src_loc where
  "initial_loc = \<lparr>loc_file = [], loc_line = 1, loc_column = 1, loc_offset = 0\<rparr>"

definition initial_range :: src_range where
  "initial_range = \<lparr>range_begin = initial_loc, range_end = initial_loc\<rparr>"

definition u32_to_string :: "u32 \<Rightarrow> string" where
  "u32_to_string w = nat_to_string (unat w)"

definition loc_string :: "src_loc \<Rightarrow> string" where
  "loc_string l = loc_file l @ '':'' @ u32_to_string (loc_line l) @ '':'' @
     u32_to_string (loc_column l)"

datatype diag_level = LevelNote | LevelWarning | LevelError

record diagnostic =
  diag_level :: diag_level
  diag_range :: src_range
  diag_code :: string
  diag_message :: string
  diag_notes :: "string list"

record diagnostics =
  diag_stream :: "string option"
  diag_all :: "diagnostic list"

definition no_diagnostics :: diagnostics where
  "no_diagnostics = \<lparr>diag_stream = None, diag_all = []\<rparr>"

fun level_name :: "diag_level \<Rightarrow> string" where
  "level_name LevelNote = ''note''"
| "level_name LevelWarning = ''warning''"
| "level_name LevelError = ''error''"

definition diag_text :: "diagnostic \<Rightarrow> string" where
  "diag_text d = loc_string (range_begin (diag_range d)) @ '': '' @ level_name (diag_level d) @
     ''['' @ diag_code d @ '']: '' @ diag_message d @ [CHR 0x0A] @
     concat (map (\<lambda>n. ''  note: '' @ n @ [CHR 0x0A]) (diag_notes d))"

definition report :: "diagnostic \<Rightarrow> diagnostics \<Rightarrow> diagnostics" where
  "report d ds = ds\<lparr>diag_stream := map_option (\<lambda>out. out @ diag_text d) (diag_stream ds),
                    diag_all := diag_all ds @ [d]\<rparr>"

definition report_level ::
  "diag_level \<Rightarrow> src_range \<Rightarrow> string \<Rightarrow> string \<Rightarrow> diagnostics \<Rightarrow> diagnostics" where
  "report_level lv r code msg ds =
     report \<lparr>diag_level = lv, diag_range = r, diag_code = code, diag_message = msg,
             diag_notes = []\<rparr> ds"

definition diag_note :: "src_range \<Rightarrow> string \<Rightarrow> string \<Rightarrow> diagnostics \<Rightarrow> diagnostics" where
  "diag_note = report_level LevelNote"

definition diag_error :: "src_range \<Rightarrow> string \<Rightarrow> string \<Rightarrow> diagnostics \<Rightarrow> diagnostics" where
  "diag_error = report_level LevelError"

definition diag_warning :: "src_range \<Rightarrow> string \<Rightarrow> string \<Rightarrow> diagnostics \<Rightarrow> diagnostics" where
  "diag_warning = report_level LevelWarning"

definition has_errors :: "diagnostics \<Rightarrow> bool" where
  "has_errors ds \<longleftrightarrow> list_ex (\<lambda>d. diag_level d = LevelError) (diag_all ds)"

definition error_count :: "diagnostics \<Rightarrow> nat" where
  "error_count ds = length (filter (\<lambda>d. diag_level d = LevelError) (diag_all ds))"

subsection \<open>Diagnostics only grow\<close>

definition diag_le :: "diagnostics \<Rightarrow> diagnostics \<Rightarrow> bool" where
  "diag_le ds es \<longleftrightarrow> prefix (diag_all ds) (diag_all es)"

lemma diag_le_refl [simp, intro]: "diag_le ds ds"
  by (simp add: diag_le_def)

lemma diag_le_trans [trans]: "diag_le a b \<Longrightarrow> diag_le b c \<Longrightarrow> diag_le a c"
  by (auto simp: diag_le_def)

lemma diag_all_error [simp]:
  "diag_all (diag_error r c m ds) = diag_all ds @
     [\<lparr>diag_level = LevelError, diag_range = r, diag_code = c, diag_message = m, diag_notes = []\<rparr>]"
  by (simp add: diag_error_def report_level_def report_def)

lemma has_errors_error [simp]: "has_errors (diag_error r c m ds)"
  by (simp add: has_errors_def)

lemma diag_le_error [simp, intro]: "diag_le ds (diag_error r c m ds)"
  by (simp add: diag_le_def)

lemma diag_le_has_errors: "diag_le ds es \<Longrightarrow> has_errors ds \<Longrightarrow> has_errors es"
  by (auto simp: diag_le_def has_errors_def prefix_def)

lemma error_count_zero: "error_count ds = 0 \<longleftrightarrow> \<not> has_errors ds"
  by (auto simp: error_count_def has_errors_def filter_empty_conv list_ex_iff)

end
