(* ===== verification/Tokens.thy ===== *)
theory Tokens
  imports Diagnostics
begin

text \<open>
  Tokens (include/uinx/token.hpp) and \<open>token_name\<close> (src/lexer.cpp). The enumeration
  \<open>TokenKind\<close> has 113 members; the model keeps them all, with the keywords \<open>Kw...\<close> and
  the punctuation in two datatypes of their own under one constructor each.
\<close>

datatype (plugins only: code size) keyword =
  KwFn | KwLet | KwVar | KwMut | KwReturn | KwIf | KwElse | KwWhile | KwFor | KwIn | KwStruct
| KwEnum | KwTrait | KwImpl | KwWith | KwPub | KwUnsafe | KwAsync | KwAwait | KwExtern
| KwConst | KwStatic | KwMove | KwWhere | KwAs | KwTrue | KwFalse | KwNeed | KwDontNeed
| KwUse | KwMod | KwSelf | KwSelfTy | KwDyn | KwAsm | KwRef | KwMutRef | KwPtr | KwMutPtr
| KwBorrow | KwDeref | KwNew | KwScope | KwPass | KwBreak | KwContinue | KwLoop | KwShared
| KwPerCpu | KwConcurrent | KwSmp | KwAuto | KwManual | KwStrict | KwFence | KwCompilerFence

datatype (plugins only: code size) punct =
  OpLParen | OpRParen | OpLBrace | OpRBrace | OpLBracket | OpRBracket | OpComma | OpDot
| OpColon | OpSemicolon | OpColonColon | OpArrow | OpFatArrow | OpPlus | OpMinus | OpStar
| OpSlash | OpPercent | OpAmp | OpPipe | OpCaret | OpBang | OpTilde | OpEq | OpEqEq | OpBangEq
| OpLess | OpLessEq | OpGreater | OpGreaterEq | OpAndAnd | OpOrOr | OpPlusEq | OpMinusEq
| OpStarEq | OpSlashEq | OpAmpMut | OpQuestion | OpDotDot | OpDotDotEq | OpShiftLeft | OpShiftRight
| OpAmpEq | OpPipeEq | OpCaretEq | OpPercentEq | OpShiftLeftEq | OpShiftRightEq

datatype token_kind =
  TkEnd | TkNewline | TkIndent | TkDedent | TkIdentifier | TkInteger | TkFloat | TkString | TkChar
| TkKw keyword
| TkOp punct

record token =
  tok_kind :: token_kind
  tok_text :: string
  tok_range :: src_range

primrec keyword_name :: "keyword \<Rightarrow> string" where
  "keyword_name KwFn = ''KwFn''"
| "keyword_name KwLet = ''KwLet''"
| "keyword_name KwVar = ''KwVar''"
| "keyword_name KwMut = ''KwMut''"
| "keyword_name KwReturn = ''KwReturn''"
| "keyword_name KwIf = ''KwIf''"
| "keyword_name KwElse = ''KwElse''"
| "keyword_name KwWhile = ''KwWhile''"
| "keyword_name KwFor = ''KwFor''"
| "keyword_name KwIn = ''KwIn''"
| "keyword_name KwStruct = ''KwStruct''"
| "keyword_name KwEnum = ''KwEnum''"
| "keyword_name KwTrait = ''KwTrait''"
| "keyword_name KwImpl = ''KwImpl''"
| "keyword_name KwWith = ''KwWith''"
| "keyword_name KwPub = ''KwPub''"
| "keyword_name KwUnsafe = ''KwUnsafe''"
| "keyword_name KwAsync = ''KwAsync''"
| "keyword_name KwAwait = ''KwAwait''"
| "keyword_name KwExtern = ''KwExtern''"
| "keyword_name KwConst = ''KwConst''"
| "keyword_name KwStatic = ''KwStatic''"
| "keyword_name KwMove = ''KwMove''"
| "keyword_name KwWhere = ''KwWhere''"
| "keyword_name KwAs = ''KwAs''"
| "keyword_name KwTrue = ''KwTrue''"
| "keyword_name KwFalse = ''KwFalse''"
| "keyword_name KwNeed = ''KwNeed''"
| "keyword_name KwDontNeed = ''KwDontNeed''"
| "keyword_name KwUse = ''KwUse''"
| "keyword_name KwMod = ''KwMod''"
| "keyword_name KwSelf = ''KwSelf''"
| "keyword_name KwSelfTy = ''KwSelfTy''"
| "keyword_name KwDyn = ''KwDyn''"
| "keyword_name KwAsm = ''KwAsm''"
| "keyword_name KwRef = ''KwRef''"
| "keyword_name KwMutRef = ''KwMutRef''"
| "keyword_name KwPtr = ''KwPtr''"
| "keyword_name KwMutPtr = ''KwMutPtr''"
| "keyword_name KwBorrow = ''KwBorrow''"
| "keyword_name KwDeref = ''KwDeref''"
| "keyword_name KwNew = ''KwNew''"
| "keyword_name KwScope = ''KwScope''"
| "keyword_name KwPass = ''KwPass''"
| "keyword_name KwBreak = ''KwBreak''"
| "keyword_name KwContinue = ''KwContinue''"
| "keyword_name KwLoop = ''KwLoop''"
| "keyword_name KwShared = ''KwShared''"
| "keyword_name KwPerCpu = ''KwPerCpu''"
| "keyword_name KwConcurrent = ''KwConcurrent''"
| "keyword_name KwSmp = ''KwSmp''"
| "keyword_name KwAuto = ''KwAuto''"
| "keyword_name KwManual = ''KwManual''"
| "keyword_name KwStrict = ''KwStrict''"
| "keyword_name KwFence = ''KwFence''"
| "keyword_name KwCompilerFence = ''KwCompilerFence''"

primrec punct_name :: "punct \<Rightarrow> string" where
  "punct_name OpLParen = ''LParen''"
| "punct_name OpRParen = ''RParen''"
| "punct_name OpLBrace = ''LBrace''"
| "punct_name OpRBrace = ''RBrace''"
| "punct_name OpLBracket = ''LBracket''"
| "punct_name OpRBracket = ''RBracket''"
| "punct_name OpComma = ''Comma''"
| "punct_name OpDot = ''Dot''"
| "punct_name OpColon = ''Colon''"
| "punct_name OpSemicolon = ''Semicolon''"
| "punct_name OpColonColon = ''ColonColon''"
| "punct_name OpArrow = ''Arrow''"
| "punct_name OpFatArrow = ''FatArrow''"
| "punct_name OpPlus = ''Plus''"
| "punct_name OpMinus = ''Minus''"
| "punct_name OpStar = ''Star''"
| "punct_name OpSlash = ''Slash''"
| "punct_name OpPercent = ''Percent''"
| "punct_name OpAmp = ''Amp''"
| "punct_name OpPipe = ''Pipe''"
| "punct_name OpCaret = ''Caret''"
| "punct_name OpBang = ''Bang''"
| "punct_name OpTilde = ''Tilde''"
| "punct_name OpEq = ''Eq''"
| "punct_name OpEqEq = ''EqEq''"
| "punct_name OpBangEq = ''BangEq''"
| "punct_name OpLess = ''Less''"
| "punct_name OpLessEq = ''LessEq''"
| "punct_name OpGreater = ''Greater''"
| "punct_name OpGreaterEq = ''GreaterEq''"
| "punct_name OpAndAnd = ''AndAnd''"
| "punct_name OpOrOr = ''OrOr''"
| "punct_name OpPlusEq = ''PlusEq''"
| "punct_name OpMinusEq = ''MinusEq''"
| "punct_name OpStarEq = ''StarEq''"
| "punct_name OpSlashEq = ''SlashEq''"
| "punct_name OpAmpMut = ''AmpMut''"
| "punct_name OpQuestion = ''Question''"
| "punct_name OpDotDot = ''DotDot''"
| "punct_name OpDotDotEq = ''DotDotEq''"
| "punct_name OpShiftLeft = ''ShiftLeft''"
| "punct_name OpShiftRight = ''ShiftRight''"
| "punct_name OpAmpEq = ''AmpEq''"
| "punct_name OpPipeEq = ''PipeEq''"
| "punct_name OpCaretEq = ''CaretEq''"
| "punct_name OpPercentEq = ''PercentEq''"
| "punct_name OpShiftLeftEq = ''ShiftLeftEq''"
| "punct_name OpShiftRightEq = ''ShiftRightEq''"

fun token_name :: "token_kind \<Rightarrow> string" where
  "token_name TkEnd = ''End''"
| "token_name TkNewline = ''Newline''"
| "token_name TkIndent = ''Indent''"
| "token_name TkDedent = ''Dedent''"
| "token_name TkIdentifier = ''Identifier''"
| "token_name TkInteger = ''Integer''"
| "token_name TkFloat = ''Float''"
| "token_name TkString = ''String''"
| "token_name TkChar = ''Char''"
| "token_name (TkKw k) = keyword_name k"
| "token_name (TkOp p) = punct_name p"

end
