(* ===== verification/Lexer.thy ===== *)
theory Lexer
  imports Tokens
begin

text \<open>
  The lexical analyser (src/lexer.cpp, include/uinx/lexer.hpp): the cursor, comments,
  indentation, the token scanners, and the loop \<open>Lexer::lex\<close>. The source is a
  character list and \<open>lx_pos\<close> the index \<open>pos_\<close>; the indentation stack has its top
  (\<open>back()\<close>) first. Every \<open>while\<close> of the code is a terminating recursion on
  the number of characters left.
\<close>

record lexer =
  lx_file :: string
  lx_src :: string
  lx_diags :: diagnostics
  lx_pos :: nat
  lx_loc :: src_loc
  lx_indents :: "nat list"
  lx_depth :: int
  lx_line_start :: bool

definition new_lexer :: "string \<Rightarrow> string \<Rightarrow> diagnostics \<Rightarrow> lexer" where
  "new_lexer file src ds = \<lparr>lx_file = file, lx_src = src, lx_diags = ds, lx_pos = 0,
     lx_loc = initial_loc\<lparr>loc_file := file\<rparr>, lx_indents = [0], lx_depth = 0,
     lx_line_start = True\<rparr>"

subsection \<open>The cursor\<close>

definition lx_eof_at :: "nat \<Rightarrow> lexer \<Rightarrow> bool" where
  "lx_eof_at n lx \<longleftrightarrow> length (lx_src lx) \<le> lx_pos lx + n"

abbreviation lx_eof :: "lexer \<Rightarrow> bool" where
  "lx_eof \<equiv> lx_eof_at 0"

definition lx_peek_at :: "nat \<Rightarrow> lexer \<Rightarrow> char" where
  "lx_peek_at n lx = (if lx_eof_at n lx then CHR 0x00 else lx_src lx ! (lx_pos lx + n))"

abbreviation lx_peek :: "lexer \<Rightarrow> char" where
  "lx_peek \<equiv> lx_peek_at 0"

definition loc_advance :: "char \<Rightarrow> src_loc \<Rightarrow> src_loc" where
  "loc_advance c l = (let l = l\<lparr>loc_offset := loc_offset l + 1\<rparr> in
     if c = CHR 0x0A then l\<lparr>loc_line := loc_line l + 1, loc_column := 1\<rparr>
     else l\<lparr>loc_column := loc_column l + 1\<rparr>)"

definition lx_advance :: "lexer \<Rightarrow> lexer" where
  "lx_advance lx = (if lx_eof lx then lx
     else lx\<lparr>lx_pos := lx_pos lx + 1, lx_loc := loc_advance (lx_peek lx) (lx_loc lx)\<rparr>)"

definition lx_match :: "char \<Rightarrow> lexer \<Rightarrow> bool \<times> lexer" where
  "lx_match c lx = (if lx_peek lx \<noteq> c then (False, lx) else (True, lx_advance lx))"

definition lx_left :: "lexer \<Rightarrow> nat" where
  "lx_left lx = length (lx_src lx) - lx_pos lx"

lemma lx_left_advance [simp]: "\<not> lx_eof lx \<Longrightarrow> lx_left (lx_advance lx) < lx_left lx"
  by (simp add: lx_left_def lx_advance_def lx_eof_at_def)

lemma lx_left_advance_le [simp]: "lx_left (lx_advance lx) \<le> lx_left lx"
  by (auto simp: lx_left_def lx_advance_def lx_eof_at_def)

text \<open>
  The loops \<open>while (P(peek())) advance();\<close> of the code, for predicates that the end marker
  does not satisfy or with an explicit \<open>!eof()\<close>.
\<close>

function lx_while :: "(char \<Rightarrow> bool) \<Rightarrow> lexer \<Rightarrow> lexer" where
  "lx_while P lx = (if \<not> lx_eof lx \<and> P (lx_peek lx) then lx_while P (lx_advance lx) else lx)"
  by pat_completeness auto
termination by (relation "measure (\<lambda>(P, lx). lx_left lx)") auto

declare lx_while.simps [simp del]

definition lx_make :: "token_kind \<Rightarrow> nat \<Rightarrow> src_loc \<Rightarrow> string \<Rightarrow> lexer \<Rightarrow> token" where
  "lx_make kind start begin text lx =
     \<lparr>tok_kind = kind,
      tok_text = (if text = [] \<and> start < lx_pos lx
        then take (lx_pos lx - start) (drop start (lx_src lx)) else text),
      tok_range = \<lparr>range_begin = begin, range_end = lx_loc lx\<rparr>\<rparr>"

definition lx_error :: "src_loc \<Rightarrow> string \<Rightarrow> string \<Rightarrow> lexer \<Rightarrow> lexer" where
  "lx_error begin code msg lx = lx\<lparr>lx_diags :=
     diag_error \<lparr>range_begin = begin, range_end = lx_loc lx\<rparr> code msg (lx_diags lx)\<rparr>"

subsection \<open>White space and comments\<close>

definition is_horizontal :: "char \<Rightarrow> bool" where
  "is_horizontal c \<longleftrightarrow> c = CHR '' '' \<or> c = CHR 0x09 \<or> c = CHR 0x0D"

definition skip_horizontal_space :: "lexer \<Rightarrow> lexer" where
  "skip_horizontal_space = lx_while is_horizontal"

function block_comment :: "nat \<Rightarrow> lexer \<Rightarrow> nat \<times> lexer" where
  "block_comment depth lx =
     (if lx_eof lx \<or> depth = 0 then (depth, lx)
      else if lx_peek lx = CHR ''/'' \<and> lx_peek_at 1 lx = CHR ''*''
        then block_comment (depth + 1) (lx_advance (lx_advance lx))
      else if lx_peek lx = CHR ''*'' \<and> lx_peek_at 1 lx = CHR ''/''
        then block_comment (depth - 1) (lx_advance (lx_advance lx))
      else block_comment depth (lx_advance lx))"
  by pat_completeness auto
termination
  by (relation "measure (\<lambda>(d, lx). lx_left lx)")
    (auto intro: le_less_trans [OF lx_left_advance_le lx_left_advance])

declare block_comment.simps [simp del]

definition at_line_comment :: "lexer \<Rightarrow> bool" where
  "at_line_comment lx \<longleftrightarrow> lx_peek lx = CHR ''#'' \<or>
     lx_peek lx = CHR ''/'' \<and> lx_peek_at 1 lx = CHR ''/''"

definition skip_comment :: "lexer \<Rightarrow> bool \<times> lexer" where
  "skip_comment lx =
     (if at_line_comment lx then
        (let lx = (if lx_peek lx = CHR ''/'' then lx_advance (lx_advance lx) else lx_advance lx)
         in (True, lx_while (\<lambda>c. c \<noteq> CHR 0x0A) lx))
      else if lx_peek lx \<noteq> CHR ''/'' \<or> lx_peek_at 1 lx \<noteq> CHR ''*'' then (False, lx)
      else
        (let begin = lx_loc lx;
             (depth, lx) = block_comment 1 (lx_advance (lx_advance lx))
         in (True, if depth \<noteq> 0 then lx_error begin ''E0001'' ''unterminated block comment'' lx
                   else lx)))"

definition consume_blank_or_comment_line :: "lexer \<Rightarrow> bool \<times> lexer" where
  "consume_blank_or_comment_line lx =
     (let saved_pos = lx_pos lx; saved_loc = lx_loc lx;
          lx = lx_while is_horizontal lx;
          lx = (if at_line_comment lx then snd (skip_comment lx) else lx)
      in if lx_peek lx = CHR 0x0A then (True, (lx_advance lx)\<lparr>lx_line_start := True\<rparr>)
         else if lx_eof lx then (True, lx)
         else (False, lx\<lparr>lx_pos := saved_pos, lx_loc := saved_loc\<rparr>))"

subsection \<open>Indentation\<close>

function indent_width :: "nat \<Rightarrow> lexer \<Rightarrow> nat \<times> lexer" where
  "indent_width width lx =
     (if \<not> lx_eof lx \<and> (lx_peek lx = CHR '' '' \<or> lx_peek lx = CHR 0x09) then
        (if lx_peek lx = CHR 0x09
         then indent_width (width + 4) (lx_advance (lx_error (lx_loc lx) ''E0006''
                ''tabs are not allowed for indentation; use spaces'' lx))
         else indent_width (width + 1) (lx_advance lx))
      else (width, lx))"
  by pat_completeness auto
termination
  by (relation "measure (\<lambda>(d, lx). lx_left lx)")
    (auto simp: lx_left_def lx_advance_def lx_eof_at_def lx_error_def)

declare indent_width.simps [simp del]

definition layout_token :: "token_kind \<Rightarrow> string \<Rightarrow> src_loc \<Rightarrow> src_loc \<Rightarrow> token" where
  "layout_token kind text b e =
     \<lparr>tok_kind = kind, tok_text = text, tok_range = \<lparr>range_begin = b, range_end = e\<rparr>\<rparr>"

fun pop_indents :: "nat \<Rightarrow> token \<Rightarrow> nat list \<Rightarrow> token list \<Rightarrow> nat list \<times> token list" where
  "pop_indents width dedent (i # j # stack) out =
     (if width < i then pop_indents width dedent (j # stack) (out @ [dedent])
      else (i # j # stack, out))"
| "pop_indents width dedent stack out = (stack, out)"

definition emit_indentation :: "token list \<Rightarrow> lexer \<Rightarrow> token list \<times> lexer" where
  "emit_indentation out lx =
     (if \<not> lx_line_start lx \<or> lx_depth lx \<noteq> 0 \<or> lx_eof lx then (out, lx)
      else case consume_blank_or_comment_line lx of
        (True, lx) \<Rightarrow> (out, lx)
      | (False, lx) \<Rightarrow>
          (let begin = lx_loc lx;
               (width, lx) = indent_width 0 lx;
               (out, lx) =
                 (if hd (lx_indents lx) < width then
                    (out @ [layout_token TkIndent [] begin (lx_loc lx)],
                     lx\<lparr>lx_indents := width # lx_indents lx\<rparr>)
                  else if width < hd (lx_indents lx) then
                    (let (stack, out) = pop_indents width
                           (layout_token TkDedent [] begin (lx_loc lx)) (lx_indents lx) out;
                         lx = lx\<lparr>lx_indents := stack\<rparr>
                     in (out, if width \<noteq> hd stack
                              then lx_error begin ''E0007'' ''inconsistent indentation level'' lx
                              else lx))
                  else (out, lx))
           in (out, lx\<lparr>lx_line_start := False\<rparr>)))"

definition is_layout :: "token_kind \<Rightarrow> bool" where
  "is_layout k \<longleftrightarrow> k = TkNewline \<or> k = TkIndent \<or> k = TkDedent"

definition emit_newline :: "token list \<Rightarrow> src_loc \<Rightarrow> lexer \<Rightarrow> token list" where
  "emit_newline out begin lx =
     (if lx_depth lx \<noteq> 0 then out
      else if out \<noteq> [] \<and> \<not> is_layout (tok_kind (last out))
        then out @ [layout_token TkNewline [CHR 0x0A] begin (lx_loc lx)]
      else out)"

subsection \<open>Words, numbers and literals\<close>

definition is_word_char :: "char \<Rightarrow> bool" where
  "is_word_char c \<longleftrightarrow> char_isalnum c \<or> c = CHR ''_''"

definition keyword_table :: "(string \<times> keyword) list" where
  "keyword_table =
    [(''fn'', KwFn), (''func'', KwFn), (''def'', KwFn), (''let'', KwLet), (''val'', KwLet),
     (''var'', KwVar), (''mut'', KwMut), (''return'', KwReturn), (''if'', KwIf),
     (''else'', KwElse), (''elif'', KwElse), (''while'', KwWhile), (''for'', KwFor),
     (''in'', KwIn), (''struct'', KwStruct), (''enum'', KwEnum), (''trait'', KwTrait),
     (''impl'', KwImpl), (''extend'', KwImpl), (''with'', KwWith), (''pub'', KwPub),
     (''public'', KwPub), (''unsafe'', KwUnsafe), (''async'', KwAsync), (''await'', KwAwait),
     (''extern'', KwExtern), (''const'', KwConst), (''static'', KwStatic), (''move'', KwMove),
     (''where'', KwWhere), (''as'', KwAs), (''true'', KwTrue), (''false'', KwFalse),
     (''need'', KwNeed), (''dontneed'', KwDontNeed), (''no_std'', KwDontNeed), (''use'', KwUse),
     (''mod'', KwMod), (''self'', KwSelf), (''Self'', KwSelfTy), (''dyn'', KwDyn),
     (''asm'', KwAsm), (''ref'', KwRef), (''mutref'', KwMutRef), (''ptr'', KwPtr),
     (''mutptr'', KwMutPtr), (''borrow'', KwBorrow), (''deref'', KwDeref), (''new'', KwNew),
     (''scope'', KwScope), (''pass'', KwPass), (''break'', KwBreak), (''continue'', KwContinue),
     (''loop'', KwLoop), (''shared'', KwShared), (''percpu'', KwPerCpu),
     (''concurrent'', KwConcurrent), (''smp'', KwSmp), (''auto'', KwAuto),
     (''manual'', KwManual), (''strict'', KwStrict), (''fence'', KwFence),
     (''compiler_fence'', KwCompilerFence)]"

definition identifier_or_keyword :: "lexer \<Rightarrow> token \<times> lexer" where
  "identifier_or_keyword lx =
     (let start = lx_pos lx; begin = lx_loc lx;
          lx = lx_while is_word_char (lx_advance lx);
          text = take (lx_pos lx - start) (drop start (lx_src lx))
      in (if text = ''and'' then lx_make (TkOp OpAndAnd) start begin ''&&'' lx
          else if text = ''or'' then lx_make (TkOp OpOrOr) start begin ''||'' lx
          else if text = ''not'' then lx_make (TkOp OpBang) start begin ''!'' lx
          else lx_make (case map_of keyword_table text of None \<Rightarrow> TkIdentifier | Some k \<Rightarrow> TkKw k)
                 start begin text lx, lx))"

definition is_digit_char :: "char \<Rightarrow> bool" where
  "is_digit_char c \<longleftrightarrow> char_isdigit c \<or> c = CHR ''_''"

definition number :: "lexer \<Rightarrow> token \<times> lexer" where
  "number lx =
     (let start = lx_pos lx; begin = lx_loc lx in
      if lx_peek lx = CHR ''0'' \<and> lx_peek_at 1 lx \<in> set ''xXbBoO'' then
        (let lx = lx_while is_word_char (lx_advance (lx_advance lx))
         in (lx_make TkInteger start begin [] lx, lx))
      else
        (let lx = lx_while is_digit_char lx;
             (is_float, lx) =
               (if lx_peek lx = CHR ''.'' \<and> char_isdigit (lx_peek_at 1 lx)
                then (True, lx_while is_digit_char (lx_advance lx)) else (False, lx));
             (is_float, lx) =
               (if lx_peek lx = CHR ''e'' \<or> lx_peek lx = CHR ''E'' then
                  (let lx = lx_advance lx;
                       lx = (if lx_peek lx = CHR ''+'' \<or> lx_peek lx = CHR ''-''
                             then lx_advance lx else lx)
                   in (True, lx_while is_digit_char lx))
                else (is_float, lx));
             lx = lx_while is_word_char lx
         in (lx_make (if is_float then TkFloat else TkInteger) start begin [] lx, lx)))"

definition string_escape :: "char \<Rightarrow> char" where
  "string_escape c =
     (if c = CHR ''n'' then CHR 0x0A else if c = CHR ''r'' then CHR 0x0D
      else if c = CHR ''t'' then CHR 0x09 else if c = CHR ''0'' then CHR 0x00 else c)"

function string_body :: "string \<Rightarrow> lexer \<Rightarrow> string \<times> lexer" where
  "string_body value lx =
     (if lx_eof lx \<or> lx_peek lx = CHR 0x22 then (value, lx)
      else
        (let c = lx_peek lx; lx' = lx_advance lx in
         if c \<noteq> CHR 0x5C then string_body (value @ [c]) lx'
         else if lx_eof lx' then (value, lx')
         else string_body (value @ [string_escape (lx_peek lx')]) (lx_advance lx')))"
  by pat_completeness auto
termination
  by (relation "measure (\<lambda>(d, lx). lx_left lx)")
    (auto intro: le_less_trans [OF lx_left_advance_le lx_left_advance])

declare string_body.simps [simp del]

definition string_literal :: "lexer \<Rightarrow> token \<times> lexer" where
  "string_literal lx =
     (let begin = lx_loc lx;
          (value, lx) = string_body [] (lx_advance lx);
          (closed, lx) = lx_match CHR 0x22 lx;
          lx = (if \<not> closed then lx_error begin ''E0002'' ''unterminated string literal'' lx else lx)
      in (\<lparr>tok_kind = TkString, tok_text = value,
           tok_range = \<lparr>range_begin = begin, range_end = lx_loc lx\<rparr>\<rparr>, lx))"

definition char_escape :: "char \<Rightarrow> char" where
  "char_escape c = (if c = CHR ''n'' then CHR 0x0A else if c = CHR ''t'' then CHR 0x09 else c)"

definition char_literal :: "lexer \<Rightarrow> token \<times> lexer" where
  "char_literal lx =
     (let start = lx_pos lx; begin = lx_loc lx; lx = lx_advance lx;
          (value, lx) =
            (if lx_eof lx \<or> lx_peek lx = CHR 0x27
             then ([], lx_error begin ''E0003'' ''empty character literal'' lx)
             else
               (let c = lx_peek lx; lx = lx_advance lx in
                if c = CHR 0x5C then ([char_escape (lx_peek lx)], lx_advance lx)
                else ([c], lx)));
          (closed, lx) = lx_match CHR 0x27 lx;
          lx = (if \<not> closed then lx_error begin ''E0004'' ''unterminated character literal'' lx
                else lx)
      in (lx_make TkChar start begin value lx, lx))"

subsection \<open>Punctuation and the main loop\<close>

definition match_or :: "char \<Rightarrow> 'a \<Rightarrow> 'a \<Rightarrow> lexer \<Rightarrow> 'a \<times> lexer" where
  "match_or c yes no lx = (case lx_match c lx of (True, lx) \<Rightarrow> (yes, lx) | (False, lx) \<Rightarrow> (no, lx))"

definition open_delimiter :: "lexer \<Rightarrow> lexer" where
  "open_delimiter lx = lx\<lparr>lx_depth := lx_depth lx + 1\<rparr>"

definition close_delimiter :: "lexer \<Rightarrow> lexer" where
  "close_delimiter lx = lx\<lparr>lx_depth := max 0 (lx_depth lx - 1)\<rparr>"

definition punct_amp :: "lexer \<Rightarrow> punct \<times> lexer" where
  "punct_amp lx =
     (case lx_match CHR ''&'' lx of (True, lx) \<Rightarrow> (OpAndAnd, lx)
      | (False, lx) \<Rightarrow>
          if take 3 (drop (lx_pos lx) (lx_src lx)) = ''mut'' \<and>
             (lx_pos lx + 3 = length (lx_src lx) \<or> \<not> char_isalnum (lx_src lx ! (lx_pos lx + 3)))
          then (OpAmpMut, lx_advance (lx_advance (lx_advance lx)))
          else match_or CHR ''='' OpAmpEq OpAmp lx)"

text \<open>
  The \<open>switch\<close> of \<open>Lexer::lex\<close> on the character already consumed: the kind of the token,
  or \<open>None\<close> where the code reports E0005 and skips the character.
\<close>

definition lex_punct :: "char \<Rightarrow> src_loc \<Rightarrow> lexer \<Rightarrow> punct option \<times> lexer" where
  "lex_punct c begin lx =
     (if c = CHR ''('' then (Some OpLParen, open_delimiter lx)
      else if c = CHR '')'' then (Some OpRParen, close_delimiter lx)
      else if c = CHR ''{'' then (Some OpLBrace, open_delimiter lx)
      else if c = CHR ''}'' then (Some OpRBrace, close_delimiter lx)
      else if c = CHR ''['' then (Some OpLBracket, open_delimiter lx)
      else if c = CHR '']'' then (Some OpRBracket, close_delimiter lx)
      else if c = CHR '','' then (Some OpComma, lx)
      else if c = CHR ''.'' then
        (case lx_match CHR ''.'' lx of
          (True, lx) \<Rightarrow> match_or CHR ''='' (Some OpDotDotEq) (Some OpDotDot) lx
        | (False, lx) \<Rightarrow> (Some OpDot, lx))
      else if c = CHR '';'' then (Some OpSemicolon, lx)
      else if c = CHR ''?'' then (Some OpQuestion, lx)
      else if c = CHR ''~'' then (Some OpTilde, lx)
      else if c = CHR ''%'' then match_or CHR ''='' (Some OpPercentEq) (Some OpPercent) lx
      else if c = CHR ''^'' then match_or CHR ''='' (Some OpCaretEq) (Some OpCaret) lx
      else if c = CHR '':'' then match_or CHR '':'' (Some OpColonColon) (Some OpColon) lx
      else if c = CHR ''-'' then
        (case lx_match CHR ''>'' lx of
          (True, lx) \<Rightarrow> (Some OpArrow, lx)
        | (False, lx) \<Rightarrow> match_or CHR ''='' (Some OpMinusEq) (Some OpMinus) lx)
      else if c = CHR ''='' then
        (case lx_match CHR ''='' lx of
          (True, lx) \<Rightarrow> (Some OpEqEq, lx)
        | (False, lx) \<Rightarrow> match_or CHR ''>'' (Some OpFatArrow) (Some OpEq) lx)
      else if c = CHR ''+'' then match_or CHR ''='' (Some OpPlusEq) (Some OpPlus) lx
      else if c = CHR ''*'' then match_or CHR ''='' (Some OpStarEq) (Some OpStar) lx
      else if c = CHR ''/'' then match_or CHR ''='' (Some OpSlashEq) (Some OpSlash) lx
      else if c = CHR ''&'' then (case punct_amp lx of (k, lx) \<Rightarrow> (Some k, lx))
      else if c = CHR ''|'' then
        (case lx_match CHR ''|'' lx of
          (True, lx) \<Rightarrow> (Some OpOrOr, lx)
        | (False, lx) \<Rightarrow> match_or CHR ''='' (Some OpPipeEq) (Some OpPipe) lx)
      else if c = CHR ''!'' then match_or CHR ''='' (Some OpBangEq) (Some OpBang) lx
      else if c = CHR ''<'' then
        (case lx_match CHR ''<'' lx of
          (True, lx) \<Rightarrow> match_or CHR ''='' (Some OpShiftLeftEq) (Some OpShiftLeft) lx
        | (False, lx) \<Rightarrow> match_or CHR ''='' (Some OpLessEq) (Some OpLess) lx)
      else if c = CHR ''>'' then
        (case lx_match CHR ''>'' lx of
          (True, lx) \<Rightarrow> match_or CHR ''='' (Some OpShiftRightEq) (Some OpShiftRight) lx
        | (False, lx) \<Rightarrow> match_or CHR ''='' (Some OpGreaterEq) (Some OpGreater) lx)
      else (None, lx_error begin ''E0005'' (''unexpected character '' @ [CHR 0x27, c, CHR 0x27]) lx))"

definition push :: "token list \<Rightarrow> token \<times> lexer \<Rightarrow> token list \<times> lexer" where
  "push out r = (out @ [fst r], snd r)"

text \<open>The part of an iteration from the first character of a token on.\<close>

definition lex_token :: "token list \<Rightarrow> lexer \<Rightarrow> token list \<times> lexer" where
  "lex_token out lx0 =
     (let lx = lx0\<lparr>lx_line_start := False\<rparr>; start = lx_pos lx; begin = lx_loc lx; c = lx_peek lx in
      if char_isalpha c \<or> c = CHR ''_'' then push out (identifier_or_keyword lx)
      else if char_isdigit c then push out (number lx)
      else if c = CHR 0x22 then push out (string_literal lx)
      else if c = CHR 0x27 then push out (char_literal lx)
      else case lex_punct c begin (lx_advance lx) of
          (None, lx) \<Rightarrow> (out, lx)
        | (Some k, lx) \<Rightarrow> push out (lx_make (TkOp k) start begin [] lx, lx))"

text \<open>One iteration of the loop of \<open>Lexer::lex\<close>; the flag says that it left by \<open>break\<close>.\<close>

definition lex_body :: "token list \<Rightarrow> lexer \<Rightarrow> bool \<times> token list \<times> lexer" where
  "lex_body out lx =
     (case skip_comment (skip_horizontal_space lx) of
        (True, lx) \<Rightarrow> (False, out, lx)
      | (False, lx) \<Rightarrow>
          if lx_eof lx then (True, out, lx)
          else if lx_peek lx = CHR 0x0A then
            (let begin = lx_loc lx; lx = lx_advance lx
             in (False, emit_newline out begin lx, lx\<lparr>lx_line_start := True\<rparr>))
          else (False, lex_token out lx))"

definition lex_step :: "token list \<Rightarrow> lexer \<Rightarrow> bool \<times> token list \<times> lexer" where
  "lex_step out lx =
     (if lx_line_start lx \<and> lx_depth lx = 0 then
        (case emit_indentation out lx of (out, lx') \<Rightarrow>
           if lx_pos lx' \<noteq> lx_pos lx \<and> lx_line_start lx' then (False, out, lx')
           else if lx_eof lx' then (True, out, lx')
           else lex_body out lx')
      else lex_body out lx)"

definition lex_finish :: "token list \<Rightarrow> lexer \<Rightarrow> token list" where
  "lex_finish out lx =
     (let out = (if out \<noteq> [] \<and> \<not> is_layout (tok_kind (last out))
                 then out @ [layout_token TkNewline [CHR 0x0A] (lx_loc lx) (lx_loc lx)] else out);
          dedents = replicate (length (lx_indents lx) - 1)
                      (layout_token TkDedent [] (lx_loc lx) (lx_loc lx))
      in out @ dedents @ [layout_token TkEnd [] (lx_loc lx) (lx_loc lx)])"


subsection \<open>Locations\<close>

text \<open>The location after reading a prefix of the source, and what its fields mean.\<close>

definition loc_at :: "string \<Rightarrow> string \<Rightarrow> src_loc" where
  "loc_at file s = foldl (\<lambda>l c. loc_advance c l) (initial_loc\<lparr>loc_file := file\<rparr>) s"

lemma loc_at_Nil [simp]: "loc_at file [] = initial_loc\<lparr>loc_file := file\<rparr>"
  by (simp add: loc_at_def)

lemma loc_at_snoc [simp]: "loc_at file (s @ [c]) = loc_advance c (loc_at file s)"
  by (simp add: loc_at_def)

lemma loc_offset_at [simp]: "loc_offset (loc_at file s) = of_nat (length s)"
  by (induction s rule: rev_induct)
    (simp_all add: initial_loc_def loc_advance_def Let_def algebra_simps)

lemma loc_file_at [simp]: "loc_file (loc_at file s) = file"
  by (induction s rule: rev_induct) (simp_all add: initial_loc_def loc_advance_def Let_def)

lemma loc_line_at: "loc_line (loc_at file s) = 1 + of_nat (count_list s CHR 0x0A)"
  by (induction s rule: rev_induct)
    (simp_all add: initial_loc_def loc_advance_def Let_def algebra_simps)

lemma loc_column_at:
  "loc_column (loc_at file s) = 1 + of_nat (length (takeWhile (\<lambda>c. c \<noteq> CHR 0x0A) (rev s)))"
  by (induction s rule: rev_induct)
    (simp_all add: initial_loc_def loc_advance_def Let_def algebra_simps)

definition lx_wf :: "lexer \<Rightarrow> bool" where
  "lx_wf lx \<longleftrightarrow> lx_pos lx \<le> length (lx_src lx) \<and>
     lx_loc lx = loc_at (lx_file lx) (take (lx_pos lx) (lx_src lx))"

subsection \<open>What a scanner may change\<close>

text \<open>
  \<open>lx_le a b\<close>: the cursor moved forward from \<open>a\<close> to \<open>b\<close>, possibly with new diagnostics,
  and nothing else changed.
\<close>

definition lx_le :: "lexer \<Rightarrow> lexer \<Rightarrow> bool" where
  "lx_le a b \<longleftrightarrow> lx_file b = lx_file a \<and> lx_src b = lx_src a \<and> lx_indents b = lx_indents a \<and>
     lx_depth b = lx_depth a \<and> lx_line_start b = lx_line_start a \<and> lx_pos a \<le> lx_pos b \<and>
     diag_le (lx_diags a) (lx_diags b) \<and> (lx_wf a \<longrightarrow> lx_wf b)"

lemma lx_le_refl [simp, intro]: "lx_le a a"
  by (simp add: lx_le_def)

lemma lx_le_trans [trans]: "lx_le a b \<Longrightarrow> lx_le b c \<Longrightarrow> lx_le a c"
  by (auto simp: lx_le_def intro: diag_le_trans)

lemma lx_le_advance [simp, intro]: "lx_le a (lx_advance a)"
  by (auto simp: lx_le_def lx_advance_def lx_wf_def lx_eof_at_def lx_peek_at_def
      take_Suc_conv_app_nth)

lemma lx_le_advanceI [pos_mono]: "lx_le a b \<Longrightarrow> lx_le a (lx_advance b)"
  by (rule lx_le_trans [OF _ lx_le_advance])

lemma lx_le_while [simp, intro]: "lx_le a (lx_while P a)"
proof (induction P a rule: lx_while.induct)
  case (1 P lx)
  then show ?case
    by (subst lx_while.simps) (auto intro: lx_le_trans [OF lx_le_advance])
qed

lemma lx_le_whileI [pos_mono]: "lx_le a b \<Longrightarrow> lx_le a (lx_while P b)"
  by (rule lx_le_trans [OF _ lx_le_while])

lemma lx_le_errorI [pos_mono]: "lx_le a b \<Longrightarrow> lx_le a (lx_error l c m b)"
  by (auto simp: lx_le_def lx_error_def lx_wf_def intro: diag_le_trans)

lemma lx_advance_pos: "\<not> lx_eof lx \<Longrightarrow> lx_pos (lx_advance lx) = lx_pos lx + 1"
  by (simp add: lx_advance_def)

lemma lx_le_pos: "lx_le a b \<Longrightarrow> lx_pos a \<le> lx_pos b"
  by (simp add: lx_le_def)

lemma lx_le_eof: "lx_le a b \<Longrightarrow> lx_eof a \<Longrightarrow> lx_eof b"
  by (auto simp: lx_le_def lx_eof_at_def)

lemma lx_peek_not_eof: "lx_peek lx = c \<Longrightarrow> c \<noteq> CHR 0x00 \<Longrightarrow> \<not> lx_eof lx"
  by (auto simp: lx_peek_at_def split: if_splits)

lemma lx_le_match: "lx_match c lx = (b, l) \<Longrightarrow> lx_le a lx \<Longrightarrow> lx_le a l"
  by (auto simp: lx_match_def intro: pos_mono split: if_splits)

lemma lx_le_match_or: "match_or c x y lx = (b, l) \<Longrightarrow> lx_le a lx \<Longrightarrow> lx_le a l"
  by (auto simp: match_or_def dest: lx_le_match split: prod.splits bool.splits)

lemma lx_le_block_comment: "block_comment d lx = (d', l) \<Longrightarrow> lx_le lx l"
proof (induction d lx rule: block_comment.induct)
  case (1 depth lx)
  show ?case
    using "1.prems" "1.IH"
    by (subst (asm) block_comment.simps)
      (auto split: if_splits intro: lx_le_trans [OF lx_le_advance] lx_le_trans)
qed

lemma lx_le_skip_comment: "skip_comment lx = (b, l) \<Longrightarrow> lx_le lx l"
  by (auto simp: skip_comment_def Let_def intro!: pos_mono split: if_splits prod.splits
      dest!: lx_le_block_comment intro: lx_le_trans [OF lx_le_trans [OF lx_le_advance lx_le_advance]])

lemma skip_comment_progress:
  assumes "skip_comment lx = (True, l)"
  shows "lx_pos lx < lx_pos l"
proof -
  have ne: "\<not> lx_eof lx"
    using assms lx_peek_not_eof [of lx]
    by (auto simp: skip_comment_def at_line_comment_def split: if_splits)
  have "lx_le (lx_advance lx) l"
    using assms
    by (auto simp: skip_comment_def Let_def intro!: lx_le_whileI lx_le_errorI
        split: if_splits prod.splits dest!: lx_le_block_comment
        intro: lx_le_trans [OF lx_le_advance])
  from lx_le_pos [OF this] show ?thesis
    by (simp add: lx_advance_pos [OF ne])
qed

lemma lx_while_frame: "(lx_while P lx)\<lparr>lx_pos := p, lx_loc := l\<rparr> = lx\<lparr>lx_pos := p, lx_loc := l\<rparr>"
proof (induction P lx rule: lx_while.induct)
  case (1 P lx)
  then show ?case
    by (subst lx_while.simps) (auto simp: lx_advance_def)
qed

lemma skip_line_comment_frame:
  "at_line_comment lx \<Longrightarrow>
   (snd (skip_comment lx))\<lparr>lx_pos := p, lx_loc := l\<rparr> = lx\<lparr>lx_pos := p, lx_loc := l\<rparr>"
  by (simp add: skip_comment_def Let_def lx_while_frame) (simp add: lx_advance_def)

lemma consume_blank_restores:
  assumes "consume_blank_or_comment_line lx = (False, l)"
  shows "l = lx"
proof -
  define m where "m = (let m = lx_while is_horizontal lx in
    if at_line_comment m then snd (skip_comment m) else m)"
  have "m\<lparr>lx_pos := p, lx_loc := q\<rparr> = lx\<lparr>lx_pos := p, lx_loc := q\<rparr>" for p q
    by (simp add: m_def Let_def skip_line_comment_frame lx_while_frame)
  moreover have "l = m\<lparr>lx_pos := lx_pos lx, lx_loc := lx_loc lx\<rparr>"
    using assms
    by (auto simp: consume_blank_or_comment_line_def Let_def m_def split: if_splits)
  ultimately show ?thesis
    by simp
qed

lemma consume_blank_advances:
  assumes "consume_blank_or_comment_line lx = (True, l)" and ne: "\<not> lx_eof lx"
    and ls: "lx_line_start lx"
  shows "lx_le lx l \<and> lx_pos lx < lx_pos l"
proof -
  define m where "m = (let m = lx_while is_horizontal lx in
    if at_line_comment m then snd (skip_comment m) else m)"
  have m: "lx_le lx m"
    by (auto simp: m_def Let_def intro: lx_le_trans [OF lx_le_while]
        dest: lx_le_skip_comment split: prod.splits)
       (metis lx_le_skip_comment lx_le_trans lx_le_while prod.collapse)
  from assms(1) consider "lx_peek m = CHR 0x0A" "l = (lx_advance m)\<lparr>lx_line_start := True\<rparr>"
    | "lx_eof m" "l = m"
    by (auto simp: consume_blank_or_comment_line_def Let_def m_def split: if_splits)
  then show ?thesis
  proof cases
    case 1
    then have "lx_pos (lx_advance m) = lx_pos m + 1"
      by (intro lx_advance_pos lx_peek_not_eof) auto
    moreover have "lx_le lx (lx_advance m)"
      using m by (rule pos_mono)
    ultimately show ?thesis
      using 1 m ls by (auto simp: lx_le_def lx_wf_def)
  next
    case 2
    then show ?thesis
      using m ne by (auto simp: lx_le_def lx_eof_at_def)
  qed
qed


subsection \<open>Tokens and their place in the source\<close>

definition is_identifier :: "string \<Rightarrow> bool" where
  "is_identifier w \<longleftrightarrow> (case w of [] \<Rightarrow> False
     | c # cs \<Rightarrow> (char_isalpha c \<or> c = CHR ''_'') \<and> list_all is_word_char cs) \<and>
     w \<notin> {''and'', ''or'', ''not''}"

definition source_text :: "token_kind \<Rightarrow> bool" where
  "source_text k \<longleftrightarrow> (case k of TkIdentifier \<Rightarrow> True | TkInteger \<Rightarrow> True | TkFloat \<Rightarrow> True
     | TkKw _ \<Rightarrow> True | _ \<Rightarrow> False)"

definition word_class_ok :: "token \<Rightarrow> bool" where
  "word_class_ok t \<longleftrightarrow> (case tok_kind t of
     TkIdentifier \<Rightarrow> is_identifier (tok_text t) \<and> map_of keyword_table (tok_text t) = None
   | TkKw k \<Rightarrow> map_of keyword_table (tok_text t) = Some k
   | _ \<Rightarrow> True)"

text \<open>Token \<open>t\<close> covers the characters \<open>b\<close> to \<open>e\<close> of the source.\<close>

definition tok_at :: "string \<Rightarrow> string \<Rightarrow> nat \<Rightarrow> nat \<Rightarrow> token \<Rightarrow> bool" where
  "tok_at file src b e t \<longleftrightarrow> b \<le> e \<and> e \<le> length src \<and>
     tok_range t = \<lparr>range_begin = loc_at file (take b src), range_end = loc_at file (take e src)\<rparr> \<and>
     (source_text (tok_kind t) \<longrightarrow> tok_text t = take (e - b) (drop b src)) \<and> word_class_ok t"

lemma tok_at_make:
  assumes "lx_wf lx" "lx_le lx l" "word_class_ok (lx_make k (lx_pos lx) (lx_loc lx) text l)"
    "text = [] \<or> \<not> source_text k \<or>
     text = take (lx_pos l - lx_pos lx) (drop (lx_pos lx) (lx_src lx))"
  shows "tok_at (lx_file lx) (lx_src lx) (lx_pos lx) (lx_pos l)
    (lx_make k (lx_pos lx) (lx_loc lx) text l)"
  using assms by (auto simp: tok_at_def lx_make_def lx_le_def lx_wf_def)

lemma tok_at_layout:
  assumes "lx_wf lx" "lx_le lx l" "is_layout k \<or> k = TkEnd"
  shows "tok_at (lx_file lx) (lx_src lx) (lx_pos lx) (lx_pos l)
    (layout_token k text (lx_loc lx) (lx_loc l))"
  using assms
  by (auto simp: tok_at_def layout_token_def lx_le_def lx_wf_def source_text_def word_class_ok_def
      is_layout_def)

text \<open>The characters still to be read.\<close>

definition lx_rest :: "lexer \<Rightarrow> string" where
  "lx_rest lx = drop (lx_pos lx) (lx_src lx)"

lemma lx_rest_eof: "lx_eof lx \<longleftrightarrow> lx_rest lx = []"
  by (simp add: lx_rest_def lx_eof_at_def)

lemma nth_drop_case:
  "(case drop n xs of [] \<Rightarrow> d | c # _ \<Rightarrow> c) = (if n < length xs then xs ! n else d)"
  by (cases "n < length xs") (auto simp: Cons_nth_drop_Suc [symmetric])

lemma lx_rest_peek: "lx_peek lx = (case lx_rest lx of [] \<Rightarrow> CHR 0x00 | c # _ \<Rightarrow> c)"
  by (auto simp: lx_rest_def lx_peek_at_def lx_eof_at_def nth_drop_case)

lemma lx_rest_peek1: "lx_peek_at 1 lx = (case lx_rest lx of c # d # _ \<Rightarrow> d | _ \<Rightarrow> CHR 0x00)"
proof -
  have "lx_peek_at 1 lx = (case drop (Suc (lx_pos lx)) (lx_src lx) of [] \<Rightarrow> CHR 0x00 | c # _ \<Rightarrow> c)"
    by (auto simp: lx_peek_at_def lx_eof_at_def nth_drop_case)
  also have "drop (Suc (lx_pos lx)) (lx_src lx) = tl (lx_rest lx)"
    by (simp add: lx_rest_def drop_Suc tl_drop)
  finally show ?thesis
    by (auto split: list.splits)
qed

lemma lx_rest_advance: "lx_rest (lx_advance lx) = tl (lx_rest lx)"
  by (auto simp: lx_rest_def lx_advance_def lx_eof_at_def drop_Suc tl_drop)

lemma lx_rest_while: "lx_rest (lx_while P lx) = dropWhile P (lx_rest lx)"
proof (induction P lx rule: lx_while.induct)
  case (1 P lx)
  then show ?case
    by (subst lx_while.simps)
      (auto simp: lx_rest_advance lx_rest_eof lx_rest_peek split: list.splits)
qed

lemma lx_slice:
  assumes "lx_le a b" "lx_wf a"
  shows "take (lx_pos b - lx_pos a) (drop (lx_pos a) (lx_src a)) @ lx_rest b = lx_rest a"
proof -
  have "lx_pos a \<le> lx_pos b" and src: "lx_src b = lx_src a"
    using assms by (auto simp: lx_le_def)
  then have "lx_rest b = drop (lx_pos b - lx_pos a) (lx_rest a)"
    by (simp add: lx_rest_def)
  then show ?thesis
    by (metis append_take_drop_id lx_rest_def)
qed

lemma word_slice:
  assumes "lx_wf lx"
  shows "take (lx_pos (lx_while P (lx_advance lx)) - lx_pos lx) (drop (lx_pos lx) (lx_src lx)) =
    (case lx_rest lx of [] \<Rightarrow> [] | c # cs \<Rightarrow> c # takeWhile P cs)"
proof -
  let ?l = "lx_while P (lx_advance lx)"
  have "take (lx_pos ?l - lx_pos lx) (drop (lx_pos lx) (lx_src lx)) @ lx_rest ?l = lx_rest lx"
    using assms by (intro lx_slice lx_le_whileI lx_le_advance)
  also have "\<dots> = (case lx_rest lx of [] \<Rightarrow> [] | c # cs \<Rightarrow> c # takeWhile P cs) @ lx_rest ?l"
    by (simp add: lx_rest_while lx_rest_advance split: list.split)
  finally show ?thesis
    by simp
qed

lemma takeWhile_list_all: "list_all P (takeWhile P xs)"
  by (induction xs) auto

definition scanned :: "lexer \<Rightarrow> token \<Rightarrow> lexer \<Rightarrow> bool" where
  "scanned lx t l \<longleftrightarrow> lx_le lx l \<and> lx_pos lx < lx_pos l \<and>
     tok_at (lx_file lx) (lx_src lx) (lx_pos lx) (lx_pos l) t \<and>
     \<not> is_layout (tok_kind t) \<and> tok_kind t \<noteq> TkEnd"

lemma identifier_or_keyword_ok:
  assumes wf: "lx_wf lx" and c: "char_isalpha (lx_peek lx) \<or> lx_peek lx = CHR ''_''"
    and r: "identifier_or_keyword lx = (t, l)"
  shows "scanned lx t l"
proof -
  let ?l = "lx_while is_word_char (lx_advance lx)"
  let ?w = "take (lx_pos ?l - lx_pos lx) (drop (lx_pos lx) (lx_src lx))"
  have src: "lx_src ?l = lx_src lx" and le: "lx_le lx ?l" and l: "l = ?l"
    using r lx_le_whileI [OF lx_le_advance, of lx is_word_char]
    by (auto simp: identifier_or_keyword_def Let_def lx_le_def split: if_splits)
  have "\<not> char_isalpha CHR 0x00"
    by (simp add: char_isalpha_def)
  with c obtain d ds where rest: "lx_rest lx = d # ds" and d: "char_isalpha d \<or> d = CHR ''_''"
    by (cases "lx_rest lx") (auto simp: lx_rest_peek)
  then have w: "?w = d # takeWhile is_word_char ds"
    by (simp add: word_slice [OF wf])
  then have pos: "lx_pos lx < lx_pos ?l"
    by (metis list.distinct(1) not_less diff_is_0_eq take_0)
  have id: "is_identifier ?w" if "?w \<notin> {''and'', ''or'', ''not''}"
    using d that by (simp add: w is_identifier_def takeWhile_list_all)
  have "tok_at (lx_file lx) (lx_src lx) (lx_pos lx) (lx_pos l) t"
    using r id w pos
    by (auto simp: identifier_or_keyword_def Let_def l src split: if_splits
        intro!: tok_at_make [OF wf le])
       (auto simp: word_class_ok_def lx_make_def source_text_def split: option.splits)
  with le pos r show ?thesis
    by (auto simp: scanned_def l identifier_or_keyword_def Let_def lx_make_def is_layout_def
        split: if_splits option.splits)
qed


lemma digit_not_eof: "char_isdigit (lx_peek lx) \<Longrightarrow> \<not> lx_eof lx"
  by (auto simp: lx_peek_at_def char_isdigit_def split: if_splits)

lemma alpha_not_eof: "char_isalpha (lx_peek lx) \<or> lx_peek lx = CHR ''_'' \<Longrightarrow> \<not> lx_eof lx"
  by (auto simp: lx_peek_at_def char_isalpha_def split: if_splits)

lemma identifier_progress: "identifier_or_keyword lx = (t, l) \<Longrightarrow> lx_le (lx_advance lx) l"
  by (auto simp: identifier_or_keyword_def Let_def)

lemma number_progress:
  assumes c: "char_isdigit (lx_peek lx)" and r: "number lx = (t, l)"
  shows "lx_le (lx_advance lx) l"
proof -
  have w: "lx_while is_digit_char lx = lx_while is_digit_char (lx_advance lx)"
    using c digit_not_eof [OF c] by (subst lx_while.simps) (simp add: is_digit_char_def)
  show ?thesis
    using r unfolding number_def Let_def w
    by (auto split: if_splits prod.splits
        intro!: lx_le_whileI lx_le_advanceI lx_le_refl)
qed

lemma number_ok:
  assumes wf: "lx_wf lx" and c: "char_isdigit (lx_peek lx)" and r: "number lx = (t, l)"
  shows "scanned lx t l"
proof -
  note ne = digit_not_eof [OF c] and le = number_progress [OF c r]
  have pos: "lx_pos lx < lx_pos l" and le': "lx_le lx l"
    using lx_le_pos [OF le] lx_advance_pos [OF ne] lx_le_trans [OF lx_le_advance le] by auto
  have "\<exists>k. t = lx_make k (lx_pos lx) (lx_loc lx) [] l \<and> (k = TkInteger \<or> k = TkFloat)"
    using r by (auto simp: number_def Let_def split: if_splits prod.splits)
  then obtain k where t: "t = lx_make k (lx_pos lx) (lx_loc lx) [] l" and k: "k = TkInteger \<or> k = TkFloat"
    by blast
  have "word_class_ok t"
    using t k by (auto simp: word_class_ok_def lx_make_def)
  then show ?thesis
    using le' pos t k tok_at_make [OF wf le', of k "[]"]
    by (auto simp: scanned_def is_layout_def lx_make_def)
qed

lemma lx_le_string_body: "string_body v lx = (v', l) \<Longrightarrow> lx_le lx l"
proof (induction v lx rule: string_body.induct)
  case (1 val lx)
  show ?case
    using "1.prems" "1.IH"
    by (subst (asm) string_body.simps)
      (auto simp: Let_def split: if_splits
        intro: lx_le_trans [OF lx_le_advance] lx_le_trans [OF lx_le_trans [OF lx_le_advance lx_le_advance]])
qed

lemma string_progress:
  assumes "string_literal lx = (t, l)"
  shows "lx_le (lx_advance lx) l \<and> (\<exists>v. t = \<lparr>tok_kind = TkString, tok_text = v,
      tok_range = \<lparr>range_begin = lx_loc lx, range_end = lx_loc l\<rparr>\<rparr>)"
proof -
  obtain v m where m: "string_body [] (lx_advance lx) = (v, m)"
    by (cases "string_body [] (lx_advance lx)")
  obtain b n where n: "lx_match CHR 0x22 m = (b, n)"
    by (cases "lx_match CHR 0x22 m")
  show ?thesis
    using assms m n lx_le_match [OF n lx_le_string_body [OF m]]
    by (auto simp: string_literal_def Let_def split: if_splits intro: lx_le_errorI)
qed

lemma string_literal_ok:
  assumes wf: "lx_wf lx" and c: "lx_peek lx = CHR 0x22" and r: "string_literal lx = (t, l)"
  shows "scanned lx t l"
proof -
  have ne: "\<not> lx_eof lx"
    using c by (rule lx_peek_not_eof) simp
  obtain v where le: "lx_le (lx_advance lx) l" and t: "t = \<lparr>tok_kind = TkString, tok_text = v,
      tok_range = \<lparr>range_begin = lx_loc lx, range_end = lx_loc l\<rparr>\<rparr>"
    using string_progress [OF r] by auto
  have pos: "lx_pos lx < lx_pos l" and le': "lx_le lx l"
    using lx_le_pos [OF le] lx_advance_pos [OF ne] lx_le_trans [OF lx_le_advance le] by auto
  show ?thesis
    using le' pos wf t
    by (auto simp: scanned_def is_layout_def tok_at_def source_text_def word_class_ok_def
        lx_le_def lx_wf_def)
qed

lemma char_progress:
  assumes r: "char_literal lx = (t, l)"
  shows "lx_le (lx_advance lx) l"
proof -
  define m where "m = (if lx_eof (lx_advance lx) \<or> lx_peek (lx_advance lx) = CHR 0x27
    then lx_error (lx_loc lx) ''E0003'' ''empty character literal'' (lx_advance lx)
    else if lx_peek (lx_advance lx) = CHR 0x5C then lx_advance (lx_advance (lx_advance lx))
    else lx_advance (lx_advance lx))"
  have m: "lx_le (lx_advance lx) m"
    by (auto simp: m_def intro: lx_le_errorI lx_le_advanceI)
  obtain b n where n: "lx_match CHR 0x27 m = (b, n)"
    by (cases "lx_match CHR 0x27 m")
  have "l = (if b then n else lx_error (lx_loc lx) ''E0004'' ''unterminated character literal'' n)"
    using r n
    by (auto simp: char_literal_def Let_def m_def split: if_splits prod.splits)
  then show ?thesis
    using lx_le_match [OF n m] by (auto intro: lx_le_errorI)
qed

lemma char_literal_ok:
  assumes wf: "lx_wf lx" and c: "lx_peek lx = CHR 0x27" and r: "char_literal lx = (t, l)"
  shows "scanned lx t l"
proof -
  have ne: "\<not> lx_eof lx"
    using c by (rule lx_peek_not_eof) simp
  note le = char_progress [OF r]
  have pos: "lx_pos lx < lx_pos l" and le': "lx_le lx l"
    using lx_le_pos [OF le] lx_advance_pos [OF ne] lx_le_trans [OF lx_le_advance le] by auto
  obtain v where t: "t = lx_make TkChar (lx_pos lx) (lx_loc lx) v l"
    using r by (auto simp: char_literal_def Let_def split: prod.splits)
  have "word_class_ok t"
    using t by (auto simp: word_class_ok_def lx_make_def)
  then show ?thesis
    using le' pos t tok_at_make [OF wf le', of TkChar v]
    by (auto simp: scanned_def is_layout_def lx_make_def source_text_def)
qed


lemma lx_le_depth: "lx_le a (b\<lparr>lx_depth := d\<rparr>) \<longleftrightarrow>
  d = lx_depth a \<and> lx_le (a\<lparr>lx_depth := lx_depth b\<rparr>) b"
  by (auto simp: lx_le_def lx_wf_def)

lemma punct_amp_le: "punct_amp lx = (k, l) \<Longrightarrow> lx_le lx l"
  by (auto simp: punct_amp_def split: prod.splits bool.splits if_splits
      intro: lx_le_advanceI dest!: lx_le_match_or [OF _ lx_le_refl] lx_le_match [OF _ lx_le_refl]
      dest: lx_le_trans)

text \<open>A case of the switch moves the cursor or changes the delimiter depth by one.\<close>

definition punct_ok :: "lexer \<Rightarrow> 'a \<times> lexer \<Rightarrow> bool" where
  "punct_ok lx r \<longleftrightarrow> lx_le lx (snd r) \<or> snd r = open_delimiter lx \<or> snd r = close_delimiter lx"

lemma punct_ok_if: "punct_ok lx r \<Longrightarrow> punct_ok lx q \<Longrightarrow> punct_ok lx (if b then r else q)"
  by simp

lemma punct_ok_refl: "punct_ok lx (k, lx)"
  by (simp add: punct_ok_def)

lemma punct_ok_match_or: "punct_ok lx (match_or c x y lx)"
  by (cases "match_or c x y lx") (auto simp: punct_ok_def dest: lx_le_match_or)

lemma punct_ok_match:
  assumes "\<And>l. lx_le lx l \<Longrightarrow> lx_le lx (snd (f l))" "\<And>l. lx_le lx l \<Longrightarrow> lx_le lx (snd (g l))"
  shows "punct_ok lx (case lx_match c lx of (True, l) \<Rightarrow> f l | (False, l) \<Rightarrow> g l)"
  using assms lx_le_match [OF _ lx_le_refl]
  by (auto simp: punct_ok_def split: prod.split bool.split)

lemma snd_match_or: "lx_le a lx \<Longrightarrow> lx_le a (snd (match_or c x y lx))"
  by (cases "match_or c x y lx") (auto dest: lx_le_match_or)

lemma lex_punct_ok: "punct_ok lx (lex_punct c b lx)"
proof -
  have delim: "punct_ok lx (k, open_delimiter lx)" "punct_ok lx (k, close_delimiter lx)" for k :: "punct option"
    by (simp_all add: punct_ok_def)
  have err: "punct_ok lx (None :: punct option, lx_error b m n lx)" for m n
    by (auto simp: punct_ok_def intro: lx_le_errorI)
  have amp: "punct_ok lx (case punct_amp lx of (k, l) \<Rightarrow> (Some k, l))"
    by (auto simp: punct_ok_def split: prod.split dest: punct_amp_le)
  show ?thesis
    unfolding lex_punct_def
    by (intro punct_ok_if delim err amp punct_ok_refl punct_ok_match_or punct_ok_match)
      (auto intro: snd_match_or)
qed

lemma lex_punct_le:
  assumes "lex_punct c b lx = (k, l)"
  shows "lx_le lx (l\<lparr>lx_depth := lx_depth lx\<rparr>)"
  using lex_punct_ok [of lx c b] assms
  by (auto simp: punct_ok_def lx_le_def lx_wf_def open_delimiter_def close_delimiter_def)

lemma lex_punct_depth:
  assumes "lex_punct c b lx = (k, l)" "0 \<le> lx_depth lx"
  shows "0 \<le> lx_depth l"
  using lex_punct_ok [of lx c b] assms
  by (auto simp: punct_ok_def lx_le_def open_delimiter_def close_delimiter_def)

subsection \<open>The loop terminates\<close>

lemma lx_le_skip_horizontal [simp]: "lx_le lx (skip_horizontal_space lx)"
  by (simp add: skip_horizontal_space_def)

lemma lx_left_less: "lx_src b = lx_src a \<Longrightarrow> \<not> lx_eof a \<Longrightarrow> lx_pos a < lx_pos b \<Longrightarrow> lx_left b < lx_left a"
  by (simp add: lx_left_def lx_eof_at_def)

lemma lx_le_indent_width: "indent_width w lx = (w', l) \<Longrightarrow> lx_le lx l"
proof (induction w lx rule: indent_width.induct)
  case (1 width lx)
  show ?case
    using "1.prems" "1.IH"
    by (subst (asm) indent_width.simps)
      (auto split: if_splits intro: lx_le_trans [OF lx_le_advance] lx_le_trans
        lx_le_trans [OF lx_le_advanceI [OF lx_le_errorI [OF lx_le_refl]]])
qed


lemma lex_token_cases:
  assumes "lex_token out lx = (o', l)" and m: "m = lx\<lparr>lx_line_start := False\<rparr>"
  obtains (ident) t where "o' = out @ [t]" "char_isalpha (lx_peek m) \<or> lx_peek m = CHR ''_''"
      "identifier_or_keyword m = (t, l)"
    | (num) t where "o' = out @ [t]" "char_isdigit (lx_peek m)" "number m = (t, l)"
    | (str) t where "o' = out @ [t]" "lx_peek m = CHR 0x22" "string_literal m = (t, l)"
    | (chr) t where "o' = out @ [t]" "lx_peek m = CHR 0x27" "char_literal m = (t, l)"
    | (punct) k where "lex_punct (lx_peek m) (lx_loc m) (lx_advance m) = (Some k, l)"
      "o' = out @ [lx_make (TkOp k) (lx_pos m) (lx_loc m) [] l]"
    | (bad) "lex_punct (lx_peek m) (lx_loc m) (lx_advance m) = (None, l)" "o' = out"
proof -
  have push: "\<exists>t. o' = out @ [t] \<and> r = (t, l)" if "push out r = (o', l)" for r
    using that by (cases r) (auto simp: push_def)
  consider "char_isalpha (lx_peek m) \<or> lx_peek m = CHR ''_''" "push out (identifier_or_keyword m) = (o', l)"
    | "char_isdigit (lx_peek m)" "push out (number m) = (o', l)"
    | "lx_peek m = CHR 0x22" "push out (string_literal m) = (o', l)"
    | "lx_peek m = CHR 0x27" "push out (char_literal m) = (o', l)"
    | "(case lex_punct (lx_peek m) (lx_loc m) (lx_advance m) of (None, lx) \<Rightarrow> (out, lx)
        | (Some k, lx) \<Rightarrow> push out (lx_make (TkOp k) (lx_pos m) (lx_loc m) [] lx, lx)) = (o', l)"
    using assms(1) unfolding lex_token_def Let_def m [symmetric] by (auto split: if_splits)
  then show thesis
    by cases (use that push in \<open>auto simp: push_def split: prod.splits option.splits\<close>)
qed

lemma lx_leD: "lx_le a b \<Longrightarrow> lx_le a (b\<lparr>lx_depth := lx_depth a\<rparr>)"
  by (auto simp: lx_le_def lx_wf_def)

lemma lx_depth_advance [simp]: "lx_depth (lx_advance lx) = lx_depth lx"
  by (simp add: lx_advance_def)

lemma lex_token_le:
  assumes "lex_token out lx = (o', l)" and m: "m = lx\<lparr>lx_line_start := False\<rparr>"
  shows "lx_le (lx_advance m) (l\<lparr>lx_depth := lx_depth lx\<rparr>)"
proof -
  have d: "lx_depth lx = lx_depth (lx_advance m)"
    by (simp add: m)
  from assms show ?thesis
    by (cases rule: lex_token_cases; unfold d)
      (auto intro: lx_leD lex_punct_le identifier_progress number_progress string_progress [THEN conjunct1] char_progress
        simp del: lx_depth_advance)
qed

lemma lex_token_progress:
  assumes "lex_token out lx = (o', l)" "\<not> lx_eof lx"
  shows "lx_src l = lx_src lx \<and> lx_pos lx < lx_pos l \<and> \<not> lx_line_start l"
proof -
  define m where "m = lx\<lparr>lx_line_start := False\<rparr>"
  have ne: "\<not> lx_eof m"
    using assms by (simp add: m_def lx_eof_at_def)
  show ?thesis
    using lex_token_le [OF assms(1) m_def] lx_advance_pos [OF ne]
    by (auto simp: lx_le_def m_def lx_advance_def split: if_splits)
qed

lemma lex_body_progress:
  assumes "lex_body out lx = (False, o', l)"
  shows "lx_src l = lx_src lx \<and> lx_pos lx < lx_pos l"
proof -
  define h where "h = skip_horizontal_space lx"
  have h: "lx_src h = lx_src lx" "lx_pos lx \<le> lx_pos h"
    using lx_le_skip_horizontal [of lx] by (auto simp: h_def lx_le_def)
  obtain b n where n: "skip_comment h = (b, n)"
    by (cases "skip_comment h")
  have le: "lx_src n = lx_src h" "lx_pos h \<le> lx_pos n"
    using lx_le_skip_comment [OF n] by (auto simp: lx_le_def)
  show ?thesis
  proof (cases b)
    case True
    then show ?thesis
      using assms n skip_comment_progress [of h n] le h by (auto simp: lex_body_def h_def)
  next
    case False
    with assms n have ne: "\<not> lx_eof n"
      by (auto simp: lex_body_def h_def)
    show ?thesis
    proof (cases "lx_peek n = CHR 0x0A")
      case True
      then show ?thesis
        using assms n False ne le h
        by (auto simp: lex_body_def Let_def h_def lx_advance_def)
    next
      case nl: False
      then have "lex_token out n = (o', l)"
        using assms n False ne by (auto simp: lex_body_def h_def)
      from lex_token_progress [OF this ne] le h show ?thesis
        by auto
    qed
  qed
qed

text \<open>The three outcomes of \<open>emit_indentation\<close> at a line start outside delimiters.\<close>

definition indented :: "token list \<Rightarrow> lexer \<Rightarrow> token list \<Rightarrow> lexer \<Rightarrow> bool" where
  "indented out lx out' l \<longleftrightarrow> (\<exists>w n. indent_width 0 lx = (w, n) \<and> \<not> lx_line_start l \<and>
     lx_le n (l\<lparr>lx_indents := lx_indents n, lx_line_start := lx_line_start n\<rparr>) \<and>
     lx_pos l = lx_pos n \<and> lx_loc l = lx_loc n \<and>
     (if hd (lx_indents n) < w
      then out' = out @ [layout_token TkIndent [] (lx_loc lx) (lx_loc n)] \<and>
           lx_indents l = w # lx_indents n
      else (lx_indents l, out') = pop_indents w (layout_token TkDedent [] (lx_loc lx) (lx_loc n))
             (lx_indents n) out))"

lemma pop_indents_same: "w = hd s \<Longrightarrow> pop_indents w d s out = (s, out)"
  by (cases "(w, d, s, out)" rule: pop_indents.cases) auto

lemma emit_indentation_cases:
  assumes r: "emit_indentation out lx = (o', l)" and ls: "lx_line_start lx"
    and ne: "\<not> lx_eof lx"
  obtains (blank) "o' = out" "lx_le lx l" "lx_pos lx < lx_pos l" "lx_line_start l"
    | (code) "indented out lx o' l"
    | (none) "lx_depth lx \<noteq> 0" "o' = out" "l = lx"
proof (cases "lx_depth lx = 0")
  case False
  then show thesis
    using r by (intro none) (simp_all add: emit_indentation_def)
next
  case depth: True
  obtain b n where n: "consume_blank_or_comment_line lx = (b, n)"
    by (cases "consume_blank_or_comment_line lx")
  show thesis
  proof (cases b)
    case True
    with n have "consume_blank_or_comment_line lx = (True, n)"
      by simp
    then have "lx_le lx n \<and> lx_pos lx < lx_pos n"
      using consume_blank_advances ne ls by blast
    then show thesis
      using r n True depth ls ne by (intro blank) (auto simp: emit_indentation_def lx_le_def)
  next
    case False
    with n have "n = lx"
      using consume_blank_restores by simp
    obtain w m where m: "indent_width 0 lx = (w, m)"
      by (cases "indent_width 0 lx")
    have r': "(case (if hd (lx_indents m) < w then
          (out @ [layout_token TkIndent [] (lx_loc lx) (lx_loc m)],
           m\<lparr>lx_indents := w # lx_indents m\<rparr>)
        else if w < hd (lx_indents m) then
          (let (stack, out) = pop_indents w
                 (layout_token TkDedent [] (lx_loc lx) (lx_loc m)) (lx_indents m) out;
               lx' = m\<lparr>lx_indents := stack\<rparr>
           in (out, if w \<noteq> hd stack
                    then lx_error (lx_loc lx) ''E0007'' ''inconsistent indentation level'' lx'
                    else lx'))
        else (out, m)) of (out, l) \<Rightarrow> (out, l\<lparr>lx_line_start := False\<rparr>)) = (o', l)"
      using r n False depth ls ne m \<open>n = lx\<close> by (simp add: emit_indentation_def Let_def)
    have le: "lx_le m ((lx_error p c e (m\<lparr>lx_indents := s\<rparr>))\<lparr>lx_indents := lx_indents m,
        lx_line_start := lx_line_start m\<rparr>)" for p c e s
      by (auto simp: lx_le_def lx_error_def lx_wf_def)
    consider "hd (lx_indents m) < w" | "w < hd (lx_indents m)" | "w = hd (lx_indents m)"
      by linarith
    then have "indented out lx o' l"
    proof cases
      case 1
      then show ?thesis
        using r' m by (auto simp: indented_def)
    next
      case 2
      then show ?thesis
        using r' m le
        by (auto simp: indented_def lx_error_def Let_def split: if_splits prod.splits)
    next
      case 3
      then show ?thesis
        using r' m pop_indents_same [OF 3] by (auto simp: indented_def)
    qed
    then show thesis
      by (rule code)
  qed
qed


lemma indented_facts:
  assumes "indented out lx o' l"
  shows "lx_src l = lx_src lx \<and> lx_pos lx \<le> lx_pos l \<and> \<not> lx_line_start l"
proof -
  obtain w n where n: "indent_width 0 lx = (w, n)" and ls: "\<not> lx_line_start l"
    and le: "lx_le n (l\<lparr>lx_indents := lx_indents n, lx_line_start := lx_line_start n\<rparr>)"
    using assms by (auto simp: indented_def)
  show ?thesis
    using lx_le_indent_width [OF n] le ls by (simp add: lx_le_def)
qed

lemma lex_step_progress:
  assumes r: "lex_step out lx = (False, o', l)" and ne: "\<not> lx_eof lx"
  shows "lx_src l = lx_src lx \<and> lx_pos lx < lx_pos l"
proof (cases "lx_line_start lx \<and> lx_depth lx = 0")
  case False
  then show ?thesis
    using r lex_body_progress by (auto simp: lex_step_def)
next
  case True
  obtain o1 n where e: "emit_indentation out lx = (o1, n)"
    by (cases "emit_indentation out lx")
  have n: "lx_src n = lx_src lx \<and> lx_pos lx \<le> lx_pos n"
    using e True ne indented_facts by (cases rule: emit_indentation_cases [OF e]) (auto simp: lx_le_def)
  consider "(False, o1, n) = (False, o', l)" "lx_pos n \<noteq> lx_pos lx" | "lex_body o1 n = (False, o', l)"
    using r e True by (auto simp: lex_step_def split: if_splits)
  then show ?thesis
    using n by cases (auto dest: lex_body_progress)
qed

function lex_loop :: "token list \<Rightarrow> lexer \<Rightarrow> token list \<times> lexer" where
  "lex_loop out lx =
     (if lx_eof lx then (out, lx)
      else case lex_step out lx of
        (True, out, lx) \<Rightarrow> (out, lx)
      | (False, out, lx) \<Rightarrow> lex_loop out lx)"
  by pat_completeness auto
termination
proof (relation "measure (\<lambda>(out, lx). lx_left lx)")
  show "wf (measure (\<lambda>(out, lx). lx_left lx))"
    by simp
  fix out lx a y o' l
  assume ne: "\<not> lx_eof lx" and *: "(a, y) = lex_step out lx" "a = False" "(o', l) = y"
  have "lex_step out lx = (False, o', l)"
    using * by auto
  from lex_step_progress [OF this ne] lx_left_less [of l lx] ne
  show "((o', l), out, lx) \<in> measure (\<lambda>(out, lx). lx_left lx)"
    by simp
qed

declare lex_loop.simps [simp del]

definition lex :: "string \<Rightarrow> string \<Rightarrow> diagnostics \<Rightarrow> token list \<times> diagnostics" where
  "lex file src ds = (case lex_loop [] (new_lexer file src ds) of
     (out, lx) \<Rightarrow> (lex_finish out lx, lx_diags lx))"

end
