(* ===== verification/LexerLayout.thy ===== *)
theory LexerLayout
  imports Lexer
begin

text \<open>
  The token stream that \<open>Lexer::lex\<close> returns: the grammar of its layout tokens, the places of
  its tokens in the source, and the round trips from printed words and literals to tokens.
\<close>

subsection \<open>The grammar of layout tokens\<close>

text \<open>
  One step of the automaton that reads a token stream: the state holds whether the stream is at
  the start of a logical line and how many indented blocks are open.
\<close>

fun lay_step :: "token_kind \<Rightarrow> bool \<times> nat \<Rightarrow> (bool \<times> nat) option" where
  "lay_step TkNewline (b, d) = (if b then None else Some (True, d))"
| "lay_step TkIndent (b, d) = (if b then Some (True, Suc d) else None)"
| "lay_step TkDedent (b, d) = (if b \<and> 0 < d then Some (True, d - 1) else None)"
| "lay_step TkEnd _ = None"
| "lay_step _ (b, d) = Some (False, d)"

fun lay_run :: "token list \<Rightarrow> bool \<times> nat \<Rightarrow> (bool \<times> nat) option" where
  "lay_run [] s = Some s"
| "lay_run (t # ts) s = Option.bind (lay_step (tok_kind t) s) (lay_run ts)"

lemma lay_run_append: "lay_run (xs @ ys) s = Option.bind (lay_run xs s) (lay_run ys)"
  by (induction xs arbitrary: s) (auto split: bind_split)

lemma lay_step_plain: "\<not> is_layout k \<Longrightarrow> k \<noteq> TkEnd \<Longrightarrow> lay_step k (b, d) = Some (False, d)"
  by (cases k) (auto simp: is_layout_def)

lemma lay_run_state:
  "lay_run ts (b, d) = Some (b', d') \<Longrightarrow> ts \<noteq> [] \<Longrightarrow> b' = is_layout (tok_kind (last ts))"
proof (induction ts arbitrary: b d rule: rev_induct)
  case (snoc t ts)
  then obtain b1 d1 where "lay_step (tok_kind t) (b1, d1) = Some (b', d')"
    by (auto simp: lay_run_append bind_eq_Some_conv)
  then show ?case
    by (cases "tok_kind t") (auto simp: is_layout_def split: if_splits)
qed simp

lemma lay_run_dedents:
  "tok_kind t = TkDedent \<Longrightarrow> n \<le> d \<Longrightarrow> lay_run (replicate n t) (True, d) = Some (True, d - n)"
  by (induction n arbitrary: d) auto

subsection \<open>The indentation stack\<close>

definition indents_ok :: "nat list \<Rightarrow> bool" where
  "indents_ok s \<longleftrightarrow> s \<noteq> [] \<and> last s = 0 \<and> sorted_wrt (>) s"

lemma pop_indents_drop:
  "pop_indents w d s out = (s', out') \<Longrightarrow> s \<noteq> [] \<Longrightarrow>
   \<exists>n < length s. s' = drop n s \<and> out' = out @ replicate n d"
proof (induction w d s out rule: pop_indents.induct)
  case (1 width dedent i j stack out)
  show ?case
  proof (cases "width < i")
    case True
    with "1.prems" "1.IH" obtain n where "n < length (j # stack)" "s' = drop n (j # stack)"
      "out' = (out @ [dedent]) @ replicate n dedent"
      by auto
    then show ?thesis
      by (intro exI [of _ "Suc n"]) auto
  next
    case False
    with "1.prems" show ?thesis
      by (intro exI [of _ 0]) auto
  qed
qed auto

lemma indents_ok_drop: "indents_ok s \<Longrightarrow> n < length s \<Longrightarrow> indents_ok (drop n s)"
  by (auto simp: indents_ok_def sorted_wrt_drop)

lemma indents_ok_push: "indents_ok s \<Longrightarrow> hd s < w \<Longrightarrow> indents_ok (w # s)"
  by (cases s) (auto simp: indents_ok_def)

subsection \<open>Places of the tokens\<close>

text \<open>
  Every token of the list covers an interval of the source below \<open>n\<close>, and both ends of the
  intervals grow along the list.
\<close>

definition spans_ok :: "string \<Rightarrow> string \<Rightarrow> nat \<Rightarrow> token list \<Rightarrow> bool" where
  "spans_ok file src n ts \<longleftrightarrow> (\<exists>ps. list_all2 (\<lambda>(b, e) t. tok_at file src b e t) ps ts \<and>
     sorted (map fst ps) \<and> sorted (map snd ps) \<and> (\<forall>p \<in> set ps. snd p \<le> n))"

lemma spans_ok_Nil [simp]: "spans_ok file src n []"
  by (simp add: spans_ok_def)

lemma spans_ok_mono: "spans_ok file src n ts \<Longrightarrow> n \<le> m \<Longrightarrow> spans_ok file src m ts"
  unfolding spans_ok_def by (meson le_trans)

lemma spans_ok_snoc:
  assumes "spans_ok file src n ts" "tok_at file src b e t" "n \<le> b" "e \<le> m"
  shows "spans_ok file src m (ts @ replicate k t)"
proof -
  obtain ps where ps: "list_all2 (\<lambda>(b, e) t. tok_at file src b e t) ps ts"
    "sorted (map fst ps)" "sorted (map snd ps)" "\<forall>p \<in> set ps. snd p \<le> n"
    using assms(1) by (auto simp: spans_ok_def)
  have be: "b \<le> e"
    using assms(2) by (simp add: tok_at_def)
  have fst_le: "fst p \<le> snd p" if "p \<in> set ps" for p
    using ps(1) that by (auto simp: list_all2_conv_all_nth in_set_conv_nth tok_at_def split: prod.splits)
  have below: "fst p \<le> b \<and> snd p \<le> e \<and> snd p \<le> m" if "p \<in> set ps" for p
    using fst_le [OF that] ps(4) that assms(3,4) be by force
  have sorted_rep: "sorted (replicate k (x :: nat))" for x
    by (induction k) auto
  let ?ps = "ps @ replicate k (b, e)"
  have "list_all2 (\<lambda>(b, e) t. tok_at file src b e t) ?ps (ts @ replicate k t)"
    using ps(1) assms(2)
    by (intro list_all2_appendI) (simp_all add: list_all2_conv_all_nth)
  moreover have "sorted (map fst ?ps)" "sorted (map snd ?ps)"
    using ps below sorted_rep by (auto simp: sorted_append)
  moreover have "\<forall>p \<in> set ?ps. snd p \<le> m"
    using below assms(4) by auto
  ultimately show ?thesis
    unfolding spans_ok_def by blast
qed

lemma spans_ok_snoc1:
  "spans_ok file src n ts \<Longrightarrow> tok_at file src b e t \<Longrightarrow> n \<le> b \<Longrightarrow> e \<le> m \<Longrightarrow>
   spans_ok file src m (ts @ [t])"
  using spans_ok_snoc [where k = 1] by simp

subsection \<open>The loop invariant\<close>

definition lex_inv :: "string \<Rightarrow> string \<Rightarrow> token list \<Rightarrow> lexer \<Rightarrow> bool" where
  "lex_inv file src out lx \<longleftrightarrow> lx_file lx = file \<and> lx_src lx = src \<and> lx_wf lx \<and>
     0 \<le> lx_depth lx \<and> indents_ok (lx_indents lx) \<and> spans_ok file src (lx_pos lx) out \<and>
     lay_run out (True, 0) =
       Some (out = [] \<or> is_layout (tok_kind (last out)), length (lx_indents lx) - 1) \<and>
     (lx_line_start lx \<and> lx_depth lx = 0 \<longrightarrow> out = [] \<or> is_layout (tok_kind (last out)))"

lemma lex_inv_le: "lex_inv file src out lx \<Longrightarrow> lx_le lx l \<Longrightarrow> lex_inv file src out l"
  by (auto simp: lex_inv_def lx_le_def intro: spans_ok_mono)

lemma lex_inv_line: "lex_inv file src out lx \<Longrightarrow> lex_inv file src out (lx\<lparr>lx_line_start := False\<rparr>)"
  by (auto simp: lex_inv_def lx_wf_def)

lemma lex_inv_depth:
  "lex_inv file src out lx \<Longrightarrow> 0 \<le> d \<Longrightarrow> \<not> lx_line_start lx \<Longrightarrow> lex_inv file src out (lx\<lparr>lx_depth := d\<rparr>)"
  by (auto simp: lex_inv_def lx_wf_def)

text \<open>Appending a token that is neither a layout token nor the end marker.\<close>

lemma lex_inv_plain:
  assumes inv: "lex_inv file src out lx" and le: "lx_le lx l" and ls: "\<not> lx_line_start lx"
    and t: "tok_at file src (lx_pos lx) (lx_pos l) t" "\<not> is_layout (tok_kind t)" "tok_kind t \<noteq> TkEnd"
  shows "lex_inv file src (out @ [t]) l"
proof -
  have "spans_ok file src (lx_pos l) (out @ [t])"
    using inv t(1) by (auto simp: lex_inv_def intro: spans_ok_snoc1)
  then show ?thesis
    using lex_inv_le [OF inv le] ls le lay_step_plain [OF t(2,3)] t(2)
    by (auto simp: lex_inv_def lay_run_append lx_le_def)
qed

lemma lex_inv_token:
  assumes inv: "lex_inv file src out lx" and r: "lex_token out lx = (o', l)"
    and ne: "\<not> lx_eof lx"
  shows "lex_inv file src o' l"
proof -
  define m where "m = lx\<lparr>lx_line_start := False\<rparr>"
  have m: "lex_inv file src out m" and ls: "\<not> lx_line_start m"
    using lex_inv_line [OF inv] by (simp_all add: m_def)
  have wf: "lx_wf m" and f: "lx_file m = file" "lx_src m = src" and d: "0 \<le> lx_depth m"
    using m by (auto simp: lex_inv_def)
  have scan: ?thesis if "scanned m t l" "o' = out @ [t]" for t
    using lex_inv_plain [OF m _ ls] that f by (auto simp: scanned_def)
  have pl: "lx_le m (l\<lparr>lx_depth := lx_depth m\<rparr>)" "0 \<le> lx_depth l"
    if "lex_punct c b (lx_advance m) = (k, l)" for c b k
    using lex_punct_le [OF that] lex_punct_depth [OF that] d lx_le_trans [OF lx_le_advance] by auto
  have l: "l = (l\<lparr>lx_depth := lx_depth m\<rparr>)\<lparr>lx_depth := lx_depth l\<rparr>"
    by simp
  from r m_def show ?thesis
  proof (cases rule: lex_token_cases)
    case (ident t)
    then show ?thesis
      using scan identifier_or_keyword_ok [OF wf] by blast
  next
    case (num t)
    then show ?thesis
      using scan number_ok [OF wf] by blast
  next
    case (str t)
    then show ?thesis
      using scan string_literal_ok [OF wf] by blast
  next
    case (chr t)
    then show ?thesis
      using scan char_literal_ok [OF wf] by blast
  next
    case (punct k)
    let ?l = "l\<lparr>lx_depth := lx_depth m\<rparr>"
    let ?t = "lx_make (TkOp k) (lx_pos m) (lx_loc m) [] ?l"
    have t: "?t = lx_make (TkOp k) (lx_pos m) (lx_loc m) [] l"
      by (simp add: lx_make_def)
    have "tok_at file src (lx_pos m) (lx_pos ?l) ?t"
      using tok_at_make [OF wf pl(1) [OF punct(1)], of "TkOp k" "[]"] f
      by (simp add: lx_make_def word_class_ok_def)
    then have "lex_inv file src (out @ [?t]) ?l"
      using lex_inv_plain [OF m pl(1) [OF punct(1)] ls] by (simp add: lx_make_def is_layout_def)
    then show ?thesis
      using lex_inv_depth [where d = "lx_depth l" and lx = ?l and out = "out @ [?t]"] pl(2) [OF punct(1)] punct(2) t
        pl(1) [OF punct(1)] ls
      by (simp add: lx_le_def)
  next
    case bad
    have "lex_inv file src out (l\<lparr>lx_depth := lx_depth m\<rparr>)"
      using lex_inv_le [OF m pl(1) [OF bad(1)]] .
    then show ?thesis
      using lex_inv_depth [where d = "lx_depth l" and lx = "l\<lparr>lx_depth := lx_depth m\<rparr>" and out = out]
        pl [OF bad(1)] bad(2) ls
      by (simp add: lx_le_def)
  qed
qed


lemma lex_inv_body:
  assumes inv: "lex_inv file src out lx" and r: "lex_body out lx = (brk, o', l)"
  shows "lex_inv file src o' l"
proof -
  obtain b n where n: "skip_comment (skip_horizontal_space lx) = (b, n)"
    by (cases "skip_comment (skip_horizontal_space lx)")
  have i: "lex_inv file src out n"
    using lex_inv_le [OF inv lx_le_trans [OF lx_le_skip_horizontal lx_le_skip_comment [OF n]]] .
  consider "o' = out" "l = n" | "\<not> lx_eof n" "lex_token out n = (o', l)"
    | "lx_peek n = CHR 0x0A" "o' = emit_newline out (lx_loc n) (lx_advance n)"
      "l = (lx_advance n)\<lparr>lx_line_start := True\<rparr>"
  proof (cases "b \<or> lx_eof n")
    case True
    then show ?thesis
      using r n by (intro that(1)) (auto simp: lex_body_def split: bool.splits)
  next
    case False
    show ?thesis
    proof (cases "lx_peek n = CHR 0x0A")
      case True
      then show ?thesis
        using r n False by (intro that(3)) (auto simp: lex_body_def Let_def)
    next
      case nl: False
      then show ?thesis
        using r n False by (intro that(2)) (auto simp: lex_body_def)
    qed
  qed
  then show ?thesis
  proof cases
    case 1
    then show ?thesis
      using i by simp
  next
    case 2
    then show ?thesis
      using lex_inv_token [OF i] by simp
  next
    case 3
    have a: "lex_inv file src out (lx_advance n)"
      using lex_inv_le [OF i lx_le_advance] .
    let ?t = "layout_token TkNewline [CHR 0x0A] (lx_loc n) (lx_loc (lx_advance n))"
    have wf: "lx_wf n" and f: "lx_file n = file" "lx_src n = src"
      using i by (auto simp: lex_inv_def)
    have "tok_at file src (lx_pos n) (lx_pos (lx_advance n)) ?t"
      using tok_at_layout [OF wf lx_le_advance] f by (simp add: is_layout_def)
    moreover have "spans_ok file src (lx_pos n) out"
      using i by (simp add: lex_inv_def)
    ultimately have s: "spans_ok file src (lx_pos (lx_advance n)) (out @ [?t])"
      by (metis spans_ok_snoc1 le_refl)
    have k: "tok_kind ?t = TkNewline"
      by (simp add: layout_token_def)
    show ?thesis
      using a s k 3 by (auto simp: lex_inv_def lx_wf_def emit_newline_def lay_run_append is_layout_def)
  qed
qed

lemma lex_inv_indented:
  assumes inv: "lex_inv file src out lx" and r: "indented out lx o' l"
    and ls: "lx_line_start lx" "lx_depth lx = 0"
  shows "lex_inv file src o' l"
proof -
  obtain w n where n: "indent_width 0 lx = (w, n)" and nls: "\<not> lx_line_start l"
    and le: "lx_le n (l\<lparr>lx_indents := lx_indents n, lx_line_start := lx_line_start n\<rparr>)"
    and pos: "lx_pos l = lx_pos n" "lx_loc l = lx_loc n"
    and o': "if hd (lx_indents n) < w
      then o' = out @ [layout_token TkIndent [] (lx_loc lx) (lx_loc n)] \<and>
           lx_indents l = w # lx_indents n
      else (lx_indents l, o') = pop_indents w (layout_token TkDedent [] (lx_loc lx) (lx_loc n))
             (lx_indents n) out"
    using r unfolding indented_def by blast
  have len: "lx_le lx n"
    using lx_le_indent_width [OF n] .
  have inv_n: "lex_inv file src out n"
    using lex_inv_le [OF inv len] .
  have wf: "lx_wf lx" and f: "lx_file lx = file" "lx_src lx = src"
    and sp: "spans_ok file src (lx_pos lx) out"
    using inv by (auto simp: lex_inv_def)
  have ind: "indents_ok (lx_indents n)"
    and start: "out = [] \<or> is_layout (tok_kind (last out))"
    and run: "lay_run out (True, 0) = Some (True, length (lx_indents n) - 1)"
    using inv_n inv ls by (auto simp: lex_inv_def)
  have fl: "lx_file l = file" "lx_src l = src" "lx_depth l = 0" "lx_wf l"
    using le inv_n f len ls by (auto simp: lx_le_def lex_inv_def lx_wf_def)
  have "\<exists>k t. o' = out @ replicate k t \<and> (tok_kind t = TkIndent \<or> tok_kind t = TkDedent) \<and>
      tok_at file src (lx_pos lx) (lx_pos n) t \<and> indents_ok (lx_indents l) \<and>
      lay_run o' (True, 0) = Some (True, length (lx_indents l) - 1)"
  proof (cases "hd (lx_indents n) < w")
    case True
    let ?t = "layout_token TkIndent [] (lx_loc lx) (lx_loc n)"
    have "tok_at file src (lx_pos lx) (lx_pos n) ?t"
      using tok_at_layout [OF wf len] f by (simp add: is_layout_def)
    moreover have "o' = out @ replicate 1 ?t" "indents_ok (lx_indents l)"
      using True o' indents_ok_push [OF ind] by auto
    moreover have "lay_run o' (True, 0) = Some (True, length (lx_indents l) - 1)"
      using True o' ind run by (auto simp: lay_run_append layout_token_def indents_ok_def)
    ultimately show ?thesis
      by (intro exI [of _ 1] exI [of _ ?t]) (simp add: layout_token_def)
  next
    case False
    let ?t = "layout_token TkDedent [] (lx_loc lx) (lx_loc n)"
    have "lx_indents n \<noteq> []"
      using ind by (simp add: indents_ok_def)
    then obtain k where k: "k < length (lx_indents n)" "lx_indents l = drop k (lx_indents n)"
        "o' = out @ replicate k ?t"
      using pop_indents_drop [of w ?t "lx_indents n" out "lx_indents l" o'] o' False by auto
    have "tok_at file src (lx_pos lx) (lx_pos n) ?t"
      using tok_at_layout [OF wf len] f by (simp add: is_layout_def)
    moreover have "lay_run o' (True, 0) = Some (True, length (lx_indents l) - 1)"
    proof -
      have "k \<le> length (lx_indents n) - 1"
        using k(1) by simp
      then show ?thesis
        using run k lay_run_dedents [of ?t k "length (lx_indents n) - 1"]
        by (simp add: lay_run_append layout_token_def)
    qed
    ultimately show ?thesis
      using k indents_ok_drop [OF ind k(1)]
      by (intro exI [of _ k] exI [of _ ?t]) (simp add: layout_token_def)
  qed
  then obtain k t where kt: "o' = out @ replicate k t" "tok_kind t = TkIndent \<or> tok_kind t = TkDedent"
      "tok_at file src (lx_pos lx) (lx_pos n) t" "indents_ok (lx_indents l)"
      "lay_run o' (True, 0) = Some (True, length (lx_indents l) - 1)"
    by blast
  have "spans_ok file src (lx_pos l) o'"
    unfolding kt(1) by (rule spans_ok_snoc [OF sp kt(3)]) (simp_all add: pos)
  moreover have "o' = [] \<or> is_layout (tok_kind (last o'))"
    using lay_run_state [OF kt(5)] by auto
  ultimately show ?thesis
    using fl kt(4,5) nls by (auto simp: lex_inv_def)
qed

lemma lex_inv_step:
  assumes inv: "lex_inv file src out lx" and r: "lex_step out lx = (brk, o', l)"
    and ne: "\<not> lx_eof lx"
  shows "lex_inv file src o' l"
proof (cases "lx_line_start lx \<and> lx_depth lx = 0")
  case False
  then show ?thesis
    using r lex_inv_body [OF inv] by (auto simp: lex_step_def)
next
  case True
  obtain o1 n where e: "emit_indentation out lx = (o1, n)"
    by (cases "emit_indentation out lx")
  have n: "lex_inv file src o1 n"
    using e True ne inv
    by (cases rule: emit_indentation_cases [OF e]) (auto intro: lex_inv_le lex_inv_indented)
  consider "(o', l) = (o1, n)" | "lex_body o1 n = (brk, o', l)"
    using r e True by (auto simp: lex_step_def split: if_splits)
  then show ?thesis
    using n lex_inv_body [OF n] by cases auto
qed

lemma lex_inv_loop: "lex_inv file src out lx \<Longrightarrow> lex_loop out lx = (o', l) \<Longrightarrow> lex_inv file src o' l"
proof (induction out lx rule: lex_loop.induct)
  case (1 out lx)
  show ?case
  proof (cases "lx_eof lx")
    case True
    then show ?thesis
      using "1.prems" by (simp add: lex_loop.simps)
  next
    case False
    obtain brk o1 n where s: "lex_step out lx = (brk, o1, n)"
      by (cases "lex_step out lx")
    have i: "lex_inv file src o1 n"
      using lex_inv_step [OF "1.prems"(1) s False] .
    show ?thesis
    proof (cases brk)
      case True
      then show ?thesis
        using i s False "1.prems"(2) by (simp add: lex_loop.simps [of out lx])
    next
      case brk: False
      then have "lex_loop out lx = lex_loop o1 n"
        using s False by (simp add: lex_loop.simps [of out lx])
      then show ?thesis
        using "1.IH" [OF False s [symmetric] _ refl] brk i "1.prems"(2) by simp
    qed
  qed
qed

lemma lex_inv_new: "lex_inv file src [] (new_lexer file src ds)"
  by (simp add: lex_inv_def new_lexer_def lx_wf_def indents_ok_def)

text \<open>The stream that \<open>lex\<close> returns, before the end marker.\<close>

lemma lex_result:
  assumes "lex file src ds = (toks, ds')"
  obtains body e where "toks = body @ [e]" "tok_kind e = TkEnd"
    "lay_run body (True, 0) = Some (True, 0)" "spans_ok file src (length src) toks"
proof -
  obtain out lx where l: "lex_loop [] (new_lexer file src ds) = (out, lx)"
    by (cases "lex_loop [] (new_lexer file src ds)")
  have inv: "lex_inv file src out lx"
    using lex_inv_loop [OF lex_inv_new l] .
  have wf: "lx_wf lx" and f: "lx_file lx = file" "lx_src lx = src"
    using inv by (auto simp: lex_inv_def)
  let ?nl = "layout_token TkNewline [CHR 0x0A] (lx_loc lx) (lx_loc lx)"
  let ?dd = "layout_token TkDedent [] (lx_loc lx) (lx_loc lx)"
  let ?e = "layout_token TkEnd [] (lx_loc lx) (lx_loc lx)"
  let ?k = "length (lx_indents lx) - 1"
  define o1 where "o1 = (if out \<noteq> [] \<and> \<not> is_layout (tok_kind (last out)) then out @ [?nl] else out)"
  have at: "tok_at file src (lx_pos lx) (lx_pos lx) (layout_token k w (lx_loc lx) (lx_loc lx))"
    if "is_layout k \<or> k = TkEnd" for k w
    using tok_at_layout [OF wf lx_le_refl that] f by simp
  have o1: "spans_ok file src (lx_pos lx) o1" "lay_run o1 (True, 0) = Some (True, ?k)"
    using inv at [of TkNewline]
    by (auto simp: o1_def lex_inv_def lay_run_append layout_token_def is_layout_def
        intro: spans_ok_snoc1)
  have o2: "spans_ok file src (lx_pos lx) (o1 @ replicate ?k ?dd)"
    using o1(1) at [of TkDedent] by (intro spans_ok_snoc) (auto simp: is_layout_def)
  have o3: "spans_ok file src (length src) ((o1 @ replicate ?k ?dd) @ [?e])"
    using o2 at [of TkEnd] wf f by (intro spans_ok_snoc1) (auto simp: is_layout_def lx_wf_def)
  have "toks = (o1 @ replicate ?k ?dd) @ [?e]"
    using assms l by (simp add: lex_def lex_finish_def Let_def o1_def)
  moreover have "lay_run (o1 @ replicate ?k ?dd) (True, 0) = Some (True, 0)"
    using o1(2) lay_run_dedents [of ?dd ?k ?k] by (simp add: lay_run_append layout_token_def)
  ultimately show thesis
    using that [of "o1 @ replicate ?k ?dd" ?e] o3 by (simp add: layout_token_def)
qed

subsection \<open>Properties of the token stream\<close>

text \<open>C20: the token stream of every source, well formed or not, is a sequence of logical lines
  with balanced blocks followed by one end marker: a Newline never follows a layout token and
  ends every line, Indent and Dedent occur only at the start of a line, no Dedent closes a block
  that is not open, every block is closed, and End occurs at the end only.\<close>

theorem lex_layout:
  "lay_run (butlast (fst (lex file src ds))) (True, 0) = Some (True, 0) \<and>
   tok_kind (last (fst (lex file src ds))) = TkEnd"
proof -
  obtain toks ds' where l: "lex file src ds = (toks, ds')"
    by (cases "lex file src ds")
  from lex_result [OF l] show ?thesis
    by (metis butlast_snoc fst_conv l last_snoc)
qed






text \<open>An identifier token has the shape of an identifier and is no reserved word, and a
  keyword token is a spelling of its keyword in the table.\<close>

theorem lex_words:
  assumes "t \<in> set (fst (lex file src ds))"
  shows "(tok_kind t = TkIdentifier \<longrightarrow>
      is_identifier (tok_text t) \<and> map_of keyword_table (tok_text t) = None) \<and>
    (\<forall>k. tok_kind t = TkKw k \<longrightarrow> map_of keyword_table (tok_text t) = Some k)"
proof -
  obtain toks ds' where l: "lex file src ds = (toks, ds')"
    by (cases "lex file src ds")
  from lex_result [OF l] have "spans_ok file src (length src) toks"
    by metis
  then obtain b e where "tok_at file src b e t"
    using assms l by (auto simp: spans_ok_def list_all2_conv_all_nth in_set_conv_nth split: prod.splits)
      (metis prod.collapse)
  then have "word_class_ok t"
    by (simp add: tok_at_def)
  then show ?thesis
    by (auto simp: word_class_ok_def)
qed


theorem lex_words_witness:
  "tok_kind (hd (fst (lex ''f'' ''fn g'' no_diagnostics))) = TkKw KwFn \<and>
   map_of keyword_table (tok_text (hd (fst (lex ''f'' ''fn g'' no_diagnostics)))) = Some KwFn"
proof -
  have k: "tok_kind (hd (fst (lex ''f'' ''fn g'' no_diagnostics))) = TkKw KwFn"
    by code_simp
  have "hd (fst (lex ''f'' ''fn g'' no_diagnostics)) \<in> set (fst (lex ''f'' ''fn g'' no_diagnostics))"
    by code_simp
  from lex_words [OF this] k show ?thesis
    by simp
qed

end
