(* ===== verification/LexerRound.thy ===== *)
theory LexerRound
  imports LexerLayout
begin

text \<open>
  Round trips of the lexer: a line of printed words and decimal numbers, and a quoted string,
  are read back as the tokens that were printed, without a diagnostic.
\<close>

subsection \<open>What the scanners leave alone\<close>

lemma lx_diags_advance [simp]: "lx_diags (lx_advance lx) = lx_diags lx"
  by (simp add: lx_advance_def)

lemma lx_diags_while [simp]: "lx_diags (lx_while P lx) = lx_diags lx"
proof (induction P lx rule: lx_while.induct)
  case (1 P lx)
  then show ?case
    by (subst lx_while.simps) auto
qed

text \<open>\<open>lx_same a b\<close>: only the cursor moved.\<close>

definition lx_same :: "lexer \<Rightarrow> lexer \<Rightarrow> bool" where
  "lx_same a b \<longleftrightarrow> lx_le a b \<and> lx_diags b = lx_diags a"

lemma lx_same_refl [simp, intro]: "lx_same a a"
  by (simp add: lx_same_def)

lemma lx_same_trans [trans]: "lx_same a b \<Longrightarrow> lx_same b c \<Longrightarrow> lx_same a c"
  by (auto simp: lx_same_def intro: lx_le_trans)

lemma lx_same_advance [intro]: "lx_same a b \<Longrightarrow> lx_same a (lx_advance b)"
  by (auto simp: lx_same_def intro: lx_le_advanceI)

lemma lx_same_while [intro]: "lx_same a b \<Longrightarrow> lx_same a (lx_while P b)"
  by (auto simp: lx_same_def intro: lx_le_whileI)

lemma lx_same_wf: "lx_same a b \<Longrightarrow> lx_wf a \<Longrightarrow> lx_wf b"
  by (simp add: lx_same_def lx_le_def)

subsection \<open>Printed words\<close>

definition is_lexeme :: "string \<Rightarrow> bool" where
  "is_lexeme w \<longleftrightarrow> w \<noteq> [] \<and> (if char_isdigit (hd w) then list_all char_isdigit w
     else list_all is_word_char w)"

definition lexeme_token :: "string \<Rightarrow> token_kind \<times> string" where
  "lexeme_token w =
     (if char_isdigit (hd w) then (TkInteger, w)
      else if w = ''and'' then (TkOp OpAndAnd, ''&&'')
      else if w = ''or'' then (TkOp OpOrOr, ''||'')
      else if w = ''not'' then (TkOp OpBang, ''!'')
      else (case map_of keyword_table w of None \<Rightarrow> TkIdentifier | Some k \<Rightarrow> TkKw k, w))"

fun unwords :: "string list \<Rightarrow> string" where
  "unwords [] = []"
| "unwords [w] = w"
| "unwords (w # v # vs) = w @ CHR '' '' # unwords (v # vs)"

definition shown :: "token \<Rightarrow> token_kind \<times> string" where
  "shown t = (tok_kind t, tok_text t)"

lemma nat_to_string_lexeme: "is_lexeme (nat_to_string n)"
  using nat_to_string_digits [of _ n] hd_in_set [OF nat_to_string_nonempty]
  by (auto simp: is_lexeme_def list_all_iff)

lemma takeWhile_word:
  "list_all P w \<Longrightarrow> r = [] \<or> \<not> P (hd r) \<Longrightarrow> takeWhile P (w @ r) = w \<and> dropWhile P (w @ r) = r"
  by (induction w) (cases r; auto)+

lemma identifier_lexeme:
  assumes wf: "lx_wf lx" and rest: "lx_rest lx = w @ r" and w: "is_lexeme w" "\<not> char_isdigit (hd w)"
    and r: "r = [] \<or> hd r = CHR '' ''"
  shows "\<exists>t l. identifier_or_keyword lx = (t, l) \<and> shown t = lexeme_token w \<and> lx_rest l = r \<and>
    lx_same lx l"
proof -
  obtain c cs where c: "w = c # cs" and cs: "list_all is_word_char cs"
    using w by (cases w) (auto simp: is_lexeme_def)
  have sp: "\<not> is_word_char CHR '' ''"
    by (simp add: is_word_char_def char_isalnum_def char_isalpha_def char_isdigit_def)
  let ?l = "lx_while is_word_char (lx_advance lx)"
  have "takeWhile is_word_char (cs @ r) = cs" "dropWhile is_word_char (cs @ r) = r"
    using takeWhile_word [OF cs, of r] r sp by auto
  then have "take (lx_pos ?l - lx_pos lx) (drop (lx_pos lx) (lx_src lx)) = w" "lx_rest ?l = r"
    using word_slice [OF wf, of is_word_char] rest c by (auto simp: lx_rest_while lx_rest_advance)
  moreover have "lx_src ?l = lx_src lx" "lx_same lx ?l"
    using lx_le_whileI [OF lx_le_advance, of lx is_word_char] by (auto simp: lx_le_def lx_same_def)
  ultimately show ?thesis
    using w by (auto simp: identifier_or_keyword_def Let_def lexeme_token_def shown_def lx_make_def)
qed

lemma number_lexeme:
  assumes wf: "lx_wf lx" and rest: "lx_rest lx = w @ r" and w: "is_lexeme w" "char_isdigit (hd w)"
    and r: "r = [] \<or> hd r = CHR '' ''"
  shows "\<exists>t l. number lx = (t, l) \<and> shown t = lexeme_token w \<and> lx_rest l = r \<and> lx_same lx l"
proof -
  have w0: "w \<noteq> []" and digits: "list_all char_isdigit w"
    using w by (auto simp: is_lexeme_def)
  have "lx_peek_at 1 lx = CHR 0x00 \<or> lx_peek_at 1 lx = CHR '' '' \<or> char_isdigit (lx_peek_at 1 lx)"
    unfolding lx_rest_peek1 rest using digits r w0 by (cases w; cases "tl w"; cases r) auto
  then have nx: "lx_peek_at 1 lx \<notin> set ''xXbBoO''"
    by (auto simp: char_isdigit_def)
  let ?l = "lx_while is_digit_char lx"
  have "list_all is_digit_char w"
    using digits by (auto simp: list_all_iff is_digit_char_def)
  then have rl: "lx_rest ?l = r"
    using takeWhile_word [of is_digit_char w r] r
    by (auto simp: lx_rest_while rest is_digit_char_def char_isdigit_def)
  have nw: "lx_while is_word_char ?l = ?l"
    using r rl
    by (subst lx_while.simps; cases r)
      (auto simp: lx_rest_eof lx_rest_peek is_word_char_def char_isalnum_def char_isalpha_def
        char_isdigit_def)
  have pk: "lx_peek ?l \<noteq> CHR ''.''" "lx_peek ?l \<noteq> CHR ''e''" "lx_peek ?l \<noteq> CHR ''E''"
    using r rl by (cases r; auto simp: lx_rest_peek)+
  have "number lx = (lx_make TkInteger (lx_pos lx) (lx_loc lx) [] ?l, ?l)"
    using nx pk nw by (simp add: number_def Let_def)
  moreover have same: "lx_same lx ?l"
    by auto
  moreover have "take (lx_pos ?l - lx_pos lx) (drop (lx_pos lx) (lx_src lx)) @ r = w @ r"
    using lx_slice [OF _ wf, of ?l] same rl rest by (simp add: lx_same_def)
  moreover have "lx_src ?l = lx_src lx"
    using same by (simp add: lx_same_def lx_le_def)
  ultimately show ?thesis
    using w w0 rl by (auto simp: shown_def lx_make_def lexeme_token_def)
qed

lemma lexeme_token_step:
  assumes wf: "lx_wf lx" and rest: "lx_rest lx = w @ r" and w: "is_lexeme w"
    and r: "r = [] \<or> hd r = CHR '' ''" and ls: "\<not> lx_line_start lx"
  shows "\<exists>t l. lex_token out lx = (out @ [t], l) \<and> shown t = lexeme_token w \<and> lx_rest l = r \<and>
    lx_same lx l"
proof -
  have m: "lx\<lparr>lx_line_start := False\<rparr> = lx"
    using ls by simp
  have pk: "lx_peek lx = hd w"
    using w by (cases w) (auto simp: lx_rest_peek rest is_lexeme_def)
  show ?thesis
  proof (cases "char_isdigit (hd w)")
    case True
    then have "\<not> (char_isalpha (hd w) \<or> hd w = CHR ''_'')"
      by (auto simp: char_isdigit_def char_isalpha_def Let_def)
    with True pk number_lexeme [OF wf rest w True r] show ?thesis
      by (auto simp: lex_token_def Let_def m push_def)
  next
    case False
    then have "char_isalpha (hd w) \<or> hd w = CHR ''_''"
      using w by (cases w) (auto simp: is_lexeme_def is_word_char_def char_isalnum_def)
    with pk identifier_lexeme [OF wf rest w False r] show ?thesis
      by (auto simp: lex_token_def Let_def m push_def)
  qed
qed


subsection \<open>A line of words\<close>

text \<open>At a state inside a line: the rest of the iteration for one word, with the blank before it.\<close>

lemma lex_body_word:
  assumes wf: "lx_wf lx" and rest: "lx_rest lx = sp @ w @ r" and sp: "sp = [] \<or> sp = '' ''"
    and w: "is_lexeme w" and r: "r = [] \<or> hd r = CHR '' ''" and ls: "\<not> lx_line_start lx"
  shows "\<exists>t l. lex_body out lx = (False, out @ [t], l) \<and> shown t = lexeme_token w \<and>
    lx_rest l = r \<and> lx_same lx l"
proof -
  obtain c cs where c: "w = c # cs" "is_word_char c"
    using w by (cases w) (auto simp: is_lexeme_def is_word_char_def char_isalnum_def split: if_splits)
  have plain: "\<not> is_horizontal c" "c \<noteq> CHR ''#''" "c \<noteq> CHR ''/''" "c \<noteq> CHR 0x0A"
    using c(2)
    by (auto simp: is_horizontal_def is_word_char_def char_isalnum_def char_isalpha_def
        char_isdigit_def)
  define h where "h = skip_horizontal_space lx"
  have h: "lx_rest h = w @ r" "lx_same lx h"
    using sp plain(1) c rest
    by (auto simp: h_def skip_horizontal_space_def lx_rest_while is_horizontal_def)
  have pk: "lx_peek h = c"
    by (simp add: lx_rest_peek h c)
  have sc: "skip_comment h = (False, h)"
    using plain by (simp add: skip_comment_def at_line_comment_def pk)
  have hw: "lx_wf h" "\<not> lx_line_start h"
    using h(2) wf ls by (auto simp: lx_same_def lx_le_def)
  have "\<not> lx_eof h"
    by (simp add: lx_rest_eof h c)
  then have "lex_body out lx = (False, lex_token out h)"
    using sc plain pk by (simp add: lex_body_def h_def [symmetric])
  with lexeme_token_step [OF hw(1) h(1) w r hw(2), of out] h(2) show ?thesis
    by (auto intro: lx_same_trans)
qed

lemma lex_loop_words:
  assumes "lx_wf lx" "\<not> lx_line_start lx" "\<forall>w \<in> set ws. is_lexeme w"
    "lx_rest lx = (if ws = [] then [] else CHR '' '' # unwords ws)"
  shows "\<exists>ts l. lex_loop out lx = (out @ ts, l) \<and> map shown ts = map lexeme_token ws \<and> lx_same lx l"
  using assms
proof (induction ws arbitrary: out lx)
  case Nil
  then show ?case
    by (simp add: lex_loop.simps lx_rest_eof)
next
  case (Cons w ws)
  let ?r = "if ws = [] then [] else CHR '' '' # unwords ws"
  have rr: "?r = [] \<or> hd ?r = CHR '' ''"
    by simp
  have rest: "lx_rest lx = '' '' @ w @ ?r"
    using Cons.prems by (cases ws) auto
  obtain t l where l: "lex_body out lx = (False, out @ [t], l)" "shown t = lexeme_token w"
      "lx_rest l = ?r" "lx_same lx l"
    using lex_body_word [OF Cons.prems(1) rest _ _ rr Cons.prems(2), of out] Cons.prems(3) by auto
  have "\<not> lx_eof lx"
    by (simp add: lx_rest_eof rest)
  then have step: "lex_loop out lx = lex_loop (out @ [t]) l"
    using l(1) Cons.prems(2) by (subst lex_loop.simps) (simp add: lex_step_def)
  have "lx_wf l" "\<not> lx_line_start l"
    using l(4) Cons.prems by (auto simp: lx_same_def lx_le_def)
  with Cons.IH [of l "out @ [t]"] Cons.prems(3) l(3) obtain ts l' where
    "lex_loop (out @ [t]) l = ((out @ [t]) @ ts, l')" "map shown ts = map lexeme_token ws" "lx_same l l'"
    by auto
  then show ?case
    using step l(2,4) by (intro exI [of _ "t # ts"] exI [of _ l']) (auto intro: lx_same_trans)
qed

text \<open>The first character of a line outside every block is neither blank nor a comment.\<close>

lemma emit_indentation_flush:
  assumes rest: "lx_rest lx = c # cs" and c: "\<not> is_horizontal c" "c \<noteq> CHR ''#''" "c \<noteq> CHR ''/''"
    "c \<noteq> CHR 0x0A" and lx: "lx_line_start lx" "lx_depth lx = 0" "lx_indents lx = [0]"
  shows "emit_indentation out lx = (out, lx\<lparr>lx_line_start := False\<rparr>)"
proof -
  have pk: "lx_peek lx = c" and ne: "\<not> lx_eof lx"
    by (simp_all add: lx_rest_peek lx_rest_eof rest)
  have "lx_while is_horizontal lx = lx"
    using c pk by (subst lx_while.simps) simp
  then have "consume_blank_or_comment_line lx = (False, lx)"
    using c pk ne by (simp add: consume_blank_or_comment_line_def at_line_comment_def)
  moreover have "indent_width 0 lx = (0, lx)"
    using c pk by (subst indent_width.simps) (auto simp: is_horizontal_def)
  ultimately show ?thesis
    using lx ne by (simp add: emit_indentation_def)
qed

text \<open>C24: a line of identifiers, keywords and decimal numbers separated by blanks is read back
  as exactly those tokens, followed by Newline and End, without a diagnostic.\<close>

theorem lex_words_roundtrip:
  assumes ws: "ws \<noteq> []" "\<forall>w \<in> set ws. is_lexeme w"
  shows "map shown (fst (lex file (unwords ws) ds)) =
      map lexeme_token ws @ [(TkNewline, [CHR 0x0A]), (TkEnd, [])] \<and>
    snd (lex file (unwords ws) ds) = ds"
proof -
  obtain w vs where w: "ws = w # vs"
    using ws(1) by (cases ws) auto
  let ?lx = "new_lexer file (unwords ws) ds"
  let ?r = "if vs = [] then [] else CHR '' '' # unwords vs"
  have rr: "?r = [] \<or> hd ?r = CHR '' ''"
    by simp
  have rest: "lx_rest ?lx = w @ ?r"
    by (cases vs) (auto simp: w lx_rest_def new_lexer_def)
  have lw: "is_lexeme w"
    using ws w by simp
  obtain c cs where c: "w = c # cs" "is_word_char c"
    using lw by (cases w) (auto simp: is_lexeme_def is_word_char_def char_isalnum_def split: if_splits)
  have plain: "\<not> is_horizontal c" "c \<noteq> CHR ''#''" "c \<noteq> CHR ''/''" "c \<noteq> CHR 0x0A"
    using c(2)
    by (auto simp: is_horizontal_def is_word_char_def char_isalnum_def char_isalpha_def
        char_isdigit_def)
  define m where "m = ?lx\<lparr>lx_line_start := False\<rparr>"
  have em: "emit_indentation [] ?lx = ([], m)"
    unfolding m_def
    by (rule emit_indentation_flush [OF _ plain]) (use rest c in \<open>auto simp: new_lexer_def\<close>)
  have ne: "\<not> lx_eof ?lx" "\<not> lx_eof m"
    by (simp_all add: lx_rest_eof rest c) (use rest c in \<open>simp add: m_def lx_rest_def\<close>)
  have step: "lex_step [] ?lx = lex_body [] m"
    using em ne by (simp add: lex_step_def new_lexer_def m_def)
  have m: "lx_wf m" "\<not> lx_line_start m" "lx_rest m = [] @ w @ ?r"
    using rest by (simp_all add: m_def lx_wf_def new_lexer_def lx_rest_def)
  obtain t l where l: "lex_body [] m = (False, [t], l)" "shown t = lexeme_token w"
      "lx_rest l = ?r" "lx_same m l"
    using lex_body_word [OF m(1,3) _ lw rr m(2), of "[]"] by auto
  have "lx_wf l" "\<not> lx_line_start l"
    using l(4) m by (auto simp: lx_same_def lx_le_def)
  with lex_loop_words [of l vs "[t]"] ws(2) w l(3) obtain ts l' where
    l': "lex_loop [t] l = (t # ts, l')" "map shown ts = map lexeme_token vs" "lx_same l l'"
    by auto
  have loop: "lex_loop [] ?lx = (t # ts, l')"
    using ne step l(1) l'(1) by (subst lex_loop.simps) simp
  have same: "lx_same m l'"
    using l(4) l'(3) by (rule lx_same_trans)
  have ind: "lx_indents l' = [0]" and d: "lx_diags l' = ds"
    using same by (auto simp: lx_same_def lx_le_def m_def new_lexer_def)
  have kinds: "map shown (t # ts) = map lexeme_token ws"
    using l(2) l'(2) w by simp
  have "\<not> is_layout (tok_kind (last (t # ts)))"
  proof -
    have "shown (last (t # ts)) \<in> lexeme_token ` set ws"
      using kinds by (metis last_in_set list.distinct(1) list.set_map imageI)
    then show ?thesis
      by (auto simp: shown_def lexeme_token_def is_layout_def split: if_splits option.splits)
  qed
  then show ?thesis
    using loop ind d kinds
    by (simp add: lex_def lex_finish_def Let_def layout_token_def shown_def del: last.simps)
qed

theorem lex_words_roundtrip_witness:
  "map shown (fst (lex ''f'' ''let x1 0'' no_diagnostics)) =
     [(TkKw KwLet, ''let''), (TkIdentifier, ''x1''), (TkInteger, ''0''),
      (TkNewline, [CHR 0x0A]), (TkEnd, [])]"
  using lex_words_roundtrip [of "[''let'', ''x1'', ''0'']" "''f''" no_diagnostics]
  by (simp add: is_lexeme_def is_word_char_def char_isalnum_def char_isalpha_def char_isdigit_def
      lexeme_token_def keyword_table_def)


subsection \<open>Quoted strings\<close>

definition quote_char :: "char \<Rightarrow> string" where
  "quote_char c =
     (if c = CHR 0x0A then [CHR 0x5C, CHR ''n''] else if c = CHR 0x0D then [CHR 0x5C, CHR ''r'']
      else if c = CHR 0x09 then [CHR 0x5C, CHR ''t''] else if c = CHR 0x00 then [CHR 0x5C, CHR ''0'']
      else if c = CHR 0x22 \<or> c = CHR 0x5C then [CHR 0x5C, c] else [c])"

definition quote_string :: "string \<Rightarrow> string" where
  "quote_string s = CHR 0x22 # concat (map quote_char s) @ [CHR 0x22]"

lemma string_body_quoted:
  "lx_rest lx = concat (map quote_char s) @ CHR 0x22 # r \<Longrightarrow>
   \<exists>l. string_body v lx = (v @ s, l) \<and> lx_rest l = CHR 0x22 # r \<and> lx_same lx l"
proof (induction s arbitrary: v lx)
  case Nil
  then show ?case
    by (subst string_body.simps) (auto simp: lx_rest_peek)
next
  case (Cons c s)
  let ?q = "concat (map quote_char s) @ CHR 0x22 # r"
  show ?case
  proof (cases "quote_char c = [c]")
    case True
    then have c: "c \<noteq> CHR 0x22" "c \<noteq> CHR 0x5C"
      by (auto simp: quote_char_def split: if_splits)
    have rest: "lx_rest lx = c # ?q"
      using Cons.prems True by simp
    then have "string_body v lx = string_body (v @ [c]) (lx_advance lx)"
      using c by (subst string_body.simps) (simp add: lx_rest_eof lx_rest_peek)
    moreover have "lx_rest (lx_advance lx) = ?q"
      using rest by (simp add: lx_rest_advance)
    from Cons.IH [OF this, of "v @ [c]"] obtain l where
      "string_body (v @ [c]) (lx_advance lx) = (v @ c # s, l)" "lx_rest l = CHR 0x22 # r"
      "lx_same (lx_advance lx) l"
      by auto
    moreover from this have "lx_same lx l"
      using lx_same_trans lx_same_advance lx_same_refl by blast
    ultimately show ?thesis
      by auto
  next
    case False
    then obtain d where d: "quote_char c = [CHR 0x5C, d]" "string_escape d = c"
      by (auto simp: quote_char_def string_escape_def split: if_splits)
    have rest: "lx_rest lx = CHR 0x5C # d # ?q"
      using Cons.prems d by simp
    then have rest1: "lx_rest (lx_advance lx) = d # ?q"
      by (simp add: lx_rest_advance)
    have "string_body v lx = string_body (v @ [c]) (lx_advance (lx_advance lx))"
      using d rest rest1 by (subst string_body.simps) (simp add: lx_rest_eof lx_rest_peek Let_def)
    moreover have "lx_rest (lx_advance (lx_advance lx)) = ?q"
      using rest1 by (simp add: lx_rest_advance)
    from Cons.IH [OF this, of "v @ [c]"] obtain l where
      "string_body (v @ [c]) (lx_advance (lx_advance lx)) = (v @ c # s, l)"
      "lx_rest l = CHR 0x22 # r" "lx_same (lx_advance (lx_advance lx)) l"
      by auto
    moreover from this have "lx_same lx l"
      using lx_same_trans lx_same_advance lx_same_refl by blast
    ultimately show ?thesis
      by auto
  qed
qed

lemma string_literal_quoted:
  assumes "lx_rest lx = quote_string s @ r"
  shows "\<exists>t l. string_literal lx = (t, l) \<and> shown t = (TkString, s) \<and> lx_rest l = r \<and> lx_same lx l"
proof -
  have "lx_rest (lx_advance lx) = concat (map quote_char s) @ CHR 0x22 # r"
    using assms by (simp add: lx_rest_advance quote_string_def)
  from string_body_quoted [OF this, of "[]"] obtain l where
    l: "string_body [] (lx_advance lx) = (s, l)" "lx_rest l = CHR 0x22 # r" "lx_same (lx_advance lx) l"
    by auto
  then have "lx_match CHR 0x22 l = (True, lx_advance l)"
    by (simp add: lx_match_def lx_rest_peek)
  with l show ?thesis
    using lx_same_trans [OF lx_same_advance [OF lx_same_refl] l(3)]
    by (auto simp: string_literal_def shown_def lx_rest_advance)
qed

text \<open>C25: every string, control characters, quotes and backslashes included, survives quoting and
  lexing: the quoted string is read as one String token with that text, without a diagnostic.\<close>

theorem lex_string_roundtrip:
  "map shown (fst (lex file (quote_string s) ds)) =
      [(TkString, s), (TkNewline, [CHR 0x0A]), (TkEnd, [])] \<and>
   snd (lex file (quote_string s) ds) = ds"
proof -
  let ?lx = "new_lexer file (quote_string s) ds"
  define m where "m = ?lx\<lparr>lx_line_start := False\<rparr>"
  have rest: "lx_rest ?lx = quote_string s" "lx_rest m = quote_string s @ []"
    by (simp_all add: lx_rest_def new_lexer_def m_def)
  then have hd: "lx_peek m = CHR 0x22" and ne: "\<not> lx_eof ?lx" "\<not> lx_eof m"
    by (simp_all add: lx_rest_peek lx_rest_eof quote_string_def)
  have em: "emit_indentation [] ?lx = ([], m)"
    unfolding m_def
    by (rule emit_indentation_flush [where c = "CHR 0x22"])
      (use rest in \<open>auto simp: new_lexer_def quote_string_def is_horizontal_def\<close>)
  have step: "lex_step [] ?lx = lex_body [] m"
    using em ne by (simp add: lex_step_def new_lexer_def m_def)
  have "skip_horizontal_space m = m"
    using hd by (simp add: skip_horizontal_space_def) (subst lx_while.simps, simp add: is_horizontal_def)
  then have "lex_body [] m = (False, lex_token [] m)"
    using hd ne by (simp add: lex_body_def skip_comment_def at_line_comment_def)
  moreover obtain t l where l: "string_literal m = (t, l)" "shown t = (TkString, s)" "lx_rest l = []"
    "lx_same m l"
    using string_literal_quoted [OF rest(2)] by auto
  moreover have "m\<lparr>lx_line_start := False\<rparr> = m"
    by (simp add: m_def)
  ultimately have body: "lex_body [] m = (False, [t], l)"
    using hd by (simp add: lex_token_def push_def char_isalpha_def char_isdigit_def)
  have loop: "lex_loop [] ?lx = ([t], l)"
    using ne step body l(3) by (subst lex_loop.simps) (simp add: lex_loop.simps [of _ l] lx_rest_eof)
  have "lx_indents l = [0]" "lx_diags l = ds"
    using l(4) by (auto simp: lx_same_def lx_le_def m_def new_lexer_def)
  with loop l(2) show ?thesis
    by (auto simp: lex_def lex_finish_def Let_def layout_token_def shown_def is_layout_def)
qed

end
