(* ===== verification/Ast.thy ===== *)
theory Ast
  imports Diagnostics
begin

text \<open>
  The abstract syntax tree of include/uinx/ast.hpp. The code identifies a node by its address
  (the maps of the semantic model are keyed by \<open>const Expr*\<close>, \<open>const Stmt*\<close>, \<open>const Param*\<close>);
  here every node carries that identity as a number, its first argument, and its source range
  as the second. A \<open>unique_ptr\<close> the parser may leave empty is an option.
\<close>

datatype type_ref = TypeRef
  (tr_range: src_range)
  (tr_name: string)
  (tr_args: "type_ref list")
  (tr_prefixes: "string list")
  (tr_is_ref: bool)
  (tr_is_mut_ref: bool)
  (tr_is_raw_ptr: bool)
  (tr_raw_mut: bool)
  (tr_nullable: bool)

datatype asm_kind = AsmIn | AsmOut | AsmInOut | AsmClobber

datatype expr =
  IntegerExpr (expr_id: nat) (expr_range: src_range) string
| FloatExpr (expr_id: nat) (expr_range: src_range) string
| StringExpr (expr_id: nat) (expr_range: src_range) string
| CharExpr (expr_id: nat) (expr_range: src_range) string
| BoolExpr (expr_id: nat) (expr_range: src_range) bool
| NameExpr (expr_id: nat) (expr_range: src_range) string
| StructLiteralExpr (expr_id: nat) (expr_range: src_range) string "type_ref list"
    "field_init list"
| UnaryExpr (expr_id: nat) (expr_range: src_range) string expr
| BinaryExpr (expr_id: nat) (expr_range: src_range) string expr expr
| CallExpr (expr_id: nat) (expr_range: src_range) expr "type_ref list" "expr list"
| MemberExpr (expr_id: nat) (expr_range: src_range) expr string
| IndexExpr (expr_id: nat) (expr_range: src_range) expr expr
| BorrowExpr (expr_id: nat) (expr_range: src_range) expr bool
| AwaitExpr (expr_id: nat) (expr_range: src_range) expr
| CastExpr (expr_id: nat) (expr_range: src_range) expr type_ref
| AsmExpr (expr_id: nat) (expr_range: src_range) string "asm_operand list" bool
and field_init = FieldInit (fi_name: string) (fi_value: expr) (fi_range: src_range)
and asm_operand = AsmOperand (ao_kind: asm_kind) (ao_constraint: string)
    (ao_value: "expr option") (ao_out_name: string) (ao_range: src_range)

datatype stmt =
  LetStmt nat src_range string bool "type_ref option" "expr option"
| AssignStmt nat src_range expr string expr
| ExprStmt nat src_range expr
| ReturnStmt nat src_range "expr option"
| BlockStmt block
| IfStmt nat src_range expr block "block option"
| WhileStmt nat src_range expr block
| ForStmt nat src_range string expr expr bool block
| LoopStmt nat src_range block
| BreakStmt nat src_range
| ContinueStmt nat src_range
| FenceStmt nat src_range string bool
| UnsafeStmt nat src_range block
and block = Block (block_id: nat) (block_range: src_range) (block_stmts: "stmt list")

fun stmt_id :: "stmt \<Rightarrow> nat" where
  "stmt_id (LetStmt i _ _ _ _ _) = i"
| "stmt_id (AssignStmt i _ _ _ _) = i"
| "stmt_id (ExprStmt i _ _) = i"
| "stmt_id (ReturnStmt i _ _) = i"
| "stmt_id (BlockStmt b) = block_id b"
| "stmt_id (IfStmt i _ _ _ _) = i"
| "stmt_id (WhileStmt i _ _ _) = i"
| "stmt_id (ForStmt i _ _ _ _ _ _) = i"
| "stmt_id (LoopStmt i _ _) = i"
| "stmt_id (BreakStmt i _) = i"
| "stmt_id (ContinueStmt i _) = i"
| "stmt_id (FenceStmt i _ _ _) = i"
| "stmt_id (UnsafeStmt i _ _) = i"

fun stmt_range :: "stmt \<Rightarrow> src_range" where
  "stmt_range (LetStmt _ r _ _ _ _) = r"
| "stmt_range (AssignStmt _ r _ _ _) = r"
| "stmt_range (ExprStmt _ r _) = r"
| "stmt_range (ReturnStmt _ r _) = r"
| "stmt_range (BlockStmt b) = block_range b"
| "stmt_range (IfStmt _ r _ _ _) = r"
| "stmt_range (WhileStmt _ r _ _) = r"
| "stmt_range (ForStmt _ r _ _ _ _ _) = r"
| "stmt_range (LoopStmt _ r _) = r"
| "stmt_range (BreakStmt _ r) = r"
| "stmt_range (ContinueStmt _ r) = r"
| "stmt_range (FenceStmt _ r _ _) = r"
| "stmt_range (UnsafeStmt _ r _) = r"

record param =
  par_id :: nat
  par_name :: string
  par_type :: type_ref
  par_mut :: bool
  par_range :: src_range

record generic_param =
  gp_name :: string
  gp_bounds :: "string list"
  gp_range :: src_range

record function_decl =
  fd_id :: nat
  fd_range :: src_range
  fd_name :: string
  fd_generics :: "generic_param list"
  fd_params :: "param list"
  fd_return_type :: type_ref
  fd_body :: "block option"
  fd_is_pub :: bool
  fd_is_unsafe :: bool
  fd_is_async :: bool
  fd_is_extern :: bool
  fd_is_concurrent :: bool
  fd_abi :: string

record field_decl =
  fld_name :: string
  fld_type :: type_ref
  fld_is_pub :: bool
  fld_is_shared :: bool
  fld_range :: src_range

record struct_decl =
  sd_range :: src_range
  sd_name :: string
  sd_generics :: "generic_param list"
  sd_fields :: "field_decl list"
  sd_is_pub :: bool

record trait_method =
  tm_name :: string
  tm_params :: "param list"
  tm_return_type :: type_ref
  tm_is_unsafe :: bool
  tm_range :: src_range

record trait_decl =
  td_range :: src_range
  td_name :: string
  td_generics :: "generic_param list"
  td_methods :: "trait_method list"
  td_is_pub :: bool

record impl_decl =
  im_range :: src_range
  im_trait_name :: "string option"
  im_for_type :: type_ref
  im_methods :: "function_decl list"

datatype marker_kind = MarkerSend | MarkerSync

record marker_decl =
  mk_range :: src_range
  mk_kind :: marker_kind
  mk_type :: type_ref
  mk_generics :: "generic_param list"

datatype smp_mode = SmpAuto | SmpManual | SmpStrict

record global_decl =
  gd_range :: src_range
  gd_name :: string
  gd_type :: type_ref
  gd_init :: "expr option"
  gd_is_pub :: bool
  gd_is_mut :: bool
  gd_is_const :: bool
  gd_is_shared :: bool
  gd_is_percpu :: bool

datatype item =
  FunctionItem function_decl
| StructItem struct_decl
| TraitItem trait_decl
| ImplItem impl_decl
| GlobalItem global_decl
| MarkerItem marker_decl

record ast_module =
  am_file :: string
  am_no_std :: bool
  am_smp_mode :: smp_mode
  am_needs :: "string list"
  am_dontneeds :: "string list"
  am_items :: "item list"

lemma size_fi_value [termination_simp]: "size (fi_value f) < size f"
  by (cases f) simp

lemma size_ao_value [termination_simp]: "ao_value p = Some v \<Longrightarrow> size v < size p"
  by (cases p) simp

lemma size_field_value: "f \<in> set fs \<Longrightarrow> size (fi_value f) < size_list size fs"
proof (induction fs)
  case (Cons g gs)
  then show ?case
    using size_fi_value [of f] by auto
qed simp

lemma size_list_arg: "a \<in> set es \<Longrightarrow> size (a :: expr) < size_list size es"
  by (induction es) auto

lemma size_operand_value:
  "p \<in> set ps \<Longrightarrow> ao_value p = Some v \<Longrightarrow> size v < size_list size ps"
  by (induction ps) (auto dest: size_ao_value)

end
