(* ===== verification/Types.thy ===== *)
theory Types
  imports Ast
begin

text \<open>
  The type representation of include/uinx/types.hpp and src/types.cpp: kinds, types, their
  rendering, the classification predicates, conversion from the syntax, substitution of generic
  parameters and the coercion relation the checker uses.
\<close>

datatype type_kind =
  KError | KUnit | KNever | KBool
| KI8 | KI16 | KI32 | KI64 | KI128
| KU8 | KU16 | KU32 | KU64 | KU128
| KIsize | KUsize
| KF32 | KF64 | KChar | KStr | KNamed | KGeneric | KRef | KRawPtr

text \<open>The enumeration's underlying value: \<open>is_integer\<close> compares kinds by it.\<close>

fun kind_rank :: "type_kind \<Rightarrow> nat" where
  "kind_rank KError = 0" | "kind_rank KUnit = 1" | "kind_rank KNever = 2"
| "kind_rank KBool = 3" | "kind_rank KI8 = 4" | "kind_rank KI16 = 5"
| "kind_rank KI32 = 6" | "kind_rank KI64 = 7" | "kind_rank KI128 = 8"
| "kind_rank KU8 = 9" | "kind_rank KU16 = 10" | "kind_rank KU32 = 11"
| "kind_rank KU64 = 12" | "kind_rank KU128 = 13" | "kind_rank KIsize = 14"
| "kind_rank KUsize = 15" | "kind_rank KF32 = 16" | "kind_rank KF64 = 17"
| "kind_rank KChar = 18" | "kind_rank KStr = 19" | "kind_rank KNamed = 20"
| "kind_rank KGeneric = 21" | "kind_rank KRef = 22" | "kind_rank KRawPtr = 23"

lemma kind_rank_inject: "kind_rank k = kind_rank l \<Longrightarrow> k = l"
  by (cases k; cases l) simp_all

instantiation type_kind :: linorder
begin

definition less_eq_type_kind :: "type_kind \<Rightarrow> type_kind \<Rightarrow> bool" where
  "less_eq_type_kind k l \<longleftrightarrow> kind_rank k \<le> kind_rank l"

definition less_type_kind :: "type_kind \<Rightarrow> type_kind \<Rightarrow> bool" where
  "less_type_kind k l \<longleftrightarrow> kind_rank k < kind_rank l"

instance
  by standard
    (auto simp: less_eq_type_kind_def less_type_kind_def intro: kind_rank_inject)

end

datatype ty = Ty
  (ty_kind: type_kind)
  (ty_name: string)
  (ty_args: "ty list")
  (ty_pointee: "ty option")
  (ty_mut: bool)
  (ty_nullable: bool)

definition error_type :: ty where
  "error_type = Ty KError [] [] None False False"

definition builtin_kinds :: "(string \<times> type_kind) list" where
  "builtin_kinds =
    [(''unit'', KUnit), (''never'', KNever), (''bool'', KBool),
     (''i8'', KI8), (''i16'', KI16), (''i32'', KI32), (''i64'', KI64), (''i128'', KI128),
     (''u8'', KU8), (''u16'', KU16), (''u32'', KU32), (''u64'', KU64), (''u128'', KU128),
     (''isize'', KIsize), (''usize'', KUsize), (''f32'', KF32), (''f64'', KF64),
     (''char'', KChar), (''str'', KStr)]"

definition builtin_type :: "string \<Rightarrow> ty" where
  "builtin_type n =
     Ty (case map_of builtin_kinds n of None \<Rightarrow> KError | Some k \<Rightarrow> k) n [] None False False"

definition named_type :: "string \<Rightarrow> ty list \<Rightarrow> ty" where
  "named_type n as = Ty KNamed n as None False False"

definition generic_type :: "string \<Rightarrow> ty" where
  "generic_type n = Ty KGeneric n [] None False False"

definition ref_type :: "ty \<Rightarrow> bool \<Rightarrow> ty" where
  "ref_type to m = Ty KRef [] [] (Some to) m False"

definition raw_ptr_type :: "ty \<Rightarrow> bool \<Rightarrow> ty" where
  "raw_ptr_type to m = Ty KRawPtr [] [] (Some to) m False"

fun separate :: "string \<Rightarrow> string list \<Rightarrow> string" where
  "separate sep [] = []"
| "separate sep [x] = x"
| "separate sep (x # y # zs) = x @ sep @ separate sep (y # zs)"

fun type_str :: "ty \<Rightarrow> string" where
  "type_str (Ty k n as p m nl) =
     (if k = KRef then
        (if m then ''mutref '' else ''ref '') @
        (case p of Some q \<Rightarrow> type_str q | None \<Rightarrow> ''<error>'')
      else if k = KRawPtr then
        (if m then ''mutptr '' else ''ptr '') @
        (case p of Some q \<Rightarrow> type_str q | None \<Rightarrow> ''<error>'')
      else
        (if n = [] then ''<error>'' else n) @
        (if as = [] then [] else ''<'' @ separate '', '' (map type_str as) @ ''>'') @
        (if nl then ''?'' else []))"

definition is_integer :: "ty \<Rightarrow> bool" where
  "is_integer t \<longleftrightarrow> KI8 \<le> ty_kind t \<and> ty_kind t \<le> KUsize"

definition is_float :: "ty \<Rightarrow> bool" where
  "is_float t \<longleftrightarrow> ty_kind t = KF32 \<or> ty_kind t = KF64"

definition is_numeric :: "ty \<Rightarrow> bool" where
  "is_numeric t \<longleftrightarrow> is_integer t \<or> is_float t"

definition is_copy :: "ty \<Rightarrow> bool" where
  "is_copy t \<longleftrightarrow> ty_kind t = KBool \<or> is_numeric t \<or> ty_kind t = KChar \<or>
     (ty_kind t = KRef \<and> \<not> ty_mut t) \<or> ty_kind t = KRawPtr \<or> ty_kind t = KUnit"

definition is_error :: "ty \<Rightarrow> bool" where
  "is_error t \<longleftrightarrow> ty_kind t = KError"

definition is_unit :: "ty \<Rightarrow> bool" where
  "is_unit t \<longleftrightarrow> ty_kind t = KUnit"

text \<open>\<open>operator==\<close>, field by field as the code compares. It is the equality of the model.\<close>

fun type_eq :: "ty \<Rightarrow> ty \<Rightarrow> bool" and types_eq :: "ty list \<Rightarrow> ty list \<Rightarrow> bool" where
  "type_eq (Ty k n as p m nl) (Ty k' n' as' p' m' nl') =
     (if k \<noteq> k' \<or> n \<noteq> n' \<or> m \<noteq> m' \<or> nl \<noteq> nl' \<or> \<not> types_eq as as' then False
      else case (p, p') of
        (None, None) \<Rightarrow> True
      | (Some q, Some q') \<Rightarrow> type_eq q q'
      | _ \<Rightarrow> False)"
| "types_eq [] [] = True"
| "types_eq (t # ts) (u # us) = (type_eq t u \<and> types_eq ts us)"
| "types_eq _ _ = False"

lemma type_eq_iff: "type_eq t u \<longleftrightarrow> t = u"
  and types_eq_iff: "types_eq ts us \<longleftrightarrow> ts = us"
  by (induction t u and ts us rule: type_eq_types_eq.induct)
    (auto split: option.splits)

fun wrap_prefix :: "string \<Rightarrow> ty \<Rightarrow> ty" where
  "wrap_prefix p base =
     (if p = ''&'' then ref_type base False
      else if p = ''&mut'' then ref_type base True
      else if p = ''*const'' then raw_ptr_type base False
      else if p = ''*mut'' then raw_ptr_type base True
      else base)"

fun set_nullable :: "bool \<Rightarrow> ty \<Rightarrow> ty" where
  "set_nullable b (Ty k n as p m _) = Ty k n as p m b"

fun type_from_ast :: "type_ref \<Rightarrow> string set \<Rightarrow> ty" where
  "type_from_ast (TypeRef rng n as ps is_ref is_mut_ref is_raw raw_mut nl) gs =
     (let base = (if n \<in> gs then generic_type n
                  else if ty_kind (builtin_type n) = KError
                  then named_type n (map (\<lambda>a. type_from_ast a gs) as)
                  else builtin_type n);
          base = set_nullable nl base
      in if ps \<noteq> [] then fold wrap_prefix (rev ps) base
         else if is_ref then ref_type base is_mut_ref
         else if is_raw then raw_ptr_type base raw_mut
         else base)"

fun substitute_type :: "ty \<Rightarrow> (string \<rightharpoonup> ty) \<Rightarrow> ty" where
  "substitute_type (Ty k n as p m nl) s =
     (if k = KGeneric then (case s n of None \<Rightarrow> Ty k n as p m nl | Some t \<Rightarrow> t)
      else Ty k n (map (\<lambda>a. substitute_type a s) as)
             (map_option (\<lambda>q. substitute_type q s) p) m nl)"

fun can_coerce :: "ty \<Rightarrow> ty \<Rightarrow> bool" where
  "can_coerce (Ty fk fn fas fp fm fnl) (Ty tk tn tas tp tm tnl) =
     (if Ty fk fn fas fp fm fnl = Ty tk tn tas tp tm tnl \<or> fk = KError \<or> tk = KError then True
      else if fk = KRef \<and> tk = KRef \<and> fp \<noteq> None \<and> tp \<noteq> None then
        (case (fp, tp) of
           (Some p, Some q) \<Rightarrow>
             if fm \<and> \<not> tm then can_coerce p q else fm = tm \<and> can_coerce p q
         | _ \<Rightarrow> False)
      else if fk = KRawPtr \<and> tk = KRawPtr \<and> fp \<noteq> None \<and> tp \<noteq> None then
        (case (fp, tp) of
           (Some p, Some q) \<Rightarrow>
             if fm \<and> \<not> tm then can_coerce p q else fm = tm \<and> can_coerce p q
         | _ \<Rightarrow> False)
      else False)"

declare can_coerce.simps [simp del]

subsection \<open>Kinds\<close>

lemma is_integer_kinds:
  "is_integer t \<longleftrightarrow> ty_kind t \<in> {KI8, KI16, KI32, KI64, KI128, KU8, KU16, KU32, KU64, KU128,
     KIsize, KUsize}"
  by (cases "ty_kind t") (simp_all add: is_integer_def less_eq_type_kind_def)

lemma is_copy_kinds:
  "is_copy t \<longleftrightarrow> (case ty_kind t of
       KError \<Rightarrow> False | KNever \<Rightarrow> False | KStr \<Rightarrow> False | KNamed \<Rightarrow> False | KGeneric \<Rightarrow> False
     | KRef \<Rightarrow> \<not> ty_mut t | _ \<Rightarrow> True)"
  by (cases "ty_kind t") (simp_all add: is_copy_def is_numeric_def is_integer_kinds is_float_def)

lemma builtin_type_simps [simp]:
  "ty_name (builtin_type n) = n" "ty_args (builtin_type n) = []"
  "ty_pointee (builtin_type n) = None" "\<not> ty_mut (builtin_type n)"
  "\<not> ty_nullable (builtin_type n)"
  by (simp_all add: builtin_type_def)

lemma named_type_simps [simp]:
  "ty_kind (named_type n as) = KNamed" "ty_name (named_type n as) = n"
  "ty_args (named_type n as) = as" "ty_pointee (named_type n as) = None"
  by (simp_all add: named_type_def)

lemma ref_type_simps [simp]:
  "ty_kind (ref_type t m) = KRef" "ty_pointee (ref_type t m) = Some t" "ty_mut (ref_type t m) = m"
  "ref_type t m = ref_type u m' \<longleftrightarrow> t = u \<and> m = m'"
  by (simp_all add: ref_type_def)

subsection \<open>Substitution\<close>

fun generics_of :: "ty \<Rightarrow> string set" where
  "generics_of (Ty k n as p m nl) =
     (if k = KGeneric then {n}
      else \<Union> (generics_of ` set as) \<union> (case p of None \<Rightarrow> {} | Some q \<Rightarrow> generics_of q))"

lemma substitute_cong_generics:
  "(\<And>n. n \<in> generics_of t \<Longrightarrow> s n = s' n) \<Longrightarrow> substitute_type t s = substitute_type t s'"
proof (induction t)
  case (Ty k n as p m nl)
  then show ?case by (cases "k = KGeneric"; cases p) auto
qed

lemma substitute_empty [simp]: "substitute_type t Map.empty = t"
proof (induction t)
  case (Ty k n as p m nl)
  then show ?case by (cases p) (auto simp: map_idI)
qed

lemma substitute_ground: "generics_of t = {} \<Longrightarrow> substitute_type t s = t"
  using substitute_cong_generics [of t s Map.empty] by simp

definition compose_subst :: "(string \<rightharpoonup> ty) \<Rightarrow> (string \<rightharpoonup> ty) \<Rightarrow> (string \<rightharpoonup> ty)" where
  "compose_subst s s' = (\<lambda>n. case s n of None \<Rightarrow> s' n | Some t \<Rightarrow> Some (substitute_type t s'))"

lemma substitute_compose:
  "substitute_type (substitute_type t s) s' = substitute_type t (compose_subst s s')"
proof (induction t)
  case (Ty k n as p m nl)
  then show ?case by (cases p) (auto simp: compose_subst_def split: option.splits)
qed

lemma generics_of_substitute:
  "generics_of (substitute_type t s) =
     \<Union> ((\<lambda>n. case s n of None \<Rightarrow> {n} | Some u \<Rightarrow> generics_of u) ` generics_of t)"
proof (induction t)
  case (Ty k n as p m nl)
  then show ?case by (cases p) (auto split: option.splits)
qed

end
