(* ===== verification/SemModel.thy ===== *)
theory SemModel
  imports Types
begin

text \<open>
  The resolved program of include/uinx/hir.hpp and the semantic model of include/uinx/sema.hpp
  that the type checker fills and the later phases read. Tables the code iterates over are
  association lists, tables it only looks up are maps; maps keyed by an AST node are keyed by the
  identity of the node.
\<close>

type_synonym symbol_id = u32

datatype symbol_kind =
  SymFunction | SymStruct | SymTrait | SymGlobal | SymLocal | SymParameter | SymField | SymGeneric

record hir_symbol =
  sym_id :: symbol_id
  sym_kind :: symbol_kind
  sym_name :: string
  sym_range :: src_range
  sym_parent :: "symbol_id option"

record hir_module =
  hm_symbols :: "hir_symbol list"
  hm_globals :: "string \<rightharpoonup> symbol_id"
  hm_expr_resolution :: "nat \<rightharpoonup> symbol_id"
  hm_bindings :: "nat \<rightharpoonup> symbol_id"
  hm_assignment_bindings :: "nat \<rightharpoonup> symbol_id"
  hm_for_bindings :: "nat \<rightharpoonup> symbol_id"
  hm_params :: "nat \<rightharpoonup> symbol_id"

definition empty_hir :: hir_module where
  "empty_hir = \<lparr>hm_symbols = [], hm_globals = Map.empty, hm_expr_resolution = Map.empty,
     hm_bindings = Map.empty, hm_assignment_bindings = Map.empty, hm_for_bindings = Map.empty,
     hm_params = Map.empty\<rparr>"

type_synonym bounds = "(string \<times> string list) list"

record function_sig =
  fs_name :: string
  fs_generic_names :: "string list"
  fs_bounds :: bounds
  fs_params :: "ty list"
  fs_result :: ty
  fs_is_unsafe :: bool
  fs_is_async :: bool
  fs_is_extern :: bool
  fs_is_concurrent :: bool
  fs_abi :: string
  fs_decl :: "function_decl option"

record struct_info =
  si_name :: string
  si_generic_names :: "string list"
  si_bounds :: bounds
  si_fields :: "(string \<times> ty) list"
  si_shared_fields :: "string set"
  si_decl :: "struct_decl option"

record global_info =
  gi_name :: string
  gi_type :: ty
  gi_is_mut :: bool
  gi_is_const :: bool
  gi_is_shared :: bool
  gi_is_percpu :: bool
  gi_decl :: "global_decl option"

record trait_info =
  ti_name :: string
  ti_decl :: "trait_decl option"

record impl_info =
  ii_trait :: string
  ii_for_type :: ty
  ii_decl :: "impl_decl option"

record marker_info =
  mi_trait :: string
  mi_type :: ty
  mi_generic_names :: "string list"
  mi_bounds :: bounds
  mi_decl :: "marker_decl option"

record sem_model =
  sm_hir :: hir_module
  sm_functions :: "(string \<times> function_sig) list"
  sm_structs :: "(string \<times> struct_info) list"
  sm_globals :: "(string \<times> global_info) list"
  sm_traits :: "(string \<times> trait_info) list"
  sm_impls :: "impl_info list"
  sm_markers :: "marker_info list"
  sm_expr_types :: "nat \<rightharpoonup> ty"
  sm_binding_types :: "nat \<rightharpoonup> ty"
  sm_assignment_binding_types :: "nat \<rightharpoonup> ty"

definition empty_model :: sem_model where
  "empty_model = \<lparr>sm_hir = empty_hir, sm_functions = [], sm_structs = [], sm_globals = [],
     sm_traits = [], sm_impls = [], sm_markers = [], sm_expr_types = Map.empty,
     sm_binding_types = Map.empty, sm_assignment_binding_types = Map.empty\<rparr>"

text \<open>The substitution of a structure's parameters by the arguments of a use of it.\<close>

definition struct_subst :: "struct_info \<Rightarrow> ty \<Rightarrow> (string \<rightharpoonup> ty)" where
  "struct_subst si t = fold (\<lambda>(n, a) m. m(n \<mapsto> a)) (zip (si_generic_names si) (ty_args t)) Map.empty"

lemma struct_subst_Nil: "ty_args t = [] \<Longrightarrow> struct_subst si t = Map.empty"
  by (simp add: struct_subst_def)

end
