(* ===== verification/Traits.thy ===== *)
theory Traits
  imports SemModel
begin

text \<open>
  \<open>TraitSolver\<close> (src/sema_resolve.cpp): structural unification of marker patterns, the automatic
  Send and Sync derivation over the fields of a structure, and the resolution of explicit
  implementations and markers. The derivation follows instantiated field types and need not end
  (a structure whose field nests it at an ever larger type), so it carries fuel, and \<open>None\<close>
  is running out of it.
\<close>

fun unify_pattern :: "ty \<Rightarrow> ty \<Rightarrow> (string \<rightharpoonup> ty) \<Rightarrow> bool \<times> (string \<rightharpoonup> ty)"
and unify_patterns :: "ty list \<Rightarrow> ty list \<Rightarrow> (string \<rightharpoonup> ty) \<Rightarrow> bool \<times> (string \<rightharpoonup> ty)" where
  "unify_pattern (Ty k n as p m nl) actual s =
     (if k = KGeneric then
        (case s n of None \<Rightarrow> (True, s(n \<mapsto> actual)) | Some t \<Rightarrow> (type_eq t actual, s))
      else if k \<noteq> ty_kind actual \<or> n \<noteq> ty_name actual \<or> m \<noteq> ty_mut actual \<or>
              length as \<noteq> length (ty_args actual) then (False, s)
      else case (p, ty_pointee actual) of
          (None, None) \<Rightarrow> unify_patterns as (ty_args actual) s
        | (Some q, Some q') \<Rightarrow>
            (case unify_pattern q q' s of
              (False, s) \<Rightarrow> (False, s)
            | (True, s) \<Rightarrow> unify_patterns as (ty_args actual) s)
        | _ \<Rightarrow> (False, s))"
| "unify_patterns [] us s = (True, s)"
| "unify_patterns (t # ts) [] s = (True, s)"
| "unify_patterns (t # ts) (u # us) s =
     (case unify_pattern t u s of
       (False, s) \<Rightarrow> (False, s)
     | (True, s) \<Rightarrow> unify_patterns ts us s)"

definition trait_key :: "string \<Rightarrow> string \<Rightarrow> string" where
  "trait_key tr n = tr @ '':'' @ n"

definition assume_bounds :: "string \<Rightarrow> bounds \<Rightarrow> string set \<Rightarrow> string set" where
  "assume_bounds tr bs as =
     as \<union> set (map (\<lambda>(g, _). trait_key tr g) (filter (\<lambda>(_, bounds). tr \<in> set bounds) bs))"

text \<open>The lambda \<open>auto_trait\<close>; the last equations are its loop over the fields.\<close>

fun auto_trait :: "nat \<Rightarrow> sem_model \<Rightarrow> ty \<Rightarrow> string \<Rightarrow> string set \<Rightarrow> string set \<Rightarrow> bool option"
and auto_trait_fields ::
  "nat \<Rightarrow> sem_model \<Rightarrow> ty list \<Rightarrow> string \<Rightarrow> string set \<Rightarrow> string set \<Rightarrow> bool option" where
  "auto_trait 0 M t tr active assumptions = None"
| "auto_trait (Suc f) M t tr active assumptions =
     (let key = trait_key tr (type_str t) in
      if key \<in> active then Some True
      else let active = insert key active in
        if ty_kind t = KRawPtr then Some False
        else case (ty_kind t = KRef, ty_pointee t) of
          (True, Some q) \<Rightarrow>
            if tr = ''Send'' \<and> ty_mut t then auto_trait f M q ''Send'' active assumptions
            else auto_trait f M q ''Sync'' active assumptions
        | _ \<Rightarrow>
            if ty_kind t = KGeneric then Some (trait_key tr (ty_name t) \<in> assumptions)
            else if ty_kind t = KStr then Some True
            else if ty_kind t \<noteq> KNamed then Some (is_copy t)
            else (case map_of (sm_structs M) (ty_name t) of
                None \<Rightarrow> Some False
              | Some si \<Rightarrow>
                  auto_trait_fields f M
                    (map (\<lambda>(_, ft). substitute_type ft (struct_subst si t)) (si_fields si))
                    tr active (assume_bounds tr (si_bounds si) assumptions)))"
| "auto_trait_fields f M [] tr active assumptions = Some True"
| "auto_trait_fields 0 M (t # ts) tr active assumptions = None"
| "auto_trait_fields (Suc f) M (t # ts) tr active assumptions =
     (case auto_trait f M t tr active assumptions of
       None \<Rightarrow> None
     | Some False \<Rightarrow> Some False
     | Some True \<Rightarrow> auto_trait_fields f M ts tr active assumptions)"


definition assumed_bounds :: "bounds \<Rightarrow> string set" where
  "assumed_bounds gb = set (concat (map (\<lambda>(g, bounds). map (\<lambda>b. trait_key b g) bounds) gb))"

text \<open>
  The lambda \<open>solve\<close>, with \<open>r\<close> the levels left before the depth limit of 64, its loop over
  the markers, the loop over a marker's bounds and the loop over the bounds of one parameter. The
  automatic derivation inside it is that of the type and trait of the outermost query \<open>q\<close>, also
  when the bound of a marker is being solved.
\<close>

function (sequential) solve :: "nat \<Rightarrow> sem_model \<Rightarrow> bounds \<Rightarrow> ty \<times> string \<Rightarrow> nat \<Rightarrow> ty \<Rightarrow> string \<Rightarrow> bool option"
and solve_markers ::
  "nat \<Rightarrow> sem_model \<Rightarrow> bounds \<Rightarrow> ty \<times> string \<Rightarrow> nat \<Rightarrow> marker_info list \<Rightarrow> ty \<Rightarrow> string \<Rightarrow> bool option"
and solve_bounds ::
  "nat \<Rightarrow> sem_model \<Rightarrow> bounds \<Rightarrow> ty \<times> string \<Rightarrow> nat \<Rightarrow> bounds \<Rightarrow> (string \<rightharpoonup> ty) \<Rightarrow> bool option"
and solve_all :: "nat \<Rightarrow> sem_model \<Rightarrow> bounds \<Rightarrow> ty \<times> string \<Rightarrow> nat \<Rightarrow> string list \<Rightarrow> ty \<Rightarrow> bool option" where
  "solve f M gb q 0 t tr = Some False"
| "solve f M gb q (Suc r) t tr =
     (if list_ex (\<lambda>im. ii_trait im = tr \<and> type_eq (ii_for_type im) t) (sm_impls M) then Some True
      else case solve_markers f M gb q r (sm_markers M) t tr of
        None \<Rightarrow> None
      | Some True \<Rightarrow> Some True
      | Some False \<Rightarrow>
          if tr \<noteq> ''Send'' \<and> tr \<noteq> ''Sync'' then Some False
          else auto_trait f M (fst q) (snd q) {} (assumed_bounds gb))"
| "solve_markers f M gb q r [] t tr = Some False"
| "solve_markers f M gb q r (m # ms) t tr =
     (if mi_trait m \<noteq> tr then solve_markers f M gb q r ms t tr
      else case unify_pattern (mi_type m) t Map.empty of
        (False, _) \<Rightarrow> solve_markers f M gb q r ms t tr
      | (True, s) \<Rightarrow>
          (case solve_bounds f M gb q r (mi_bounds m) s of
            None \<Rightarrow> None
          | Some True \<Rightarrow> Some True
          | Some False \<Rightarrow> solve_markers f M gb q r ms t tr))"
| "solve_bounds f M gb q r [] s = Some True"
| "solve_bounds f M gb q r ((g, bounds) # bs) s =
     (case s g of
       None \<Rightarrow> Some False
     | Some actual \<Rightarrow>
         (case solve_all f M gb q r bounds actual of
           None \<Rightarrow> None
         | Some False \<Rightarrow> Some False
         | Some True \<Rightarrow> solve_bounds f M gb q r bs s))"
| "solve_all f M gb q r [] t = Some True"
| "solve_all f M gb q r (b # bs) t =
     (case solve f M gb q r t b of
       None \<Rightarrow> None
     | Some False \<Rightarrow> Some False
     | Some True \<Rightarrow> solve_all f M gb q r bs t)"
  by pat_completeness auto
termination
  by (relation "inv_image (less_than <*lex*> less_than <*lex*> less_than)
      (case_sum
        (case_sum (\<lambda>(f, M, gb, q, r, t, tr). (r, 0, 0)) (\<lambda>(f, M, gb, q, r, ms, t, tr). (r, 3, length ms)))
        (case_sum (\<lambda>(f, M, gb, q, r, bs, s). (r, 2, length bs)) (\<lambda>(f, M, gb, q, r, us, t). (r, 1, length us))))")
    auto

definition satisfies_bounds :: "nat \<Rightarrow> sem_model \<Rightarrow> ty \<Rightarrow> string \<Rightarrow> bounds \<Rightarrow> bool option" where
  "satisfies_bounds f M t tr gb =
     (if tr = ''Copy'' then Some (is_copy t)
      else if tr \<noteq> ''Send'' \<and> tr \<noteq> ''Sync'' then Some False
      else solve f M gb (t, tr) 65 t tr)"

definition satisfies :: "nat \<Rightarrow> sem_model \<Rightarrow> ty \<Rightarrow> string \<Rightarrow> bool option" where
  "satisfies f M t tr = satisfies_bounds f M t tr []"

subsection \<open>Fuel only decides whether there is an answer\<close>

lemma auto_trait_Suc:
  "(\<forall>t tr active as b. auto_trait f M t tr active as = Some b \<longrightarrow>
      auto_trait (Suc f) M t tr active as = Some b) \<and>
   (\<forall>ts tr active as b. auto_trait_fields f M ts tr active as = Some b \<longrightarrow>
      auto_trait_fields (Suc f) M ts tr active as = Some b)"
proof (induction f)
  case 0
  show ?case
    by (auto simp del: auto_trait.simps(2) auto_trait_fields.simps(3))
      (metis auto_trait_fields.simps(1,2) list.exhaust option.distinct(1))
next
  case (Suc f)
  note IH = Suc.IH [THEN conjunct1, rule_format] Suc.IH [THEN conjunct2, rule_format]
  have one: "auto_trait (Suc (Suc f)) M t tr active as = Some b"
    if "auto_trait (Suc f) M t tr active as = Some b" for t tr active as b
  proof -
    note eq = auto_trait.simps(2) [of _ M t tr active as, unfolded Let_def]
    note that' = that [unfolded eq [of f]]
    show ?thesis
      unfolding eq [of "Suc f"]
      using that'
      by (cases "trait_key tr (type_str t) \<in> active"; cases "ty_kind t = KRawPtr";
          cases "ty_kind t = KRef"; cases "ty_pointee t")
        (auto simp del: auto_trait.simps auto_trait_fields.simps intro: IH
          split: if_splits option.splits)
  qed
  have many: "auto_trait_fields (Suc (Suc f)) M ts tr active as = Some b"
    if "auto_trait_fields (Suc f) M ts tr active as = Some b" for ts tr active as b
  proof (cases ts)
    case Nil
    then show ?thesis
      using that by simp
  next
    case (Cons t us)
    then show ?thesis
      using that unfolding Cons auto_trait_fields.simps(3)
      by (cases "auto_trait f M t tr active as")
        (auto simp del: auto_trait.simps auto_trait_fields.simps simp: IH split: bool.splits)
  qed
  show ?case
    using one many by blast
qed

lemma auto_trait_mono:
  assumes "auto_trait f M t tr active as = Some b" "f \<le> g"
  shows "auto_trait g M t tr active as = Some b"
  using assms(2,1) by (induction rule: dec_induct) (use auto_trait_Suc in blast)+

lemma solve_mono:
  "f \<le> g \<Longrightarrow> solve f M gb q r t tr = Some b \<Longrightarrow> solve g M gb q r t tr = Some b"
  "f \<le> g \<Longrightarrow> solve_markers f M gb q r ms t tr = Some b \<Longrightarrow> solve_markers g M gb q r ms t tr = Some b"
  "f \<le> g \<Longrightarrow> solve_bounds f M gb q r bs s = Some b \<Longrightarrow> solve_bounds g M gb q r bs s = Some b"
  "f \<le> g \<Longrightarrow> solve_all f M gb q r us t = Some b \<Longrightarrow> solve_all g M gb q r us t = Some b"
proof (induction f M gb q r t tr and f M gb q r ms t tr and f M gb q r bs s and f M gb q r us t
    arbitrary: b and b and b and b rule: solve_solve_markers_solve_bounds_solve_all.induct)
  case (2 f M gb q r t tr)
  show ?case
    using "2.prems" "2.IH"
    by (cases "solve_markers f M gb q r (sm_markers M) t tr")
      (auto split: if_splits bool.splits intro: auto_trait_mono)
next
  case (4 f M gb q r m ms t tr)
  obtain ok s where u: "unify_pattern (mi_type m) t Map.empty = (ok, s)"
    by fastforce
  show ?case
  proof (cases "mi_trait m = tr \<and> ok")
    case False
    then show ?thesis
      using "4.prems" "4.IH" u by (cases "mi_trait m = tr"; cases ok) simp_all
  next
    case True
    then show ?thesis
      using "4.prems" "4.IH"(2-) u
      by (cases "solve_bounds f M gb q r (mi_bounds m) s") (auto split: bool.splits)
  qed
next
  case (6 f M gb q r g' bounds bs s)
  show ?case
    using "6.prems" "6.IH" by (auto split: option.splits bool.splits)
next
  case (8 f M gb q r b' bs t)
  show ?case
    using "8.prems" "8.IH" by (auto split: option.splits bool.splits)
qed auto

lemmas solve_max = solve_mono [OF max.cobounded1] solve_mono [OF max.cobounded2]
  auto_trait_mono [OF _ max.cobounded1] auto_trait_mono [OF _ max.cobounded2]

text \<open>
  A verdict of the trait solver does not depend on the fuel: once some amount of fuel gives a
  verdict, every larger amount gives the same one.
\<close>

theorem satisfies_fuel:
  assumes "satisfies_bounds f M t tr gb = Some b" "satisfies_bounds g M t tr gb = Some c"
  shows "b = c"
proof -
  have "solve (max f g) M gb (t, tr) 65 t tr = Some b" "solve (max f g) M gb (t, tr) 65 t tr = Some c"
    if "tr = ''Send'' \<or> tr = ''Sync''"
    using assms that by (auto simp: satisfies_bounds_def dest: solve_max)
  then show ?thesis
    using assms by (auto simp: satisfies_bounds_def split: if_splits)
qed

definition pointer_model :: sem_model where
  "pointer_model = empty_model\<lparr>sm_structs := [(''P'', \<lparr>si_name = ''P'', si_generic_names = [],
       si_bounds = [], si_fields = [(''p'', raw_ptr_type (builtin_type ''u8'') True)],
       si_shared_fields = {}, si_decl = None\<rparr>)]\<rparr>"

text \<open>An instance: a structure holding a raw pointer is not Send.\<close>

lemma satisfies_fuel_witness:
  "satisfies_bounds 9 pointer_model (named_type ''P'' []) ''Send'' [] \<noteq> Some True"
proof -
  have "satisfies_bounds 3 pointer_model (named_type ''P'' []) ''Send'' [] = Some False"
    by code_simp
  then show ?thesis
    using satisfies_fuel [of 3 pointer_model "named_type ''P'' []" "''Send''" "[]" False 9 True]
    by auto
qed

end
