(* ===== verification/TraitAnswers.thy ===== *)
theory TraitAnswers
  imports Traits
begin

text \<open>
  When the trait solver answers. The automatic derivation keeps the queries under way in a set
  and stops at a query it meets again, so it ends when only finitely many types can be reached
  from the query. Structures whose field types mention no type parameter reach only the parts of
  the query and of the field types. A structure that holds itself at a larger type reaches
  infinitely many, and the derivation never returns.
\<close>

subsection \<open>Programs on which the solver answers\<close>

fun parts :: "ty \<Rightarrow> ty set" where
  "parts (Ty k n as p m nl) = insert (Ty k n as p m nl)
     (\<Union> (parts ` set as) \<union> (case p of None \<Rightarrow> {} | Some q \<Rightarrow> parts q))"

lemma parts_self [simp]: "t \<in> parts t"
  by (cases t) simp

lemma finite_parts [simp]: "finite (parts t)"
proof (induction t)
  case (Ty k n as p m nl)
  then show ?case by (cases p) auto
qed

lemma parts_trans: "u \<in> parts t \<Longrightarrow> v \<in> parts u \<Longrightarrow> v \<in> parts t"
proof (induction t)
  case (Ty k n as p m nl)
  then show ?case by (cases p) auto
qed

lemma parts_pointee: "ty_pointee t = Some q \<Longrightarrow> q \<in> parts t"
  by (cases t) auto

definition field_types :: "sem_model \<Rightarrow> ty set" where
  "field_types M = {ft. \<exists>(n, si) \<in> set (sm_structs M). \<exists>(f, t) \<in> set (si_fields si). ft \<in> parts t}"

lemma finite_field_types [simp]: "finite (field_types M)"
proof -
  have "field_types M = (\<Union>(n, si) \<in> set (sm_structs M). \<Union>(f, t) \<in> set (si_fields si). parts t)"
    by (auto simp: field_types_def)
  then show ?thesis
    by auto
qed

definition monomorphic :: "sem_model \<Rightarrow> bool" where
  "monomorphic M \<longleftrightarrow>
     list_all (\<lambda>(n, si). list_all (\<lambda>(f, ft). generics_of ft = {}) (si_fields si)) (sm_structs M)"

lemma auto_trait_fields_answers:
  assumes "\<And>t. t \<in> set ts \<Longrightarrow> \<exists>f b. auto_trait f M t tr active as = Some b"
  shows "\<exists>f b. auto_trait_fields f M ts tr active as = Some b"
  using assms
proof (induction ts)
  case Nil
  then show ?case
    by auto
next
  case (Cons t ts)
  obtain f b where one: "auto_trait f M t tr active as = Some b"
    using Cons.prems [of t] by auto
  obtain g c where rest: "auto_trait_fields g M ts tr active as = Some c"
    using Cons by auto
  have fields_mono: "auto_trait_fields h M ts tr active as = Some c" if "g \<le> h" for h
    using that rest by (induction rule: dec_induct) (use auto_trait_Suc in blast)+
  have "auto_trait (max f g) M t tr active as = Some b" 
    using auto_trait_mono [OF one] by simp
  then have "auto_trait_fields (Suc (max f g)) M (t # ts) tr active as = Some (b \<and> c)"
    using fields_mono [of "max f g"] by (cases b) (simp_all del: auto_trait.simps)
  then show ?case
    by blast
qed

lemma auto_trait_answers:
  assumes "monomorphic M" "t \<in> U" "finite U" "field_types M \<subseteq> U" "\<And>t. t \<in> U \<Longrightarrow> parts t \<subseteq> U"
  shows "\<exists>f b. auto_trait f M t tr active as = Some b"
proof -
  define K where "K tr = (\<lambda>(tr', t). trait_key tr' (type_str t)) ` ({tr, ''Send'', ''Sync''} \<times> U)" for tr
  have fin: "finite (K tr)" for tr
    using assms(3) by (simp add: K_def)
  have "\<exists>f b. auto_trait f M t tr active as = Some b" if "t \<in> U" for t tr active as
    using that
  proof (induction "card (K tr - active)" arbitrary: t tr active as rule: less_induct)
    case less
    define key where "key = trait_key tr (type_str t)"
    show ?case
    proof (cases "key \<in> active")
      case True
      then have "auto_trait (Suc 0) M t tr active as = Some True"
        by (simp add: key_def)
      then show ?thesis
        by blast
    next
      case False
      have shrink: "card (K tr' - insert key active) < card (K tr - active)"
        if "tr' \<in> {tr, ''Send'', ''Sync''}" for tr'
      proof (rule psubset_card_mono)
        show "finite (K tr - active)"
          using fin by simp
        have "key \<in> K tr"
          using less.prems by (auto simp: K_def key_def)
        moreover have "K tr' \<subseteq> K tr"
          unfolding K_def using that by (intro image_mono Sigma_mono) auto
        ultimately show "K tr' - insert key active \<subset> K tr - active"
          using False by blast
      qed
      have deref: "\<exists>f b. auto_trait f M q tr' (insert key active) as' = Some b"
        if "q \<in> U" "tr' \<in> {tr, ''Send'', ''Sync''}" for q tr' as'
        using less.hyps [OF shrink [OF that(2)] that(1)] by blast
      have step: "auto_trait (Suc f) M t tr active as =
        (if ty_kind t = KRawPtr then Some False
        else case (ty_kind t = KRef, ty_pointee t) of
          (True, Some q) \<Rightarrow>
            if tr = ''Send'' \<and> ty_mut t then auto_trait f M q ''Send'' (insert key active) as
            else auto_trait f M q ''Sync'' (insert key active) as
        | _ \<Rightarrow>
            if ty_kind t = KGeneric then Some (trait_key tr (ty_name t) \<in> as)
            else if ty_kind t = KStr then Some True
            else if ty_kind t \<noteq> KNamed then Some (is_copy t)
            else (case map_of (sm_structs M) (ty_name t) of
                None \<Rightarrow> Some False
              | Some si \<Rightarrow>
                  auto_trait_fields f M
                    (map (\<lambda>(_, ft). substitute_type ft (struct_subst si t)) (si_fields si))
                    tr (insert key active) (assume_bounds tr (si_bounds si) as)))" for f
        unfolding auto_trait.simps(2) Let_def key_def [symmetric] by (rule if_not_P [OF False])
      show ?thesis
      proof (cases "ty_kind t = KRef \<and> (\<exists>q. ty_pointee t = Some q)")
        case True
        then obtain q where q: "ty_kind t = KRef" "ty_pointee t = Some q"
          by auto
        then have "q \<in> U"
          using less.prems assms(5) parts_pointee by blast
        then obtain f b g c where fb: "auto_trait f M q ''Send'' (insert key active) as = Some b"
            and gc: "auto_trait g M q ''Sync'' (insert key active) as = Some c"
          using deref [OF \<open>q \<in> U\<close>, of "''Send''" as] deref [OF \<open>q \<in> U\<close>, of "''Sync''" as]
          by auto
        have deref_step: "auto_trait (Suc h) M t tr active as =
            (if tr = ''Send'' \<and> ty_mut t then auto_trait h M q ''Send'' (insert key active) as
             else auto_trait h M q ''Sync'' (insert key active) as)" for h
          by (simp only: step q) simp
        have "\<exists>h b. auto_trait (Suc h) M t tr active as = Some b"
        proof (cases "tr = ''Send'' \<and> ty_mut t")
          case True
          then show ?thesis
            using fb unfolding deref_step by (simp only: if_True simp_thms) blast
        next
          case False
          then show ?thesis
            using gc unfolding deref_step by (simp only: if_False) blast
        qed
        then show ?thesis
          by blast
      next
        case not_ref: False
        show ?thesis
        proof (cases "ty_kind t = KNamed \<and> (\<exists>si. map_of (sm_structs M) (ty_name t) = Some si)")
          case True
          then obtain si where si: "ty_kind t = KNamed" "map_of (sm_structs M) (ty_name t) = Some si"
            by auto
          have mem: "(ty_name t, si) \<in> set (sm_structs M)"
            using si by (auto dest: map_of_SomeD)
          have "\<exists>f b. auto_trait f M u tr (insert key active) (assume_bounds tr (si_bounds si) as) = Some b"
            if u: "u \<in> set (map (\<lambda>(_, ft). substitute_type ft (struct_subst si t)) (si_fields si))" for u
          proof (rule deref)
            obtain n ft where ft: "(n, ft) \<in> set (si_fields si)" "u = substitute_type ft (struct_subst si t)"
              using u by auto
            then have "u = ft"
              using assms(1) mem by (force simp: monomorphic_def list_all_iff intro: substitute_ground)
            then have "u \<in> field_types M"
              using ft(1) mem by (force simp: field_types_def)
            then show "u \<in> U"
              using assms(4) by blast
          qed simp
          then obtain f b where "auto_trait_fields f M
              (map (\<lambda>(_, ft). substitute_type ft (struct_subst si t)) (si_fields si))
              tr (insert key active) (assume_bounds tr (si_bounds si) as) = Some b"
            using auto_trait_fields_answers by blast
          then have "\<exists>f b. auto_trait (Suc f) M t tr active as = Some b"
            using si unfolding step by auto
          then show ?thesis
            by blast
        next
          case False
          then have "\<exists>b. auto_trait (Suc 0) M t tr active as = Some b"
            using not_ref unfolding step by (auto split: option.splits bool.splits)
          then show ?thesis
            by blast
        qed
      qed
    qed
  qed
  then show ?thesis
    using assms(2) by blast
qed

lemma solve_answers:
  assumes answers: "\<And>t tr as. \<exists>f b. auto_trait f M t tr {} as = Some b"
  shows "\<exists>f b. solve f M gb q r t tr = Some b"
proof (induction r arbitrary: t tr)
  case 0
  then show ?case
    by auto
next
  case (Suc r)
  have all: "\<exists>f b. solve_all f M gb q r us t = Some b" for us t
  proof (induction us)
    case (Cons u us)
    obtain f b g c where "solve f M gb q r t u = Some b" "solve_all g M gb q r us t = Some c"
      using Suc.IH Cons.IH by blast
    then have "solve (max f g) M gb q r t u = Some b" "solve_all (max f g) M gb q r us t = Some c"
      by (auto dest: solve_max)
    then have "solve_all (max f g) M gb q r (u # us) t = Some (b \<and> c)"
      by (cases b) simp_all
    then show ?case
      by blast
  qed auto
  have bounds: "\<exists>f b. solve_bounds f M gb q r bs s = Some b" for bs s
  proof (induction bs)
    case (Cons x bs)
    obtain n us where x: "x = (n, us)"
      by fastforce
    show ?case
    proof (cases "s n")
      case None
      then show ?thesis
        by (auto simp: x)
    next
      case (Some t)
      obtain f b g c where "solve_all f M gb q r us t = Some b" "solve_bounds g M gb q r bs s = Some c"
        using all Cons.IH by blast
      then have "solve_all (max f g) M gb q r us t = Some b" "solve_bounds (max f g) M gb q r bs s = Some c"
        by (auto dest: solve_max)
      then have "solve_bounds (max f g) M gb q r (x # bs) s = Some (b \<and> c)"
        using Some by (cases b) (simp_all add: x)
      then show ?thesis
        by blast
    qed
  qed auto
  have markers: "\<exists>f b. solve_markers f M gb q r ms t tr = Some b" for ms
  proof (induction ms)
    case (Cons m ms)
    obtain ok s where u: "unify_pattern (mi_type m) t Map.empty = (ok, s)"
      by fastforce
    obtain f b g c where "solve_bounds f M gb q r (mi_bounds m) s = Some b"
        "solve_markers g M gb q r ms t tr = Some c"
      using bounds Cons.IH by blast
    then have "solve_bounds (max f g) M gb q r (mi_bounds m) s = Some b"
        "solve_markers (max f g) M gb q r ms t tr = Some c"
      by (auto dest: solve_max)
    then have "\<exists>d. solve_markers (max f g) M gb q r (m # ms) t tr = Some d"
      using u by (cases b) (auto split: bool.splits)
    then show ?case
      by blast
  qed auto
  obtain f b g c where "solve_markers f M gb q r (sm_markers M) t tr = Some b"
      "auto_trait g M (fst q) (snd q) {} (assumed_bounds gb) = Some c"
    using markers answers by blast
  then have "solve_markers (max f g) M gb q r (sm_markers M) t tr = Some b"
      "auto_trait (max f g) M (fst q) (snd q) {} (assumed_bounds gb) = Some c"
    by (auto dest: solve_max)
  then have "\<exists>d. solve (max f g) M gb q (Suc r) t tr = Some d"
    by (cases b) auto
  then show ?case
    by blast
qed

lemma monomorphic_answers:
  assumes "monomorphic M"
  shows "\<exists>f b. auto_trait f M t tr active as = Some b"
proof (rule auto_trait_answers [OF assms])
  show "t \<in> parts t \<union> field_types M" "finite (parts t \<union> field_types M)"
      "field_types M \<subseteq> parts t \<union> field_types M"
    by auto
  show "parts u \<subseteq> parts t \<union> field_types M" if "u \<in> parts t \<union> field_types M" for u
    using that parts_trans by (fastforce simp: field_types_def)
qed

text \<open>
  C29: in a program whose structures have no type parameters in their fields, the trait solver
  answers every query: the automatic derivation ends even on recursive structures.
\<close>

theorem satisfies_answers:
  assumes "monomorphic M"
  shows "\<exists>f b. satisfies_bounds f M t tr gb = Some b"
proof (cases "tr = ''Send'' \<or> tr = ''Sync''")
  case True
  then show ?thesis
    using solve_answers [OF monomorphic_answers [OF assms]] by (auto simp: satisfies_bounds_def)
qed (auto simp: satisfies_bounds_def)

text \<open>Witness of C29: two structures that refer to each other.\<close>

definition mutual_model :: sem_model where
  "mutual_model = empty_model\<lparr>sm_structs :=
     [(''A'', \<lparr>si_name = ''A'', si_generic_names = [], si_bounds = [],
         si_fields = [(''b'', ref_type (named_type ''B'' []) False)],
         si_shared_fields = {}, si_decl = None\<rparr>),
      (''B'', \<lparr>si_name = ''B'', si_generic_names = [], si_bounds = [],
         si_fields = [(''a'', ref_type (named_type ''A'' []) False)],
         si_shared_fields = {}, si_decl = None\<rparr>)]\<rparr>"

lemma satisfies_answers_witness:
  "\<exists>f b. satisfies_bounds f mutual_model (named_type ''A'' []) ''Send'' [] = Some b"
proof (rule satisfies_answers)
  show "monomorphic mutual_model"
    by code_simp
qed

subsection \<open>A program on which it does not\<close>

text \<open>A structure whose field is itself at a larger type.\<close>

definition nested_model :: sem_model where
  "nested_model = empty_model\<lparr>sm_structs :=
     [(''N'', \<lparr>si_name = ''N'', si_generic_names = [''T''], si_bounds = [],
         si_fields = [(''next'', ref_type (named_type ''N'' [ref_type (generic_type ''T'') False]) False)],
         si_shared_fields = {}, si_decl = None\<rparr>)]\<rparr>"

lemma nested_step:
  assumes "trait_key tr (type_str (named_type ''N'' [t])) \<notin> active"
  shows "auto_trait (Suc f) nested_model (named_type ''N'' [t]) tr active as =
    auto_trait_fields f nested_model [ref_type (named_type ''N'' [ref_type t False]) False] tr
      (insert (trait_key tr (type_str (named_type ''N'' [t]))) active) as"
  using assms
  by (simp add: Let_def)
    (simp add: nested_model_def empty_model_def struct_subst_def ref_type_def named_type_def
      generic_type_def assume_bounds_def)

lemma ref_step:
  assumes "trait_key tr (type_str (ref_type q False)) \<notin> active"
  shows "auto_trait (Suc f) M (ref_type q False) tr active as =
    auto_trait f M q ''Sync'' (insert (trait_key tr (type_str (ref_type q False))) active) as"
  using assms by (simp add: Let_def del: type_str.simps)

definition nested_keys :: "nat \<Rightarrow> string set" where
  "nested_keys n = {k. \<exists>tr u. tr \<in> {''Send'', ''Sync''} \<and> length (type_str u) < n \<and>
     (k = trait_key tr (type_str (named_type ''N'' [u])) \<or>
      k = trait_key tr (type_str (ref_type (named_type ''N'' [ref_type u False]) False)))}"

lemma nested_keysI:
  assumes "tr \<in> {''Send'', ''Sync''}" "length (type_str u) < n"
  shows "trait_key tr (type_str (named_type ''N'' [u])) \<in> nested_keys n"
    and "trait_key tr (type_str (ref_type (named_type ''N'' [ref_type u False]) False)) \<in> nested_keys n"
  unfolding nested_keys_def mem_Collect_eq
  by (rule exI [of _ tr], rule exI [of _ u], simp only: assms simp_thms)+

lemma nested_keys_mono: "n \<le> m \<Longrightarrow> nested_keys n \<subseteq> nested_keys m"
  by (force simp: nested_keys_def)

lemma nested_keys_next:
  assumes "active \<subseteq> nested_keys (length (type_str t))" "tr \<in> {''Send'', ''Sync''}"
  shows "insert (trait_key tr (type_str (ref_type (named_type ''N'' [ref_type t False]) False)))
      (insert (trait_key tr (type_str (named_type ''N'' [t]))) active)
    \<subseteq> nested_keys (length (type_str (ref_type t False)))"
proof -
  have "length (type_str t) < length (type_str (ref_type t False))"
    by (simp add: ref_type_def)
  then show ?thesis
    using assms nested_keysI(1,2) [of tr t "length (type_str (ref_type t False))"]
      nested_keys_mono [of "length (type_str t)" "length (type_str (ref_type t False))"]
    by (simp only: insert_subset) (meson less_imp_le subset_trans)
qed

lemma nested_keys_new:
  assumes "tr \<in> {''Send'', ''Sync''}"
  shows "trait_key tr (type_str (named_type ''N'' [t])) \<notin> nested_keys (length (type_str t))"
    and "trait_key tr (type_str (ref_type (named_type ''N'' [ref_type t False]) False))
      \<notin> nested_keys (length (type_str t))"
  using assms
  by (auto simp: nested_keys_def trait_key_def ref_type_def named_type_def)

lemma nested_never_answers:
  assumes "active \<subseteq> nested_keys (length (type_str t))" "tr \<in> {''Send'', ''Sync''}"
  shows "auto_trait f nested_model (named_type ''N'' [t]) tr active as = None"
  using assms
proof (induction f arbitrary: t tr active as rule: less_induct)
  case (less f)
  let ?next = "named_type ''N'' [ref_type t False]"
  let ?key = "trait_key tr (type_str (named_type ''N'' [t]))"
  let ?ref = "trait_key tr (type_str (ref_type ?next False))"
  have new: "?key \<notin> active"
    by (rule contra_subsetD [OF less.prems(1) nested_keys_new(1) [OF less.prems(2)]])
  have "?ref \<noteq> ?key"
    by (simp add: trait_key_def ref_type_def named_type_def)
  moreover have "?ref \<notin> active"
    by (rule contra_subsetD [OF less.prems(1) nested_keys_new(2) [OF less.prems(2)]])
  ultimately have new_ref: "?ref \<notin> insert ?key active"
    by (simp only: insert_iff simp_thms)
  have IH: "auto_trait h nested_model ?next ''Sync'' (insert ?ref (insert ?key active)) as = None"
    if "h < f" for h
    by (rule less.IH [OF that nested_keys_next [OF less.prems]]) simp
  show ?case
  proof (cases f)
    case (Suc g)
    have "auto_trait_fields g nested_model [ref_type ?next False] tr (insert ?key active) as = None"
    proof (cases g)
      case (Suc h)
      have "auto_trait h nested_model (ref_type ?next False) tr (insert ?key active) as = None"
      proof (cases h)
        case (Suc i)
        then show ?thesis
          using IH [of i] \<open>f = Suc g\<close> \<open>g = Suc h\<close> by (simp only: ref_step [OF new_ref])
      qed simp
      then show ?thesis
        using Suc by (simp del: auto_trait.simps)
    qed simp
    then show ?thesis
      by (simp only: Suc nested_step [OF new])
  qed simp
qed

text \<open>
  C32: the solver does not answer for a structure with one type parameter and one field that is
  a reference to the structure at a reference to the parameter, whatever the fuel: asking whether
  it is Send makes the compiler recurse without bound.
\<close>

theorem satisfies_diverges:
  "satisfies_bounds f nested_model (named_type ''N'' [t]) ''Send'' [] = None"
proof -
  have "auto_trait f nested_model (named_type ''N'' [t]) ''Send'' {} {} = None"
    by (rule nested_never_answers) auto
  then show ?thesis
    by (simp add: satisfies_bounds_def eval_nat_numeral assumed_bounds_def nested_model_def
        empty_model_def)
qed

subsection \<open>The bounds of a marker\<close>



end
