(* ===== verification/Places.thy ===== *)
theory Places
  imports Traits
begin

text \<open>
  Places of the borrow checker (src/borrow_internal.hpp, src/borrow_places.cpp): the dotted
  strings \<open>root.field.[*]\<close>, their conflict relation, and the keys of local symbols. A place whose
  text begins with \<open><external:\<close> stands for memory outside the function.
\<close>

definition root_of :: "string \<Rightarrow> string" where
  "root_of place = takeWhile (\<lambda>c. c \<noteq> CHR ''.'') place"

definition is_strict_child :: "string \<Rightarrow> string \<Rightarrow> bool" where
  "is_strict_child parent child \<longleftrightarrow> length parent < length child \<and>
     take (length parent) child = parent \<and> child ! length parent = CHR ''.''"

definition symbol_key :: "string \<Rightarrow> symbol_id \<Rightarrow> string" where
  "symbol_key name i = name @ ''#'' @ u32_to_string i"

definition external_prefix :: string where
  "external_prefix = ''<external:''"

definition display_place :: "string \<Rightarrow> string" where
  "display_place place =
     (if starts_with place external_prefix then place
      else
        (let root = takeWhile (\<lambda>c. c \<noteq> CHR ''.'') place;
             shown = (if CHR ''#'' \<in> set root
                      then butlast (rev (dropWhile (\<lambda>c. c \<noteq> CHR ''#'') (rev root)))
                      else root)
         in shown @ dropWhile (\<lambda>c. c \<noteq> CHR ''.'') place))"

function split_place :: "string \<Rightarrow> string list" where
  "split_place place =
     (case dropWhile (\<lambda>c. c \<noteq> CHR ''.'') place of
       [] \<Rightarrow> [place]
     | _ # rest \<Rightarrow> takeWhile (\<lambda>c. c \<noteq> CHR ''.'') place # split_place rest)"
  by pat_completeness auto
termination
  by (relation "measure length")
    (auto, metis length_dropWhile_le length_Cons less_eq_Suc_le)

declare split_place.simps [simp del]

definition any_index :: string where
  "any_index = ''[*]''"

text \<open>The loop over the common components: \<open>Some\<close> is an early return.\<close>

fun diverge :: "string list \<Rightarrow> string list \<Rightarrow> bool option" where
  "diverge (x # xs) (y # ys) =
     (if x \<noteq> y then Some (\<not> (x = any_index \<or> y = any_index)) else diverge xs ys)"
| "diverge _ _ = None"

definition places_disjoint :: "string \<Rightarrow> string \<Rightarrow> bool" where
  "places_disjoint a b =
     (if starts_with a external_prefix \<or> starts_with b external_prefix then False
      else if a = b then False
      else case diverge (split_place a) (split_place b) of Some r \<Rightarrow> r | None \<Rightarrow> False)"

definition places_conflict :: "string \<Rightarrow> string \<Rightarrow> bool" where
  "places_conflict a b = (\<not> places_disjoint a b)"

definition overlaps :: "string \<Rightarrow> string \<Rightarrow> bool" where
  "overlaps a b = places_conflict a b"

subsection \<open>Components of a place\<close>

lemma split_place_nonempty [simp]: "split_place p \<noteq> []"
  by (subst split_place.simps) (auto split: list.split)

lemma takeWhile_no_dot [simp]:
  "CHR ''.'' \<notin> set u \<Longrightarrow> takeWhile (\<lambda>c. c \<noteq> CHR ''.'') (u @ CHR ''.'' # r) = u"
  "CHR ''.'' \<notin> set u \<Longrightarrow> dropWhile (\<lambda>c. c \<noteq> CHR ''.'') (u @ CHR ''.'' # r) = CHR ''.'' # r"
  "CHR ''.'' \<notin> set u \<Longrightarrow> takeWhile (\<lambda>c. c \<noteq> CHR ''.'') u = u"
  "CHR ''.'' \<notin> set u \<Longrightarrow> dropWhile (\<lambda>c. c \<noteq> CHR ''.'') u = []"
  by (induction u) auto

lemma split_place_plain: "CHR ''.'' \<notin> set p \<Longrightarrow> split_place p = [p]"
  by (subst split_place.simps) simp

lemma split_place_step: "CHR ''.'' \<notin> set u \<Longrightarrow> split_place (u @ CHR ''.'' # r) = u # split_place r"
  by (subst split_place.simps) simp

lemma place_induct [case_names plain dot]:
  assumes "\<And>p. CHR ''.'' \<notin> set p \<Longrightarrow> P p"
    and "\<And>u r. CHR ''.'' \<notin> set u \<Longrightarrow> P r \<Longrightarrow> P (u @ CHR ''.'' # r)"
  shows "P p"
proof (induction "length p" arbitrary: p rule: less_induct)
  case less
  show ?case
  proof (cases "CHR ''.'' \<in> set p")
    case False
    then show ?thesis
      by (rule assms(1))
  next
    case True
    then obtain u r where "p = u @ CHR ''.'' # r" "CHR ''.'' \<notin> set u"
      by (metis split_list_first)
    then show ?thesis
      using assms(2) [of u r] less [of r] by simp
  qed
qed

lemma split_place_dot:
  "split_place (p @ CHR ''.'' # q) = split_place p @ split_place q"
  by (induction p rule: place_induct) (simp_all add: split_place_plain split_place_step)

lemma split_place_field:
  "CHR ''.'' \<notin> set f \<Longrightarrow> split_place (p @ CHR ''.'' # f) = split_place p @ [f]"
  by (simp add: split_place_dot split_place_plain)

fun join_place :: "string list \<Rightarrow> string" where
  "join_place [] = []"
| "join_place [x] = x"
| "join_place (x # y # zs) = x @ CHR ''.'' # join_place (y # zs)"

lemma join_Cons: "xs \<noteq> [] \<Longrightarrow> join_place (x # xs) = x @ CHR ''.'' # join_place xs"
  by (cases xs) auto

lemma join_split_place: "join_place (split_place p) = p"
  by (induction p rule: place_induct) (simp_all add: split_place_plain split_place_step join_Cons)

lemma split_place_inject: "split_place p = split_place q \<Longrightarrow> p = q"
  by (metis join_split_place)

lemma split_join_place:
  "xs \<noteq> [] \<Longrightarrow> \<forall>x \<in> set xs. CHR ''.'' \<notin> set x \<Longrightarrow> split_place (join_place xs) = xs"
  by (induction xs rule: join_place.induct) (auto simp: split_place_plain split_place_dot)

lemma split_place_parts: "x \<in> set (split_place p) \<Longrightarrow> CHR ''.'' \<notin> set x"
  by (induction p rule: place_induct) (auto simp: split_place_plain split_place_step)

lemma root_of_split: "root_of p = hd (split_place p)"
  by (induction p rule: place_induct) (simp_all add: root_of_def split_place_plain split_place_step)

lemma is_strict_child_split:
  "is_strict_child p c \<longleftrightarrow> (\<exists>fs. fs \<noteq> [] \<and> split_place c = split_place p @ fs)"
proof
  assume "is_strict_child p c"
  then have "c = p @ CHR ''.'' # drop (Suc (length p)) c"
    unfolding is_strict_child_def
    by (metis append_take_drop_id Cons_nth_drop_Suc)
  then show "\<exists>fs. fs \<noteq> [] \<and> split_place c = split_place p @ fs"
    using split_place_dot [of p "drop (Suc (length p)) c"] by (metis split_place_nonempty)
next
  assume "\<exists>fs. fs \<noteq> [] \<and> split_place c = split_place p @ fs"
  then obtain fs where fs: "fs \<noteq> []" "split_place c = split_place p @ fs"
    by blast
  have "join_place (xs @ fs) = join_place xs @ CHR ''.'' # join_place fs" if "xs \<noteq> []" for xs
    using that fs(1) by (induction xs rule: join_place.induct) (auto simp: join_Cons)
  then have "c = p @ CHR ''.'' # join_place fs"
    using fs join_split_place [of c] join_split_place [of p] by (metis split_place_nonempty)
  then show "is_strict_child p c"
    by (simp add: is_strict_child_def nth_append)
qed


lemma is_strict_child_neq: "is_strict_child p c \<Longrightarrow> p \<noteq> c"
  by (auto simp: is_strict_child_def)

lemma is_strict_child_trans: "is_strict_child a b \<Longrightarrow> is_strict_child b c \<Longrightarrow> is_strict_child a c"
  unfolding is_strict_child_split by fastforce

lemma is_strict_child_root: "is_strict_child p c \<Longrightarrow> root_of c = root_of p"
  unfolding is_strict_child_split root_of_split by (metis hd_append2 split_place_nonempty)

lemma external_child:
  assumes "is_strict_child p c"
  shows "starts_with c external_prefix = starts_with p external_prefix"
proof -
  have c: "take (length p) c = p" "c ! length p = CHR ''.''" "length p < length c"
    using assms by (auto simp: is_strict_child_def)
  show ?thesis
  proof (cases "10 \<le> length p")
    case True
    then have "take 10 c = take 10 p"
      by (metis c(1) min.absorb1 take_take)
    moreover have "length external_prefix = 10"
      by (simp add: external_prefix_def)
    ultimately show ?thesis
      by (simp add: starts_with_def)
  next
    case False
    have "take 10 c \<noteq> external_prefix"
    proof
      assume ext: "take 10 c = external_prefix"
      then have "external_prefix ! length p = CHR ''.''"
        using False c(2,3) by (metis nth_take not_le)
      moreover have "CHR ''.'' \<notin> set external_prefix"
        by (simp add: external_prefix_def)
      moreover have "length p < length external_prefix"
        using False by (simp add: external_prefix_def)
      ultimately show False
        by (metis nth_mem)
    qed
    moreover have "take 10 p \<noteq> external_prefix"
      using False by (auto simp: external_prefix_def dest: arg_cong [of _ _ length])
    moreover have "length external_prefix = 10"
      by (simp add: external_prefix_def)
    ultimately show ?thesis
      by (simp add: starts_with_def)
  qed
qed

subsection \<open>The conflict relation\<close>

lemma diverge_False: "diverge xs ys = Some False \<Longrightarrow> any_index \<in> set xs \<or> any_index \<in> set ys"
  by (induction xs ys rule: diverge.induct) (auto split: if_splits)

lemma diverge_None: "diverge xs ys = None \<longleftrightarrow> prefix xs ys \<or> prefix ys xs"
  by (induction xs ys rule: diverge.induct) auto

lemma diverge_sym: "diverge xs ys = diverge ys xs"
  by (induction xs ys rule: diverge.induct) auto

lemma places_conflict_refl [simp]: "places_conflict p p"
  by (simp add: places_conflict_def places_disjoint_def)

lemma places_conflict_sym: "places_conflict p q = places_conflict q p"
  by (auto simp: places_conflict_def places_disjoint_def diverge_sym)

lemma places_disjoint_iff:
  "places_disjoint p q \<longleftrightarrow> \<not> starts_with p external_prefix \<and> \<not> starts_with q external_prefix \<and>
     diverge (split_place p) (split_place q) = Some True"
  using split_place_inject [of p q]
  by (auto simp: places_disjoint_def diverge_None split: option.splits)
    (metis diverge_None option.distinct(1) prefix_order.order_refl)+

lemma places_conflict_child: "is_strict_child p c \<Longrightarrow> places_conflict p c"
  unfolding is_strict_child_split places_conflict_def places_disjoint_iff
  by (metis diverge_None option.distinct(1) prefixI)

lemma diverge_append: "diverge xs ys = Some r \<Longrightarrow> diverge (xs @ zs) ys = Some r"
  by (induction xs ys rule: diverge.induct) (auto split: if_splits)

lemma places_disjoint_child:
  "is_strict_child p c \<Longrightarrow> places_disjoint p q \<Longrightarrow> places_disjoint c q"
  using external_child [of p c]
  by (auto simp: places_disjoint_iff is_strict_child_split diverge_append)

text \<open>
  The memory a place denotes: every \<open>[*]\<close> component is some concrete component. Two paths
  touch common memory when one leads to the other.
\<close>

definition denotes :: "string \<Rightarrow> string list \<Rightarrow> bool" where
  "denotes p path \<longleftrightarrow> list_all2 (\<lambda>x c. x = c \<or> x = any_index) (split_place p) path"

lemma diverge_denotes:
  assumes "diverge xs ys = Some True"
    "list_all2 (\<lambda>x c. x = c \<or> x = any_index) xs a" "list_all2 (\<lambda>x c. x = c \<or> x = any_index) ys b"
  shows "\<not> prefix a b \<and> \<not> prefix b a"
  using assms
proof (induction xs ys arbitrary: a b rule: diverge.induct)
  case (1 x xs y ys)
  then obtain c as d bs where "a = c # as" "b = d # bs"
    by (auto simp: list_all2_Cons1)
  with 1 show ?case
    by (auto split: if_splits)
qed auto

text \<open>C28: the conflict test never separates two places that can touch common memory, whatever
  elements the indexed components stand for.\<close>

theorem places_conflict_sound:
  assumes "denotes p a" "denotes q b" "prefix a b \<or> prefix b a"
  shows "places_conflict p q"
  using assms diverge_denotes [of "split_place p" "split_place q" a b]
  by (auto simp: places_conflict_def places_disjoint_iff denotes_def)

theorem places_conflict_sound_witness:
  "places_conflict ''a#1.[*].x'' ''a#1.i''"
  by (rule places_conflict_sound [of _ "[''a#1'', ''i'', ''x'']" _ "[''a#1'', ''i'']"])
    (simp_all add: denotes_def split_place.simps any_index_def)

lemma conflict_exact:
  assumes "any_index \<notin> set (split_place p)" "any_index \<notin> set (split_place q)"
  shows "places_conflict p q \<longleftrightarrow>
    starts_with p external_prefix \<or> starts_with q external_prefix \<or>
    p = q \<or> is_strict_child p q \<or> is_strict_child q p"
proof -
  have "diverge (split_place p) (split_place q) \<noteq> Some True \<longleftrightarrow>
      prefix (split_place p) (split_place q) \<or> prefix (split_place q) (split_place p)"
  proof (cases "diverge (split_place p) (split_place q)")
    case None
    then show ?thesis
      using diverge_None [of "split_place p" "split_place q"] by simp
  next
    case (Some r)
    then have "r"
      using assms diverge_False by (cases r) auto
    moreover have "\<not> (prefix (split_place p) (split_place q) \<or> prefix (split_place q) (split_place p))"
      using Some diverge_None [of "split_place p" "split_place q"] by auto
    ultimately show ?thesis
      using Some by simp
  qed
  also have "\<dots> \<longleftrightarrow> p = q \<or> is_strict_child p q \<or> is_strict_child q p"
    unfolding is_strict_child_split prefix_def
    by (metis append_Nil2 split_place_inject)
  finally show ?thesis
    by (auto simp: places_conflict_def places_disjoint_iff)
qed

text \<open>Without indexed components the test is exact: two places conflict precisely when
  one contains the other, unless one of them is external, which conflicts with everything.\<close>

theorem places_conflict_exact:
  assumes "any_index \<notin> set (split_place p)" "any_index \<notin> set (split_place q)"
  shows "places_conflict p q \<longleftrightarrow>
    starts_with p external_prefix \<or> starts_with q external_prefix \<or>
    p = q \<or> is_strict_child p q \<or> is_strict_child q p"
  by (rule conflict_exact [OF assms])

theorem places_conflict_exact_witness: "\<not> places_conflict ''a#1.x'' ''a#1.y''"
  by (subst places_conflict_exact)
    (simp_all add: split_place.simps any_index_def external_prefix_def starts_with_def
      is_strict_child_def)

lemma u32_to_string_inject: "u32_to_string i = u32_to_string j \<longleftrightarrow> i = j"
  by (metis nat_to_string_inject u32_to_string_def unsigned_word_eqI)

lemma digit_not_hash: "CHR ''#'' \<notin> set (u32_to_string i)" "CHR ''.'' \<notin> set (u32_to_string i)"
  using nat_to_string_digits by (auto simp: u32_to_string_def char_isdigit_def dest!: nat_to_string_digits)

text \<open>The key of a symbol determines its name and its number, so two symbols never share a
  place, and the root of every place below the key is the key itself.\<close>

theorem symbol_key_injective:
  "(symbol_key n i = symbol_key m j \<longleftrightarrow> n = m \<and> i = j) \<and>
   (CHR ''.'' \<notin> set n \<longrightarrow> root_of (symbol_key n i @ CHR ''.'' # f) = symbol_key n i)"
proof -
  have "n = m \<and> i = j" if "symbol_key n i = symbol_key m j"
  proof -
    have eq: "n @ CHR ''#'' # u32_to_string i = m @ CHR ''#'' # u32_to_string j"
      using that by (simp add: symbol_key_def)
    have "takeWhile (\<lambda>c. c \<noteq> CHR ''#'') (rev (k @ CHR ''#'' # u32_to_string l)) = rev (u32_to_string l)"
      for k l
      using digit_not_hash(1) [of l] by (auto simp: takeWhile_append)
    with eq have "u32_to_string i = u32_to_string j"
      by (metis rev_rev_ident)
    with eq show ?thesis
      by (simp add: u32_to_string_inject)
  qed
  moreover have "root_of (symbol_key n i @ CHR ''.'' # f) = symbol_key n i" if "CHR ''.'' \<notin> set n"
    using that digit_not_hash(2) [of i] takeWhile_no_dot(1) [of "symbol_key n i" f]
    by (simp add: root_of_def symbol_key_def)
  ultimately show ?thesis
    by auto
qed

theorem symbol_key_injective_witness:
  "symbol_key ''x'' 1 \<noteq> symbol_key ''x'' 2 \<and>
   root_of (symbol_key ''x'' 1 @ ''.f'') = symbol_key ''x'' 1"
  using symbol_key_injective [of "''x''" 1 "''x''" 2 "''f''"] by auto


subsection \<open>The interface of places\<close>

text \<open>
  What the loan and move tracking relies on: the conflict test is reflexive and symmetric, a
  place conflicts with its components, and a component of a place conflicts with nothing that
  the place itself does not conflict with.
\<close>

locale place_relation =
  fixes conflict :: "'p \<Rightarrow> 'p \<Rightarrow> bool" and child :: "'p \<Rightarrow> 'p \<Rightarrow> bool"
  assumes conflict_refl: "conflict p p"
    and conflict_sym: "conflict p q \<Longrightarrow> conflict q p"
    and conflict_child: "child p c \<Longrightarrow> conflict p c"
    and conflict_parent: "child p c \<Longrightarrow> conflict c q \<Longrightarrow> conflict p q"
begin

definition blocked :: "'p set \<Rightarrow> 'p \<Rightarrow> bool" where
  "blocked moved p \<longleftrightarrow> (\<exists>m \<in> moved. conflict m p)"

lemma blocked_mono: "moved \<subseteq> moved' \<Longrightarrow> blocked moved p \<Longrightarrow> blocked moved' p"
  by (auto simp: blocked_def)

lemma blocked_insert: "blocked (insert p moved) p"
  using conflict_refl by (auto simp: blocked_def)

lemma blocked_child: "child p c \<Longrightarrow> blocked (insert p moved) c"
  using conflict_child by (auto simp: blocked_def)

lemma blocked_parent:
  assumes "child p c" "blocked moved c"
  shows "blocked moved p"
proof -
  obtain m where m: "m \<in> moved" "conflict m c"
    using assms(2) by (auto simp: blocked_def)
  from conflict_sym [OF m(2)] have "conflict p m"
    by (rule conflict_parent [OF assms(1)])
  then show ?thesis
    using m(1) conflict_sym by (auto simp: blocked_def)
qed

lemma blocked_insert_parent: "child p c \<Longrightarrow> blocked (insert c moved) p"
  using blocked_parent [OF _ blocked_insert] .

end

interpretation pl: place_relation places_conflict is_strict_child
proof
  show "places_conflict p p" for p
    by simp
  show "places_conflict p q \<Longrightarrow> places_conflict q p" for p q
    by (simp add: places_conflict_sym)
  show "is_strict_child p c \<Longrightarrow> places_conflict p c" for p c
    by (rule places_conflict_child)
  show "is_strict_child p c \<Longrightarrow> places_conflict c q \<Longrightarrow> places_conflict p q" for p c q
    unfolding places_conflict_def using places_disjoint_child by blast
qed

end
