(* ===== verification/BorrowState.thy ===== *)
theory BorrowState
  imports Places
begin

text \<open>
  The state of the borrow checker (include/uinx/borrow.hpp) and the queries on it
  (src/borrow_places.cpp). Of a vector used as a stack the model lists the top first: the
  innermost scope, the innermost loop.
\<close>

datatype borrow_kind = BkShared | BkMut | BkTwoPhaseReserved | BkTwoPhaseActivated

record loan =
  ln_place :: string
  ln_borrower :: string
  ln_mut :: bool
  ln_kind :: borrow_kind
  ln_origin :: src_range
  ln_reservation :: src_range
  ln_activated :: bool

record ref_origin =
  ro_place :: string
  ro_range :: src_range
  ro_mut :: bool
  ro_via :: "string list"

type_synonym scope = "(string \<times> ty) list"

record bstate =
  bs_moved :: "string set"
  bs_borrows :: "loan list"
  bs_scopes :: "scope list"
  bs_origins :: "(string \<times> ref_origin list) list"
  bs_async :: bool
  bs_reachable :: bool

record loop_frame =
  lf_depth :: nat
  lf_breaks :: "bstate list"
  lf_continues :: "bstate list"

datatype access = AcRead | AcMove | AcBorrowShared | AcBorrowMut | AcWrite | AcTwoPhaseReserve

type_synonym live_set = "string set"

record checker =
  ck_diags :: diagnostics
  ck_emitted :: "string set"
  ck_live_before :: "nat \<rightharpoonup> live_set"
  ck_live_after :: "nat \<rightharpoonup> live_set"
  ck_places_before :: "nat \<rightharpoonup> live_set"
  ck_places_after :: "nat \<rightharpoonup> live_set"
  ck_loops :: "loop_frame list"
  ck_copy_generics :: "string set"

definition new_checker :: "diagnostics \<Rightarrow> checker" where
  "new_checker ds = \<lparr>ck_diags = ds, ck_emitted = {}, ck_live_before = Map.empty,
     ck_live_after = Map.empty, ck_places_before = Map.empty, ck_places_after = Map.empty,
     ck_loops = [], ck_copy_generics = {}\<rparr>"

definition initial_state :: bstate where
  "initial_state = \<lparr>bs_moved = {}, bs_borrows = [], bs_scopes = [], bs_origins = [],
     bs_async = False, bs_reachable = True\<rparr>"

definition max_dataflow_iterations :: nat where
  "max_dataflow_iterations = 4096"

subsection \<open>Errors\<close>

definition error_key :: "src_range \<Rightarrow> string \<Rightarrow> string \<Rightarrow> string" where
  "error_key r code message =
     code @ ''@'' @ u32_to_string (loc_line (range_begin r)) @ '':'' @
     u32_to_string (loc_column (range_begin r)) @ ''-'' @
     u32_to_string (loc_line (range_end r)) @ '':'' @ u32_to_string (loc_column (range_end r)) @
     '':'' @ message"

definition report_error :: "src_range \<Rightarrow> string \<Rightarrow> string \<Rightarrow> checker \<Rightarrow> checker" where
  "report_error r code message ck =
     (let key = error_key r code message in
      if key \<in> ck_emitted ck then ck
      else ck\<lparr>ck_emitted := insert key (ck_emitted ck),
              ck_diags := diag_error r code message (ck_diags ck)\<rparr>)"

definition quoted :: "string \<Rightarrow> string" where
  "quoted place = [CHR 0x27] @ display_place place @ [CHR 0x27]"

subsection \<open>Liveness of loans, equality of loans and origins\<close>

definition temporary :: string where
  "temporary = ''<temporary>''"

definition loan_live_at :: "sem_model \<Rightarrow> loan \<Rightarrow> live_set \<Rightarrow> live_set \<Rightarrow> bool" where
  "loan_live_at M loan live_roots live_places \<longleftrightarrow>
     (if ln_borrower loan = temporary then True
      else
        (let borrower_root = root_of (ln_borrower loan) in
         if map_of (sm_globals M) borrower_root \<noteq> None then True
         else if borrower_root \<in> live_roots then True
         else if ln_borrower loan \<in> live_places then True
         else \<exists>live \<in> live_places. places_conflict live (ln_borrower loan)))"

definition same_start :: "src_range \<Rightarrow> src_range \<Rightarrow> bool" where
  "same_start a b \<longleftrightarrow> loc_line (range_begin a) = loc_line (range_begin b) \<and>
     loc_column (range_begin a) = loc_column (range_begin b)"

definition same_origin :: "ref_origin \<Rightarrow> ref_origin \<Rightarrow> bool" where
  "same_origin a b \<longleftrightarrow> ro_place a = ro_place b \<and> ro_mut a = ro_mut b \<and>
     same_start (ro_range a) (ro_range b)"

definition same_borrow :: "loan \<Rightarrow> loan \<Rightarrow> bool" where
  "same_borrow a b \<longleftrightarrow> ln_place a = ln_place b \<and> ln_borrower a = ln_borrower b \<and>
     ln_mut a = ln_mut b \<and> ln_kind a = ln_kind b \<and> same_start (ln_origin a) (ln_origin b)"

subsection \<open>Places of expressions and bindings\<close>

fun place_of :: "sem_model \<Rightarrow> expr \<Rightarrow> string option" where
  "place_of M (NameExpr i _ name) =
     (case hm_expr_resolution (sm_hir M) i of
       None \<Rightarrow> Some name
     | Some resolved \<Rightarrow>
         if unat resolved < length (hm_symbols (sm_hir M)) \<and>
            sym_kind (hm_symbols (sm_hir M) ! unat resolved) \<in> {SymLocal, SymParameter}
         then Some (symbol_key name resolved) else Some name)"
| "place_of M (MemberExpr _ _ base member) =
     (case place_of M base of None \<Rightarrow> None | Some b \<Rightarrow> Some (b @ ''.'' @ member))"
| "place_of M (IndexExpr _ _ base _) =
     (case place_of M base of None \<Rightarrow> None | Some b \<Rightarrow> Some (b @ ''.[*]''))"
| "place_of M _ = None"

definition binding_key :: "sem_model \<Rightarrow> nat \<Rightarrow> string \<Rightarrow> string" where
  "binding_key M i name = (case hm_bindings (sm_hir M) i of
     None \<Rightarrow> name | Some s \<Rightarrow> symbol_key name s)"

definition parameter_key :: "sem_model \<Rightarrow> param \<Rightarrow> string" where
  "parameter_key M p = (case hm_params (sm_hir M) (par_id p) of
     None \<Rightarrow> par_name p | Some s \<Rightarrow> symbol_key (par_name p) s)"

definition for_binding_key :: "sem_model \<Rightarrow> nat \<Rightarrow> string \<Rightarrow> string" where
  "for_binding_key M i name = (case hm_for_bindings (sm_hir M) i of
     None \<Rightarrow> name | Some s \<Rightarrow> symbol_key name s)"

subsection \<open>Types\<close>

text \<open>
  A type can hold a reference. The set \<open>visiting\<close> has the structures on the way from the root; the
  code removes a name on every way out, so the caller's set is unchanged.
\<close>

function contains_reference :: "sem_model \<Rightarrow> ty \<Rightarrow> string set \<Rightarrow> bool" where
  "contains_reference M t visiting =
     (if ty_kind t = KRef then True
      else if ty_kind t = KGeneric then True
      else if ty_kind t \<noteq> KNamed then False
      else if ty_name t \<in> visiting then False
      else case map_of (sm_structs M) (ty_name t) of
        None \<Rightarrow> False
      | Some si \<Rightarrow> list_ex (\<lambda>(_, field). contains_reference M
            (substitute_type field (struct_subst si t)) (insert (ty_name t) visiting)) (si_fields si))"
  by pat_completeness auto
termination
proof (relation "measure (\<lambda>(M, t, visiting). card (fst ` set (sm_structs M) - visiting))")
  fix M :: sem_model and t :: ty and visiting :: "string set" and si x and n :: string and field :: ty
  assume "ty_name t \<notin> visiting" "map_of (sm_structs M) (ty_name t) = Some si"
  then have "ty_name t \<in> fst ` set (sm_structs M)" "ty_name t \<notin> visiting"
    by (auto dest: map_of_SomeD simp: image_iff intro: bexI [rotated])
  then have "ty_name t \<in> fst ` set (sm_structs M) - visiting"
    by simp
  moreover from this have "0 < card (fst ` set (sm_structs M) - visiting)"
    by (metis card_gt_0_iff empty_iff finite_Diff finite_imageI finite_set)
  ultimately show "((M, substitute_type field (struct_subst si t), insert (ty_name t) visiting), M, t, visiting)
      \<in> measure (\<lambda>(M, t, visiting). card (fst ` set (sm_structs M) - visiting))"
    by simp
qed simp

declare contains_reference.simps [simp del]

definition receiver_type :: "sem_model \<Rightarrow> expr \<Rightarrow> ty" where
  "receiver_type M e = (case sm_expr_types M (expr_id e) of None \<Rightarrow> error_type | Some t \<Rightarrow> t)"

definition owner_type :: "ty \<Rightarrow> ty" where
  "owner_type t = (case (ty_kind t = KRef, ty_pointee t) of (True, Some q) \<Rightarrow> q | _ \<Rightarrow> t)"

definition find_method :: "sem_model \<Rightarrow> ty \<Rightarrow> string \<Rightarrow> function_sig option" where
  "find_method M owner member = map_of (sm_functions M) (ty_name owner @ ''::'' @ member)"

fun walk_type :: "sem_model \<Rightarrow> ty \<Rightarrow> string list \<Rightarrow> ty" where
  "walk_type M t [] = t"
| "walk_type M t (field # path) =
     (let t = owner_type t in
      if field = any_index then
        (if ty_kind t = KNamed \<and> (ty_name t = ''Slice'' \<or> ty_name t = ''SliceMut'') \<and> ty_args t \<noteq> []
         then walk_type M (hd (ty_args t)) path else error_type)
      else case map_of (sm_structs M) (ty_name t) of
        None \<Rightarrow> error_type
      | Some si \<Rightarrow>
          (case map_of (si_fields si) field of
            None \<Rightarrow> error_type
          | Some ft \<Rightarrow> walk_type M (substitute_type ft (struct_subst si t)) path))"

fun find_binding :: "scope list \<Rightarrow> string \<Rightarrow> ty option" where
  "find_binding [] root = None"
| "find_binding (s # ss) root =
     (case map_of s root of Some t \<Rightarrow> Some t | None \<Rightarrow> find_binding ss root)"

definition type_of_place :: "sem_model \<Rightarrow> string \<Rightarrow> bstate \<Rightarrow> ty" where
  "type_of_place M place st =
     (let root = root_of place in
      case (case find_binding (bs_scopes st) root of
              Some t \<Rightarrow> Some t
            | None \<Rightarrow> map_option gi_type (map_of (sm_globals M) root)) of
        None \<Rightarrow> error_type
      | Some t \<Rightarrow> walk_type M t (tl (split_place place)))"

subsection \<open>Moved places\<close>

definition unavailable :: "string \<Rightarrow> bstate \<Rightarrow> bool" where
  "unavailable place st \<longleftrightarrow> (\<exists>moved \<in> bs_moved st. overlaps moved place)"

definition has_moved_ancestor :: "string \<Rightarrow> bstate \<Rightarrow> bool" where
  "has_moved_ancestor place st \<longleftrightarrow>
     (\<exists>moved \<in> bs_moved st. moved \<noteq> place \<and> is_strict_child moved place)"

definition is_stack_owned :: "string \<Rightarrow> bstate \<Rightarrow> bool" where
  "is_stack_owned place st =
     (let root = root_of place in
      case find_binding (rev (bs_scopes st)) root of
        Some t \<Rightarrow> \<not> (ty_kind t = KRef \<and> is_strict_child root place)
      | None \<Rightarrow> False)"

definition is_copy_type :: "sem_model \<Rightarrow> checker \<Rightarrow> ty \<Rightarrow> bool" where
  "is_copy_type M ck t \<longleftrightarrow> (ty_kind t = KGeneric \<and> ty_name t \<in> ck_copy_generics ck) \<or> is_copy t \<or>
     satisfies 0 M t ''Copy'' = Some True"

definition states_equivalent :: "bstate \<Rightarrow> bstate \<Rightarrow> bool" where
  "states_equivalent a b =
     (if bs_reachable a \<noteq> bs_reachable b \<or> bs_moved a \<noteq> bs_moved b \<or>
         length (bs_scopes a) \<noteq> length (bs_scopes b) \<or>
         length (bs_borrows a) \<noteq> length (bs_borrows b) \<or>
         length (bs_origins a) \<noteq> length (bs_origins b) then False
      else
        list_all (\<lambda>l. list_ex (same_borrow l) (bs_borrows b)) (bs_borrows a) \<and>
        list_all (\<lambda>(place, origins). case map_of (bs_origins b) place of
            None \<Rightarrow> False
          | Some found \<Rightarrow> length found = length origins \<and>
              list_all (\<lambda>ro. list_ex (same_origin ro) found) origins) (bs_origins a))"

definition mark_initialized :: "string \<Rightarrow> bstate \<Rightarrow> bstate" where
  "mark_initialized place st =
     st\<lparr>bs_moved := {m \<in> bs_moved st. \<not> (m = place \<or> is_strict_child place m)}\<rparr>"

definition kill_borrower :: "string \<Rightarrow> bstate \<Rightarrow> bstate" where
  "kill_borrower borrower st =
     st\<lparr>bs_borrows := filter (\<lambda>l. ln_borrower l \<noteq> borrower) (bs_borrows st)\<rparr>"

definition kill_borrowers_under :: "string \<Rightarrow> bstate \<Rightarrow> bstate" where
  "kill_borrowers_under borrower st =
     st\<lparr>bs_borrows := filter (\<lambda>l. \<not> (ln_borrower l = borrower \<or> is_strict_child borrower (ln_borrower l)))
       (bs_borrows st)\<rparr>"

end
