(* ===== verification/Loans.thy ===== *)
theory Loans
  imports BorrowState
begin

text \<open>
  Creation, checking and removal of loans (src/borrow_loans.cpp, and \<open>reference_origins\<close> of
  src/borrow_places.cpp).
\<close>

subsection \<open>Where references come from\<close>

definition reborrow_parent :: "sem_model \<Rightarrow> expr \<Rightarrow> string option" where
  "reborrow_parent M target =
     (case target of
       UnaryExpr _ _ op operand \<Rightarrow>
         if op \<noteq> ''*'' then None
         else (case sm_expr_types M (expr_id operand) of
             None \<Rightarrow> None
           | Some t \<Rightarrow> if ty_kind t \<noteq> KRef then None else place_of M operand)
     | _ \<Rightarrow> None)"

text \<open>The lambda \<open>append\<close> of \<open>reference_origins\<close>: origins already present are not repeated.\<close>

definition add_origin :: "ref_origin \<Rightarrow> ref_origin list \<Rightarrow> ref_origin list" where
  "add_origin ro result = (if list_ex (\<lambda>x. same_origin x ro) result then result else result @ [ro])"

definition append_origins :: "ref_origin list \<Rightarrow> ref_origin list \<Rightarrow> ref_origin list" where
  "append_origins origins result = fold add_origin origins result"

definition external_place :: "string \<Rightarrow> string" where
  "external_place p = external_prefix @ p @ ''>''"

definition stored_origins :: "string \<Rightarrow> bstate \<Rightarrow> ref_origin list" where
  "stored_origins place st =
     fold (\<lambda>(stored_place, origins) result.
         if place = stored_place \<or> is_strict_child place stored_place \<or>
            is_strict_child stored_place place
         then append_origins origins result else result) (bs_origins st) []"

text \<open>A method call on a place without recorded origins borrows the place itself.\<close>

definition receiver_origin :: "sem_model \<Rightarrow> expr \<Rightarrow> string \<Rightarrow> src_range \<Rightarrow> ref_origin list" where
  "receiver_origin M base member r =
     (case place_of M base of
       None \<Rightarrow> []
     | Some receiver_place \<Rightarrow>
         (let rt = receiver_type M base in
          case find_method M (owner_type rt) member of
            None \<Rightarrow> []
          | Some sig \<Rightarrow>
              (case fs_params sig of
                [] \<Rightarrow> []
              | self # _ \<Rightarrow>
                  if ty_kind self \<noteq> KRef then []
                  else [\<lparr>ro_place = (if ty_kind rt = KRef then external_place receiver_place
                                     else receiver_place),
                         ro_range = r, ro_mut = ty_mut self, ro_via = []\<rparr>])))"

definition result_contains_reference :: "sem_model \<Rightarrow> nat \<Rightarrow> bool" where
  "result_contains_reference M i =
     (case sm_expr_types M i of None \<Rightarrow> False | Some t \<Rightarrow> contains_reference M t {})"

definition reborrow_origins ::
  "sem_model \<Rightarrow> expr \<Rightarrow> bool \<Rightarrow> src_range \<Rightarrow> ref_origin list \<Rightarrow> ref_origin list" where
  "reborrow_origins M target m r origins =
     (let result = map (\<lambda>ro. ro\<lparr>ro_mut := m\<rparr>) origins in
      case reborrow_parent M target of
        None \<Rightarrow> result
      | Some parent \<Rightarrow>
          (let result = (if result = []
               then [\<lparr>ro_place = external_place parent, ro_range = r, ro_mut = m, ro_via = []\<rparr>]
               else result)
           in map (\<lambda>ro. ro\<lparr>ro_range := r, ro_via := parent # ro_via ro\<rparr>) result))"

function (sequential) reference_origins :: "sem_model \<Rightarrow> expr \<Rightarrow> bstate \<Rightarrow> ref_origin list"
and structural_origins :: "sem_model \<Rightarrow> expr \<Rightarrow> bstate \<Rightarrow> ref_origin list" where
  "reference_origins M (BorrowExpr i r target m) st =
     (case place_of M target of
       Some place \<Rightarrow> [\<lparr>ro_place = place, ro_range = r, ro_mut = m, ro_via = []\<rparr>]
     | None \<Rightarrow> reborrow_origins M target m r (reference_origins M target st))"
| "reference_origins M e st =
     (let stored = (case place_of M e of None \<Rightarrow> [] | Some place \<Rightarrow> stored_origins place st)
      in if stored \<noteq> [] then stored else structural_origins M e st)"
| "structural_origins M (StructLiteralExpr _ _ _ _ fs) st =
     fold append_origins (map (\<lambda>f. reference_origins M (fi_value f) st) fs) []"
| "structural_origins M (UnaryExpr _ _ _ operand) st =
     append_origins (reference_origins M operand st) []"
| "structural_origins M (CallExpr i r callee _ args) st =
     (if \<not> result_contains_reference M i then []
      else fold append_origins (map (\<lambda>a. reference_origins M a st) args)
        (case callee of
          MemberExpr _ _ base member \<Rightarrow>
            (let receiver = reference_origins M base st in
             if receiver \<noteq> [] then append_origins receiver []
             else receiver_origin M base member r)
        | _ \<Rightarrow> []))"
| "structural_origins M (MemberExpr _ _ base _) st = append_origins (reference_origins M base st) []"
| "structural_origins M (IndexExpr _ _ base _) st = append_origins (reference_origins M base st) []"
| "structural_origins M (CastExpr _ _ v _) st = append_origins (reference_origins M v st) []"
| "structural_origins M (AwaitExpr _ _ v) st = append_origins (reference_origins M v st) []"
| "structural_origins M _ st = []"
  by pat_completeness auto
termination
  by (relation "measure (case_sum (\<lambda>(M, e, st). 2 * size e + 1) (\<lambda>(M, e, st). 2 * size e))")
    (auto dest!: size_field_value size_list_arg)


subsection \<open>Access checks\<close>

type_synonym 'a checked = "checker \<times> 'a"

definition is_active_mut :: "loan \<Rightarrow> bool" where
  "is_active_mut l = (if ln_kind l = BkTwoPhaseReserved then False else ln_mut l)"

definition is_active_exclusive :: "loan \<Rightarrow> bool" where
  "is_active_exclusive l = (if ln_kind l = BkTwoPhaseReserved then False
     else ln_kind l = BkMut \<or> ln_kind l = BkTwoPhaseActivated)"

text \<open>A loop over the loans of the state that reports on those satisfying the condition.\<close>

definition report_loans ::
  "(loan \<Rightarrow> bool) \<Rightarrow> src_range \<Rightarrow> string \<Rightarrow> (loan \<Rightarrow> string) \<Rightarrow> loan list \<Rightarrow> checker \<Rightarrow> checker" where
  "report_loans bad r code message ls ck =
     fold (\<lambda>l ck. if bad l then report_error r code (message l) ck else ck) ls ck"

definition effective_access :: "sem_model \<Rightarrow> checker \<Rightarrow> string \<Rightarrow> access \<Rightarrow> bstate \<Rightarrow> access" where
  "effective_access M ck place ac st =
     (if ac = AcMove \<and> is_copy_type M ck (type_of_place M place st) then AcRead else ac)"

definition access_place ::
  "sem_model \<Rightarrow> string \<Rightarrow> src_range \<Rightarrow> access \<Rightarrow> string list \<Rightarrow> checker \<Rightarrow> bstate \<Rightarrow> bstate checked" where
  "access_place M place r access via ck st =
     (let held_by_parent = (\<lambda>l. ln_borrower l \<in> set via);
          access = effective_access M ck place access st
      in
      if access = AcWrite \<and> has_moved_ancestor place st then
        (report_error r ''E0400'' (''cannot initialize field/place '' @ quoted place @
           '' because an enclosing value was moved'') ck, st)
      else if access \<noteq> AcWrite \<and> unavailable place st then
        (report_error r ''E0400'' (''use of moved value/place '' @ quoted place) ck, st)
      else case access of
        AcRead \<Rightarrow>
          (report_loans (\<lambda>l. places_conflict place (ln_place l) \<and> is_active_mut l) r ''E0406''
             (\<lambda>l. ''cannot read '' @ quoted place @ '' while mutable borrow of '' @
                  quoted (ln_place l) @ '' is active'') (bs_borrows st) ck, st)
      | AcBorrowShared \<Rightarrow>
          (report_loans (\<lambda>l. \<not> held_by_parent l \<and> places_conflict place (ln_place l) \<and> is_active_mut l)
             r ''E0401''
             (\<lambda>l. ''cannot immutably borrow '' @ quoted place @ '' while mutable borrow of '' @
                  quoted (ln_place l) @ '' is active'') (bs_borrows st) ck, st)
      | AcTwoPhaseReserve \<Rightarrow>
          (report_loans (\<lambda>l. places_conflict place (ln_place l) \<and> is_active_exclusive l) r ''E0402''
             (\<lambda>l. ''cannot reserve mutably '' @ quoted place @ '' while exclusive borrow of '' @
                  quoted (ln_place l) @ '' is active'') (bs_borrows st) ck, st)
      | AcBorrowMut \<Rightarrow>
          (report_loans (\<lambda>l. \<not> held_by_parent l \<and> places_conflict place (ln_place l)) r ''E0402''
             (\<lambda>l. ''cannot mutably borrow '' @ quoted place @ '' while borrow of '' @
                  quoted (ln_place l) @ '' is active'') (bs_borrows st) ck, st)
      | _ \<Rightarrow>
          (report_loans (\<lambda>l. places_conflict place (ln_place l)) r ''E0403''
             (\<lambda>l. ''cannot '' @ (if access = AcMove then ''move'' else ''write'') @ '' '' @
                  quoted place @ '' while it is borrowed'') (bs_borrows st) ck,
           if access = AcMove then st\<lparr>bs_moved := insert place (bs_moved st)\<rparr> else st))"

definition add_loan :: "loan \<Rightarrow> bstate \<Rightarrow> bstate" where
  "add_loan l st =
     (if list_ex (\<lambda>existing. same_borrow existing l) (bs_borrows st) then st
      else st\<lparr>bs_borrows := bs_borrows st @ [l]\<rparr>)"

definition new_loan :: "string \<Rightarrow> string \<Rightarrow> bool \<Rightarrow> src_range \<Rightarrow> loan" where
  "new_loan place borrower m r =
     \<lparr>ln_place = place, ln_borrower = borrower, ln_mut = m,
      ln_kind = (if m then BkMut else BkShared), ln_origin = r, ln_reservation = r,
      ln_activated = m\<rparr>"

definition begin_borrow ::
  "sem_model \<Rightarrow> string \<Rightarrow> string \<Rightarrow> bool \<Rightarrow> src_range \<Rightarrow> string list \<Rightarrow> checker \<Rightarrow> bstate \<Rightarrow>
     bstate checked" where
  "begin_borrow M place borrower m r via ck st =
     (case access_place M place r (if m then AcBorrowMut else AcBorrowShared) via ck st of
       (ck, st) \<Rightarrow> (ck, add_loan (new_loan place borrower m r) st))"

definition reserved_loan :: "string \<Rightarrow> string \<Rightarrow> src_range \<Rightarrow> loan" where
  "reserved_loan place borrower reservation =
     \<lparr>ln_place = place, ln_borrower = borrower, ln_mut = True, ln_kind = BkTwoPhaseReserved,
      ln_origin = reservation, ln_reservation = reservation, ln_activated = False\<rparr>"

definition begin_two_phase_reservation ::
  "sem_model \<Rightarrow> string \<Rightarrow> string \<Rightarrow> src_range \<Rightarrow> checker \<Rightarrow> bstate \<Rightarrow> bstate checked" where
  "begin_two_phase_reservation M place borrower reservation ck st =
     (case access_place M place reservation AcTwoPhaseReserve [] ck st of
       (ck, st) \<Rightarrow> (ck, add_loan (reserved_loan place borrower reservation) st))"

text \<open>The body of the loop of \<open>activate_two_phase\<close> for the loan at index \<open>i\<close>.\<close>

definition activate_loan ::
  "string \<Rightarrow> src_range \<Rightarrow> nat \<Rightarrow> checker \<times> loan list \<Rightarrow> checker \<times> loan list" where
  "activate_loan borrower activation i = (\<lambda>(ck, ls).
     let l = ls ! i in
     if ln_borrower l = borrower \<and> ln_kind l = BkTwoPhaseReserved then
       (fold (\<lambda>j ck. if j \<noteq> i \<and> places_conflict (ln_place l) (ln_place (ls ! j))
            then report_error activation ''E0402'' (''cannot activate mutable borrow of '' @
                   quoted (ln_place l) @ '' while borrow of '' @ quoted (ln_place (ls ! j)) @
                   '' is active'') ck
            else ck) [0..<length ls] ck,
        ls[i := l\<lparr>ln_kind := BkTwoPhaseActivated, ln_origin := activation, ln_activated := True\<rparr>])
     else (ck, ls))"

definition activate_two_phase ::
  "string \<Rightarrow> src_range \<Rightarrow> checker \<Rightarrow> bstate \<Rightarrow> bstate checked" where
  "activate_two_phase borrower activation ck st =
     (case fold (activate_loan borrower activation) [0..<length (bs_borrows st)] (ck, bs_borrows st) of
       (ck, ls) \<Rightarrow> (ck, st\<lparr>bs_borrows := ls\<rparr>))"

subsection \<open>Origins of stored references\<close>

definition set_reference_origins :: "string \<Rightarrow> ref_origin list \<Rightarrow> bstate \<Rightarrow> bstate" where
  "set_reference_origins place origins st =
     (let kept = filter (\<lambda>(k, _). \<not> (k = place \<or> is_strict_child place k)) (bs_origins st)
      in st\<lparr>bs_origins := (if origins = [] then kept else kept @ [(place, append_origins origins [])])\<rparr>)"

definition promote_reference_value ::
  "sem_model \<Rightarrow> string \<Rightarrow> ref_origin list \<Rightarrow> checker \<Rightarrow> bstate \<Rightarrow> bstate checked" where
  "promote_reference_value M borrower origins ck st =
     (if origins = [] then (ck, st)
      else
        (let st = st\<lparr>bs_borrows := filter (\<lambda>l. \<not> (ln_borrower l = temporary \<and>
               list_ex (\<lambda>ro. overlaps (ln_place l) (ro_place ro) \<or> ln_place l \<in> set (ro_via ro)) origins))
               (bs_borrows st)\<rparr>
         in fold (\<lambda>ro (ck, st).
              let exempt = ro_via ro @ [borrower] in
              fold (\<lambda>parent (ck, st). begin_borrow M parent borrower (ro_mut ro) (ro_range ro) exempt ck st)
                (ro_via ro)
                (begin_borrow M (ro_place ro) borrower (ro_mut ro) (ro_range ro) exempt ck st))
              origins (ck, st)))"

definition rebind_origins ::
  "sem_model \<Rightarrow> (string \<times> ref_origin list) list \<Rightarrow> checker \<Rightarrow> bstate \<Rightarrow> bstate checked" where
  "rebind_origins M mapped ck st =
     fold (\<lambda>(target, origins) (ck, st).
         case promote_reference_value M target origins ck st of
           (ck, st) \<Rightarrow> (ck, set_reference_origins target origins st)) mapped (ck, st)"

definition bind_plain_reference ::
  "sem_model \<Rightarrow> string \<Rightarrow> expr \<Rightarrow> checker \<Rightarrow> bstate \<Rightarrow> bstate checked" where
  "bind_plain_reference M destination e ck st =
     (let mapped = (case place_of M e of
            None \<Rightarrow> []
          | Some source \<Rightarrow>
              map (\<lambda>(k, origins). (destination @ drop (length source) k, origins))
                (filter (\<lambda>(k, _). k = source \<or> is_strict_child source k) (bs_origins st)))
      in if mapped \<noteq> [] then
           (let source = the (place_of M e);
                st = (if is_copy_type M ck (type_of_place M source st) then st
                      else (kill_borrowers_under source st)\<lparr>bs_origins :=
                        filter (\<lambda>(k, _). \<not> (k = source \<or> is_strict_child source k)) (bs_origins st)\<rparr>)
            in rebind_origins M mapped ck st)
         else
           (let origins = reference_origins M e st in
            if origins = [] then (ck, st) else rebind_origins M [(destination, origins)] ck st))"

fun bind_reference_expression ::
  "sem_model \<Rightarrow> string \<Rightarrow> expr \<Rightarrow> checker \<Rightarrow> bstate \<Rightarrow> bstate checked"
and bind_reference_fields ::
  "sem_model \<Rightarrow> string \<Rightarrow> field_init list \<Rightarrow> checker \<Rightarrow> bstate \<Rightarrow> bstate checked" where
  "bind_reference_expression M destination e ck st =
     (case e of
       StructLiteralExpr _ _ _ _ fs \<Rightarrow> bind_reference_fields M destination fs ck st
     | _ \<Rightarrow> bind_plain_reference M destination e ck st)"
| "bind_reference_fields M destination [] ck st = (ck, st)"
| "bind_reference_fields M destination (f # fs) ck st =
     (case bind_reference_expression M (destination @ ''.'' @ fi_name f) (fi_value f) ck st of
       (ck, st) \<Rightarrow> bind_reference_fields M destination fs ck st)"

subsection \<open>Calls\<close>

definition is_two_phase_method_receiver :: "sem_model \<Rightarrow> expr \<Rightarrow> expr \<Rightarrow> bool" where
  "is_two_phase_method_receiver M base callee =
     (case callee of
       MemberExpr _ _ _ member \<Rightarrow>
         (case find_method M (owner_type (receiver_type M base)) member of
           None \<Rightarrow> False
         | Some sig \<Rightarrow>
             (case fs_params sig of
               [] \<Rightarrow> False
             | self # _ \<Rightarrow> ty_kind self = KRef \<and> ty_mut self))
     | _ \<Rightarrow> False)"

fun write_base :: "expr \<Rightarrow> expr" where
  "write_base (MemberExpr _ _ base _) = write_base base"
| "write_base (IndexExpr _ _ base _) = write_base base"
| "write_base e = e"

definition write_through_reference :: "sem_model \<Rightarrow> expr \<Rightarrow> checker \<Rightarrow> bstate \<Rightarrow> checker" where
  "write_through_reference M target ck st =
     (case reborrow_parent M (write_base target) of
       None \<Rightarrow> ck
     | Some parent \<Rightarrow>
         if unavailable parent st then
           report_error (expr_range target) ''E0400'' (''use of moved value/place '' @ quoted parent) ck
         else report_loans (\<lambda>l. \<not> starts_with (ln_place l) external_prefix \<and>
                places_conflict parent (ln_place l)) (expr_range target) ''E0403''
                (\<lambda>_. ''cannot write through '' @ quoted parent @ '' while it is borrowed'')
                (bs_borrows st) ck)"

text \<open>The signature that a call resolves to, with the number of implicit parameters.\<close>

definition call_signature :: "sem_model \<Rightarrow> expr \<Rightarrow> (function_sig \<times> nat) option" where
  "call_signature M callee =
     (case callee of
       NameExpr _ _ name \<Rightarrow> map_option (\<lambda>sig. (sig, 0)) (map_of (sm_functions M) name)
     | MemberExpr _ _ base member \<Rightarrow>
         map_option (\<lambda>sig. (sig, 1)) (find_method M (owner_type (receiver_type M base)) member)
     | _ \<Rightarrow> None)"

definition is_reborrow_argument :: "sem_model \<Rightarrow> nat \<Rightarrow> expr \<Rightarrow> nat \<Rightarrow> expr \<Rightarrow> bool" where
  "is_reborrow_argument M call_id callee index arg \<longleftrightarrow>
     place_of M arg \<noteq> None \<and>
     (case sm_expr_types M (expr_id arg) of
        None \<Rightarrow> False | Some t \<Rightarrow> ty_kind t = KRef \<and> ty_mut t) \<and>
     \<not> result_contains_reference M call_id \<and>
     (case call_signature M callee of
        None \<Rightarrow> False
      | Some (sig, offset) \<Rightarrow> index + offset < length (fs_params sig) \<and>
          (let parameter = fs_params sig ! (index + offset)
           in ty_kind parameter = KRef \<and> ty_mut parameter))"

definition is_shared_ref_argument :: "sem_model \<Rightarrow> expr \<Rightarrow> bool" where
  "is_shared_ref_argument M arg =
     (case sm_expr_types M (expr_id arg) of
        None \<Rightarrow> False | Some t \<Rightarrow> ty_kind t = KRef \<and> \<not> ty_mut t)"

definition release_call_guards :: "string list \<Rightarrow> bstate \<Rightarrow> bstate" where
  "release_call_guards guards st = fold kill_borrower guards st"

end
