(* ===== verification/Flow.thy ===== *)
theory Flow
  imports Loans
begin

text \<open>
  Joins of borrow states, the end of scopes, and the walk over expressions (src/borrow_flow.cpp
  and the call protocol of src/borrow_loans.cpp).
\<close>

subsection \<open>Joining states\<close>

definition join_borrows :: "loan list \<Rightarrow> loan list \<Rightarrow> loan list" where
  "join_borrows left right =
     fold (\<lambda>l out. if list_ex (\<lambda>existing. same_borrow existing l) out then out else out @ [l])
       right left"

definition join_origins ::
  "(string \<times> ref_origin list) list \<Rightarrow> (string \<times> ref_origin list) list \<Rightarrow>
     (string \<times> ref_origin list) list" where
  "join_origins left right =
     fold (\<lambda>(place, origins) out.
         AList.update place (append_origins origins
           (case map_of out place of None \<Rightarrow> [] | Some merged \<Rightarrow> merged)) out) right left"

definition merge_states :: "bstate \<Rightarrow> bstate \<Rightarrow> bstate" where
  "merge_states left right =
     (if \<not> bs_reachable left \<and> \<not> bs_reachable right then left\<lparr>bs_reachable := False\<rparr>
      else if \<not> bs_reachable left then right
      else if \<not> bs_reachable right then left
      else left\<lparr>bs_reachable := True,
                bs_moved := bs_moved left \<union> bs_moved right,
                bs_borrows := join_borrows (bs_borrows left) (bs_borrows right),
                bs_origins := join_origins (bs_origins left) (bs_origins right)\<rparr>)"

definition merge_into :: "bstate option \<Rightarrow> bstate \<Rightarrow> bstate option" where
  "merge_into accumulator st =
     (if \<not> bs_reachable st then accumulator
      else case accumulator of None \<Rightarrow> Some st | Some acc \<Rightarrow> Some (merge_states acc st))"

subsection \<open>Leaving scopes\<close>

definition report_outliving ::
  "string set \<Rightarrow> (string \<times> ref_origin list) list \<Rightarrow> checker \<Rightarrow> checker" where
  "report_outliving locals origins ck =
     fold (\<lambda>(borrower, ros) ck.
         if root_of borrower \<in> locals then ck
         else fold (\<lambda>ro ck. if root_of (ro_place ro) \<in> locals
             then report_error (ro_range ro) ''E0405'' (''reference stored in '' @ quoted borrower @
                    '' outlives local place '' @ quoted (ro_place ro)) ck
             else ck) ros ck) origins ck"

definition pop_scope :: "checker \<Rightarrow> bstate \<Rightarrow> bstate checked" where
  "pop_scope ck st =
     (let locals = set (map fst (hd (bs_scopes st)));
          ck = report_outliving locals (bs_origins st) ck
      in (ck, st\<lparr>bs_scopes := tl (bs_scopes st),
                 bs_borrows := filter (\<lambda>l. root_of (ln_borrower l) \<notin> locals) (bs_borrows st),
                 bs_moved := {m \<in> bs_moved st. root_of m \<notin> locals},
                 bs_origins := filter (\<lambda>(k, _). root_of k \<notin> locals) (bs_origins st)\<rparr>))"

function truncate_scopes :: "nat \<Rightarrow> checker \<Rightarrow> bstate \<Rightarrow> bstate checked" where
  "truncate_scopes depth ck st =
     (if depth < length (bs_scopes st)
      then case pop_scope ck st of (ck, st) \<Rightarrow> truncate_scopes depth ck st
      else (ck, st))"
  by pat_completeness auto
termination
  by (relation "measure (\<lambda>(depth, ck, st). length (bs_scopes st))")
    (auto simp: pop_scope_def Let_def)

declare truncate_scopes.simps [simp del]

subsection \<open>Expressions\<close>

definition receiver_access :: "sem_model \<Rightarrow> expr \<Rightarrow> string \<Rightarrow> access" where
  "receiver_access M base member =
     (case find_method M (owner_type (receiver_type M base)) member of
       None \<Rightarrow> AcMove
     | Some sig \<Rightarrow>
         (case fs_params sig of
           [] \<Rightarrow> AcMove
         | self # _ \<Rightarrow>
             if ty_kind self = KRef then (if ty_mut self then AcBorrowMut else AcBorrowShared)
             else AcMove))"

definition start_string :: "src_range \<Rightarrow> string" where
  "start_string r = u32_to_string (loc_line (range_begin r)) @ '':'' @
     u32_to_string (loc_column (range_begin r))"

definition is_mut_borrow :: "expr \<Rightarrow> bool" where
  "is_mut_borrow e = (case e of BorrowExpr _ _ _ m \<Rightarrow> m | _ \<Rightarrow> False)"

text \<open>The reservations for \<open>borrow mut <place>\<close> arguments, from argument \<open>i\<close> on.\<close>

fun reserve_arguments ::
  "sem_model \<Rightarrow> src_range \<Rightarrow> nat \<Rightarrow> expr list \<Rightarrow> checker \<Rightarrow> bstate \<Rightarrow> string list \<times> bstate checked" where
  "reserve_arguments M r i [] ck st = ([], ck, st)"
| "reserve_arguments M r i (arg # args) ck st =
     (case arg of
       BorrowExpr _ _ target True \<Rightarrow>
         (case place_of M target of
           Some place \<Rightarrow>
             (let rid = ''<twophase:arg:'' @ start_string r @ '':'' @ nat_to_string i @ ''>'';
                  (ck, st) = begin_two_phase_reservation M place rid r ck st;
                  (rids, result) = reserve_arguments M r (Suc i) args ck st
              in (rid # rids, result))
         | None \<Rightarrow> reserve_arguments M r (Suc i) args ck st)
     | _ \<Rightarrow> reserve_arguments M r (Suc i) args ck st)"

definition activate_all :: "string list \<Rightarrow> src_range \<Rightarrow> checker \<Rightarrow> bstate \<Rightarrow> bstate checked" where
  "activate_all rids r ck st =
     (case fold (\<lambda>rid (ck, st). activate_two_phase rid r ck st) rids (ck, st) of
       (ck, st) \<Rightarrow> (ck, fold kill_borrower rids st))"

text \<open>A \<open>borrow\<close> of something that is not a place.\<close>

definition inspect_reborrow ::
  "sem_model \<Rightarrow> expr \<Rightarrow> src_range \<Rightarrow> string \<Rightarrow> bool \<Rightarrow> checker \<Rightarrow> bstate \<Rightarrow> bstate checked" where
  "inspect_reborrow M e r parent m ck st =
     (case access_place M parent r AcRead [] ck st of
       (ck, st) \<Rightarrow>
         fold (\<lambda>ro (ck, st).
             let exempt = ro_via ro @ [temporary] in
             fold (\<lambda>ancestor (ck, st). begin_borrow M ancestor temporary m r exempt ck st) (ro_via ro)
               (begin_borrow M (ro_place ro) temporary m r exempt ck st))
           (reference_origins M e st) (ck, st))"

definition borrow_origins ::
  "sem_model \<Rightarrow> ref_origin list \<Rightarrow> src_range \<Rightarrow> bool \<Rightarrow> checker \<Rightarrow> bstate \<Rightarrow> bstate checked" where
  "borrow_origins M origins r m ck st =
     fold (\<lambda>ro (ck, st). begin_borrow M (ro_place ro) temporary m r [] ck st) origins (ck, st)"

text \<open>E0407: what \<open>await\<close> checks in an async function.\<close>

definition check_await :: "src_range \<Rightarrow> checker \<Rightarrow> bstate \<Rightarrow> checker" where
  "check_await r ck st =
     (if bs_async st then
        report_loans (\<lambda>l. ln_borrower l \<noteq> temporary \<and> is_stack_owned (ln_place l) st) r ''E0407''
          (\<lambda>l. ''safe reference to stack-owned place '' @ quoted (ln_place l) @
               '' cannot remain live across await'') (bs_borrows st) ck
      else ck)"

definition reborrow_guard :: "src_range \<Rightarrow> nat \<Rightarrow> string" where
  "reborrow_guard r i = ''<reborrow:'' @ start_string r @ '':'' @ nat_to_string i @ ''>''"

definition reservation_id :: "src_range \<Rightarrow> string" where
  "reservation_id r = ''<twophase:'' @ start_string r @ ''>''"

text \<open>The receiver and the name of a method call.\<close>

definition method_callee :: "expr \<Rightarrow> (expr \<times> string) option" where
  "method_callee callee = (case callee of MemberExpr _ _ base member \<Rightarrow> Some (base, member) | _ \<Rightarrow> None)"

lemma method_callee_Some:
  "method_callee callee = Some (base, member) \<longleftrightarrow> (\<exists>i r. callee = MemberExpr i r base member)"
  by (cases callee) (auto simp: method_callee_def)

lemma field_bound: "3 * size (fi_value f) < 3 + (3 * size f + n)"
  using size_fi_value [of f] by simp

function (sequential)
    inspect_expr :: "sem_model \<Rightarrow> expr \<Rightarrow> access \<Rightarrow> checker \<Rightarrow> bstate \<Rightarrow> bstate checked"
and inspect_fields :: "sem_model \<Rightarrow> field_init list \<Rightarrow> checker \<Rightarrow> bstate \<Rightarrow> bstate checked"
and inspect_operands :: "sem_model \<Rightarrow> asm_operand list \<Rightarrow> checker \<Rightarrow> bstate \<Rightarrow> bstate checked"
and inspect_arguments :: "sem_model \<Rightarrow> nat \<Rightarrow> src_range \<Rightarrow> expr \<Rightarrow> bool \<Rightarrow> nat \<Rightarrow> expr list \<Rightarrow>
      string list \<Rightarrow> checker \<Rightarrow> bstate \<Rightarrow> string list \<times> bstate checked"
and inspect_call_with_two_phase ::
      "sem_model \<Rightarrow> nat \<Rightarrow> src_range \<Rightarrow> expr \<Rightarrow> expr \<Rightarrow> expr list \<Rightarrow> checker \<Rightarrow> bstate \<Rightarrow> bstate checked"
and inspect_call ::
      "sem_model \<Rightarrow> nat \<Rightarrow> src_range \<Rightarrow> expr \<Rightarrow> expr list \<Rightarrow> checker \<Rightarrow> bstate \<Rightarrow> bstate checked"
and inspect_call_arguments ::
      "sem_model \<Rightarrow> nat \<Rightarrow> src_range \<Rightarrow> expr \<Rightarrow> expr list \<Rightarrow> checker \<Rightarrow> bstate \<Rightarrow> bstate checked" where
  "inspect_expr M e access ck st =
     (if \<not> bs_reachable st then (ck, st)
      else case place_of M e of
        Some place \<Rightarrow> access_place M place (expr_range e) access [] ck st
      | None \<Rightarrow>
          (case e of
            StructLiteralExpr _ _ _ _ fs \<Rightarrow> inspect_fields M fs ck st
          | UnaryExpr _ _ op operand \<Rightarrow>
              inspect_expr M operand
                (if op = ''*'' then AcRead else if op = ''move'' then AcMove else access) ck st
          | BinaryExpr _ _ _ lhs rhs \<Rightarrow>
              (case inspect_expr M lhs AcMove ck st of (ck, st) \<Rightarrow> inspect_expr M rhs AcMove ck st)
          | BorrowExpr _ r target m \<Rightarrow>
              (case place_of M target of
                Some place \<Rightarrow> begin_borrow M place temporary m r [] ck st
              | None \<Rightarrow>
                  (case reborrow_parent M target of
                    Some parent \<Rightarrow> inspect_reborrow M e r parent m ck st
                  | None \<Rightarrow>
                      (let origins = reference_origins M target st in
                       if origins \<noteq> [] then borrow_origins M origins r m ck st
                       else inspect_expr M target AcRead ck st)))
          | CallExpr i r callee _ args \<Rightarrow> inspect_call M i r callee args ck st
          | IndexExpr _ _ base index \<Rightarrow>
              (case inspect_expr M base AcRead ck st of (ck, st) \<Rightarrow> inspect_expr M index AcMove ck st)
          | AwaitExpr _ r v \<Rightarrow> inspect_expr M v AcMove (check_await r ck st) st
          | CastExpr _ _ v _ \<Rightarrow> inspect_expr M v AcMove ck st
          | AsmExpr _ _ _ operands _ \<Rightarrow> inspect_operands M operands ck st
          | _ \<Rightarrow> (ck, st)))"
| "inspect_fields M [] ck st = (ck, st)"
| "inspect_fields M (f # fs) ck st =
     (case inspect_expr M (fi_value f) AcMove ck st of (ck, st) \<Rightarrow> inspect_fields M fs ck st)"
| "inspect_operands M [] ck st = (ck, st)"
| "inspect_operands M (p # ps) ck st =
     (case (case ao_value p of None \<Rightarrow> (ck, st) | Some v \<Rightarrow> inspect_expr M v AcRead ck st) of
       (ck, st) \<Rightarrow>
         (case (if ao_out_name p = [] then (ck, st)
                else access_place M (ao_out_name p) (ao_range p) AcWrite [] ck st) of
           (ck, st) \<Rightarrow> inspect_operands M ps ck st))"
| "inspect_arguments M ci r callee skip i [] guards ck st = (guards, ck, st)"
| "inspect_arguments M ci r callee skip i (arg # args) guards ck st =
     (if skip \<and> is_mut_borrow arg then inspect_arguments M ci r callee skip (Suc i) args guards ck st
      else if is_reborrow_argument M ci callee i arg then
        (case inspect_expr M arg AcRead ck st of
          (ck, st) \<Rightarrow>
            (case begin_borrow M (the (place_of M arg)) (reborrow_guard r i) True (expr_range arg) [] ck st of
              (ck, st) \<Rightarrow>
                inspect_arguments M ci r callee skip (Suc i) args (guards @ [reborrow_guard r i]) ck st))
      else
        (case inspect_expr M arg (if is_shared_ref_argument M arg then AcRead else AcMove) ck st of
          (ck, st) \<Rightarrow> inspect_arguments M ci r callee skip (Suc i) args guards ck st))"
| "inspect_call_with_two_phase M ci r callee base args ck st =
     (case place_of M base of
       Some receiver_place \<Rightarrow>
         (case begin_two_phase_reservation M receiver_place (reservation_id r) r ck st of
           (ck, st) \<Rightarrow>
             (case inspect_arguments M ci r callee False 0 args [] ck st of
               (guards, ck, st) \<Rightarrow>
                 (case activate_two_phase (reservation_id r) r ck (release_call_guards guards st) of
                   (ck, st) \<Rightarrow> (ck, kill_borrower (reservation_id r) st))))
     | None \<Rightarrow>
         (case inspect_expr M base AcBorrowShared ck st of
           (ck, st) \<Rightarrow>
             (case inspect_arguments M ci r callee False 0 args [] ck st of
               (guards, ck, st) \<Rightarrow> (ck, release_call_guards guards st))))"
| "inspect_call M ci r callee args ck st =
     (case method_callee callee of
       Some (base, member) \<Rightarrow>
         if is_two_phase_method_receiver M base callee
         then inspect_call_with_two_phase M ci r callee base args ck st
         else
           (case inspect_expr M base (receiver_access M base member) ck st of
             (ck, st) \<Rightarrow> inspect_call_arguments M ci r callee args ck st)
     | None \<Rightarrow> inspect_call_arguments M ci r callee args ck st)"
| "inspect_call_arguments M ci r callee args ck st =
     (case reserve_arguments M r 0 args ck st of
       (rids, ck, st) \<Rightarrow>
         (case inspect_arguments M ci r callee (rids \<noteq> []) 0 args [] ck st of
           (guards, ck, st) \<Rightarrow> activate_all rids r ck (release_call_guards guards st)))"
  by pat_completeness auto
termination
proof (relation "measure (case_sum
    (case_sum (\<lambda>(M, e, ac, ck, st). 3 * size e) (case_sum (\<lambda>(M, fs, ck, st). 3 * size_list size fs)
      (\<lambda>(M, ps, ck, st). 3 * size_list size ps)))
    (case_sum
      (case_sum (\<lambda>(M, ci, r, c, skip, i, args, g, ck, st). 3 * size_list size args)
        (\<lambda>(M, ci, r, c, base, args, ck, st). 3 * (size base + size_list size args) + 1))
      (case_sum (\<lambda>(M, ci, r, c, args, ck, st). 3 * (size c + size_list size args) + 2)
        (\<lambda>(M, ci, r, c, args, ck, st). 3 * size_list size args + 1))))")
qed (auto simp: field_bound method_callee_Some dest: size_ao_value)

declare inspect_expr.simps [simp del] inspect_call.simps [simp del]
  inspect_call_with_two_phase.simps [simp del] inspect_call_arguments.simps [simp del]

end
