(* ===== verification/Liveness.thy ===== *)
theory Liveness
  imports BorrowState
begin

text \<open>
  The backward liveness analyses of the borrow checker (src/borrow_liveness.cpp): roots and full
  places. Both walk the statements from the last to the first, iterate the header of a loop at
  most \<open>max_dataflow_iterations\<close> times and record what is live before and after each statement.
\<close>

subsection \<open>Uses of an expression\<close>

fun expression_uses :: "sem_model \<Rightarrow> expr \<Rightarrow> live_set" where
  "expression_uses M (NameExpr i r name) =
     (case place_of M (NameExpr i r name) of None \<Rightarrow> {} | Some place \<Rightarrow> {root_of place})"
| "expression_uses M (StructLiteralExpr _ _ _ _ fs) =
     \<Union> (set (map (\<lambda>f. expression_uses M (fi_value f)) fs))"
| "expression_uses M (UnaryExpr _ _ _ operand) = expression_uses M operand"
| "expression_uses M (BinaryExpr _ _ _ lhs rhs) = expression_uses M lhs \<union> expression_uses M rhs"
| "expression_uses M (BorrowExpr _ _ target _) = expression_uses M target"
| "expression_uses M (CallExpr _ _ callee _ args) =
     expression_uses M callee \<union> \<Union> (set (map (expression_uses M) args))"
| "expression_uses M (MemberExpr _ _ base _) = expression_uses M base"
| "expression_uses M (IndexExpr _ _ base index) = expression_uses M base \<union> expression_uses M index"
| "expression_uses M (AwaitExpr _ _ v) = expression_uses M v"
| "expression_uses M (CastExpr _ _ v _) = expression_uses M v"
| "expression_uses M (AsmExpr _ _ _ operands _) =
     \<Union> (set (map (\<lambda>p. (case ao_value p of None \<Rightarrow> {} | Some v \<Rightarrow> expression_uses M v) \<union>
       (if ao_out_name p = [] then {} else {ao_out_name p})) operands))"
| "expression_uses M _ = {}"

text \<open>A place and the places that contain it.\<close>

definition parent_place :: "string \<Rightarrow> string option" where
  "parent_place p = (if CHR ''.'' \<in> set p
     then Some (butlast (rev (dropWhile (\<lambda>c. c \<noteq> CHR ''.'') (rev p)))) else None)"

lemma parent_place_shorter: "parent_place p = Some q \<Longrightarrow> length q < length p"
proof -
  assume "parent_place p = Some q"
  then have "CHR ''.'' \<in> set p" "q = butlast (rev (dropWhile (\<lambda>c. c \<noteq> CHR ''.'') (rev p)))"
    by (auto simp: parent_place_def split: if_splits)
  then show "length q < length p"
    using length_dropWhile_le [of "\<lambda>c. c \<noteq> CHR ''.''" "rev p"]
    by (cases p rule: rev_cases) auto
qed

function place_and_parents :: "string \<Rightarrow> live_set" where
  "place_and_parents p =
     insert p (case parent_place p of None \<Rightarrow> {} | Some q \<Rightarrow> place_and_parents q)"
  by pat_completeness auto
termination
  by (relation "measure length") (auto dest: parent_place_shorter)

declare place_and_parents.simps [simp del]

definition own_place :: "sem_model \<Rightarrow> expr \<Rightarrow> live_set" where
  "own_place M e = (case place_of M e of None \<Rightarrow> {} | Some place \<Rightarrow> place_and_parents place)"

fun expression_place_uses :: "sem_model \<Rightarrow> expr \<Rightarrow> live_set" where
  "expression_place_uses M (StructLiteralExpr i r n ts fs) =
     own_place M (StructLiteralExpr i r n ts fs) \<union>
     \<Union> (set (map (\<lambda>f. expression_place_uses M (fi_value f)) fs))"
| "expression_place_uses M (UnaryExpr i r op operand) =
     own_place M (UnaryExpr i r op operand) \<union> expression_place_uses M operand"
| "expression_place_uses M (BinaryExpr i r op lhs rhs) =
     own_place M (BinaryExpr i r op lhs rhs) \<union>
     (expression_place_uses M lhs \<union> expression_place_uses M rhs)"
| "expression_place_uses M (BorrowExpr i r target m) =
     own_place M (BorrowExpr i r target m) \<union> expression_place_uses M target"
| "expression_place_uses M (CallExpr i r callee ts args) =
     own_place M (CallExpr i r callee ts args) \<union>
     (expression_place_uses M callee \<union> \<Union> (set (map (expression_place_uses M) args)))"
| "expression_place_uses M (MemberExpr i r base member) =
     own_place M (MemberExpr i r base member) \<union> expression_place_uses M base"
| "expression_place_uses M (IndexExpr i r base index) =
     own_place M (IndexExpr i r base index) \<union>
     (expression_place_uses M base \<union> expression_place_uses M index)"
| "expression_place_uses M (AwaitExpr i r v) =
     own_place M (AwaitExpr i r v) \<union> expression_place_uses M v"
| "expression_place_uses M (CastExpr i r v t) =
     own_place M (CastExpr i r v t) \<union> expression_place_uses M v"
| "expression_place_uses M (AsmExpr i r template operands vol) =
     own_place M (AsmExpr i r template operands vol) \<union>
     \<Union> (set (map (\<lambda>p. (case ao_value p of None \<Rightarrow> {} | Some v \<Rightarrow> expression_place_uses M v) \<union>
       (if ao_out_name p = [] then {} else {ao_out_name p})) operands))"
| "expression_place_uses M e = own_place M e"

definition option_uses :: "(expr \<Rightarrow> live_set) \<Rightarrow> expr option \<Rightarrow> live_set" where
  "option_uses uses e = (case e of None \<Rightarrow> {} | Some v \<Rightarrow> uses v)"

subsection \<open>The header of a loop\<close>

text \<open>The iteration of a loop header: the flag says that it converged within \<open>n\<close> rounds.\<close>

fun live_iterate ::
  "nat \<Rightarrow> (live_set \<Rightarrow> checker \<Rightarrow> live_set \<times> checker) \<Rightarrow> live_set \<Rightarrow> checker \<Rightarrow> bool \<times> live_set \<times> checker" where
  "live_iterate 0 step header ck = (False, header, ck)"
| "live_iterate (Suc n) step header ck =
     (case step header ck of
       (next, ck) \<Rightarrow> if next = header then (True, header, ck) else live_iterate n step next ck)"

definition live_header ::
  "src_range \<Rightarrow> (live_set \<Rightarrow> checker \<Rightarrow> live_set \<times> checker) \<Rightarrow> live_set \<Rightarrow> checker \<Rightarrow> live_set \<times> checker" where
  "live_header r step live_after ck =
     (case live_iterate max_dataflow_iterations step live_after ck of
       (converged, header, ck) \<Rightarrow>
         (header, if converged then ck
            else report_error r ''E0408'' ''borrow liveness analysis did not converge; compilation stopped conservatively'' ck))"

definition set_live_before :: "nat \<Rightarrow> live_set \<Rightarrow> checker \<Rightarrow> checker" where
  "set_live_before i live ck = ck\<lparr>ck_live_before := (ck_live_before ck)(i \<mapsto> live)\<rparr>"

definition set_live_after :: "nat \<Rightarrow> live_set \<Rightarrow> checker \<Rightarrow> checker" where
  "set_live_after i live ck = ck\<lparr>ck_live_after := (ck_live_after ck)(i \<mapsto> live)\<rparr>"

definition set_places_before :: "nat \<Rightarrow> live_set \<Rightarrow> checker \<Rightarrow> checker" where
  "set_places_before i live ck = ck\<lparr>ck_places_before := (ck_places_before ck)(i \<mapsto> live)\<rparr>"

definition set_places_after :: "nat \<Rightarrow> live_set \<Rightarrow> checker \<Rightarrow> checker" where
  "set_places_after i live ck = ck\<lparr>ck_places_after := (ck_places_after ck)(i \<mapsto> live)\<rparr>"

text \<open>The target of a plain assignment to a whole binding.\<close>

definition whole_target :: "sem_model \<Rightarrow> expr \<Rightarrow> string \<Rightarrow> string option" where
  "whole_target M target op =
     (case place_of M target of
       None \<Rightarrow> None
     | Some place \<Rightarrow> if op = ''='' \<and> place = root_of place then Some place else None)"

subsection \<open>Root liveness\<close>

function (sequential) liveness_block ::
  "sem_model \<Rightarrow> block \<Rightarrow> live_set \<Rightarrow> live_set \<Rightarrow> live_set \<Rightarrow> checker \<Rightarrow> live_set \<times> checker"
and liveness_stmts ::
  "sem_model \<Rightarrow> stmt list \<Rightarrow> live_set \<Rightarrow> live_set \<Rightarrow> live_set \<Rightarrow> checker \<Rightarrow> live_set \<times> checker"
and liveness_stmt ::
  "sem_model \<Rightarrow> stmt \<Rightarrow> live_set \<Rightarrow> live_set \<Rightarrow> live_set \<Rightarrow> checker \<Rightarrow> live_set \<times> checker"
and liveness_kind ::
  "sem_model \<Rightarrow> stmt \<Rightarrow> live_set \<Rightarrow> live_set \<Rightarrow> live_set \<Rightarrow> checker \<Rightarrow> live_set \<times> checker" where
  "liveness_block M (Block i r ss) la bl cl ck = liveness_stmts M ss la bl cl ck"
| "liveness_stmts M [] la bl cl ck = (la, ck)"
| "liveness_stmts M (s # ss) la bl cl ck =
     (case liveness_stmts M ss la bl cl ck of (live, ck) \<Rightarrow> liveness_stmt M s live bl cl ck)"
| "liveness_stmt M s la bl cl ck =
     (case liveness_kind M s la bl cl (set_live_after (stmt_id s) la ck) of
       (before, ck) \<Rightarrow> (before, set_live_before (stmt_id s) before ck))"
| "liveness_kind M (LetStmt i r name m t init) la bl cl ck =
     (la - {binding_key M i name} \<union> option_uses (expression_uses M) init, ck)"
| "liveness_kind M (AssignStmt i r target op v) la bl cl ck =
     ((case whole_target M target op of
         Some place \<Rightarrow> la - {place}
       | None \<Rightarrow> la \<union> expression_uses M target) \<union> expression_uses M v, ck)"
| "liveness_kind M (ExprStmt i r e) la bl cl ck = (la \<union> expression_uses M e, ck)"
| "liveness_kind M (ReturnStmt i r v) la bl cl ck = (option_uses (expression_uses M) v, ck)"
| "liveness_kind M (BlockStmt b) la bl cl ck = liveness_block M b la bl cl ck"
| "liveness_kind M (IfStmt i r c t e) la bl cl ck =
     (case liveness_block M t la bl cl ck of
       (left, ck) \<Rightarrow>
         (case (case e of None \<Rightarrow> (la, ck) | Some b \<Rightarrow> liveness_block M b la bl cl ck) of
           (right, ck) \<Rightarrow> (left \<union> right \<union> expression_uses M c, ck)))"
| "liveness_kind M (WhileStmt i r c b) la bl cl ck =
     live_header r (\<lambda>header ck.
         case liveness_block M b header la header ck of
           (body, ck) \<Rightarrow> (la \<union> body \<union> expression_uses M c, ck)) la ck"
| "liveness_kind M (ForStmt i r name b e inclusive body) la bl cl ck =
     (case live_header r (\<lambda>header ck.
         case liveness_block M body header la header ck of
           (live, ck) \<Rightarrow> (la \<union> (live - {for_binding_key M i name}), ck)) la ck of
       (header, ck) \<Rightarrow>
         (header - {for_binding_key M i name} \<union> expression_uses M b \<union> expression_uses M e, ck))"
| "liveness_kind M (LoopStmt i r b) la bl cl ck =
     live_header r (\<lambda>header ck. liveness_block M b header la header ck) la ck"
| "liveness_kind M (BreakStmt i r) la bl cl ck = (bl, ck)"
| "liveness_kind M (ContinueStmt i r) la bl cl ck = (cl, ck)"
| "liveness_kind M (FenceStmt i r fence comp_only) la bl cl ck = (la, ck)"
| "liveness_kind M (UnsafeStmt i r b) la bl cl ck = liveness_block M b la bl cl ck"
  by pat_completeness auto
termination
  by (relation "measure (case_sum
      (case_sum (\<lambda>(M, b, la, bl, cl, ck). 2 * size b) (\<lambda>(M, ss, la, bl, cl, ck). 2 * size_list size ss))
      (case_sum (\<lambda>(M, s, la, bl, cl, ck). 2 * size s + 1) (\<lambda>(M, s, la, bl, cl, ck). 2 * size s)))")
    auto

declare liveness_stmt.simps [simp del] liveness_kind.simps [simp del]

subsection \<open>Place liveness\<close>

definition kill_place :: "string \<Rightarrow> live_set \<Rightarrow> live_set" where
  "kill_place key live = {p \<in> live. \<not> (p = key \<or> is_strict_child key p)}"

definition kill_loop_places :: "string \<Rightarrow> live_set \<Rightarrow> live_set" where
  "kill_loop_places key live = {p \<in> live. \<not> (p = key \<or> root_of p = key)}"

function (sequential) liveness_place_block ::
  "sem_model \<Rightarrow> block \<Rightarrow> live_set \<Rightarrow> live_set \<Rightarrow> live_set \<Rightarrow> checker \<Rightarrow> live_set \<times> checker"
and liveness_place_stmts ::
  "sem_model \<Rightarrow> stmt list \<Rightarrow> live_set \<Rightarrow> live_set \<Rightarrow> live_set \<Rightarrow> checker \<Rightarrow> live_set \<times> checker"
and liveness_place_stmt ::
  "sem_model \<Rightarrow> stmt \<Rightarrow> live_set \<Rightarrow> live_set \<Rightarrow> live_set \<Rightarrow> checker \<Rightarrow> live_set \<times> checker"
and liveness_place_kind ::
  "sem_model \<Rightarrow> stmt \<Rightarrow> live_set \<Rightarrow> live_set \<Rightarrow> live_set \<Rightarrow> checker \<Rightarrow> live_set \<times> checker" where
  "liveness_place_block M (Block i r ss) la bl cl ck = liveness_place_stmts M ss la bl cl ck"
| "liveness_place_stmts M [] la bl cl ck = (la, ck)"
| "liveness_place_stmts M (s # ss) la bl cl ck =
     (case liveness_place_stmts M ss la bl cl ck of
       (live, ck) \<Rightarrow> liveness_place_stmt M s live bl cl ck)"
| "liveness_place_stmt M s la bl cl ck =
     (case liveness_place_kind M s la bl cl (set_places_after (stmt_id s) la ck) of
       (before, ck) \<Rightarrow> (before, set_places_before (stmt_id s) before ck))"
| "liveness_place_kind M (LetStmt i r name m t init) la bl cl ck =
     (kill_place (binding_key M i name) la \<union> option_uses (expression_place_uses M) init, ck)"
| "liveness_place_kind M (AssignStmt i r target op v) la bl cl ck =
     ((case whole_target M target op of
         Some place \<Rightarrow> kill_place place la
       | None \<Rightarrow> la \<union> expression_place_uses M target) \<union> expression_place_uses M v, ck)"
| "liveness_place_kind M (ExprStmt i r e) la bl cl ck = (la \<union> expression_place_uses M e, ck)"
| "liveness_place_kind M (ReturnStmt i r v) la bl cl ck =
     (option_uses (expression_place_uses M) v, ck)"
| "liveness_place_kind M (BlockStmt b) la bl cl ck = liveness_place_block M b la bl cl ck"
| "liveness_place_kind M (IfStmt i r c t e) la bl cl ck =
     (case liveness_place_block M t la bl cl ck of
       (left, ck) \<Rightarrow>
         (case (case e of None \<Rightarrow> (la, ck) | Some b \<Rightarrow> liveness_place_block M b la bl cl ck) of
           (right, ck) \<Rightarrow> (left \<union> right \<union> expression_place_uses M c, ck)))"
| "liveness_place_kind M (WhileStmt i r c b) la bl cl ck =
     live_header r (\<lambda>header ck.
         case liveness_place_block M b header la header ck of
           (body, ck) \<Rightarrow> (la \<union> body \<union> expression_place_uses M c, ck)) la ck"
| "liveness_place_kind M (ForStmt i r name b e inclusive body) la bl cl ck =
     (case live_header r (\<lambda>header ck.
         case liveness_place_block M body header la header ck of
           (live, ck) \<Rightarrow> (la \<union> kill_loop_places (for_binding_key M i name) live, ck)) la ck of
       (header, ck) \<Rightarrow>
         (kill_loop_places (for_binding_key M i name) header \<union> expression_place_uses M b \<union>
          expression_place_uses M e, ck))"
| "liveness_place_kind M (LoopStmt i r b) la bl cl ck =
     live_header r (\<lambda>header ck. liveness_place_block M b header la header ck) la ck"
| "liveness_place_kind M (BreakStmt i r) la bl cl ck = (bl, ck)"
| "liveness_place_kind M (ContinueStmt i r) la bl cl ck = (cl, ck)"
| "liveness_place_kind M (FenceStmt i r fence comp_only) la bl cl ck = (la, ck)"
| "liveness_place_kind M (UnsafeStmt i r b) la bl cl ck = liveness_place_block M b la bl cl ck"
  by pat_completeness auto
termination
  by (relation "measure (case_sum
      (case_sum (\<lambda>(M, b, la, bl, cl, ck). 2 * size b) (\<lambda>(M, ss, la, bl, cl, ck). 2 * size_list size ss))
      (case_sum (\<lambda>(M, s, la, bl, cl, ck). 2 * size s + 1) (\<lambda>(M, s, la, bl, cl, ck). 2 * size s)))")
    auto

declare liveness_place_stmt.simps [simp del] liveness_place_kind.simps [simp del]

definition prepare_liveness :: "sem_model \<Rightarrow> function_decl \<Rightarrow> checker \<Rightarrow> checker" where
  "prepare_liveness M fn ck =
     (let ck = ck\<lparr>ck_live_before := Map.empty, ck_live_after := Map.empty,
                  ck_places_before := Map.empty, ck_places_after := Map.empty\<rparr>
      in case fd_body fn of
        None \<Rightarrow> ck
      | Some body \<Rightarrow>
          snd (liveness_place_block M body {} {} {} (snd (liveness_block M body {} {} {} ck))))"

definition two_phase_prefix :: string where
  "two_phase_prefix = ''<twophase:''"

definition expire_dead_loans :: "sem_model \<Rightarrow> checker \<Rightarrow> nat \<Rightarrow> bstate \<Rightarrow> bstate" where
  "expire_dead_loans M ck i st =
     (let live_roots = (case ck_live_before ck i of None \<Rightarrow> {} | Some l \<Rightarrow> l);
          live_places = (case ck_places_before ck i of None \<Rightarrow> {} | Some l \<Rightarrow> l)
      in st\<lparr>bs_borrows := filter (\<lambda>l.
            \<not> (if ln_borrower l = temporary then True
                else if starts_with (ln_borrower l) two_phase_prefix then False
                else \<not> loan_live_at M l live_roots live_places)) (bs_borrows st)\<rparr>)"

subsection \<open>Transfer functions in gen/kill form\<close>

text \<open>
  Whether a name is live before a statement depends on that name alone, so every transfer
  function has this form.
\<close>

definition gen_kill :: "(live_set \<Rightarrow> live_set \<Rightarrow> live_set \<Rightarrow> live_set) \<Rightarrow> bool" where
  "gen_kill f \<longleftrightarrow> (\<exists>G A B C. \<forall>la bl cl. f la bl cl = G \<union> (la \<inter> A) \<union> (bl \<inter> B) \<union> (cl \<inter> C))"

lemma gen_killI: "(\<And>la bl cl. f la bl cl = G \<union> (la \<inter> A) \<union> (bl \<inter> B) \<union> (cl \<inter> C)) \<Longrightarrow> gen_kill f"
  unfolding gen_kill_def by blast

lemma gk_after: "gen_kill (\<lambda>la bl cl. la)"
  by (rule gen_killI [where G = "{}" and A = UNIV and B = "{}" and C = "{}"]) simp

lemma gk_break: "gen_kill (\<lambda>la bl cl. bl)"
  by (rule gen_killI [where G = "{}" and A = "{}" and B = UNIV and C = "{}"]) simp

lemma gk_continue: "gen_kill (\<lambda>la bl cl. cl)"
  by (rule gen_killI [where G = "{}" and A = "{}" and B = "{}" and C = UNIV]) simp

lemma gk_const: "gen_kill (\<lambda>la bl cl. U)"
  by (rule gen_killI [where G = U and A = "{}" and B = "{}" and C = "{}"]) simp

lemma gk_union:
  assumes "gen_kill f" "gen_kill g"
  shows "gen_kill (\<lambda>la bl cl. f la bl cl \<union> g la bl cl)"
proof -
  obtain G A B C where f: "\<And>la bl cl. f la bl cl = G \<union> (la \<inter> A) \<union> (bl \<inter> B) \<union> (cl \<inter> C)"
    using assms(1) unfolding gen_kill_def by blast
  obtain G' A' B' C' where g: "\<And>la bl cl. g la bl cl = G' \<union> (la \<inter> A') \<union> (bl \<inter> B') \<union> (cl \<inter> C')"
    using assms(2) unfolding gen_kill_def by blast
  show ?thesis
    by (rule gen_killI [where G = "G \<union> G'" and A = "A \<union> A'" and B = "B \<union> B'" and C = "C \<union> C'"])
      (auto simp: f g)
qed

lemma gk_filter:
  assumes "gen_kill f"
  shows "gen_kill (\<lambda>la bl cl. {x \<in> f la bl cl. P x})"
proof -
  obtain G A B C where f: "\<And>la bl cl. f la bl cl = G \<union> (la \<inter> A) \<union> (bl \<inter> B) \<union> (cl \<inter> C)"
    using assms unfolding gen_kill_def by blast
  show ?thesis
    by (rule gen_killI [where G = "G \<inter> {x. P x}" and A = "A \<inter> {x. P x}" and B = "B \<inter> {x. P x}" and C = "C \<inter> {x. P x}"])
      (auto simp: f)
qed

lemma gk_diff: "gen_kill f \<Longrightarrow> gen_kill (\<lambda>la bl cl. f la bl cl - U)"
  using gk_filter [of f "\<lambda>x. x \<notin> U"] by (simp add: set_diff_eq)

lemma gk_compose:
  assumes "gen_kill f" "gen_kill g"
  shows "gen_kill (\<lambda>la bl cl. f (g la bl cl) bl cl)"
proof -
  obtain G A B C where f: "\<And>la bl cl. f la bl cl = G \<union> (la \<inter> A) \<union> (bl \<inter> B) \<union> (cl \<inter> C)"
    using assms(1) unfolding gen_kill_def by blast
  obtain G' A' B' C' where g: "\<And>la bl cl. g la bl cl = G' \<union> (la \<inter> A') \<union> (bl \<inter> B') \<union> (cl \<inter> C')"
    using assms(2) unfolding gen_kill_def by blast
  show ?thesis
    by (rule gen_killI [where G = "G \<union> (G' \<inter> A)" and A = "A' \<inter> A" and B = "B \<union> (B' \<inter> A)" and C = "C \<union> (C' \<inter> A)"])
      (auto simp: f g)
qed

lemma gk_idem:
  assumes "gen_kill f"
  shows "f (f la bl cl) bl cl = f la bl cl"
proof -
  obtain G A B C where f: "\<And>la bl cl. f la bl cl = G \<union> (la \<inter> A) \<union> (bl \<inter> B) \<union> (cl \<inter> C)"
    using assms unfolding gen_kill_def by blast
  show ?thesis
    by (auto simp: f)
qed

text \<open>The body of a loop as a function of its header and of what is live after the loop.\<close>

lemma gk_loop_body:
  assumes "gen_kill f"
  shows "gen_kill (\<lambda>h la cl. f h la h)"
proof -
  obtain G A B C where f: "\<And>la bl cl. f la bl cl = G \<union> (la \<inter> A) \<union> (bl \<inter> B) \<union> (cl \<inter> C)"
    using assms unfolding gen_kill_def by blast
  show ?thesis
    by (rule gen_killI [where G = G and A = "A \<union> C" and B = B and C = "{}"]) (auto simp: f)
qed

lemma gk_diagonal:
  assumes "gen_kill f"
  shows "gen_kill (\<lambda>la bl cl. f la la {})"
proof -
  obtain G A B C where f: "\<And>la bl cl. f la bl cl = G \<union> (la \<inter> A) \<union> (bl \<inter> B) \<union> (cl \<inter> C)"
    using assms unfolding gen_kill_def by blast
  show ?thesis
    by (rule gen_killI [where G = G and A = "A \<union> B" and B = "{}" and C = "{}"]) (auto simp: f)
qed

end
