(* ===== verification/LivenessSound.thy ===== *)
theory LivenessSound
  imports Liveness
begin

text \<open>
  Correctness of the liveness analyses: the iterations always converge, so the analysis never
  reports E0408 and touches nothing but its own tables; and what it computes covers every use
  that an execution of the statement can still make.
\<close>

subsection \<open>Convergence\<close>

definition quiet :: "checker \<Rightarrow> checker \<Rightarrow> bool" where
  "quiet ck ck' \<longleftrightarrow> ck_diags ck' = ck_diags ck \<and> ck_emitted ck' = ck_emitted ck \<and>
     ck_loops ck' = ck_loops ck \<and> ck_copy_generics ck' = ck_copy_generics ck"

lemma quiet_refl [simp]: "quiet ck ck"
  by (simp add: quiet_def)

lemma quiet_trans: "quiet a b \<Longrightarrow> quiet b c \<Longrightarrow> quiet a c"
  by (simp add: quiet_def)

lemma quiet_tables [simp]:
  "quiet ck (set_live_before i l ck') = quiet ck ck'"
  "quiet ck (set_places_before i l ck') = quiet ck ck'"
  "quiet (set_live_after i l ck) ck' = quiet ck ck'"
  "quiet (set_places_after i l ck) ck' = quiet ck ck'"
  by (simp_all add: quiet_def set_live_before_def set_places_before_def set_live_after_def
      set_places_after_def)

type_synonym transfer = "live_set \<Rightarrow> live_set \<Rightarrow> live_set \<Rightarrow> checker \<Rightarrow> live_set \<times> checker"

text \<open>A pass that computes \<open>f\<close> whatever the checker holds, and reports nothing.\<close>

definition computes :: "transfer \<Rightarrow> (live_set \<Rightarrow> live_set \<Rightarrow> live_set \<Rightarrow> live_set) \<Rightarrow> bool" where
  "computes T f \<longleftrightarrow> gen_kill f \<and>
     (\<forall>la bl cl ck. fst (T la bl cl ck) = f la bl cl \<and> quiet ck (snd (T la bl cl ck)))"

lemma computesI:
  "gen_kill f \<Longrightarrow> (\<And>la bl cl ck. fst (T la bl cl ck) = f la bl cl \<and> quiet ck (snd (T la bl cl ck))) \<Longrightarrow>
   computes T f"
  by (simp add: computes_def)

lemma computesD:
  assumes "computes T f"
  obtains ck' where "T la bl cl ck = (f la bl cl, ck')" "quiet ck ck'"
  using assms unfolding computes_def by (metis prod.collapse)

lemma live_iterate_idem:
  assumes step: "\<And>h ck. fst (step h ck) = F h \<and> quiet ck (snd (step h ck))"
    and idem: "\<And>h. F (F h) = F h"
  shows "\<exists>ck'. live_iterate (Suc (Suc n)) step la ck = (True, F la, ck') \<and> quiet ck ck'"
proof -
  obtain ck1 where 1: "step la ck = (F la, ck1)" "quiet ck ck1"
    using step [of la ck] by (metis prod.collapse)
  obtain ck2 where 2: "step (F la) ck1 = (F la, ck2)" "quiet ck1 ck2"
    using step [of "F la" ck1] idem by (metis prod.collapse)
  show ?thesis
    using 1 2(1) quiet_trans [OF 1(2) 2(2)] by (cases "F la = la") simp_all
qed

lemma live_header_idem:
  assumes "\<And>h ck. fst (step h ck) = F h \<and> quiet ck (snd (step h ck))" "\<And>h. F (F h) = F h"
  shows "fst (live_header r step la ck) = F la \<and> quiet ck (snd (live_header r step la ck))"
proof -
  have n: "max_dataflow_iterations = Suc (Suc 4094)"
    by (simp add: max_dataflow_iterations_def)
  obtain ck' where "live_iterate max_dataflow_iterations step la ck = (True, F la, ck')" "quiet ck ck'"
    using live_iterate_idem [OF assms, of 4094 la ck] unfolding n by blast
  then show ?thesis
    by (simp add: live_header_def)
qed

lemma computes_gk: "computes T f \<Longrightarrow> gen_kill f"
  by (simp add: computes_def)

text \<open>The three loop forms: the header as a function of what is live after the loop.\<close>

lemma computes_loop:
  assumes body: "computes B f"
  shows "computes (\<lambda>la bl cl. live_header r (\<lambda>h. B h la h) la) (\<lambda>la bl cl. f la la la)"
proof (rule computesI)
  note gk = gk_loop_body [OF body [unfolded computes_def, THEN conjunct1]]
  show "gen_kill (\<lambda>la bl cl. f la la la)"
    using gk_diagonal [OF gk] by simp
  show "fst (live_header r (\<lambda>h. B h la h) la ck) = f la la la \<and>
      quiet ck (snd (live_header r (\<lambda>h. B h la h) la ck))" for la ck
    using live_header_idem [of "\<lambda>h. B h la h" "\<lambda>h. f h la h" r la ck] body gk_idem [OF gk]
    by (simp add: computes_def)
qed

lemma computes_while:
  assumes body: "computes B f"
  shows "computes
    (\<lambda>la bl cl. live_header r (\<lambda>h ck. case B h la h ck of (live, ck) \<Rightarrow> (la \<union> {x \<in> live. P x} \<union> U, ck)) la)
    (\<lambda>la bl cl. la \<union> {x \<in> f la la la. P x} \<union> U)"
proof (rule computesI)
  note gk_f = gk_loop_body [OF body [unfolded computes_def, THEN conjunct1]]
  have gk: "gen_kill (\<lambda>h la cl. la \<union> {x \<in> f h la h. P x} \<union> U)"
    by (intro gk_union gk_filter gk_const gk_break gk_f)
  show "gen_kill (\<lambda>la bl cl. la \<union> {x \<in> f la la la. P x} \<union> U)"
    using gk_diagonal [OF gk] by simp
  have step: "fst (case B h la h ck of (live, ck) \<Rightarrow> (la \<union> {x \<in> live. P x} \<union> U, ck)) =
      la \<union> {x \<in> f h la h. P x} \<union> U \<and>
      quiet ck (snd (case B h la h ck of (live, ck) \<Rightarrow> (la \<union> {x \<in> live. P x} \<union> U, ck)))" for h la ck
    by (rule computesD [OF body, of h la h ck]) simp
  show "fst (live_header r (\<lambda>h ck. case B h la h ck of (live, ck) \<Rightarrow> (la \<union> {x \<in> live. P x} \<union> U, ck)) la ck) =
      la \<union> {x \<in> f la la la. P x} \<union> U \<and>
      quiet ck (snd (live_header r (\<lambda>h ck. case B h la h ck of (live, ck) \<Rightarrow> (la \<union> {x \<in> live. P x} \<union> U, ck)) la ck))"
    for la ck
    by (rule live_header_idem [OF step]) (rule gk_idem [OF gk])
qed

lemma computes_pure: "gen_kill f \<Longrightarrow> computes (\<lambda>la bl cl ck. (f la bl cl, ck)) f"
  by (simp add: computes_def)

lemma computes_if:
  assumes "computes B f" "computes C g"
  shows "computes (\<lambda>la bl cl ck. case B la bl cl ck of
      (left, ck) \<Rightarrow> (case C la bl cl ck of (right, ck) \<Rightarrow> (left \<union> right \<union> U, ck)))
    (\<lambda>la bl cl. f la bl cl \<union> g la bl cl \<union> U)"
proof (rule computesI)
  show "gen_kill (\<lambda>la bl cl. f la bl cl \<union> g la bl cl \<union> U)"
    by (rule gk_union [OF gk_union [OF assms [THEN computes_gk]] gk_const])
  fix la bl cl ck
  obtain ck1 where 1: "B la bl cl ck = (f la bl cl, ck1)" "quiet ck ck1"
    by (rule computesD [OF assms(1)])
  obtain ck2 where 2: "C la bl cl ck1 = (g la bl cl, ck2)" "quiet ck1 ck2"
    by (rule computesD [OF assms(2)])
  show "fst (case B la bl cl ck of (left, ck) \<Rightarrow>
        (case C la bl cl ck of (right, ck) \<Rightarrow> (left \<union> right \<union> U, ck))) = f la bl cl \<union> g la bl cl \<union> U \<and>
      quiet ck (snd (case B la bl cl ck of (left, ck) \<Rightarrow>
        (case C la bl cl ck of (right, ck) \<Rightarrow> (left \<union> right \<union> U, ck))))"
    using 1(1) 2(1) quiet_trans [OF 1(2) 2(2)] by simp
qed

lemma computes_seq:
  assumes "computes S f" "computes R g"
  shows "computes (\<lambda>la bl cl ck. case R la bl cl ck of (live, ck) \<Rightarrow> S live bl cl ck)
    (\<lambda>la bl cl. f (g la bl cl) bl cl)"
proof (rule computesI)
  show "gen_kill (\<lambda>la bl cl. f (g la bl cl) bl cl)"
    by (rule gk_compose [OF assms [THEN computes_gk]])
  fix la bl cl ck
  obtain ck1 where 1: "R la bl cl ck = (g la bl cl, ck1)" "quiet ck ck1"
    by (rule computesD [OF assms(2)])
  obtain ck2 where 2: "S (g la bl cl) bl cl ck1 = (f (g la bl cl) bl cl, ck2)" "quiet ck1 ck2"
    by (rule computesD [OF assms(1)])
  show "fst (case R la bl cl ck of (live, ck) \<Rightarrow> S live bl cl ck) = f (g la bl cl) bl cl \<and>
      quiet ck (snd (case R la bl cl ck of (live, ck) \<Rightarrow> S live bl cl ck))"
    using 1(1) 2(1) quiet_trans [OF 1(2) 2(2)] by simp
qed



subsection \<open>Executions\<close>

text \<open>
  The executions of a statement as far as liveness can see them: expressions evaluated and keys
  defined, in order. An execution may be cut anywhere, so the prefixes of endless executions are
  executions too.
\<close>

datatype event = EvUse expr | EvDef string | EvFor string

datatype outcome = ONormal | OBreak | OContinue | OReturn | OCut

definition use_opt :: "expr option \<Rightarrow> event list" where
  "use_opt e = (case e of None \<Rightarrow> [] | Some v \<Rightarrow> [EvUse v])"

inductive runs :: "sem_model \<Rightarrow> stmt \<Rightarrow> event list \<Rightarrow> outcome \<Rightarrow> bool"
  and runs_list :: "sem_model \<Rightarrow> stmt list \<Rightarrow> event list \<Rightarrow> outcome \<Rightarrow> bool"
  and runs_for :: "sem_model \<Rightarrow> string \<Rightarrow> block \<Rightarrow> event list \<Rightarrow> outcome \<Rightarrow> bool"
  for M where
  run_cut: "runs M s [] OCut"
| run_let: "runs M (LetStmt i r n mu t init) (use_opt init @ [EvDef (binding_key M i n)]) ONormal"
| run_assign_whole: "whole_target M target op = Some p \<Longrightarrow>
    runs M (AssignStmt i r target op v) [EvUse v, EvDef p] ONormal"
| run_assign: "whole_target M target op = None \<Longrightarrow>
    runs M (AssignStmt i r target op v) [EvUse v, EvUse target] ONormal"
| run_expr: "runs M (ExprStmt i r e) [EvUse e] ONormal"
| run_return: "runs M (ReturnStmt i r w) (use_opt w) OReturn"
| run_break: "runs M (BreakStmt i r) [] OBreak"
| run_continue: "runs M (ContinueStmt i r) [] OContinue"
| run_fence: "runs M (FenceStmt i r f co) [] ONormal"
| run_block: "runs_list M (block_stmts b) es out \<Longrightarrow> runs M (BlockStmt b) es out"
| run_unsafe: "runs_list M (block_stmts b) es out \<Longrightarrow> runs M (UnsafeStmt i r b) es out"
| run_then: "runs_list M (block_stmts b) es out \<Longrightarrow> runs M (IfStmt i r c b eb) (EvUse c # es) out"
| run_else: "runs_list M (block_stmts b) es out \<Longrightarrow>
    runs M (IfStmt i r c tb (Some b)) (EvUse c # es) out"
| run_no_else: "runs M (IfStmt i r c tb None) [EvUse c] ONormal"
| run_while_exit: "runs M (WhileStmt i r c b) [EvUse c] ONormal"
| run_while_again: "runs_list M (block_stmts b) es o1 \<Longrightarrow> o1 \<in> {ONormal, OContinue} \<Longrightarrow>
    runs M (WhileStmt i r c b) es' out \<Longrightarrow> runs M (WhileStmt i r c b) (EvUse c # es @ es') out"
| run_while_break: "runs_list M (block_stmts b) es OBreak \<Longrightarrow>
    runs M (WhileStmt i r c b) (EvUse c # es) ONormal"
| run_while_leave: "runs_list M (block_stmts b) es out \<Longrightarrow> out \<in> {OReturn, OCut} \<Longrightarrow>
    runs M (WhileStmt i r c b) (EvUse c # es) out"
| run_loop_again: "runs_list M (block_stmts b) es o1 \<Longrightarrow> o1 \<in> {ONormal, OContinue} \<Longrightarrow>
    runs M (LoopStmt i r b) es' out \<Longrightarrow> runs M (LoopStmt i r b) (es @ es') out"
| run_loop_break: "runs_list M (block_stmts b) es OBreak \<Longrightarrow> runs M (LoopStmt i r b) es ONormal"
| run_loop_leave: "runs_list M (block_stmts b) es out \<Longrightarrow> out \<in> {OReturn, OCut} \<Longrightarrow>
    runs M (LoopStmt i r b) es out"
| run_for: "runs_for M (for_binding_key M i n) b es out \<Longrightarrow>
    runs M (ForStmt i r n b1 b2 incl b) (EvUse b1 # EvUse b2 # EvFor (for_binding_key M i n) # es) out"
| run_for_exit: "runs_for M key b [] ONormal"
| run_for_again: "runs_list M (block_stmts b) es o1 \<Longrightarrow> o1 \<in> {ONormal, OContinue} \<Longrightarrow>
    runs_for M key b es' out \<Longrightarrow> runs_for M key b (EvFor key # es @ es') out"
| run_for_break: "runs_list M (block_stmts b) es OBreak \<Longrightarrow> runs_for M key b (EvFor key # es) ONormal"
| run_for_leave: "runs_list M (block_stmts b) es out \<Longrightarrow> out \<in> {OReturn, OCut} \<Longrightarrow>
    runs_for M key b (EvFor key # es) out"
| run_nil: "runs_list M [] [] ONormal"
| run_cons: "runs M s es ONormal \<Longrightarrow> runs_list M ss es' out \<Longrightarrow> runs_list M (s # ss) (es @ es') out"
| run_stop: "runs M s es out \<Longrightarrow> out \<noteq> ONormal \<Longrightarrow> runs_list M (s # ss) es out"

lemma runs_for_outcome:
  "runs M s es out \<Longrightarrow> True" "runs_list M ss es out \<Longrightarrow> True"
  "runs_for M key b es out \<Longrightarrow> out \<in> {ONormal, OReturn, OCut}"
  by (induction rule: runs_runs_list_runs_for.inducts) auto

inductive_cases runs_list_ConsE: "runs_list M (s # ss) es out"

text \<open>
  The names that the events can still read before defining them, given those read afterwards.
\<close>

fun needed :: "(expr \<Rightarrow> live_set) \<Rightarrow> (string \<Rightarrow> string \<Rightarrow> bool) \<Rightarrow> (string \<Rightarrow> string \<Rightarrow> bool) \<Rightarrow>
    event list \<Rightarrow> live_set \<Rightarrow> live_set" where
  "needed U K L [] X = X"
| "needed U K L (EvUse e # es) X = U e \<union> needed U K L es X"
| "needed U K L (EvDef k # es) X = {v \<in> needed U K L es X. \<not> K k v}"
| "needed U K L (EvFor k # es) X = {v \<in> needed U K L es X. \<not> L k v}"

lemma needed_append: "needed U K L (es @ es') X = needed U K L es (needed U K L es' X)"
  by (induction U K L es X rule: needed.induct) auto

lemma needed_mono: "X \<subseteq> Y \<Longrightarrow> needed U K L es X \<subseteq> needed U K L es Y"
  by (induction U K L es X rule: needed.induct) auto

lemma needed_use_opt [simp]: "needed U K L (use_opt e) X = option_uses U e \<union> X"
  by (cases e) (auto simp: use_opt_def option_uses_def)

fun at_outcome :: "outcome \<Rightarrow> live_set \<Rightarrow> live_set \<Rightarrow> live_set \<Rightarrow> live_set" where
  "at_outcome ONormal la bl cl = la"
| "at_outcome OBreak la bl cl = bl"
| "at_outcome OContinue la bl cl = cl"
| "at_outcome OReturn la bl cl = {}"
| "at_outcome OCut la bl cl = {}"

subsection \<open>Both analyses in closed form\<close>

lemma computes_option:
  assumes "\<And>b. b \<in> set_option e \<Longrightarrow> \<exists>f. computes (B b) f"
  shows "\<exists>f. computes (\<lambda>la bl cl ck. case e of None \<Rightarrow> (la, ck) | Some b \<Rightarrow> B b la bl cl ck) f"
proof (cases e)
  case None
  then show ?thesis
    using computes_pure [OF gk_after] by auto
next
  case (Some b)
  then show ?thesis
    using assms [of b] by auto
qed

lemma computes_recorded:
  assumes "computes K f"
    and "\<And>la bl cl ck. T la bl cl ck = (case K la bl cl (va la ck) of (b, ck) \<Rightarrow> (b, wb b ck))"
    and "\<And>la ck ck'. quiet (va la ck) ck' = quiet ck ck'" "\<And>b ck ck'. quiet ck (wb b ck') = quiet ck ck'"
  shows "computes T f"
proof (rule computesI)
  show "gen_kill f"
    using assms(1) by (simp add: computes_def)
  fix la bl cl ck
  obtain ck1 where "K la bl cl (va la ck) = (f la bl cl, ck1)" "quiet (va la ck) ck1"
    by (rule computesD [OF assms(1)])
  then show "fst (T la bl cl ck) = f la bl cl \<and> quiet ck (snd (T la bl cl ck))"
    using assms(2-4) by simp
qed

lemma computes_cong: "computes T f \<Longrightarrow> (\<And>la bl cl ck. T' la bl cl ck = T la bl cl ck) \<Longrightarrow> computes T' f"
  by (simp add: computes_def)

lemma computes_post:
  assumes "computes K f" "gen_kill (\<lambda>la bl cl. {x \<in> f la bl cl. P x} \<union> U \<union> V)"
  shows "computes (\<lambda>la bl cl ck. case K la bl cl ck of (h, ck) \<Rightarrow> ({x \<in> h. P x} \<union> U \<union> V, ck))
    (\<lambda>la bl cl. {x \<in> f la bl cl. P x} \<union> U \<union> V)"
proof (rule computesI [OF assms(2)])
  fix la bl cl ck
  obtain ck1 where "K la bl cl ck = (f la bl cl, ck1)" "quiet ck ck1"
    by (rule computesD [OF assms(1)])
  then show "fst (case K la bl cl ck of (h, ck) \<Rightarrow> ({x \<in> h. P x} \<union> U \<union> V, ck)) =
      {x \<in> f la bl cl. P x} \<union> U \<union> V \<and>
      quiet ck (snd (case K la bl cl ck of (h, ck) \<Rightarrow> ({x \<in> h. P x} \<union> U \<union> V, ck)))"
    by simp
qed

lemma computes_for:
  assumes "computes B f"
  shows "computes (\<lambda>la bl cl ck.
      case live_header r (\<lambda>h ck. case B h la h ck of (live, ck) \<Rightarrow> (la \<union> {x \<in> live. P x}, ck)) la ck of
        (h, ck) \<Rightarrow> ({x \<in> h. P x} \<union> U \<union> V, ck))
    (\<lambda>la bl cl. {x \<in> la \<union> {x \<in> f la la la. P x}. P x} \<union> U \<union> V)"
proof -
  have K: "computes (\<lambda>la bl cl. live_header r (\<lambda>h ck. case B h la h ck of (live, ck) \<Rightarrow>
      (la \<union> {x \<in> live. P x}, ck)) la) (\<lambda>la bl cl. la \<union> {x \<in> f la la la. P x})"
    using computes_while [OF assms, where P = P and U = "{}" and r = r] by simp
  show ?thesis
    by (rule computes_post [OF K], rule gk_union [OF gk_union [OF gk_filter gk_const] gk_const],
        rule computes_gk [OF K])
qed

text \<open>
  The two analyses as instances of one interface: the uses of an expression, the names that a
  definition of a key kills, those that the variable of a \<open>for\<close> loop kills, and the tables.
\<close>

locale liveness_pass =
  fixes M :: sem_model
    and Stmt :: "stmt \<Rightarrow> transfer" and Kind :: "stmt \<Rightarrow> transfer"
    and Blk :: "block \<Rightarrow> transfer" and Stmts :: "stmt list \<Rightarrow> transfer"
    and uses :: "expr \<Rightarrow> live_set"
    and killed :: "string \<Rightarrow> string \<Rightarrow> bool" and loop_killed :: "string \<Rightarrow> string \<Rightarrow> bool"
    and before :: "nat \<Rightarrow> live_set \<Rightarrow> checker \<Rightarrow> checker"
    and after :: "nat \<Rightarrow> live_set \<Rightarrow> checker \<Rightarrow> checker"
  assumes Stmt: "Stmt s la bl cl ck = (case Kind s la bl cl (after (stmt_id s) la ck) of
      (b, ck) \<Rightarrow> (b, before (stmt_id s) b ck))"
    and quiet_before: "quiet ck (before i l ck') = quiet ck ck'"
    and quiet_after: "quiet (after i l ck) ck' = quiet ck ck'"
    and Blk: "Blk (Block i r ss) la bl cl ck = Stmts ss la bl cl ck"
    and Stmts_Nil: "Stmts [] la bl cl ck = (la, ck)"
    and Stmts_Cons: "Stmts (s # ss) la bl cl ck =
      (case Stmts ss la bl cl ck of (live, ck) \<Rightarrow> Stmt s live bl cl ck)"
    and on_let: "Kind (LetStmt i r n mu t init) la bl cl ck =
      ({x \<in> la. \<not> killed (binding_key M i n) x} \<union> option_uses uses init, ck)"
    and on_assign: "Kind (AssignStmt i r target op v) la bl cl ck =
      ((case whole_target M target op of
          Some p \<Rightarrow> {x \<in> la. \<not> killed p x} | None \<Rightarrow> la \<union> uses target) \<union> uses v, ck)"
    and on_expr: "Kind (ExprStmt i r e) la bl cl ck = (la \<union> uses e, ck)"
    and on_return: "Kind (ReturnStmt i r w) la bl cl ck = (option_uses uses w, ck)"
    and on_block: "Kind (BlockStmt b) la bl cl ck = Blk b la bl cl ck"
    and on_if: "Kind (IfStmt i r c b eb) la bl cl ck =
      (case Blk b la bl cl ck of (left, ck) \<Rightarrow>
        (case (case eb of None \<Rightarrow> (la, ck) | Some b \<Rightarrow> Blk b la bl cl ck) of
          (right, ck) \<Rightarrow> (left \<union> right \<union> uses c, ck)))"
    and on_while: "Kind (WhileStmt i r c b) la bl cl ck =
      live_header r (\<lambda>h ck. case Blk b h la h ck of (body, ck) \<Rightarrow> (la \<union> body \<union> uses c, ck)) la ck"
    and on_for: "Kind (ForStmt i r n b1 b2 incl b) la bl cl ck =
      (case live_header r (\<lambda>h ck. case Blk b h la h ck of
          (live, ck) \<Rightarrow> (la \<union> {x \<in> live. \<not> loop_killed (for_binding_key M i n) x}, ck)) la ck of
        (h, ck) \<Rightarrow> ({x \<in> h. \<not> loop_killed (for_binding_key M i n) x} \<union> uses b1 \<union> uses b2, ck))"
    and on_loop: "Kind (LoopStmt i r b) la bl cl ck =
      live_header r (\<lambda>h ck. Blk b h la h ck) la ck"
    and on_break: "Kind (BreakStmt i r) la bl cl ck = (bl, ck)"
    and on_continue: "Kind (ContinueStmt i r) la bl cl ck = (cl, ck)"
    and on_fence: "Kind (FenceStmt i r f co) la bl cl ck = (la, ck)"
    and on_unsafe: "Kind (UnsafeStmt i r b) la bl cl ck = Blk b la bl cl ck"
begin

lemma computes_stmt: "computes (Kind s) f \<Longrightarrow> computes (Stmt s) f"
  by (erule computes_recorded [where va = "after (stmt_id s)" and wb = "before (stmt_id s)"])
    (simp_all add: Stmt quiet_before quiet_after)

lemma computes_stmtI: "computes T f \<Longrightarrow> (\<And>la bl cl ck. Kind s la bl cl ck = T la bl cl ck) \<Longrightarrow>
   computes (Stmt s) f"
  using computes_stmt computes_cong by metis

lemma computes_stmts:
  "(\<And>s. s \<in> set ss \<Longrightarrow> \<exists>f. computes (Stmt s) f) \<Longrightarrow> \<exists>f. computes (Stmts ss) f"
proof (induction ss)
  case Nil
  show ?case
    by (rule exI, rule computes_cong [OF computes_pure [OF gk_after]]) (simp add: Stmts_Nil)
next
  case (Cons s ss)
  then obtain f g where "computes (Stmt s) f" "computes (Stmts ss) g"
    by fastforce
  from computes_seq [OF this] show ?case
    by (intro exI, rule computes_cong) (simp_all add: Stmts_Cons)
qed

lemma gk_assign: "gen_kill (\<lambda>la bl cl. (case t of Some p \<Rightarrow> {x \<in> la. \<not> killed p x} | None \<Rightarrow> la \<union> U) \<union> V)"
  by (cases t; simp; intro gk_union gk_const gk_filter gk_after)

text \<open>Each statement form, given the blocks in it.\<close>

lemma computes_let:
  "computes (Stmt (LetStmt i r n mu t init))
     (\<lambda>la bl cl. {x \<in> la. \<not> killed (binding_key M i n) x} \<union> option_uses uses init)"
  by (rule computes_stmtI [OF computes_pure [OF gk_union [OF gk_filter [OF gk_after] gk_const]]])
    (rule on_let)

lemma computes_assign:
  "computes (Stmt (AssignStmt i r target op v)) (\<lambda>la bl cl. (case whole_target M target op of
      Some p \<Rightarrow> {x \<in> la. \<not> killed p x} | None \<Rightarrow> la \<union> uses target) \<union> uses v)"
  by (rule computes_stmtI [OF computes_pure [OF gk_assign]]) (rule on_assign)

lemma computes_expr: "computes (Stmt (ExprStmt i r e)) (\<lambda>la bl cl. la \<union> uses e)"
  by (rule computes_stmtI [OF computes_pure [OF gk_union [OF gk_after gk_const]]]) (rule on_expr)

lemma computes_return: "computes (Stmt (ReturnStmt i r w)) (\<lambda>la bl cl. option_uses uses w)"
  by (rule computes_stmtI [OF computes_pure [OF gk_const]]) (rule on_return)

lemma computes_jumps:
  "computes (Stmt (BreakStmt i r)) (\<lambda>la bl cl. bl)"
  "computes (Stmt (ContinueStmt i r)) (\<lambda>la bl cl. cl)"
  "computes (Stmt (FenceStmt i r f co)) (\<lambda>la bl cl. la)"
  by (rule computes_stmtI [OF computes_pure [OF gk_break]], rule on_break)
    (rule computes_stmtI [OF computes_pure [OF gk_continue]], rule on_continue,
      rule computes_stmtI [OF computes_pure [OF gk_after]], rule on_fence)

lemma computes_nested:
  assumes "computes (Blk b) f"
  shows "computes (Stmt (BlockStmt b)) f" "computes (Stmt (UnsafeStmt i r b)) f"
    "computes (Stmt (WhileStmt i r c b)) (\<lambda>la bl cl. la \<union> {x \<in> f la la la. True} \<union> uses c)"
    "computes (Stmt (LoopStmt i r b)) (\<lambda>la bl cl. f la la la)"
    "computes (Stmt (ForStmt i r n b1 b2 incl b)) (\<lambda>la bl cl.
       {x \<in> la \<union> {x \<in> f la la la. \<not> loop_killed (for_binding_key M i n) x}.
          \<not> loop_killed (for_binding_key M i n) x} \<union> uses b1 \<union> uses b2)"
proof -
  show "computes (Stmt (BlockStmt b)) f" "computes (Stmt (UnsafeStmt i r b)) f"
    using computes_stmtI [OF assms] on_block on_unsafe by auto
  show "computes (Stmt (WhileStmt i r c b)) (\<lambda>la bl cl. la \<union> {x \<in> f la la la. True} \<union> uses c)"
    by (rule computes_stmtI [OF computes_while [OF assms]]) (simp add: on_while)
  show "computes (Stmt (LoopStmt i r b)) (\<lambda>la bl cl. f la la la)"
    by (rule computes_stmtI [OF computes_loop [OF assms]]) (rule on_loop)
  show "computes (Stmt (ForStmt i r n b1 b2 incl b)) (\<lambda>la bl cl.
       {x \<in> la \<union> {x \<in> f la la la. \<not> loop_killed (for_binding_key M i n) x}.
          \<not> loop_killed (for_binding_key M i n) x} \<union> uses b1 \<union> uses b2)"
    by (rule computes_stmtI [OF computes_for [OF assms]]) (rule on_for)
qed

lemma computes_branch:
  assumes "computes (Blk t) f"
    "computes (\<lambda>la bl cl ck. case e of None \<Rightarrow> (la, ck) | Some b \<Rightarrow> Blk b la bl cl ck) g"
  shows "computes (Stmt (IfStmt i r c t e)) (\<lambda>la bl cl. f la bl cl \<union> g la bl cl \<union> uses c)"
  by (rule computes_stmtI [OF computes_if [OF assms, of "uses c"]]) (simp only: on_if)

lemma computes_all: "\<exists>f. computes (Stmt s) f" "\<exists>f. computes (Blk b) f"
proof (induction s and b rule: stmt.induct block.induct)
  case (IfStmt i r c t e)
  moreover obtain g where "computes (\<lambda>la bl cl ck. case e of None \<Rightarrow> (la, ck) | Some b \<Rightarrow> Blk b la bl cl ck) g"
    using computes_option [of e Blk] IfStmt(2) by blast
  ultimately show ?case
    using computes_branch by blast
next
  case (Block i r ss)
  then show ?case
    using computes_stmts [of ss] computes_cong Blk by metis
next
  case (BlockStmt b)
  then show ?case
    by (elim exE) (rule exI, erule computes_nested)
next
  case (WhileStmt i r c b)
  then show ?case
    by (elim exE) (rule exI, erule computes_nested)
next
  case (ForStmt i r n b1 b2 incl b)
  then show ?case
    by (elim exE) (rule exI, erule computes_nested)
next
  case (LoopStmt i r b)
  then show ?case
    by (elim exE) (rule exI, erule computes_nested)
next
  case (UnsafeStmt i r b)
  then show ?case
    by (elim exE) (rule exI, erule computes_nested)
qed (rule exI, rule computes_let computes_assign computes_expr computes_return computes_jumps)+

text \<open>What is live, as a function of the sets live after the statement, at its break target and
  at its continue target.\<close>

definition live :: "stmt \<Rightarrow> live_set \<Rightarrow> live_set \<Rightarrow> live_set \<Rightarrow> live_set" where
  "live s la bl cl = fst (Stmt s la bl cl (new_checker no_diagnostics))"

definition live_block :: "block \<Rightarrow> live_set \<Rightarrow> live_set \<Rightarrow> live_set \<Rightarrow> live_set" where
  "live_block b la bl cl = fst (Blk b la bl cl (new_checker no_diagnostics))"

definition live_stmts :: "stmt list \<Rightarrow> live_set \<Rightarrow> live_set \<Rightarrow> live_set \<Rightarrow> live_set" where
  "live_stmts ss la bl cl = fst (Stmts ss la bl cl (new_checker no_diagnostics))"

lemma live_eq: "computes (Stmt s) f \<Longrightarrow> live s = f"
  by (intro ext) (simp add: computes_def live_def)

lemma live_block_eq: "computes (Blk b) f \<Longrightarrow> live_block b = f"
  by (intro ext) (simp add: computes_def live_block_def)

lemma live_computes: "computes (Stmt s) (live s)"
  using computes_all(1) [of s] live_eq by blast

lemma live_block_computes: "computes (Blk b) (live_block b)"
  using computes_all(2) [of b] live_block_eq by blast

lemmas live_simple [simp] = computes_let [THEN live_eq] computes_assign [THEN live_eq]
  computes_expr [THEN live_eq] computes_return [THEN live_eq] computes_jumps [THEN live_eq]

lemmas live_nested = computes_nested [OF live_block_computes, THEN live_eq]

lemma live_if: "live (IfStmt i r c t e) = (\<lambda>la bl cl. live_block t la bl cl \<union>
    (case e of None \<Rightarrow> la | Some b \<Rightarrow> live_block b la bl cl) \<union> uses c)"
proof -
  have "computes (\<lambda>la bl cl ck. case e of None \<Rightarrow> (la, ck) | Some b \<Rightarrow> Blk b la bl cl ck)
      (\<lambda>la bl cl. case e of None \<Rightarrow> la | Some b \<Rightarrow> live_block b la bl cl)"
    using live_block_computes computes_pure [OF gk_after] by (cases e) auto
  from computes_branch [OF live_block_computes this] show ?thesis
    by (rule live_eq)
qed

lemma live_stmts_simps:
  "live_stmts [] la bl cl = la"
  "live_stmts (s # ss) la bl cl = live s (live_stmts ss la bl cl) bl cl"
  using live_computes [of s]
  by (auto simp: live_stmts_def Stmts_Nil Stmts_Cons computes_def split: prod.split)

lemma live_block_stmts: "live_block (Block i r ss) = live_stmts ss"
  by (intro ext) (simp add: live_block_def live_stmts_def Blk)

lemma live_body: "live_block b = live_stmts (block_stmts b)"
  by (cases b) (simp add: live_block_stmts)

text \<open>The headers of loops are fixed points.\<close>

lemma live_block_form:
  obtains G A B C where "\<And>la bl cl. live_block b la bl cl = G \<union> (la \<inter> A) \<union> (bl \<inter> B) \<union> (cl \<inter> C)"
  using computes_gk [OF live_block_computes [of b]] unfolding gen_kill_def by blast

lemma live_while_fix:
  "live (WhileStmt i r c b) la bl cl =
     la \<union> live_block b (live (WhileStmt i r c b) la bl cl) la (live (WhileStmt i r c b) la bl cl) \<union> uses c"
proof -
  obtain G A B C where f: "\<And>la bl cl. live_block b la bl cl = G \<union> (la \<inter> A) \<union> (bl \<inter> B) \<union> (cl \<inter> C)"
    by (rule live_block_form [of b]) blast
  show ?thesis
    unfolding live_nested f by blast
qed

lemma live_loop_fix:
  "live (LoopStmt i r b) la bl cl =
     live_block b (live (LoopStmt i r b) la bl cl) la (live (LoopStmt i r b) la bl cl)"
proof -
  obtain G A B C where f: "\<And>la bl cl. live_block b la bl cl = G \<union> (la \<inter> A) \<union> (bl \<inter> B) \<union> (cl \<inter> C)"
    by (rule live_block_form [of b]) blast
  show ?thesis
    unfolding live_nested f by blast
qed

lemma live_for_fix:
  fixes i n b la
  defines "lk \<equiv> loop_killed (for_binding_key M i n)"
  defines "H \<equiv> la \<union> {x \<in> live_block b la la la. \<not> lk x}"
  shows "live (ForStmt i r n b1 b2 incl b) la bl cl = {x \<in> H. \<not> lk x} \<union> uses b1 \<union> uses b2"
    and "H = la \<union> {x \<in> live_block b H la H. \<not> lk x}"
proof -
  obtain G A B C where f: "\<And>la bl cl. live_block b la bl cl = G \<union> (la \<inter> A) \<union> (bl \<inter> B) \<union> (cl \<inter> C)"
    by (rule live_block_form [of b]) blast
  show "live (ForStmt i r n b1 b2 incl b) la bl cl = {x \<in> H. \<not> lk x} \<union> uses b1 \<union> uses b2"
    unfolding live_nested H_def lk_def ..
  show "H = la \<union> {x \<in> live_block b H la H. \<not> lk x}"
    unfolding H_def f by blast
qed

abbreviation req :: "event list \<Rightarrow> live_set \<Rightarrow> live_set" where
  "req \<equiv> needed uses killed loop_killed"

lemma while_step:
  assumes "req es X \<subseteq> live_block b (live (WhileStmt i r c b) la bl cl) la (live (WhileStmt i r c b) la bl cl)"
  shows "req (EvUse c # es) X \<subseteq> live (WhileStmt i r c b) la bl cl"
  using assms by (subst live_while_fix) auto

text \<open>The rounds of a loop: what the body needs, then what the rest of the loop needs.\<close>

lemma req_round:
  assumes body: "\<And>la bl cl. req es (at_outcome o1 la bl cl) \<subseteq> live_block b la bl cl"
    and o1: "o1 \<in> {ONormal, OContinue}" and rest: "req es' X \<subseteq> H"
  shows "req (es @ es') X \<subseteq> live_block b H la H"
proof -
  have "req es (req es' X) \<subseteq> req es (at_outcome o1 H la H)"
    using o1 rest by (intro needed_mono) auto
  then show ?thesis
    using body [of H la H] by (simp add: needed_append)
qed

lemma req_leave:
  assumes "\<And>la bl cl. req es (at_outcome out la bl cl) \<subseteq> live_block b la bl cl" "out \<in> {OReturn, OCut}"
  shows "req es (at_outcome out la bl cl) \<subseteq> live_block b H la H"
proof -
  have "at_outcome out la bl cl = at_outcome out H la H"
    using assms(2) by auto
  then show ?thesis
    using assms(1) by simp
qed

text \<open>
  An execution that leaves the statement with some outcome needs at the start nothing but what
  is live there.
\<close>

lemma runs_live:
  "runs M s es out \<Longrightarrow> (\<And>la bl cl. req es (at_outcome out la bl cl) \<subseteq> live s la bl cl)"
  "runs_list M ss es out \<Longrightarrow> (\<And>la bl cl. req es (at_outcome out la bl cl) \<subseteq> live_stmts ss la bl cl)"
  "runs_for M key b es out \<Longrightarrow>
     (\<And>la H. la \<union> {x \<in> live_block b H la H. \<not> loop_killed key x} \<subseteq> H \<Longrightarrow>
       req es (at_outcome out la {} {}) \<subseteq> la \<union> {x \<in> live_block b H la H. \<not> loop_killed key x})"
proof (induction rule: runs_runs_list_runs_for.inducts)
  case (run_while_again b es o1 i r c es' out)
  show ?case
    by (rule while_step, rule req_round [where ?o1.0 = o1])
      (use run_while_again in \<open>simp_all add: live_body\<close>)
next
  case (run_while_break b es i r c)
  show ?case
    by (rule while_step) (use run_while_break in \<open>simp add: live_body\<close>)
next
  case (run_while_leave b es out i r c)
  show ?case
    by (rule while_step, rule req_leave) (use run_while_leave in \<open>simp_all add: live_body\<close>)
next
  case (run_loop_again b es o1 i r es' out)
  show ?case
    by (subst live_loop_fix, rule req_round [where ?o1.0 = o1])
      (use run_loop_again in \<open>simp_all add: live_body\<close>)
next
  case (run_loop_break b es i r)
  show ?case
    by (subst live_loop_fix) (use run_loop_break in \<open>simp add: live_body\<close>)
next
  case (run_loop_leave b es out i r)
  show ?case
    by (subst live_loop_fix, rule req_leave) (use run_loop_leave in \<open>simp_all add: live_body\<close>)
next
  case (run_for i n b es out r b1 b2 incl)
  let ?lk = "loop_killed (for_binding_key M i n)"
  let ?H = "la \<union> {x \<in> live_block b la la la. \<not> ?lk x}"
  have "req es (at_outcome out la {} {}) \<subseteq> la \<union> {x \<in> live_block b ?H la ?H. \<not> ?lk x}"
    by (rule run_for(2)) (use live_for_fix(2) [of la b i n] in simp)
  moreover have "at_outcome out la bl cl = at_outcome out la {} {}"
    using runs_for_outcome(3) [OF run_for(1)] by auto
  ultimately show ?case
    using live_for_fix(2) [of la b i n] by (auto simp: live_for_fix(1))
next
  case (run_for_again b es o1 key es' out)
  have "req es' (at_outcome out la {} {}) \<subseteq> H"
    by (rule order_trans [OF run_for_again(4) [OF run_for_again(6)] run_for_again(6)])
  then have "req (es @ es') (at_outcome out la {} {}) \<subseteq> live_block b H la H"
    by (rule req_round [where ?o1.0 = o1, rotated 2]) (use run_for_again(2,5) in \<open>auto simp: live_body\<close>)
  then show ?case
    by auto
next
  case (run_for_break b es key)
  then have "req es la \<subseteq> live_block b H la H"
    by (simp add: live_body)
  then show ?case
    by auto
next
  case (run_for_leave b es out key)
  have "req es (at_outcome out la {} {}) \<subseteq> live_block b H la H"
    by (rule req_leave) (use run_for_leave in \<open>simp_all add: live_body\<close>)
  then show ?case
    by auto
next
  case (run_cons s es ss es' out)
  have "req es (req es' (at_outcome out la bl cl)) \<subseteq> req es (live_stmts ss la bl cl)"
    by (rule needed_mono) (rule run_cons(4))
  also have "\<dots> \<subseteq> live s (live_stmts ss la bl cl) bl cl"
    using run_cons(2) by simp
  finally show ?case
    by (simp add: live_stmts_simps needed_append)
next
  case (run_stop s es out ss)
  then have "at_outcome out la bl cl = at_outcome out (live_stmts ss la bl cl) bl cl"
    by (cases out) auto
  then show ?case
    using run_stop(2) by (simp add: live_stmts_simps)
next
  case (run_cut s)
  then show ?case
    by simp
next
  case (run_let i r n mu t init)
  show ?case
    by (auto simp: needed_append)
next
  case (run_block b es out)
  then show ?case
    by (simp add: live_nested live_body)
next
  case (run_unsafe b es out i r)
  then show ?case
    by (simp add: live_nested live_body)
next
  case (run_then b es out i r c eb)
  then show ?case
    by (auto simp: live_if live_body)
next
  case (run_else b es out i r c tb)
  then show ?case
    by (auto simp: live_if live_body)
next
  case (run_no_else i r c tb)
  show ?case
    by (auto simp: live_if)
next
  case (run_while_exit i r c b)
  show ?case
    by (subst live_while_fix) auto
qed (auto simp: live_stmts_simps)

end


interpretation roots: liveness_pass M "liveness_stmt M" "liveness_kind M" "liveness_block M"
  "liveness_stmts M" "expression_uses M" "\<lambda>k x. x = k" "\<lambda>k x. x = k" set_live_before set_live_after for M
  by unfold_locales (simp_all add: liveness_stmt.simps liveness_kind.simps set_diff_eq
      cong: option.case_cong split: prod.split)

interpretation places: liveness_pass M "liveness_place_stmt M" "liveness_place_kind M"
  "liveness_place_block M" "liveness_place_stmts M" "expression_place_uses M"
  "\<lambda>k x. x = k \<or> is_strict_child k x" "\<lambda>k x. x = k \<or> root_of x = k" set_places_before set_places_after
  for M
  by unfold_locales (simp_all add: liveness_place_stmt.simps liveness_place_kind.simps kill_place_def
      kill_loop_places_def cong: option.case_cong split: prod.split)

subsection \<open>Properties\<close>

text \<open>C26: root liveness is sound: whatever way a statement is executed, with loops repeated any
  number of times and the execution cut anywhere, every root it reads before redefining it is
  live before the statement, and so is every root live at its exit that it does not redefine.\<close>

theorem root_liveness_sound:
  assumes "runs M s es out"
  shows "needed (expression_uses M) (\<lambda>k x. x = k) (\<lambda>k x. x = k) es (at_outcome out la bl cl)
    \<subseteq> fst (liveness_stmt M s la bl cl ck)"
  using roots.runs_live(1) [OF assms] roots.live_computes [of M s] by (simp add: computes_def)

definition sample_range :: src_range where
  "sample_range = initial_range"

definition sample_loop :: stmt where
  "sample_loop = WhileStmt 0 sample_range (NameExpr 1 sample_range ''x'')
     (Block 2 sample_range [ExprStmt 3 sample_range (NameExpr 4 sample_range ''y'')])"

lemma sample_loop_runs:
  "runs empty_model sample_loop
     [EvUse (NameExpr 1 sample_range ''x''), EvUse (NameExpr 4 sample_range ''y'')] OCut"
proof -
  have r: "runs_list empty_model
      (block_stmts (Block 2 sample_range [ExprStmt 3 sample_range (NameExpr 4 sample_range ''y'')]))
      ([EvUse (NameExpr 4 sample_range ''y'')] @ []) ONormal"
    unfolding block.sel by (rule run_cons [OF run_expr run_nil])
  show ?thesis
    using run_while_again [OF r _ run_cut, of 0 sample_range "NameExpr 1 sample_range ''x''"]
    by (simp add: sample_loop_def)
qed

theorem root_liveness_sound_witness:
  "''y'' \<in> fst (liveness_stmt empty_model sample_loop {} {} {} (new_checker no_diagnostics))"
  using root_liveness_sound [OF sample_loop_runs, of "{}" "{}" "{}" "new_checker no_diagnostics"]
  by (auto simp: empty_model_def empty_hir_def root_of_def)

text \<open>Place liveness is sound in the same sense, for full places.\<close>

theorem place_liveness_sound:
  assumes "runs M s es out"
  shows "needed (expression_place_uses M) (\<lambda>k x. x = k \<or> is_strict_child k x)
      (\<lambda>k x. x = k \<or> root_of x = k) es (at_outcome out la bl cl)
    \<subseteq> fst (liveness_place_stmt M s la bl cl ck)"
  using places.runs_live(1) [OF assms] places.live_computes [of M s] by (simp add: computes_def)

theorem place_liveness_sound_witness:
  "''y'' \<in> fst (liveness_place_stmt empty_model sample_loop {} {} {} (new_checker no_diagnostics))"
  using place_liveness_sound [OF sample_loop_runs, of "{}" "{}" "{}" "new_checker no_diagnostics"]
  by (auto simp: empty_model_def empty_hir_def own_place_def place_and_parents.simps)

lemma prepare_liveness_quiet:
  "ck_diags (prepare_liveness M fn ck) = ck_diags ck \<and>
   ck_emitted (prepare_liveness M fn ck) = ck_emitted ck"
proof (cases "fd_body fn")
  case None
  then show ?thesis
    by (simp add: prepare_liveness_def)
next
  case (Some body)
  have "quiet ck (snd (liveness_block M b la bl cl ck))" "quiet ck (snd (liveness_place_block M b la bl cl ck))"
    for b la bl cl ck
    using roots.live_block_computes [of M b] places.live_block_computes [of M b]
    by (auto simp: computes_def)
  then show ?thesis
    using Some by (simp add: prepare_liveness_def quiet_def)
qed

text \<open>C27: both liveness analyses of every function converge, however its loops are nested, so
  preparing them never reports the convergence error E0408 nor any other diagnostic.\<close>

theorem liveness_converges:
  "ck_diags (prepare_liveness M fn ck) = ck_diags ck \<and>
   ck_emitted (prepare_liveness M fn ck) = ck_emitted ck"
  by (rule prepare_liveness_quiet)

end
