(* ===== verification/Borrow.thy ===== *)
theory Borrow
  imports Flow LivenessSound
begin

text \<open>
  The walk of the borrow checker over statements, functions and modules (src/borrow.cpp).
  A loop is analysed by iterating the state of its header; the frame on top of \<open>ck_loops\<close>
  collects the states that leave the body by \<open>break\<close> and \<open>continue\<close>.
\<close>

subsection \<open>Bindings and assignments\<close>

definition bind_scope :: "string \<Rightarrow> ty \<Rightarrow> bstate \<Rightarrow> bstate" where
  "bind_scope key t st = st\<lparr>bs_scopes :=
     (case bs_scopes st of [] \<Rightarrow> [] | s # ss \<Rightarrow> AList.update key t s # ss)\<rparr>"

definition store_reference ::
  "sem_model \<Rightarrow> string \<Rightarrow> ty \<Rightarrow> ref_origin list \<Rightarrow> expr \<Rightarrow> checker \<Rightarrow> bstate \<Rightarrow> bstate checked" where
  "store_reference M key t origins v ck st =
     (let st = set_reference_origins key [] st in
      if contains_reference M t {} \<and> origins \<noteq> []
      then bind_reference_expression M key v ck st else (ck, st))"

definition check_let ::
  "sem_model \<Rightarrow> nat \<Rightarrow> string \<Rightarrow> expr option \<Rightarrow> checker \<Rightarrow> bstate \<Rightarrow> bstate checked" where
  "check_let M i name init ck st =
     (let key = binding_key M i name;
          t = (case sm_binding_types M i of None \<Rightarrow> error_type | Some t \<Rightarrow> t)
      in case init of
        None \<Rightarrow> (ck, set_reference_origins key [] (mark_initialized key (bind_scope key t st)))
      | Some e \<Rightarrow>
          (let origins = reference_origins M e st;
               (ck, st) = inspect_expr M e AcMove ck st
           in store_reference M key t origins e ck (mark_initialized key (bind_scope key t st))))"

text \<open>An assignment that introduces its target.\<close>

definition check_binding_assign ::
  "sem_model \<Rightarrow> nat \<Rightarrow> symbol_id \<Rightarrow> expr \<Rightarrow> expr \<Rightarrow> checker \<Rightarrow> bstate \<Rightarrow> bstate checked" where
  "check_binding_assign M i sid target v ck st =
     (let key = symbol_key (case target of NameExpr _ _ name \<Rightarrow> name | _ \<Rightarrow> []) sid;
          t = (case sm_assignment_binding_types M i of None \<Rightarrow> error_type | Some t \<Rightarrow> t);
          origins = reference_origins M v st;
          (ck, st) = inspect_expr M v AcMove ck st
      in store_reference M key t origins v ck (mark_initialized key (bind_scope key t st)))"

definition write_target ::
  "sem_model \<Rightarrow> string \<Rightarrow> src_range \<Rightarrow> ty \<Rightarrow> ref_origin list \<Rightarrow> expr \<Rightarrow> checker \<Rightarrow> bstate \<Rightarrow> bstate checked" where
  "write_target M place r t origins v ck st =
     (case access_place M place r AcWrite [] ck st of
       (ck, st) \<Rightarrow> store_reference M place t origins v ck (mark_initialized place st))"

text \<open>\<open>x op= v\<close>: the target is reserved while the value is inspected.\<close>

definition check_compound_assign ::
  "sem_model \<Rightarrow> src_range \<Rightarrow> string \<Rightarrow> src_range \<Rightarrow> expr \<Rightarrow> checker \<Rightarrow> bstate \<Rightarrow> bstate checked" where
  "check_compound_assign M r place tr v ck st =
     (let t = type_of_place M place st;
          origins = reference_origins M v st;
          rid = ''<twophase:assign:'' @ start_string r @ ''>'';
          (ck, st) = begin_two_phase_reservation M place rid tr ck st;
          (ck, st) = inspect_expr M v AcMove ck st;
          (ck, st) = activate_two_phase rid r ck st;
          st = kill_borrowers_under place (kill_borrower rid st)
      in write_target M place tr t origins v ck st)"

definition check_assign ::
  "sem_model \<Rightarrow> nat \<Rightarrow> src_range \<Rightarrow> expr \<Rightarrow> string \<Rightarrow> expr \<Rightarrow> checker \<Rightarrow> bstate \<Rightarrow> bstate checked" where
  "check_assign M i r target op v ck st =
     (case hm_assignment_bindings (sm_hir M) i of
       Some sid \<Rightarrow> check_binding_assign M i sid target v ck st
     | None \<Rightarrow>
         (case place_of M target of
           Some place \<Rightarrow>
             if op \<noteq> ''='' then check_compound_assign M r place (expr_range target) v ck st
             else
               (let t = type_of_place M place st;
                    origins = reference_origins M v st;
                    (ck, st) = inspect_expr M v AcMove ck (kill_borrowers_under place st)
                in write_target M place (expr_range target) t origins v ck st)
         | None \<Rightarrow>
             (let (ck, st) = (if op \<noteq> ''='' then inspect_expr M target AcRead ck st else (ck, st));
                  (ck, st) = inspect_expr M v AcMove ck st
              in (write_through_reference M target ck st, st))))"

definition check_return ::
  "sem_model \<Rightarrow> expr option \<Rightarrow> checker \<Rightarrow> bstate \<Rightarrow> bstate checked" where
  "check_return M w ck st =
     (case w of
       None \<Rightarrow> (ck, st\<lparr>bs_reachable := False\<rparr>)
     | Some v \<Rightarrow>
         (let ck = (if result_contains_reference M (expr_id v) then
                fold (\<lambda>ro ck. if is_stack_owned (ro_place ro) st
                    then report_error (expr_range v) ''E0404'' (''reference to stack-owned place '' @
                           quoted (ro_place ro) @ '' escapes the function'') ck
                    else ck) (reference_origins M v st) ck
              else ck);
              (ck, st) = inspect_expr M v AcMove ck st
          in (ck, st\<lparr>bs_reachable := False\<rparr>)))"

text \<open>\<open>break\<close> and \<open>continue\<close> hand the state, cut to the scopes outside the loop, to its frame.\<close>

definition leave_loop ::
  "(bstate \<Rightarrow> loop_frame \<Rightarrow> loop_frame) \<Rightarrow> checker \<Rightarrow> bstate \<Rightarrow> bstate checked" where
  "leave_loop add_exit ck st =
     (case ck_loops ck of
       [] \<Rightarrow> (ck, st\<lparr>bs_reachable := False\<rparr>)
     | frame # frames \<Rightarrow>
         (case truncate_scopes (lf_depth frame) ck st of
           (ck, exit) \<Rightarrow> (ck\<lparr>ck_loops := add_exit exit frame # frames\<rparr>, st\<lparr>bs_reachable := False\<rparr>)))"

definition check_break :: "checker \<Rightarrow> bstate \<Rightarrow> bstate checked" where
  "check_break = leave_loop (\<lambda>exit f. f\<lparr>lf_breaks := lf_breaks f @ [exit]\<rparr>)"

definition check_continue :: "checker \<Rightarrow> bstate \<Rightarrow> bstate checked" where
  "check_continue = leave_loop (\<lambda>exit f. f\<lparr>lf_continues := lf_continues f @ [exit]\<rparr>)"

subsection \<open>Loops\<close>

definition with_frame ::
  "nat \<Rightarrow> (checker \<Rightarrow> bstate \<Rightarrow> bstate checked) \<Rightarrow> checker \<Rightarrow> bstate \<Rightarrow> loop_frame \<times> bstate checked" where
  "with_frame depth body ck st =
     (case body (ck\<lparr>ck_loops := \<lparr>lf_depth = depth, lf_breaks = [], lf_continues = []\<rparr> # ck_loops ck\<rparr>) st of
       (ck, st) \<Rightarrow> (hd (ck_loops ck), ck\<lparr>ck_loops := tl (ck_loops ck)\<rparr>, st))"

definition merge_all :: "bstate list \<Rightarrow> bstate option \<Rightarrow> bstate option" where
  "merge_all exits acc = fold (\<lambda>exit acc. merge_into acc exit) exits acc"

definition backedge :: "bstate \<Rightarrow> loop_frame \<Rightarrow> bstate option" where
  "backedge body frame = merge_all (lf_continues frame) (merge_into None body)"

definition next_header :: "bstate \<Rightarrow> bstate option \<Rightarrow> bstate" where
  "next_header entry back = (case back of None \<Rightarrow> entry | Some b \<Rightarrow> merge_states entry b)"

text \<open>
  The iteration of a loop. A round gives the state after the condition, the next header, or
  \<open>None\<close> where the body never reaches the back edge of a \<open>loop\<close>, and the states that broke out.
\<close>

type_synonym round = "bstate \<Rightarrow> bstate option \<Rightarrow> checker \<Rightarrow>
  bstate \<times> bstate option \<times> bstate option \<times> checker"

fun dataflow_iterate ::
  "nat \<Rightarrow> round \<Rightarrow> bstate \<Rightarrow> bstate \<Rightarrow> bstate option \<Rightarrow> checker \<Rightarrow>
     bool \<times> bstate \<times> bstate \<times> bstate option \<times> checker" where
  "dataflow_iterate 0 step header exit brk ck = (False, header, exit, brk, ck)"
| "dataflow_iterate (Suc n) step header exit brk ck =
     (case step header brk ck of
       (exit, None, brk, ck) \<Rightarrow> (True, header, exit, brk, ck)
     | (exit, Some nxt, brk, ck) \<Rightarrow>
         if states_equivalent nxt header then (True, nxt, exit, brk, ck)
         else dataflow_iterate n step nxt exit brk ck)"

definition dataflow_loop ::
  "src_range \<Rightarrow> round \<Rightarrow> bstate \<Rightarrow> checker \<Rightarrow> bstate \<times> bstate \<times> bstate option \<times> checker" where
  "dataflow_loop r step entry ck =
     (case dataflow_iterate max_dataflow_iterations step entry entry None ck of
       (converged, header, exit, brk, ck) \<Rightarrow>
         (header, exit, brk, if converged then ck
            else report_error r ''E0408'' ''borrow state analysis did not converge; compilation stopped conservatively'' ck))"

definition merge_break :: "bstate \<Rightarrow> bstate option \<Rightarrow> bstate" where
  "merge_break st brk = (case brk of None \<Rightarrow> st | Some b \<Rightarrow> merge_states st b)"

definition iterator_type :: "sem_model \<Rightarrow> expr \<Rightarrow> ty" where
  "iterator_type M e = (case sm_expr_types M (expr_id e) of None \<Rightarrow> error_type | Some t \<Rightarrow> t)"

definition push_scope :: "scope \<Rightarrow> bstate \<Rightarrow> bstate" where
  "push_scope s st = st\<lparr>bs_scopes := s # bs_scopes st\<rparr>"

subsection \<open>Statements\<close>

lemma size_block_stmts [simp]: "size_list size (block_stmts b) < size b"
  by (cases b) simp

function (sequential)
    check_block :: "sem_model \<Rightarrow> block \<Rightarrow> checker \<Rightarrow> bstate \<Rightarrow> bstate checked"
and check_stmts :: "sem_model \<Rightarrow> stmt list \<Rightarrow> checker \<Rightarrow> bstate \<Rightarrow> bstate checked"
and check_stmt :: "sem_model \<Rightarrow> stmt \<Rightarrow> checker \<Rightarrow> bstate \<Rightarrow> bstate checked"
and check_kind :: "sem_model \<Rightarrow> stmt \<Rightarrow> checker \<Rightarrow> bstate \<Rightarrow> bstate checked"
and while_round :: "sem_model \<Rightarrow> expr \<Rightarrow> block \<Rightarrow> bstate \<Rightarrow> round"
and for_round :: "sem_model \<Rightarrow> string \<Rightarrow> ty \<Rightarrow> block \<Rightarrow> bstate \<Rightarrow> round"
and loop_round :: "sem_model \<Rightarrow> block \<Rightarrow> bstate \<Rightarrow> round" where
  "check_block M b ck st =
     (if \<not> bs_reachable st then (ck, st)
      else case check_stmts M (block_stmts b) ck (push_scope [] st) of
        (ck, st') \<Rightarrow> truncate_scopes (length (bs_scopes st)) ck st')"
| "check_stmts M [] ck st = (ck, st)"
| "check_stmts M (s # ss) ck st =
     (if \<not> bs_reachable st then (ck, st)
      else case check_stmt M s ck st of (ck, st) \<Rightarrow> check_stmts M ss ck st)"
| "check_stmt M s ck st =
     (if \<not> bs_reachable st then (ck, st)
      else check_kind M s ck (expire_dead_loans M ck (stmt_id s) st))"
| "check_kind M (LetStmt i r name m t init) ck st = check_let M i name init ck st"
| "check_kind M (AssignStmt i r target op v) ck st = check_assign M i r target op v ck st"
| "check_kind M (ExprStmt i r e) ck st = inspect_expr M e AcMove ck st"
| "check_kind M (ReturnStmt i r w) ck st = check_return M w ck st"
| "check_kind M (BreakStmt i r) ck st = check_break ck st"
| "check_kind M (ContinueStmt i r) ck st = check_continue ck st"
| "check_kind M (BlockStmt b) ck st = check_block M b ck st"
| "check_kind M (IfStmt i r c t e) ck st =
     (case inspect_expr M c AcMove ck st of
       (ck, st) \<Rightarrow>
         (case check_block M t ck st of
           (ck, left) \<Rightarrow>
             (case (case e of None \<Rightarrow> (ck, st) | Some b \<Rightarrow> check_block M b ck st) of
               (ck, right) \<Rightarrow> (ck, merge_states left right))))"
| "check_kind M (WhileStmt i r c b) ck st =
     (case dataflow_loop r (while_round M c b st) st ck of
       (header, exit, brk, ck) \<Rightarrow> (ck, merge_break exit brk))"
| "check_kind M (ForStmt i r name b e inclusive body) ck st =
     (case inspect_expr M b AcMove ck st of
       (ck, st) \<Rightarrow>
         (case inspect_expr M e AcMove ck st of
           (ck, st) \<Rightarrow>
             (case dataflow_loop r (for_round M (for_binding_key M i name) (iterator_type M b) body st) st ck of
               (header, exit, brk, ck) \<Rightarrow> (ck, merge_break header brk))))"
| "check_kind M (LoopStmt i r b) ck st =
     (case dataflow_loop r (loop_round M b st) st ck of
       (header, exit, Some brk, ck) \<Rightarrow> (ck, brk)
     | (header, exit, None, ck) \<Rightarrow> (ck, st\<lparr>bs_reachable := False\<rparr>))"
| "check_kind M (FenceStmt i r fence comp_only) ck st = (ck, st)"
| "check_kind M (UnsafeStmt i r b) ck st = check_block M b ck st"
| "while_round M c b entry header brk ck =
     (case inspect_expr M c AcMove ck header of
       (ck, exit) \<Rightarrow>
         (case with_frame (length (bs_scopes entry)) (check_block M b) ck exit of
           (frame, ck, body) \<Rightarrow>
             (exit, Some (next_header entry (backedge body frame)), merge_all (lf_breaks frame) brk, ck)))"
| "for_round M key t b entry header brk ck =
     (case with_frame (length (bs_scopes entry))
         (\<lambda>ck st. case check_block M b ck st of
           (ck, st) \<Rightarrow> truncate_scopes (length (bs_scopes entry)) ck st)
         ck (push_scope [(key, t)] header) of
       (frame, ck, body) \<Rightarrow>
         (header, Some (next_header entry (backedge body frame)), merge_all (lf_breaks frame) brk, ck))"
| "loop_round M b entry header brk ck =
     (case with_frame (length (bs_scopes entry)) (check_block M b) ck header of
       (frame, ck, body) \<Rightarrow>
         (header, map_option (merge_states entry) (backedge body frame),
          merge_all (lf_breaks frame) brk, ck))"
  by pat_completeness auto

termination
  by (relation "measure (case_sum
      (case_sum (\<lambda>(M, b, ck, st). 4 * size b)
        (case_sum (\<lambda>(M, ss, ck, st). 4 * size_list size ss) (\<lambda>(M, s, ck, st). 4 * size s + 1)))
      (case_sum (case_sum (\<lambda>(M, s, ck, st). 4 * size s) (\<lambda>(M, c, b, entry, h, brk, ck). 4 * size b + 1))
        (case_sum (\<lambda>(M, k, t, b, entry, h, brk, ck). 4 * size b + 1)
          (\<lambda>(M, b, entry, h, brk, ck). 4 * size b + 1))))") auto

declare check_block.simps [simp del] check_stmt.simps [simp del] check_kind.simps [simp del]
  while_round.simps [simp del] for_round.simps [simp del] loop_round.simps [simp del]

subsection \<open>Functions and modules\<close>

definition copy_generics :: "function_sig option \<Rightarrow> string set" where
  "copy_generics sig =
     (case sig of
       None \<Rightarrow> {}
     | Some s \<Rightarrow> set (map fst (filter (\<lambda>(_, bounds). ''Copy'' \<in> set bounds) (fs_bounds s))))"

definition parameter_type :: "function_sig option \<Rightarrow> nat \<Rightarrow> param \<Rightarrow> ty" where
  "parameter_type sig i p =
     (case sig of
       Some s \<Rightarrow> if i < length (fs_params s) then fs_params s ! i else type_from_ast (par_type p) {}
     | None \<Rightarrow> type_from_ast (par_type p) {})"

definition parameter_scope :: "sem_model \<Rightarrow> function_sig option \<Rightarrow> param list \<Rightarrow> scope" where
  "parameter_scope M sig ps =
     fold (\<lambda>(i, p) scope. AList.update (parameter_key M p) (parameter_type sig i p) scope)
       (zip [0..<length ps] ps) []"

definition check_function ::
  "sem_model \<Rightarrow> function_decl \<Rightarrow> function_sig option \<Rightarrow> checker \<Rightarrow> checker" where
  "check_function M fn sig ck =
     (case fd_body fn of
       None \<Rightarrow> ck
     | Some body \<Rightarrow>
         (let ck = (prepare_liveness M fn ck)\<lparr>ck_copy_generics := copy_generics sig\<rparr>;
              st = push_scope (parameter_scope M sig (fd_params fn))
                     (initial_state\<lparr>bs_async := fd_is_async fn\<rparr>);
              (ck, st) = check_block M body ck st
          in ck\<lparr>ck_loops := [], ck_copy_generics := {}\<rparr>))"

definition check_item :: "sem_model \<Rightarrow> item \<Rightarrow> checker \<Rightarrow> checker" where
  "check_item M it ck =
     (case it of
       FunctionItem fn \<Rightarrow> check_function M fn (map_of (sm_functions M) (fd_name fn)) ck
     | ImplItem im \<Rightarrow>
         (let owner = type_from_ast (im_for_type im) {} in
          fold (\<lambda>m ck. check_function M m
              (map_of (sm_functions M) (ty_name owner @ ''::'' @ fd_name m)) ck) (im_methods im) ck)
     | _ \<Rightarrow> ck)"

definition borrow_check :: "sem_model \<Rightarrow> ast_module \<Rightarrow> checker \<Rightarrow> checker" where
  "borrow_check M md ck = fold (check_item M) (am_items md) (ck\<lparr>ck_emitted := {}\<rparr>)"

end
