(* ===== verification/BorrowRules.thy ===== *)
theory BorrowRules
  imports Borrow
begin

text \<open>
  Reasoning about the walk of the borrow checker. Every phase of the walk is built from a few
  primitive operations; a predicate that these preserve is preserved by the inspection of every
  expression, by the binding of references and by the check of every statement. The interface is
  stated once as a locale and interpreted for each invariant.
\<close>

subsection \<open>Diagnostics of the checker\<close>

text \<open>A run has reported something exactly when its set of keys is not empty.\<close>

definition clean :: "checker \<Rightarrow> bool" where
  "clean ck \<longleftrightarrow> ck_emitted ck = {}"

text \<open>
  \<open>ck_le a b\<close>: from \<open>a\<close> to \<open>b\<close> the checker only reported: the diagnostics grew, and a run that
  was clean and no longer is has an error to show for it.
\<close>

definition ck_le :: "checker \<Rightarrow> checker \<Rightarrow> bool" where
  "ck_le a b \<longleftrightarrow> diag_le (ck_diags a) (ck_diags b) \<and> ck_emitted a \<subseteq> ck_emitted b \<and>
     (clean a \<longrightarrow> (if clean b then ck_diags b = ck_diags a else has_errors (ck_diags b)))"

lemma ck_le_refl [simp]: "ck_le ck ck"
  by (simp add: ck_le_def)

lemma ck_le_trans:
  assumes "ck_le a b" "ck_le b c"
  shows "ck_le a c"
proof -
  have "diag_le (ck_diags a) (ck_diags c)" "ck_emitted a \<subseteq> ck_emitted c"
    using assms diag_le_trans by (auto simp: ck_le_def)
  moreover have "has_errors (ck_diags c)" if "clean a" "\<not> clean c"
    using assms that diag_le_has_errors by (cases "clean b") (auto simp: ck_le_def)
  moreover have "ck_diags c = ck_diags a" if "clean a" "clean c"
  proof -
    have "clean b"
      using assms(2) that by (auto simp: ck_le_def clean_def)
    then show ?thesis
      using assms that by (auto simp: ck_le_def)
  qed
  ultimately show ?thesis
    by (auto simp: ck_le_def)
qed

lemma report_error_not_clean [simp]: "\<not> clean (report_error r c m ck)"
  by (auto simp: clean_def report_error_def Let_def)

lemma ck_le_report [simp]: "ck_le ck (report_error r c m ck)"
proof -
  have "has_errors (ck_diags (report_error r c m ck))" if "clean ck"
    using that by (auto simp: report_error_def clean_def Let_def)
  then show ?thesis
    by (auto simp: ck_le_def) (auto simp: report_error_def Let_def)
qed

lemma ck_le_clean: "ck_le a b \<Longrightarrow> clean b \<Longrightarrow> clean a"
  by (auto simp: ck_le_def clean_def)

text \<open>Loops that report: they report exactly on the elements that satisfy the condition.\<close>

lemma fold_report:
  assumes "\<And>x ck. x \<in> set xs \<Longrightarrow> f x ck = (if bad x then report_error (r x) (c x) (msg x) ck else ck)"
  shows "ck_le ck (fold f xs ck)"
    and "clean (fold f xs ck) \<longleftrightarrow> clean ck \<and> (\<forall>x \<in> set xs. \<not> bad x)"
    and "(\<forall>x \<in> set xs. \<not> bad x) \<Longrightarrow> fold f xs ck = ck"
proof -
  show "ck_le ck (fold f xs ck)"
    using assms
  proof (induction xs arbitrary: ck)
    case (Cons x xs)
    have "ck_le ck (f x ck)"
      using Cons.prems by auto
    moreover have "ck_le (f x ck) (fold f xs (f x ck))"
      using Cons by auto
    ultimately show ?case
      using ck_le_trans by auto
  qed simp
  show "clean (fold f xs ck) \<longleftrightarrow> clean ck \<and> (\<forall>x \<in> set xs. \<not> bad x)"
    using assms by (induction xs arbitrary: ck) auto
  show "(\<forall>x \<in> set xs. \<not> bad x) \<Longrightarrow> fold f xs ck = ck"
    using assms by (induction xs arbitrary: ck) auto
qed

lemma report_loans:
  shows ck_le_report_loans: "ck_le ck (report_loans bad r c m ls ck)"
    and clean_report_loans: "clean (report_loans bad r c m ls ck) \<longleftrightarrow> clean ck \<and> (\<forall>l \<in> set ls. \<not> bad l)"
    and report_loans_id: "(\<forall>l \<in> set ls. \<not> bad l) \<Longrightarrow> report_loans bad r c m ls ck = ck"
  unfolding report_loans_def
  by (rule fold_report [where bad = bad and r = "\<lambda>_. r" and c = "\<lambda>_. c" and msg = m]; simp)+

subsection \<open>References that are reborrowed\<close>

text \<open>
  The exemptions of \<open>begin_borrow\<close>: the references an expression reborrows through, and those that
  the recorded origins of a state were reborrowed through.
\<close>

fun derefs :: "sem_model \<Rightarrow> expr \<Rightarrow> string set" where
  "derefs M (BorrowExpr _ _ target _) =
     derefs M target \<union> (case reborrow_parent M target of None \<Rightarrow> {} | Some v \<Rightarrow> {v})"
| "derefs M (StructLiteralExpr _ _ _ _ fs) = \<Union> (set (map (\<lambda>f. derefs M (fi_value f)) fs))"
| "derefs M (UnaryExpr _ _ _ operand) = derefs M operand"
| "derefs M (BinaryExpr _ _ _ lhs rhs) = derefs M lhs \<union> derefs M rhs"
| "derefs M (CallExpr _ _ callee _ args) = derefs M callee \<union> \<Union> (set (map (derefs M) args))"
| "derefs M (MemberExpr _ _ base _) = derefs M base"
| "derefs M (IndexExpr _ _ base index) = derefs M base \<union> derefs M index"
| "derefs M (AwaitExpr _ _ v) = derefs M v"
| "derefs M (CastExpr _ _ v _) = derefs M v"
| "derefs M (AsmExpr _ _ _ operands _) =
     \<Union> (set (map (\<lambda>p. case ao_value p of None \<Rightarrow> {} | Some v \<Rightarrow> derefs M v) operands))"
| "derefs M _ = {}"

definition vias :: "ref_origin list \<Rightarrow> string set" where
  "vias os = \<Union> (set ` ro_via ` set os)"

definition stored_vias :: "bstate \<Rightarrow> string set" where
  "stored_vias st = \<Union> (vias ` snd ` set (bs_origins st))"

lemma vias_simps [simp]:
  "vias [] = {}" "vias (ro # os) = set (ro_via ro) \<union> vias os" "vias (os @ os') = vias os \<union> vias os'"
  by (auto simp: vias_def)

lemma vias_add: "vias (add_origin ro os) \<subseteq> set (ro_via ro) \<union> vias os"
  by (auto simp: add_origin_def)

lemma vias_append: "vias (append_origins os result) \<subseteq> vias os \<union> vias result"
  unfolding append_origins_def
proof (induction os arbitrary: result)
  case (Cons ro os)
  have "vias (fold add_origin os (add_origin ro result)) \<subseteq> vias os \<union> vias (add_origin ro result)"
    by (rule Cons.IH)
  then show ?case
    using vias_add [of ro result] by auto
qed simp

lemma vias_fold_append: "vias (fold append_origins oss result) \<subseteq> \<Union> (vias ` set oss) \<union> vias result"
proof (induction oss arbitrary: result)
  case (Cons os oss)
  have "vias (fold append_origins oss (append_origins os result)) \<subseteq>
      \<Union> (vias ` set oss) \<union> vias (append_origins os result)"
    by (rule Cons.IH)
  then show ?case
    using vias_append [of os result] by auto
qed simp

lemma vias_stored: "vias (stored_origins p st) \<subseteq> stored_vias st"
proof -
  have "vias (fold (\<lambda>(q, os) result.
      if p = q \<or> is_strict_child p q \<or> is_strict_child q p
      then append_origins os result else result) oss result)
    \<subseteq> \<Union> (vias ` snd ` set oss) \<union> vias result" for oss result
  proof (induction oss arbitrary: result)
    case (Cons x oss)
    let ?step = "\<lambda>(q, os) result. if p = q \<or> is_strict_child p q \<or> is_strict_child q p
      then append_origins os result else result"
    have "vias (?step x result) \<subseteq> vias (snd x) \<union> vias result"
      using vias_append by (cases x) auto
    moreover have "vias (fold ?step oss (?step x result)) \<subseteq>
        \<Union> (vias ` snd ` set oss) \<union> vias (?step x result)"
      by (rule Cons.IH)
    ultimately show ?case
      by (simp only: fold_simps(2) set_simps image_insert Union_insert) blast
  qed simp
  from this [of "bs_origins st" "[]"] show ?thesis
    by (simp add: stored_origins_def stored_vias_def)
qed

lemma vias_reborrow:
  "vias (reborrow_origins M target m r os) \<subseteq>
     vias os \<union> (case reborrow_parent M target of None \<Rightarrow> {} | Some v \<Rightarrow> {v})"
  by (auto simp: reborrow_origins_def vias_def Let_def split: option.splits if_splits)

lemma vias_receiver [simp]: "vias (receiver_origin M base member r) = {}"
  by (auto simp: receiver_origin_def Let_def split: option.split list.split)

lemma vias_structural:
  assumes sub: "\<And>e'. size e' < size e \<Longrightarrow> vias (reference_origins M e' st) \<subseteq> derefs M e' \<union> S"
  shows "vias (structural_origins M e st) \<subseteq> derefs M e \<union> S"
proof (cases e)
  case (StructLiteralExpr i r n ts fs)
  have "vias (reference_origins M (fi_value f) st) \<subseteq> derefs M (fi_value f) \<union> S" if "f \<in> set fs" for f
    using sub [of "fi_value f"] size_field_value [OF that] StructLiteralExpr by simp
  then have "\<Union> (vias ` set (map (\<lambda>f. reference_origins M (fi_value f) st) fs)) \<subseteq> derefs M e \<union> S"
    unfolding StructLiteralExpr by fastforce
  then show ?thesis
    using vias_fold_append [of "map (\<lambda>f. reference_origins M (fi_value f) st) fs" "[]"]
    unfolding StructLiteralExpr structural_origins.simps vias_simps by blast
next
  case (UnaryExpr i r op operand)
  then show ?thesis
    using sub [of operand] vias_append [of "reference_origins M operand st" "[]"] by simp
next
  case (CallExpr i r callee ts args)
  let ?recv = "case callee of
          MemberExpr _ _ base member \<Rightarrow>
            (let receiver = reference_origins M base st in
             if receiver \<noteq> [] then append_origins receiver []
             else receiver_origin M base member r)
        | _ \<Rightarrow> []"
  have "vias (reference_origins M a st) \<subseteq> derefs M a \<union> S" if "a \<in> set args" for a
    using sub [of a] size_list_arg [OF that] CallExpr by simp
  then have args: "\<Union> (vias ` set (map (\<lambda>a. reference_origins M a st) args)) \<subseteq> derefs M e \<union> S"
    unfolding CallExpr by fastforce
  have recv: "vias ?recv \<subseteq> derefs M e \<union> S"
  proof (cases callee)
    case (MemberExpr j r' base member)
    then show ?thesis
      using sub [of base] vias_append [of "reference_origins M base st" "[]"] CallExpr
      by (auto simp: Let_def)
  qed simp_all
  show ?thesis
  proof (cases "result_contains_reference M i")
    case True
    then show ?thesis
      using vias_fold_append [of "map (\<lambda>a. reference_origins M a st) args" ?recv] args recv
      unfolding CallExpr structural_origins.simps by (simp only: if_False simp_thms) blast
  qed (simp add: CallExpr)
next
  case (MemberExpr i r base member)
  then show ?thesis
    using sub [of base] vias_append [of "reference_origins M base st" "[]"] by simp
next
  case (IndexExpr i r base index)
  then show ?thesis
    using sub [of base] vias_append [of "reference_origins M base st" "[]"] by auto
next
  case (AwaitExpr i r v)
  then show ?thesis
    using sub [of v] vias_append [of "reference_origins M v st" "[]"] by simp
next
  case (CastExpr i r v t)
  then show ?thesis
    using sub [of v] vias_append [of "reference_origins M v st" "[]"] by simp
qed simp_all

lemma vias_references: "vias (reference_origins M e st) \<subseteq> derefs M e \<union> stored_vias st"
proof (induction "size e" arbitrary: e rule: less_induct)
  case less
  have structural: "vias (structural_origins M e st) \<subseteq> derefs M e \<union> stored_vias st"
    using less by (rule vias_structural)
  have stored: "vias (case place_of M e of None \<Rightarrow> [] | Some p \<Rightarrow> stored_origins p st)
      \<subseteq> derefs M e \<union> stored_vias st"
    using vias_stored by (auto split: option.split)
  show ?case
  proof (cases e)
    case (BorrowExpr i r target m)
    have "vias (reference_origins M target st) \<subseteq> derefs M target \<union> stored_vias st"
      using less [of target] BorrowExpr by simp
    then show ?thesis
      using vias_reborrow [of M target m r "reference_origins M target st"] unfolding BorrowExpr
      by (auto split: option.splits)
  qed (use structural stored in \<open>simp_all add: Let_def del: structural_origins.simps\<close>)
qed

subsection \<open>Invariants of the walk over expressions\<close>

locale loan_invariant =
  fixes M :: sem_model and D :: "string set" and P :: "checker \<times> bstate \<Rightarrow> bool"
  assumes inv_vias: "P (ck, st) \<Longrightarrow> stored_vias st \<subseteq> D"
    and inv_access: "P (ck, st) \<Longrightarrow> P (access_place M p r ac via ck st)"
    and inv_borrow: "P (ck, st) \<Longrightarrow> set via \<subseteq> insert b D \<Longrightarrow> P (begin_borrow M p b mu r via ck st)"
    and inv_reserve: "P (ck, st) \<Longrightarrow> P (begin_two_phase_reservation M p b r ck st)"
    and inv_activate: "P (ck, st) \<Longrightarrow> P (activate_two_phase b r ck st)"
    and inv_report: "P (ck, st) \<Longrightarrow> P (report_error r c msg ck, st)"
    and inv_drop: "P (ck, st) \<Longrightarrow> P (ck, st\<lparr>bs_borrows := filter Q (bs_borrows st)\<rparr>)"
begin

lemma inv_fold:
  assumes "\<And>x s. P s \<Longrightarrow> P (f x s)"
  shows "P s \<Longrightarrow> P (fold f xs s)"
  using assms by (induction xs arbitrary: s) auto

lemma inv_report_loans: "P (ck, st) \<Longrightarrow> P (report_loans bad r c msg ls ck, st)"
  unfolding report_loans_def by (induction ls arbitrary: ck) (simp_all add: inv_report)

lemma inv_kill: "P (ck, st) \<Longrightarrow> P (ck, kill_borrower b st)"
  by (simp add: kill_borrower_def inv_drop)

lemma inv_kill_all: "P (ck, st) \<Longrightarrow> P (ck, fold kill_borrower bs st)"
  by (induction bs arbitrary: st) (simp_all add: inv_kill)

lemma inv_kill_under: "P (ck, st) \<Longrightarrow> P (ck, kill_borrowers_under b st)"
  by (simp add: kill_borrowers_under_def inv_drop)

lemma inv_release: "P (ck, st) \<Longrightarrow> P (ck, release_call_guards gs st)"
  by (simp add: release_call_guards_def inv_kill_all)

text \<open>The loans on a place and on the references it was reborrowed through.\<close>

lemma inv_borrow_chain:
  assumes "P s" "set chain \<subseteq> insert b D"
  shows "P (fold (\<lambda>a (ck, st). begin_borrow M a b mu r chain ck st) as
    (begin_borrow M p b mu r chain (fst s) (snd s)))"
proof -
  have "P (begin_borrow M p b mu r chain (fst s) (snd s))"
    using assms inv_borrow by (cases s) auto
  then show ?thesis
    by (rule inv_fold [rotated]) (use assms(2) inv_borrow in auto)
qed

lemma inv_borrow_origin_list:
  assumes "P s" "vias os \<subseteq> D"
  shows "P (fold (\<lambda>ro (ck, st).
      let chain = ro_via ro @ [b] in
      fold (\<lambda>a (ck, st). begin_borrow M a b (mu ro) (r ro) chain ck st) (ro_via ro)
        (begin_borrow M (ro_place ro) b (mu ro) (r ro) chain ck st)) os s)"
  using assms
proof (induction os arbitrary: s)
  case (Cons ro os)
  then have "P (fold (\<lambda>a (ck, st). begin_borrow M a b (mu ro) (r ro) (ro_via ro @ [b]) ck st) (ro_via ro)
      (begin_borrow M (ro_place ro) b (mu ro) (r ro) (ro_via ro @ [b]) (fst s) (snd s)))"
    by (intro inv_borrow_chain) auto
  then show ?case
    using Cons by (simp add: case_prod_unfold Let_def)
qed simp

lemma inv_activate_all: "P (ck, st) \<Longrightarrow> P (activate_all rids r ck st)"
proof -
  assume "P (ck, st)"
  then have "P (fold (\<lambda>rid (ck, st). activate_two_phase rid r ck st) rids (ck, st))"
    by (rule inv_fold [rotated]) (auto intro: inv_activate)
  then show ?thesis
    by (auto simp: activate_all_def inv_kill_all split: prod.split)
qed

lemma inv_reserve_arguments: "P (ck, st) \<Longrightarrow> P (snd (reserve_arguments M r i args ck st))"
proof (induction args arbitrary: i ck st)
  case (Cons arg args)
  have "P (snd (reserve_arguments M r (Suc i) args (fst s) (snd s)))"
    if "s = begin_two_phase_reservation M p b r ck st" for p b s
    using inv_reserve [OF Cons.prems, of p b r] that Cons.IH by (cases s) auto
  then show ?case
    using Cons.IH [OF Cons.prems]
    by (auto split: expr.split option.split bool.split simp: Let_def case_prod_beta)
qed simp

lemma inv_reborrow:
  assumes "P (ck, st)" "derefs M e \<subseteq> D"
  shows "P (inspect_reborrow M e r parent mu ck st)"
proof -
  obtain ck' st' where a: "access_place M parent r AcRead [] ck st = (ck', st')"
    by fastforce
  then have P: "P (ck', st')"
    using inv_access [OF assms(1)] by metis
  then have "vias (reference_origins M e st') \<subseteq> D"
    using vias_references inv_vias assms(2) by fastforce
  with P show ?thesis
    unfolding inspect_reborrow_def a prod.case
    by (rule inv_borrow_origin_list [where r = "\<lambda>_. r" and mu = "\<lambda>_. mu"])
qed

lemma inv_borrow_origins: "P (ck, st) \<Longrightarrow> P (borrow_origins M origins r mu ck st)"
  unfolding borrow_origins_def by (rule inv_fold) (auto intro: inv_borrow)

lemma inv_await: "P (ck, st) \<Longrightarrow> P (check_await r ck st, st)"
  by (simp add: check_await_def inv_report_loans)

lemma inv_inspect_all:
  "M' = M \<Longrightarrow> derefs M e \<subseteq> D \<Longrightarrow> P (ck, st) \<Longrightarrow> P (inspect_expr M' e ac ck st)"
  "M' = M \<Longrightarrow> (\<Union>f \<in> set fs. derefs M (fi_value f)) \<subseteq> D \<Longrightarrow> P (ck, st) \<Longrightarrow> P (inspect_fields M' fs ck st)"
  "M' = M \<Longrightarrow> (\<Union>p \<in> set ps. case ao_value p of None \<Rightarrow> {} | Some v \<Rightarrow> derefs M v) \<subseteq> D \<Longrightarrow>
     P (ck, st) \<Longrightarrow> P (inspect_operands M' ps ck st)"
  "M' = M \<Longrightarrow> \<Union> (derefs M ` set args) \<subseteq> D \<Longrightarrow> P (ck, st) \<Longrightarrow>
     P (snd (inspect_arguments M' ci r callee skip i args gs ck st))"
  "M' = M \<Longrightarrow> derefs M base \<union> \<Union> (derefs M ` set args) \<subseteq> D \<Longrightarrow> P (ck, st) \<Longrightarrow>
     P (inspect_call_with_two_phase M' ci r callee base args ck st)"
  "M' = M \<Longrightarrow> derefs M callee \<union> \<Union> (derefs M ` set args) \<subseteq> D \<Longrightarrow> P (ck, st) \<Longrightarrow>
     P (inspect_call M' ci r callee args ck st)"
  "M' = M \<Longrightarrow> \<Union> (derefs M ` set args) \<subseteq> D \<Longrightarrow> P (ck, st) \<Longrightarrow>
     P (inspect_call_arguments M' ci r callee args ck st)"
proof (induction M' e ac ck st and M' fs ck st and M' ps ck st and
    M' ci r callee skip i args gs ck st and M' ci r callee base args ck st and
    M' ci r callee args ck st and M' ci r callee args ck st
    rule: inspect_expr_inspect_fields_inspect_operands_inspect_arguments_inspect_call_with_two_phase_inspect_call_inspect_call_arguments.induct)
  case (1 M' e access ck st)
  show ?case
  proof (cases "bs_reachable st \<and> place_of M' e = None")
    case True
    then have simp: "inspect_expr M' e access ck st = (case e of
            StructLiteralExpr _ _ _ _ fs \<Rightarrow> inspect_fields M' fs ck st
          | UnaryExpr _ _ op operand \<Rightarrow>
              inspect_expr M' operand
                (if op = ''*'' then AcRead else if op = ''move'' then AcMove else access) ck st
          | BinaryExpr _ _ _ lhs rhs \<Rightarrow>
              (case inspect_expr M' lhs AcMove ck st of (ck, st) \<Rightarrow> inspect_expr M' rhs AcMove ck st)
          | BorrowExpr _ r target m \<Rightarrow>
              (case place_of M' target of
                Some place \<Rightarrow> begin_borrow M' place temporary m r [] ck st
              | None \<Rightarrow>
                  (case reborrow_parent M' target of
                    Some parent \<Rightarrow> inspect_reborrow M' e r parent m ck st
                  | None \<Rightarrow>
                      (let origins = reference_origins M' target st in
                       if origins \<noteq> [] then borrow_origins M' origins r m ck st
                       else inspect_expr M' target AcRead ck st)))
          | CallExpr i r callee _ args \<Rightarrow> inspect_call M' i r callee args ck st
          | IndexExpr _ _ base index \<Rightarrow>
              (case inspect_expr M' base AcRead ck st of (ck, st) \<Rightarrow> inspect_expr M' index AcMove ck st)
          | AwaitExpr _ r v \<Rightarrow> inspect_expr M' v AcMove (check_await r ck st) st
          | CastExpr _ _ v _ \<Rightarrow> inspect_expr M' v AcMove ck st
          | AsmExpr _ _ _ operands _ \<Rightarrow> inspect_operands M' operands ck st
          | _ \<Rightarrow> (ck, st))"
      by (subst inspect_expr.simps) simp
    show ?thesis
    proof (cases e)
      case (BinaryExpr i r op lhs rhs)
      then show ?thesis
        using True 1 unfolding simp by (cases "inspect_expr M' lhs AcMove ck st") auto
    next
      case (IndexExpr i r base index)
      then show ?thesis
        using True 1 unfolding simp by (cases "inspect_expr M' base AcRead ck st") auto
    next
      case (BorrowExpr i r target m)
      then show ?thesis
        using True 1 unfolding simp
        by (auto split: option.split simp: Let_def inv_borrow inv_reborrow inv_borrow_origins)
    next
      case (AwaitExpr i r v)
      then show ?thesis
        using True 1 unfolding simp by (auto simp: inv_await)
    qed (insert True 1, unfold simp, simp_all)
  next
    case False
    then show ?thesis
      using 1 by (subst inspect_expr.simps) (auto simp: inv_access split: option.split)
  qed
next
  case (2 M' ck st)
  then show ?case by simp
next
  case (3 M' f fs ck st)
  then show ?case
    by (cases "inspect_expr M' (fi_value f) AcMove ck st") auto
next
  case (4 M' ck st)
  then show ?case by simp
next
  case (5 M' p ps ck st)
  define s where "s = (case ao_value p of None \<Rightarrow> (ck, st) | Some v \<Rightarrow> inspect_expr M' v AcRead ck st)"
  define t where "t = (if ao_out_name p = [] then (fst s, snd s)
    else access_place M' (ao_out_name p) (ao_range p) AcWrite [] (fst s) (snd s))"
  have "P s"
    using "5.prems" "5.IH"(1) by (auto simp: s_def split: option.split)
  then have "P t"
    using "5.prems" inv_access by (auto simp: t_def)
  then have "P (inspect_operands M' ps (fst t) (snd t))"
    using "5.IH"(2) [of "fst s" "snd s" "fst t" "snd t"] "5.prems" by (simp add: s_def t_def)
  then show ?case
    unfolding inspect_operands.simps s_def [symmetric] case_prod_beta t_def [symmetric] .
next
  case (6 M' ci r callee skip i guards ck st)
  then show ?case by simp
next
  case (7 M' ci r callee skip i arg args guards ck st)
  have arg: "derefs M arg \<subseteq> D" and args: "\<Union> (derefs M ` set args) \<subseteq> D"
    using "7.prems"(2) by auto
  note prems = "7.prems"(1) arg "7.prems"(3)
  consider "skip \<and> is_mut_borrow arg"
    | "\<not> (skip \<and> is_mut_borrow arg)" "is_reborrow_argument M' ci callee i arg"
    | "\<not> (skip \<and> is_mut_borrow arg)" "\<not> is_reborrow_argument M' ci callee i arg"
    by blast
  then show ?case
  proof cases
    case 1
    then show ?thesis
      using "7.IH"(1) [OF 1 "7.prems"(1) args "7.prems"(3)] by simp
  next
    case 2
    obtain x y where xy: "inspect_expr M' arg AcRead ck st = (x, y)"
      by fastforce
    obtain x' y' where b: "begin_borrow M' (the (place_of M' arg)) (reborrow_guard r i) True
        (expr_range arg) [] x y = (x', y')"
      by fastforce
    have "P (x, y)"
      using "7.IH"(2) [OF 2 prems] xy by simp
    then have "P (x', y')"
      using inv_borrow [of x y "[]"] b "7.prems"(1) by (metis empty_set empty_subsetI)
    then show ?thesis
      using 2 "7.IH"(3) [OF 2 xy [symmetric] b [symmetric] "7.prems"(1) args] xy b
      by (simp only: inspect_arguments.simps) simp
  next
    case 3
    obtain x y where xy: "inspect_expr M' arg (if is_shared_ref_argument M' arg then AcRead else AcMove)
        ck st = (x, y)"
      by fastforce
    have "P (x, y)"
      using "7.IH"(4) [OF 3 prems] xy by simp
    then show ?thesis
      using 3 "7.IH"(5) [OF 3 xy [symmetric] "7.prems"(1) args] xy
      by (simp only: inspect_arguments.simps) simp
  qed
next
  case (8 M' ci r callee base args ck st)
  show ?case
  proof (cases "place_of M' base")
    case None
    obtain x y where xy: "inspect_expr M' base AcBorrowShared ck st = (x, y)"
      by fastforce
    then have "P (snd (inspect_arguments M' ci r callee False 0 args [] x y))"
      using 8 None by simp
    then show ?thesis
      using None xy by (auto simp: inspect_call_with_two_phase.simps inv_release split: prod.split)
  next
    case (Some p)
    obtain x y where xy: "begin_two_phase_reservation M' p (reservation_id r) r ck st = (x, y)"
      by fastforce
    then have "P (x, y)"
      using inv_reserve "8.prems" by metis
    then have args: "P (snd (inspect_arguments M' ci r callee False 0 args [] x y))"
      using 8 Some xy by simp
    obtain gs x' y' where g: "inspect_arguments M' ci r callee False 0 args [] x y = (gs, x', y')"
      by (cases "inspect_arguments M' ci r callee False 0 args [] x y") auto
    have "P (activate_two_phase (reservation_id r) r x' (release_call_guards gs y'))"
      using args g by (auto intro: inv_activate inv_release)
    then show ?thesis
      using Some xy g by (auto simp: inspect_call_with_two_phase.simps inv_kill split: prod.split)
  qed
next
  case (9 M' ci r callee args ck st)
  show ?case
  proof (cases "method_callee callee")
    case None
    then show ?thesis
      using 9 by (subst inspect_call.simps) auto
  next
    case (Some bm)
    obtain base member where callee: "method_callee callee = Some (base, member)"
      using Some by (cases bm) auto
    have base: "derefs M base \<subseteq> D" and args: "\<Union> (derefs M ` set args) \<subseteq> D"
      using "9.prems" callee by (auto simp: method_callee_Some)
    show ?thesis
    proof (cases "is_two_phase_method_receiver M' base callee")
      case True
      then show ?thesis
        using "9.IH"(2) [OF callee refl True "9.prems"(1) _ "9.prems"(3)] base args callee
        by (subst inspect_call.simps) simp
    next
      case False
      obtain x y where xy: "inspect_expr M' base (receiver_access M' base member) ck st = (x, y)"
        by fastforce
      have "P (x, y)"
        using "9.IH"(3) [OF callee refl False "9.prems"(1) base "9.prems"(3)] xy by simp
      then show ?thesis
        using "9.IH"(4) [OF callee refl False xy [symmetric] "9.prems"(1) args] callee False xy
        by (subst inspect_call.simps) simp
    qed
  qed
next
  case (10 M' ci r callee args ck st)
  obtain rids x y where xy: "reserve_arguments M' r 0 args ck st = (rids, x, y)"
    by (cases "reserve_arguments M' r 0 args ck st") auto
  then have "P (x, y)"
    using inv_reserve_arguments [OF "10.prems"(3), of r 0 args] "10.prems"(1) by simp
  then have "P (snd (inspect_arguments M' ci r callee (rids \<noteq> []) 0 args [] x y))"
    using 10 xy by simp
  then show ?case
    using xy by (auto simp: inspect_call_arguments.simps inv_activate_all inv_release split: prod.split)
qed

lemma inv_inspect: "derefs M e \<subseteq> D \<Longrightarrow> P (ck, st) \<Longrightarrow> P (inspect_expr M e ac ck st)"
  by (rule inv_inspect_all(1) [OF refl])

end

subsection \<open>Invariants of statements without control flow\<close>

text \<open>
  A predicate that also survives the recording of origins, the declaration and the initialisation of
  places is preserved by bindings, assignments and returns.
\<close>

fun straight :: "stmt \<Rightarrow> bool" where
  "straight (LetStmt _ _ _ _ _ _) = True"
| "straight (AssignStmt _ _ _ _ _) = True"
| "straight (ExprStmt _ _ _) = True"
| "straight (ReturnStmt _ _ _) = True"
| "straight (FenceStmt _ _ _ _) = True"
| "straight _ = False"

fun stmt_derefs :: "sem_model \<Rightarrow> stmt \<Rightarrow> string set" where
  "stmt_derefs M (LetStmt _ _ _ _ _ init) = (case init of None \<Rightarrow> {} | Some e \<Rightarrow> derefs M e)"
| "stmt_derefs M (AssignStmt _ _ target _ v) = derefs M target \<union> derefs M v"
| "stmt_derefs M (ExprStmt _ _ e) = derefs M e"
| "stmt_derefs M (ReturnStmt _ _ w) = (case w of None \<Rightarrow> {} | Some e \<Rightarrow> derefs M e)"
| "stmt_derefs M _ = {}"

locale store_invariant = loan_invariant +
  assumes inv_origins: "P (ck, st) \<Longrightarrow> \<Union> (vias ` snd ` set os) \<subseteq> D \<Longrightarrow> P (ck, st\<lparr>bs_origins := os\<rparr>)"
    and inv_scopes: "P (ck, st) \<Longrightarrow> P (ck, st\<lparr>bs_scopes := ss\<rparr>)"
    and inv_moved: "P (ck, st) \<Longrightarrow> P (ck, st\<lparr>bs_moved := {p \<in> bs_moved st. Q p}\<rparr>)"
    and inv_leave: "P (ck, st) \<Longrightarrow> P (ck, st\<lparr>bs_reachable := False\<rparr>)"
begin

lemma inv_set_origins:
  assumes "P (ck, st)" "vias os \<subseteq> D"
  shows "P (ck, set_reference_origins p os st)"
  unfolding set_reference_origins_def Let_def
proof (rule inv_origins [OF assms(1)])
  have "\<Union> (vias ` snd ` set (filter Q (bs_origins st))) \<subseteq> D" for Q
    using inv_vias [OF assms(1)] by (auto simp: stored_vias_def)
  moreover have "vias (append_origins os []) \<subseteq> D"
    using vias_append [of os "[]"] assms(2) by auto
  ultimately show "\<Union> (vias ` snd ` set (if os = []
      then filter (\<lambda>(k, _). \<not> (k = p \<or> is_strict_child p k)) (bs_origins st)
      else filter (\<lambda>(k, _). \<not> (k = p \<or> is_strict_child p k)) (bs_origins st) @
        [(p, append_origins os [])])) \<subseteq> D"
    by simp
qed

lemma inv_init: "P (ck, st) \<Longrightarrow> P (ck, mark_initialized p st)"
  unfolding mark_initialized_def by (rule inv_moved)

lemma inv_promote:
  assumes "P (ck, st)" "vias os \<subseteq> D"
  shows "P (promote_reference_value M b os ck st)"
proof (cases "os = []")
  case False
  then show ?thesis
    unfolding promote_reference_value_def if_not_P [OF False]
    using inv_borrow_origin_list [OF inv_drop [OF assms(1)] assms(2), where mu = ro_mut and r = ro_range]
    by (simp add: Let_def)
qed (simp add: promote_reference_value_def assms)

lemma inv_rebind:
  "P (ck, st) \<Longrightarrow> \<Union> (vias ` snd ` set mapped) \<subseteq> D \<Longrightarrow> P (rebind_origins M mapped ck st)"
  unfolding rebind_origins_def
proof (induction mapped arbitrary: ck st)
  case (Cons x mapped)
  obtain p os where x: "x = (p, os)"
    by fastforce
  obtain ck' st' where b: "promote_reference_value M p os ck st = (ck', st')"
    by fastforce
  have "P (ck', st')"
    using inv_promote [OF Cons.prems(1), of os p] Cons.prems(2) b x by simp
  then have "P (ck', set_reference_origins p os st')"
    using Cons.prems(2) x by (intro inv_set_origins) auto
  then show ?case
    using Cons x b by simp
qed simp

lemma inv_bind_plain:
  assumes "P (ck, st)" "derefs M e \<subseteq> D"
  shows "P (bind_plain_reference M p e ck st)"
proof -
  define mapped where "mapped = (case place_of M e of None \<Rightarrow> []
      | Some source \<Rightarrow> map (\<lambda>(k, origins). (p @ drop (length source) k, origins))
            (filter (\<lambda>(k, _). k = source \<or> is_strict_child source k) (bs_origins st)))"
  have stored: "stored_vias st \<subseteq> D"
    using assms(1) by (rule inv_vias)
  have mapped: "\<Union> (vias ` snd ` set mapped) \<subseteq> D"
  proof (cases "place_of M e")
    case (Some source)
    then show ?thesis
      using stored by (fastforce simp: mapped_def stored_vias_def)
  qed (simp add: mapped_def)
  show ?thesis
  proof (cases "mapped = []")
    case True
    have "vias (reference_origins M e st) \<subseteq> D"
      using vias_references [of M e st] stored assms(2) by auto
    then show ?thesis
      using True assms(1) unfolding bind_plain_reference_def mapped_def [symmetric]
      by (auto simp: Let_def intro!: inv_rebind)
  next
    case False
    define source where "source = the (place_of M e)"
    have "P (ck, (kill_borrowers_under source st)\<lparr>bs_origins :=
        filter (\<lambda>(k, _). \<not> (k = source \<or> is_strict_child source k)) (bs_origins st)\<rparr>)"
      using stored assms(1) by (intro inv_origins inv_kill_under) (auto simp: stored_vias_def)
    then show ?thesis
      using False assms(1) mapped unfolding bind_plain_reference_def mapped_def [symmetric]
        source_def [symmetric]
      by (auto simp: Let_def intro!: inv_rebind)
  qed
qed

lemma inv_bind_all:
  "M' = M \<Longrightarrow> derefs M e \<subseteq> D \<Longrightarrow> P (ck, st) \<Longrightarrow> P (bind_reference_expression M' p e ck st)"
  "M' = M \<Longrightarrow> (\<Union>f \<in> set fs. derefs M (fi_value f)) \<subseteq> D \<Longrightarrow> P (ck, st) \<Longrightarrow>
     P (bind_reference_fields M' p fs ck st)"
proof (induction M' p e ck st and M' p fs ck st
    rule: bind_reference_expression_bind_reference_fields.induct)
  case (1 M' p e ck st)
  then show ?case
    using inv_bind_plain [of ck st e p] by (cases e) auto
next
  case (3 M' p f fs ck st)
  then show ?case
    by (cases "bind_reference_expression M' (p @ ''.'' @ fi_name f) (fi_value f) ck st") auto
qed simp

lemma inv_store:
  assumes "P (ck, st)" "derefs M e \<subseteq> D"
  shows "P (store_reference M p t os e ck st)"
proof -
  have "P (ck, set_reference_origins p [] st)"
    using assms(1) by (intro inv_set_origins) auto
  then show ?thesis
    unfolding store_reference_def using inv_bind_all(1) [OF refl assms(2)] by (auto simp: Let_def)
qed

lemma inv_write_target:
  assumes "P (ck, st)" "derefs M e \<subseteq> D"
  shows "P (write_target M p r t os e ck st)"
proof -
  obtain ck' st' where a: "access_place M p r AcWrite [] ck st = (ck', st')"
    by fastforce
  then have "P (ck', mark_initialized p st')"
    using inv_access [OF assms(1)] inv_init by metis
  then show ?thesis
    using inv_store [OF _ assms(2)] by (simp add: write_target_def a)
qed

lemma inv_let:
  assumes "P (ck, st)" "\<And>e. init = Some e \<Longrightarrow> derefs M e \<subseteq> D"
  shows "P (check_let M i name init ck st)"
proof (cases init)
  case None
  then show ?thesis
    using assms(1) by (simp add: check_let_def Let_def inv_set_origins inv_init bind_scope_def inv_scopes)
next
  case (Some e)
  obtain ck' st' where a: "inspect_expr M e AcMove ck st = (ck', st')"
    by fastforce
  then have "P (ck', st')"
    using inv_inspect assms Some by metis
  then show ?thesis
    using assms(2) Some
    by (simp add: check_let_def Let_def a inv_store inv_init bind_scope_def inv_scopes)
qed

lemma inv_binding_assign:
  assumes "P (ck, st)" "derefs M v \<subseteq> D"
  shows "P (check_binding_assign M i sid target v ck st)"
proof -
  obtain ck' st' where a: "inspect_expr M v AcMove ck st = (ck', st')"
    by fastforce
  then have "P (ck', st')"
    using inv_inspect assms by metis
  then show ?thesis
    using assms(2)
    by (simp add: check_binding_assign_def Let_def a inv_store inv_init bind_scope_def inv_scopes)
qed

lemma inv_compound_assign:
  assumes "P (ck, st)" "derefs M v \<subseteq> D"
  shows "P (check_compound_assign M r p tr v ck st)"
proof -
  let ?rid = "''<twophase:assign:'' @ start_string r @ ''>''"
  obtain ck1 st1 where 1: "begin_two_phase_reservation M p ?rid tr ck st = (ck1, st1)"
    by fastforce
  obtain ck2 st2 where 2: "inspect_expr M v AcMove ck1 st1 = (ck2, st2)"
    by fastforce
  obtain ck3 st3 where 3: "activate_two_phase ?rid r ck2 st2 = (ck3, st3)"
    by fastforce
  have "P (ck1, st1)"
    using inv_reserve [OF assms(1)] 1 by metis
  then have "P (ck2, st2)"
    using inv_inspect [OF assms(2)] 2 by metis
  then have "P (ck3, st3)"
    using inv_activate 3 by metis
  then have "P (ck3, kill_borrowers_under p (kill_borrower ?rid st3))"
    by (intro inv_kill_under inv_kill)
  then show ?thesis
    using inv_write_target [OF _ assms(2)] 1 2 3
    unfolding check_compound_assign_def Let_def by (simp only: prod.case)
qed

lemma inv_write_through:
  assumes "P (ck, st)"
  shows "P (write_through_reference M target ck st, st)"
  using assms
  by (auto simp: write_through_reference_def inv_report inv_report_loans split: option.split)

lemma inv_assign:
  assumes "P (ck, st)" "derefs M target \<subseteq> D" "derefs M v \<subseteq> D"
  shows "P (check_assign M i r target op v ck st)"
proof (cases "hm_assignment_bindings (sm_hir M) i")
  case (Some sid)
  then show ?thesis
    using assms by (simp add: check_assign_def inv_binding_assign)
next
  case fresh: None
  show ?thesis
  proof (cases "place_of M target")
    case (Some place)
    obtain ck' st' where a: "inspect_expr M v AcMove ck (kill_borrowers_under place st) = (ck', st')"
      by fastforce
    then have "P (ck', st')"
      using inv_inspect [OF assms(3)] inv_kill_under [OF assms(1)] by metis
    then show ?thesis
      using Some fresh assms by (simp add: check_assign_def Let_def a inv_compound_assign inv_write_target)
  next
    case None
    obtain ck1 st1 where 1: "(if op \<noteq> ''='' then inspect_expr M target AcRead ck st else (ck, st)) = (ck1, st1)"
      by fastforce
    then have "P (ck1, st1)"
      using inv_inspect [OF assms(2,1)] assms(1) by (metis Pair_inject)
    moreover obtain ck2 st2 where 2: "inspect_expr M v AcMove ck1 st1 = (ck2, st2)"
      by fastforce
    ultimately have "P (ck2, st2)"
      using inv_inspect [OF assms(3)] by metis
    then show ?thesis
      using None fresh inv_write_through 1 2 unfolding check_assign_def Let_def
      by (simp only: option.case prod.case)
  qed
qed

lemma inv_return:
  assumes "P (ck, st)" "\<And>e. w = Some e \<Longrightarrow> derefs M e \<subseteq> D"
  shows "P (check_return M w ck st)"
proof (cases w)
  case None
  then show ?thesis
    using assms by (simp add: check_return_def inv_leave)
next
  case (Some v)
  have fold: "P (fold (\<lambda>ro ck. if bad ro then report_error r c (msg ro) ck else ck) os ck', st)"
    if "P (ck', st)" for bad r c msg os ck'
    using that by (induction os arbitrary: ck') (auto simp: inv_report)
  define ck1 where "ck1 = (if result_contains_reference M (expr_id v) then
      fold (\<lambda>ro ck. if is_stack_owned (ro_place ro) st
          then report_error (expr_range v) ''E0404'' (''reference to stack-owned place '' @
                 quoted (ro_place ro) @ '' escapes the function'') ck
          else ck) (reference_origins M v st) ck
    else ck)"
  have "P (ck1, st)"
    unfolding ck1_def using fold [OF assms(1)]
    by (cases "result_contains_reference M (expr_id v)") (simp_all only: if_True if_False assms(1))
  moreover obtain ck' st' where a: "inspect_expr M v AcMove ck1 st = (ck', st')"
    by fastforce
  ultimately have "P (ck', st')"
    using inv_inspect assms(2) Some by metis
  then show ?thesis
    using a unfolding check_return_def Some Let_def option.case ck1_def [symmetric]
    by (simp add: inv_leave)
qed

lemma inv_expire: "P (ck, st) \<Longrightarrow> P (ck, expire_dead_loans M ck i st)"
  unfolding expire_dead_loans_def Let_def by (rule inv_drop)

lemma inv_straight:
  assumes "P (ck, st)" "straight s" "stmt_derefs M s \<subseteq> D"
  shows "P (check_stmt M s ck st)"
proof -
  have "P (check_kind M s ck (expire_dead_loans M ck (stmt_id s) st))"
    using assms inv_expire [OF assms(1), of "stmt_id s"]
    by (cases s) (auto simp: check_kind.simps intro: inv_let inv_assign inv_inspect inv_return split: option.splits)
  then show ?thesis
    using assms(1) by (subst check_stmt.simps) auto
qed

lemma inv_straight_list:
  assumes "P (ck, st)" "list_all straight ss" "\<Union> (stmt_derefs M ` set ss) \<subseteq> D"
  shows "P (check_stmts M ss ck st)"
  using assms
proof (induction ss arbitrary: ck st)
  case (Cons s ss)
  obtain ck' st' where a: "check_stmt M s ck st = (ck', st')"
    by fastforce
  then have "P (ck', st')"
    using inv_straight [of ck st s] Cons.prems by auto
  then show ?case
    using Cons a by auto
qed simp

end

end
