(* ===== verification/BorrowSafety.thy ===== *)
theory BorrowSafety
  imports BorrowRules
begin

text \<open>
  What a run of the borrow checker without a report guarantees: the rules of access, the exclusivity
  of mutable loans, and that moved places stay out of reach.
\<close>

subsection \<open>The rules of access\<close>

text \<open>Loan \<open>l\<close> forbids an access of place \<open>p\<close>; \<open>via\<close> are the borrowers that are exempt.\<close>

definition forbids :: "access \<Rightarrow> string list \<Rightarrow> string \<Rightarrow> loan \<Rightarrow> bool" where
  "forbids ac via p l \<longleftrightarrow> places_conflict p (ln_place l) \<and>
     (case ac of
       AcRead \<Rightarrow> is_active_mut l
     | AcBorrowShared \<Rightarrow> ln_borrower l \<notin> set via \<and> is_active_mut l
     | AcTwoPhaseReserve \<Rightarrow> is_active_exclusive l
     | AcBorrowMut \<Rightarrow> ln_borrower l \<notin> set via
     | _ \<Rightarrow> True)"

definition permitted :: "access \<Rightarrow> string list \<Rightarrow> string \<Rightarrow> bstate \<Rightarrow> bool" where
  "permitted ac via p st \<longleftrightarrow>
     (if ac = AcWrite then \<not> has_moved_ancestor p st else \<not> unavailable p st) \<and>
     (\<forall>l \<in> set (bs_borrows st). \<not> forbids ac via p l)"

lemma ck_le_access: "ck_le ck (fst (access_place M p r ac via ck st))"
  by (cases "effective_access M ck p ac st") (simp_all add: access_place_def Let_def ck_le_report_loans)

lemma clean_access:
  "clean (fst (access_place M p r ac via ck st)) \<longleftrightarrow>
     clean ck \<and> permitted (effective_access M ck p ac st) via p st"
  by (cases "effective_access M ck p ac st")
    (auto simp: access_place_def Let_def clean_report_loans permitted_def forbids_def)

lemma access_quiet:
  "permitted (effective_access M ck p ac st) via p st \<Longrightarrow>
     fst (access_place M p r ac via ck st) = ck"
  by (cases "effective_access M ck p ac st")
    (auto simp: access_place_def Let_def permitted_def forbids_def intro!: report_loans_id)

lemma access_state:
  "snd (access_place M p r ac via ck st) =
     (if effective_access M ck p ac st = AcMove \<and> \<not> unavailable p st
      then st\<lparr>bs_moved := insert p (bs_moved st)\<rparr> else st)"
  by (cases "effective_access M ck p ac st") (auto simp: access_place_def Let_def)

lemma access_frame:
  "bs_borrows (snd (access_place M p r ac via ck st)) = bs_borrows st"
  "bs_origins (snd (access_place M p r ac via ck st)) = bs_origins st"
  "bs_scopes (snd (access_place M p r ac via ck st)) = bs_scopes st"
  "bs_reachable (snd (access_place M p r ac via ck st)) = bs_reachable st"
  "bs_moved st \<subseteq> bs_moved (snd (access_place M p r ac via ck st))"
  by (auto simp: access_state)

lemma effective_borrow [simp]:
  "effective_access M ck p (if mu then AcBorrowMut else AcBorrowShared) st =
     (if mu then AcBorrowMut else AcBorrowShared)"
  "effective_access M ck p AcTwoPhaseReserve st = AcTwoPhaseReserve"
  "effective_access M ck p AcRead st = AcRead" "effective_access M ck p AcWrite st = AcWrite"
  by (auto simp: effective_access_def)

lemma add_loan_frame [simp]:
  "bs_origins (add_loan l st) = bs_origins st" "bs_moved (add_loan l st) = bs_moved st"
  "bs_reachable (add_loan l st) = bs_reachable st" "bs_scopes (add_loan l st) = bs_scopes st"
  by (simp_all add: add_loan_def)

lemma begin_borrow_fst: "fst (begin_borrow M p b mu r via ck st) =
    fst (access_place M p r (if mu then AcBorrowMut else AcBorrowShared) via ck st)"
  by (simp add: begin_borrow_def split: prod.split)

lemma begin_borrow_snd:
  "snd (begin_borrow M p b mu r via ck st) = add_loan (new_loan p b mu r) st"
proof -
  have "snd (access_place M p r (if mu then AcBorrowMut else AcBorrowShared) via ck st) = st"
    by (simp add: access_state)
  then show ?thesis
    by (simp add: begin_borrow_def case_prod_beta)
qed

lemma reserve_fst: "fst (begin_two_phase_reservation M p b r ck st) =
    fst (access_place M p r AcTwoPhaseReserve [] ck st)"
  by (simp add: begin_two_phase_reservation_def split: prod.split)

lemma reserve_snd:
  "snd (begin_two_phase_reservation M p b r ck st) = add_loan (reserved_loan p b r) st"
  by (simp add: begin_two_phase_reservation_def case_prod_beta access_state)

subsection \<open>Activation\<close>

definition activates :: "string \<Rightarrow> loan \<Rightarrow> bool" where
  "activates b l \<longleftrightarrow> ln_borrower l = b \<and> ln_kind l = BkTwoPhaseReserved"

definition activated :: "src_range \<Rightarrow> loan \<Rightarrow> loan" where
  "activated r l = l\<lparr>ln_kind := BkTwoPhaseActivated, ln_origin := r, ln_activated := True\<rparr>"

definition alone :: "loan list \<Rightarrow> nat \<Rightarrow> bool" where
  "alone ls i \<longleftrightarrow> (\<forall>j < length ls. j \<noteq> i \<longrightarrow> \<not> places_conflict (ln_place (ls ! i)) (ln_place (ls ! j)))"

lemma activate_loan_eq:
  "snd (activate_loan b r i (ck, ls)) = (if activates b (ls ! i) then ls[i := activated r (ls ! i)] else ls)"
  "ck_le ck (fst (activate_loan b r i (ck, ls)))"
  "clean (fst (activate_loan b r i (ck, ls))) \<longleftrightarrow>
     clean ck \<and> (activates b (ls ! i) \<longrightarrow> alone ls i)"
proof -
  let ?bad = "\<lambda>j. j \<noteq> i \<and> places_conflict (ln_place (ls ! i)) (ln_place (ls ! j))"
  let ?f = "\<lambda>j ck. if ?bad j then report_error r ''E0402'' (''cannot activate mutable borrow of '' @
      quoted (ln_place (ls ! i)) @ '' while borrow of '' @ quoted (ln_place (ls ! j)) @ '' is active'') ck
      else ck"
  have fold: "ck_le ck (fold ?f [0..<length ls] ck)"
    "clean (fold ?f [0..<length ls] ck) \<longleftrightarrow> clean ck \<and> (\<forall>j \<in> set [0..<length ls]. \<not> ?bad j)"
    by (rule fold_report [where r = "\<lambda>_. r" and c = "\<lambda>_. ''E0402''"]; rule refl)+
  show "snd (activate_loan b r i (ck, ls)) = (if activates b (ls ! i) then ls[i := activated r (ls ! i)] else ls)"
    by (simp add: activate_loan_def activates_def activated_def Let_def)
  show "ck_le ck (fst (activate_loan b r i (ck, ls)))"
    using fold(1) by (simp add: activate_loan_def Let_def)
  show "clean (fst (activate_loan b r i (ck, ls))) \<longleftrightarrow>
     clean ck \<and> (activates b (ls ! i) \<longrightarrow> alone ls i)"
    using fold(2) by (auto simp: activate_loan_def activates_def alone_def Let_def)
qed

text \<open>A predicate on the loans that every permitted activation keeps.\<close>

lemma fold_activate:
  assumes "\<And>ls i. i < length ls \<Longrightarrow> I ls \<Longrightarrow> activates b (ls ! i) \<Longrightarrow> alone ls i \<Longrightarrow>
      I (ls[i := activated r (ls ! i)])"
    and "\<forall>i \<in> set is. i < length ls" "clean ck \<longrightarrow> I ls"
    and "fold (activate_loan b r) is (ck, ls) = (ck', ls')"
  shows "ck_le ck ck' \<and> (clean ck' \<longrightarrow> I ls')"
  using assms(2-)
proof (induction "is" arbitrary: ck ls)
  case (Cons i "is")
  obtain ck1 ls1 where one: "activate_loan b r i (ck, ls) = (ck1, ls1)"
    by fastforce
  have le: "ck_le ck ck1" and cl: "clean ck1 \<longleftrightarrow> clean ck \<and> (activates b (ls ! i) \<longrightarrow> alone ls i)"
    and ls1: "ls1 = (if activates b (ls ! i) then ls[i := activated r (ls ! i)] else ls)"
    using activate_loan_eq(1) [of b r i ck ls] activate_loan_eq(2) [of ck b r i ls]
      activate_loan_eq(3) [of b r i ck ls] one by auto
  have "clean ck1 \<longrightarrow> I ls1"
    using assms(1) [of i ls] Cons.prems(1,2) cl ls1 by auto
  moreover have "\<forall>j \<in> set is. j < length ls1"
    using Cons.prems(1) ls1 by auto
  ultimately have "ck_le ck1 ck' \<and> (clean ck' \<longrightarrow> I ls')"
    using Cons.IH Cons.prems(3) one by simp
  then show ?case
    using le ck_le_trans by blast
qed auto

lemma activate_two_phase_frame:
  "\<exists>ls. snd (activate_two_phase b r ck st) = st\<lparr>bs_borrows := ls\<rparr>"
  by (auto simp: activate_two_phase_def case_prod_beta)

lemma activate_two_phase_rule:
  assumes "\<And>ls i. i < length ls \<Longrightarrow> I ls \<Longrightarrow> activates b (ls ! i) \<Longrightarrow> alone ls i \<Longrightarrow>
      I (ls[i := activated r (ls ! i)])"
    and "clean ck \<longrightarrow> I (bs_borrows st)"
    and "activate_two_phase b r ck st = (ck', st')"
  shows "ck_le ck ck' \<and> (clean ck' \<longrightarrow> I (bs_borrows st'))"
proof -
  obtain ls where "fold (activate_loan b r) [0..<length (bs_borrows st)] (ck, bs_borrows st) = (ck', ls)"
      "bs_borrows st' = ls"
    using assms(3) by (auto simp: activate_two_phase_def split: prod.splits)
  then show ?thesis
    using fold_activate [of I b r "[0..<length (bs_borrows st)]" "bs_borrows st" ck ck' ls] assms(1,2)
    by auto
qed

lemma ck_le_activate: "ck_le ck (fst (activate_two_phase b r ck st))"
  using activate_two_phase_rule [where I = "\<lambda>_. True" and b = b and r = r and ck = ck and st = st]
  by (cases "activate_two_phase b r ck st") auto

subsection \<open>The checker only adds reports\<close>

interpretation mono: store_invariant M UNIV "\<lambda>(ck, st). ck_le ck0 ck" for M ck0
proof unfold_locales
  fix ck and st :: bstate and p r ac via b mu c msg
  assume "case (ck, st) of (ck, st) \<Rightarrow> ck_le ck0 ck"
  then have le: "ck_le ck0 ck"
    by simp
  show "case access_place M p r ac via ck st of (ck, st) \<Rightarrow> ck_le ck0 ck"
    using ck_le_trans [OF le ck_le_access] by (simp add: case_prod_beta)
  show "case begin_borrow M p b mu r via ck st of (ck, st) \<Rightarrow> ck_le ck0 ck"
    using ck_le_trans [OF le ck_le_access] by (simp add: case_prod_beta begin_borrow_fst)
  show "case begin_two_phase_reservation M p b r ck st of (ck, st) \<Rightarrow> ck_le ck0 ck"
    using ck_le_trans [OF le ck_le_access] by (simp add: case_prod_beta reserve_fst)
  show "case activate_two_phase b r ck st of (ck, st) \<Rightarrow> ck_le ck0 ck"
    using ck_le_trans [OF le ck_le_activate] by (simp add: case_prod_beta)
  show "case (report_error r c msg ck, st) of (ck, st) \<Rightarrow> ck_le ck0 ck"
    using ck_le_trans [OF le ck_le_report] by simp
qed simp_all

lemma ck_le_straight:
  "ck_le ck (fst (inspect_expr M e ac ck st))"
  "ck_le ck (fst (check_let M i name init ck st))"
  "ck_le ck (fst (check_assign M i r target op v ck st))"
  "ck_le ck (fst (check_return M w ck st))"
  using mono.inv_inspect [where M = M and e = e and ac = ac and ?ck0.0 = ck and ck = ck and st = st]
    mono.inv_let [where M = M and i = i and name = name and init = init and ?ck0.0 = ck and ck = ck and st = st]
    mono.inv_assign [where M = M and i = i and r = r and target = target and op = op and v = v
      and ?ck0.0 = ck and ck = ck and st = st]
    mono.inv_return [where M = M and w = w and ?ck0.0 = ck and ck = ck and st = st]
  by (simp_all add: case_prod_beta)

lemma ck_le_fold:
  assumes "\<And>x ck. ck_le ck (f x ck)"
  shows "ck_le ck (fold f xs ck)"
proof (induction xs arbitrary: ck)
  case (Cons x xs)
  then show ?case
    using assms ck_le_trans by fastforce
qed simp

lemma ck_le_outliving: "ck_le ck (report_outliving locals os ck)"
  unfolding report_outliving_def by (rule ck_le_fold) (auto intro!: ck_le_fold)

lemma ck_le_pop: "ck_le ck (fst (pop_scope ck st))"
  by (simp add: pop_scope_def Let_def ck_le_outliving)

lemma ck_le_truncate: "ck_le ck (fst (truncate_scopes depth ck st))"
proof (induction depth ck st rule: truncate_scopes.induct)
  case (1 depth ck st)
  obtain ck' st' where p: "pop_scope ck st = (ck', st')"
    by fastforce
  then have "ck_le ck ck'"
    using ck_le_pop [of ck st] by simp
  then show ?case
    using 1 p ck_le_trans by (subst truncate_scopes.simps) auto
qed

lemma ck_le_loops [simp]:
  "ck_le (ck\<lparr>ck_loops := fs\<rparr>) ck' = ck_le ck ck'" "ck_le ck (ck'\<lparr>ck_loops := fs\<rparr>) = ck_le ck ck'"
  by (simp_all add: ck_le_def clean_def)

lemma ck_le_leave_loop: "ck_le ck (fst (leave_loop f ck st))"
proof (cases "ck_loops ck")
  case (Cons fr frs)
  then show ?thesis
    using ck_le_truncate [of ck "lf_depth fr" st] by (simp add: leave_loop_def case_prod_beta)
qed (simp add: leave_loop_def)

lemma ck_le_with_frame:
  assumes "\<And>ck. ck_le ck (fst (body ck st))"
  shows "ck_le ck (fst (snd (with_frame depth body ck st)))"
  using assms [of "ck\<lparr>ck_loops := \<lparr>lf_depth = depth, lf_breaks = [], lf_continues = []\<rparr> # ck_loops ck\<rparr>"]
  by (simp add: with_frame_def case_prod_beta)

definition round_mono :: "round \<Rightarrow> bool" where
  "round_mono step \<longleftrightarrow> (\<forall>h b ck. ck_le ck (snd (snd (snd (step h b ck)))))"

lemma ck_le_iterate:
  assumes "round_mono step"
  shows "ck_le ck (snd (snd (snd (snd (dataflow_iterate n step h e b ck)))))"
proof (induction n arbitrary: h e b ck)
  case (Suc n)
  obtain e' nx b' ck' where s: "step h b ck = (e', nx, b', ck')"
    by (cases "step h b ck") auto
  then have "ck_le ck ck'"
    using assms unfolding round_mono_def by (metis snd_conv)
  then show ?case
    using s Suc ck_le_trans by (auto split: option.split)
qed simp

lemma ck_le_dataflow:
  assumes "round_mono step"
  shows "ck_le ck (snd (snd (snd (dataflow_loop r step entry ck))))"
proof -
  obtain c h e b ck' where d: "dataflow_iterate max_dataflow_iterations step entry entry None ck = (c, h, e, b, ck')"
    by (cases "dataflow_iterate max_dataflow_iterations step entry entry None ck") auto
  then have "ck_le ck ck'"
    using ck_le_iterate [OF assms, of ck max_dataflow_iterations entry entry None] by simp
  then show ?thesis
    using d ck_le_trans [OF _ ck_le_report] by (simp add: dataflow_loop_def)
qed

lemma ck_le_check:
  "ck_le ck (fst (check_block M b ck st))"
  "ck_le ck (fst (check_stmts M ss ck st))"
  "ck_le ck (fst (check_stmt M s ck st))"
  "ck_le ck (fst (check_kind M s ck st))"
  "ck_le ck (snd (snd (snd (while_round M c b entry header brk ck))))"
  "ck_le ck (snd (snd (snd (for_round M key t b entry header brk ck))))"
  "ck_le ck (snd (snd (snd (loop_round M b entry header brk ck))))"
proof (induction M b ck st and M ss ck st and M s ck st and M s ck st and
    M c b entry header brk ck and M key t b entry header brk ck and M b entry header brk ck
    rule: check_block_check_stmts_check_stmt_check_kind_while_round_for_round_loop_round.induct)
  case (1 M b ck st)
  obtain ck' st' where s: "check_stmts M (block_stmts b) ck (push_scope [] st) = (ck', st')"
    by fastforce
  show ?case
    using 1 s ck_le_trans [OF _ ck_le_truncate] by (subst check_block.simps) auto
next
  case (3 M s ss ck st)
  obtain ck' st' where s: "check_stmt M s ck st = (ck', st')"
    by fastforce
  show ?case
    using 3 s ck_le_trans by auto
next
  case (4 M s ck st)
  then show ?case
    by (subst check_stmt.simps) auto
next
  case (12 M i r c t e ck st)
  obtain ck1 st1 where 1: "inspect_expr M c AcMove ck st = (ck1, st1)"
    by fastforce
  obtain ck2 st2 where 2: "check_block M t ck1 st1 = (ck2, st2)"
    by fastforce
  obtain ck3 st3 where 3: "(case e of None \<Rightarrow> (ck2, st1) | Some b \<Rightarrow> check_block M b ck2 st1) = (ck3, st3)"
    by fastforce
  have "ck_le ck ck1"
    using ck_le_straight(1) [where M = M and e = c and ac = AcMove and ck = ck and st = st] 1 by simp
  moreover have "ck_le ck1 ck2"
    using "12.IH"(1) 1 2 by simp
  moreover have "ck_le ck2 ck3"
  proof (cases e)
    case (Some b)
    then show ?thesis
      using "12.IH"(2) [OF 1 [symmetric] 2 [symmetric] Some] 3 by simp
  qed (use 3 in simp)
  ultimately show ?case
    using 1 2 3 ck_le_trans by (fastforce simp: check_kind.simps)
next
  case (13 M i r c b ck st)
  have "round_mono (while_round M c b st)"
    unfolding round_mono_def using "13.IH" by blast
  from ck_le_dataflow [OF this] show ?case
    by (simp add: check_kind.simps case_prod_beta)
next
  case (14 M i r name b e incl body ck st)
  obtain ck1 st1 where 1: "inspect_expr M b AcMove ck st = (ck1, st1)"
    by fastforce
  obtain ck2 st2 where 2: "inspect_expr M e AcMove ck1 st1 = (ck2, st2)"
    by fastforce
  have "round_mono (for_round M (for_binding_key M i name) (iterator_type M b) body st2)"
    unfolding round_mono_def using "14.IH" [OF 1 [symmetric] 2 [symmetric]] by blast
  from ck_le_dataflow [OF this, of ck2 r st2] have "ck_le ck (fst (check_kind M (ForStmt i r name b e incl body) ck st))"
    if "ck_le ck ck2"
    using that 1 2 ck_le_trans by (fastforce simp: check_kind.simps case_prod_beta)
  moreover have "ck_le ck ck1"
    using ck_le_straight(1) [where M = M and e = b and ac = AcMove and ck = ck and st = st] 1 by simp
  moreover have "ck_le ck1 ck2"
    using ck_le_straight(1) [where M = M and e = e and ac = AcMove and ck = ck1 and st = st1] 2 by simp
  ultimately show ?case
    using ck_le_trans by blast
next
  case (15 M i r b ck st)
  have "round_mono (loop_round M b st)"
    unfolding round_mono_def using "15.IH" by blast
  from ck_le_dataflow [OF this] show ?case
    by (simp add: check_kind.simps case_prod_beta split: option.split)
next
  case (18 M c b entry header brk ck)
  obtain ck1 st1 where 1: "inspect_expr M c AcMove ck header = (ck1, st1)"
    by fastforce
  have "ck_le ck ck1"
    using ck_le_straight(1) [where M = M and e = c and ac = AcMove and ck = ck and st = header] 1 by simp
  moreover have "ck_le ck1 (fst (snd (with_frame (length (bs_scopes entry)) (check_block M b) ck1 st1)))"
    by (rule ck_le_with_frame) (use "18.IH" 1 in metis)
  ultimately show ?case
    using 1 ck_le_trans by (simp add: while_round.simps case_prod_beta)
next
  case (19 M key t b entry header brk ck)
  have "ck_le ck' (fst (case check_block M b ck' st' of (ck, st) \<Rightarrow>
      truncate_scopes (length (bs_scopes entry)) ck st))" for ck' st'
    using "19.IH" [of ck' st'] ck_le_trans [OF _ ck_le_truncate] by (simp add: case_prod_beta)
  then show ?case
    by (simp add: for_round.simps case_prod_beta ck_le_with_frame)
next
  case (20 M b entry header brk ck)
  show ?case
    using "20.IH" by (simp add: loop_round.simps case_prod_beta ck_le_with_frame)
qed (auto simp: check_kind.simps ck_le_straight check_break_def check_continue_def ck_le_leave_loop)

lemma ck_le_check_function: "ck_le ck (check_function M fn sig ck)"
proof (cases "fd_body fn")
  case (Some body)
  have same: "ck_le a (b\<lparr>ck_copy_generics := g\<rparr>) = ck_le a b" "ck_le (a\<lparr>ck_copy_generics := g\<rparr>) b = ck_le a b"
    for a b g
    by (simp_all add: ck_le_def clean_def)
  have "ck_le ck (prepare_liveness M fn ck)"
    by (simp add: ck_le_def clean_def prepare_liveness_quiet)
  then show ?thesis
    using Some ck_le_trans [OF _ ck_le_check(1)]
    by (simp add: check_function_def Let_def case_prod_beta same)
qed (simp add: check_function_def)

lemma ck_le_check_item: "ck_le ck (check_item M it ck)"
  by (cases it) (auto simp: check_item_def Let_def ck_le_check_function intro: ck_le_fold)

text \<open>
  The borrow checker only adds diagnostics, whatever the module; a run that reported nothing
  leaves them as they were, and a run that reported something leaves an error.
\<close>

theorem borrow_check_reports:
  "diag_le (ck_diags ck) (ck_diags (borrow_check M md ck)) \<and>
   (if ck_emitted (borrow_check M md ck) = {} then ck_diags (borrow_check M md ck) = ck_diags ck
    else has_errors (ck_diags (borrow_check M md ck)))"
proof -
  have "ck_le (ck\<lparr>ck_emitted := {}\<rparr>) (borrow_check M md ck)"
    unfolding borrow_check_def by (rule ck_le_fold) (rule ck_le_check_item)
  then show ?thesis
    by (auto simp: ck_le_def clean_def)
qed

end
