(* ===== verification/BorrowExclusive.thy ===== *)
theory BorrowExclusive
  imports BorrowSafety
begin

text \<open>
  Exclusivity of mutable loans: along code without branches that the checker accepts, a place under
  an active mutable loan is under no other loan, except for the loans of references it was
  reborrowed through.
\<close>

subsection \<open>Lists of loans\<close>

definition loan_wf :: "loan \<Rightarrow> bool" where
  "loan_wf l \<longleftrightarrow> (ln_mut l \<longleftrightarrow> ln_kind l \<noteq> BkShared)"

text \<open>Two loans, the older first, are compatible when reborrowing through \<open>D\<close> is allowed.\<close>

definition compatible :: "string set \<Rightarrow> loan \<Rightarrow> loan \<Rightarrow> bool" where
  "compatible D l l' \<longleftrightarrow>
     (places_conflict (ln_place l) (ln_place l') \<and> (is_active_mut l \<or> is_active_mut l') \<longrightarrow>
      ln_borrower l \<in> insert (ln_borrower l') D)"

definition exclusive :: "string set \<Rightarrow> loan list \<Rightarrow> bool" where
  "exclusive D ls \<longleftrightarrow> list_all loan_wf ls \<and> sorted_wrt (compatible D) ls"

lemma exclusive_Nil [simp]: "exclusive D []"
  by (simp add: exclusive_def)

lemma exclusive_filter: "exclusive D ls \<Longrightarrow> exclusive D (filter Q ls)"
  by (auto simp: exclusive_def list_all_iff intro: sorted_wrt_filter)

lemma exclusive_add:
  assumes "exclusive D (bs_borrows st)" "loan_wf l" "\<forall>l' \<in> set (bs_borrows st). compatible D l' l"
  shows "exclusive D (bs_borrows (add_loan l st))"
  using assms by (auto simp: exclusive_def add_loan_def sorted_wrt_append)

lemma compatible_alone:
  "\<not> places_conflict (ln_place l) (ln_place l') \<Longrightarrow> compatible D l l' \<and> compatible D l' l"
  using places_conflict_sym by (auto simp: compatible_def)

lemma exclusive_activate:
  assumes "i < length ls" "exclusive D ls" "activates b (ls ! i)" "alone ls i"
  shows "exclusive D (ls[i := activated r (ls ! i)])"
proof -
  have "list_all loan_wf (ls[i := activated r (ls ! i)])"
    using assms(1-3)
    by (auto simp: exclusive_def list_all_length nth_list_update activated_def loan_wf_def activates_def)
  moreover have "compatible D (ls[i := activated r (ls ! i)] ! j) (ls[i := activated r (ls ! i)] ! k)"
    if "j < k" "k < length ls" for j k
  proof (cases "j = i \<or> k = i")
    case True
    then have "\<not> places_conflict (ln_place (ls[i := activated r (ls ! i)] ! j))
        (ln_place (ls[i := activated r (ls ! i)] ! k))"
      using that assms(1,4) places_conflict_sym [of "ln_place (ls ! j)" "ln_place (ls ! k)"]
      by (auto simp: alone_def activated_def nth_list_update)
    then show ?thesis
      by (simp add: compatible_def)
  next
    case False
    then show ?thesis
      using that assms(2) by (auto simp: exclusive_def sorted_wrt_iff_nth_less)
  qed
  ultimately show ?thesis
    by (auto simp: exclusive_def sorted_wrt_iff_nth_less)
qed

lemma permitted_borrow_compatible:
  assumes "permitted (if mu then AcBorrowMut else AcBorrowShared) via p st" "set via \<subseteq> insert b D"
    "l \<in> set (bs_borrows st)"
  shows "compatible D l (new_loan p b mu r)"
  using assms places_conflict_sym
  by (auto simp: permitted_def forbids_def compatible_def new_loan_def is_active_mut_def split: if_splits)

lemma permitted_reserve_compatible:
  assumes "permitted AcTwoPhaseReserve [] p st" "l \<in> set (bs_borrows st)" "loan_wf l"
  shows "compatible D l (reserved_loan p b r)"
  using assms places_conflict_sym
  by (cases "ln_kind l")
    (auto simp: permitted_def forbids_def compatible_def reserved_loan_def is_active_mut_def
      is_active_exclusive_def loan_wf_def)

subsection \<open>The checker keeps it\<close>

definition exclusive_run :: "string set \<Rightarrow> checker \<times> bstate \<Rightarrow> bool" where
  "exclusive_run D = (\<lambda>(ck, st). stored_vias st \<subseteq> D \<and> (clean ck \<longrightarrow> exclusive D (bs_borrows st)))"

lemma stored_vias_cong: "bs_origins st = bs_origins st' \<Longrightarrow> stored_vias st = stored_vias st'"
  by (simp add: stored_vias_def)

interpretation ex: store_invariant M D "exclusive_run D" for M D
proof unfold_locales
  fix ck and st :: bstate and p r ac via b mu c msg Q os ss
  assume run: "exclusive_run D (ck, st)"
  then have stored: "stored_vias st \<subseteq> D" and excl: "clean ck \<Longrightarrow> exclusive D (bs_borrows st)"
    by (auto simp: exclusive_run_def)
  show "stored_vias st \<subseteq> D"
    by (rule stored)
  show "exclusive_run D (access_place M p r ac via ck st)"
    using stored excl stored_vias_cong [OF access_frame(2), of M p r ac via ck st]
    by (auto simp: exclusive_run_def case_prod_beta access_frame clean_access)
  show "exclusive_run D (begin_borrow M p b mu r via ck st)" if "set via \<subseteq> insert b D"
  proof -
    have "exclusive D (bs_borrows (add_loan (new_loan p b mu r) st))"
      if "clean (fst (begin_borrow M p b mu r via ck st))"
      using that \<open>set via \<subseteq> insert b D\<close> excl permitted_borrow_compatible [of mu via p st b D]
      by (intro exclusive_add) (auto simp: begin_borrow_fst clean_access new_loan_def loan_wf_def)
    then show ?thesis
      using stored by (simp add: exclusive_run_def case_prod_beta begin_borrow_snd stored_vias_def)
  qed
  show "exclusive_run D (begin_two_phase_reservation M p b r ck st)"
  proof -
    have "exclusive D (bs_borrows (add_loan (reserved_loan p b r) st))"
      if "clean (fst (begin_two_phase_reservation M p b r ck st))"
      using that excl permitted_reserve_compatible [of p st _ D]
      by (intro exclusive_add)
        (auto simp: reserve_fst clean_access reserved_loan_def loan_wf_def exclusive_def list_all_iff)
    then show ?thesis
      using stored by (simp add: exclusive_run_def case_prod_beta reserve_snd stored_vias_def)
  qed
  show "exclusive_run D (activate_two_phase b r ck st)"
  proof -
    obtain ck' st' where a: "activate_two_phase b r ck st = (ck', st')"
      by fastforce
    have "clean ck' \<longrightarrow> exclusive D (bs_borrows st')"
      using activate_two_phase_rule [where I = "exclusive D" and b = b and r = r and ck = ck and st = st]
        exclusive_activate excl a by metis
    moreover have "bs_origins st' = bs_origins st"
      using activate_two_phase_frame [of b r ck st] a by auto
    ultimately show ?thesis
      using stored a by (simp add: exclusive_run_def stored_vias_def)
  qed
  show "exclusive_run D (report_error r c msg ck, st)"
    using stored by (simp add: exclusive_run_def)
  show "exclusive_run D (ck, st\<lparr>bs_borrows := filter Q (bs_borrows st)\<rparr>)"
    using stored excl by (simp add: exclusive_run_def exclusive_filter stored_vias_def)
  show "exclusive_run D (ck, st\<lparr>bs_origins := os\<rparr>)" if "\<Union> (vias ` snd ` set os) \<subseteq> D"
    using that excl by (simp add: exclusive_run_def stored_vias_def)
  show "exclusive_run D (ck, st\<lparr>bs_scopes := ss\<rparr>)" "exclusive_run D (ck, st\<lparr>bs_reachable := False\<rparr>)"
    using run by (simp_all add: exclusive_run_def stored_vias_def)
  show "exclusive_run D (ck, st\<lparr>bs_moved := {p \<in> bs_moved st. Q' p}\<rparr>)" for Q'
    using run by (simp add: exclusive_run_def stored_vias_def)
qed

subsection \<open>Straight-line code\<close>

lemma exclusive_straight:
  assumes "list_all straight ss" "\<Union> (stmt_derefs M ` set ss) \<subseteq> D" "stored_vias st \<subseteq> D"
    "exclusive D (bs_borrows st)" "clean (fst (check_stmts M ss ck st))"
  shows "exclusive D (bs_borrows (snd (check_stmts M ss ck st)))"
  using ex.inv_straight_list [where M = M and D = D and ck = ck and st = st and ss = ss] assms
  by (auto simp: exclusive_run_def case_prod_beta)

lemma exclusive_overlap:
  assumes "exclusive D ls" "i < j" "j < length ls" "is_active_mut (ls ! i) \<or> is_active_mut (ls ! j)"
    "denotes (ln_place (ls ! i)) a" "denotes (ln_place (ls ! j)) b" "prefix a b \<or> prefix b a"
  shows "ln_borrower (ls ! i) \<in> insert (ln_borrower (ls ! j)) D"
proof -
  have "places_conflict (ln_place (ls ! i)) (ln_place (ls ! j))"
    using assms(5-7) diverge_denotes [of "split_place (ln_place (ls ! i))" "split_place (ln_place (ls ! j))" a b]
    by (auto simp: places_conflict_def places_disjoint_iff denotes_def)
  then show ?thesis
    using assms(1-4) by (auto simp: exclusive_def compatible_def sorted_wrt_iff_nth_less)
qed

text \<open>
  C3: when the checker reports nothing for a sequence of bindings, assignments, expressions and
  returns from the start of a function, then of two loans on overlapping memory, one of them
  mutable and active, the older one belongs to the same borrower as the younger or to a reference
  that the code reborrows through.
\<close>

theorem mutable_loans_exclusive:
  assumes "list_all straight ss" "clean (fst (check_stmts M ss ck (push_scope scope initial_state)))"
    "ls = bs_borrows (snd (check_stmts M ss ck (push_scope scope initial_state)))"
    "i < j" "j < length ls" "is_active_mut (ls ! i) \<or> is_active_mut (ls ! j)"
    "denotes (ln_place (ls ! i)) a" "denotes (ln_place (ls ! j)) b" "prefix a b \<or> prefix b a"
  shows "ln_borrower (ls ! i) = ln_borrower (ls ! j) \<or>
    ln_borrower (ls ! i) \<in> \<Union> (stmt_derefs M ` set ss)"
proof -
  have "exclusive (\<Union> (stmt_derefs M ` set ss)) ls"
    unfolding assms(3)
    by (rule exclusive_straight [OF assms(1) _ _ _ assms(2)])
      (simp_all add: stored_vias_def push_scope_def initial_state_def)
  then show ?thesis
    using exclusive_overlap [OF _ assms(4-9)] by auto
qed

definition reborrow_model :: sem_model where
  "reborrow_model = empty_model\<lparr>sm_binding_types := [1 \<mapsto> ref_type (builtin_type ''i32'') True],
     sm_expr_types := [2 \<mapsto> ref_type (builtin_type ''i32'') True]\<rparr>"

definition reborrow_code :: "stmt list" where
  "reborrow_code =
    [LetStmt 1 initial_range ''r'' False None
       (Some (BorrowExpr 3 initial_range (NameExpr 4 initial_range ''x'') True)),
     ExprStmt 5 initial_range
       (BorrowExpr 6 initial_range (UnaryExpr 7 initial_range ''*'' (NameExpr 2 initial_range ''r'')) True)]"

definition reborrow_run :: "bstate checked" where
  "reborrow_run = check_stmts reborrow_model reborrow_code
     ((new_checker no_diagnostics)\<lparr>ck_live_before := [5 \<mapsto> {''r''}]\<rparr>)
     (push_scope [(''x'', builtin_type ''i32'')] initial_state)"

text \<open>Witness of C3: the reborrow and the loan it was taken through, both of the same variable.\<close>

lemma mutable_loans_exclusive_witness:
  "ln_borrower (bs_borrows (snd reborrow_run) ! 0) = ln_borrower (bs_borrows (snd reborrow_run) ! 1) \<or>
   ln_borrower (bs_borrows (snd reborrow_run) ! 0) \<in> \<Union> (stmt_derefs reborrow_model ` set reborrow_code)"
proof (rule mutable_loans_exclusive [OF _ _ reborrow_run_def [THEN arg_cong, of "\<lambda>s. bs_borrows (snd s)"]])
  show "list_all straight reborrow_code"
    by code_simp
  show "clean (fst (check_stmts reborrow_model reborrow_code
     ((new_checker no_diagnostics)\<lparr>ck_live_before := [5 \<mapsto> {''r''}]\<rparr>)
     (push_scope [(''x'', builtin_type ''i32'')] initial_state)))"
    by code_simp
  have loans: "map (\<lambda>l. (ln_place l, is_active_mut l)) (bs_borrows (snd reborrow_run)) =
      [(''x'', True), (''x'', True), (''r'', True)]"
    by code_simp
  then obtain l l' m where ls: "bs_borrows (snd reborrow_run) = [l, l', m]" and p: "ln_place l = ''x''" "ln_place l' = ''x''" "is_active_mut l"
    by (auto simp: map_eq_Cons_conv)
  show "0 < (1::nat)" "1 < length (bs_borrows (snd reborrow_run))"
    "is_active_mut (bs_borrows (snd reborrow_run) ! 0) \<or> is_active_mut (bs_borrows (snd reborrow_run) ! 1)"
    using ls p by simp_all
  show "denotes (ln_place (bs_borrows (snd reborrow_run) ! 0)) [''x'']"
      "denotes (ln_place (bs_borrows (snd reborrow_run) ! 1)) [''x'']"
    using ls p by (simp_all add: denotes_def split_place.simps)
qed simp
end
