(* ===== verification/BorrowMoves.thy ===== *)
theory BorrowMoves
  imports BorrowSafety
begin

text \<open>
  Moved places stay out of reach: the walk over an expression never makes a moved place available
  again, and reports every evaluation of a place that overlaps one.
\<close>

subsection \<open>The places an expression evaluates\<close>

fun evaluated :: "sem_model \<Rightarrow> expr \<Rightarrow> string set" where
  "evaluated M (NameExpr i r n) = set_option (place_of M (NameExpr i r n))"
| "evaluated M (MemberExpr i r base member) = set_option (place_of M (MemberExpr i r base member))"
| "evaluated M (IndexExpr i r base index) =
     (case place_of M base of Some p \<Rightarrow> {p @ ''.[*]''} | None \<Rightarrow> evaluated M base \<union> evaluated M index)"
| "evaluated M (StructLiteralExpr _ _ _ _ fs) = \<Union> (set (map (\<lambda>f. evaluated M (fi_value f)) fs))"
| "evaluated M (UnaryExpr _ _ _ operand) = evaluated M operand"
| "evaluated M (BinaryExpr _ _ _ lhs rhs) = evaluated M lhs \<union> evaluated M rhs"
| "evaluated M (BorrowExpr _ _ target _) =
     (case place_of M target of Some p \<Rightarrow> {p} | None \<Rightarrow> set_option (reborrow_parent M target))"
| "evaluated M (CallExpr _ _ callee _ args) =
     (case callee of MemberExpr _ _ base _ \<Rightarrow> evaluated M base | _ \<Rightarrow> {}) \<union>
     \<Union> (set (map (\<lambda>a. if is_mut_borrow a then (case a of BorrowExpr _ _ target _ \<Rightarrow>
         set_option (place_of M target) | _ \<Rightarrow> {}) else evaluated M a) args))"
| "evaluated M (AwaitExpr _ _ v) = evaluated M v"
| "evaluated M (CastExpr _ _ v _) = evaluated M v"
| "evaluated M (AsmExpr _ _ _ operands _) =
     \<Union> (set (map (\<lambda>p. case ao_value p of None \<Rightarrow> {} | Some v \<Rightarrow> evaluated M v) operands))"
| "evaluated M _ = {}"

definition evaluated_arg :: "sem_model \<Rightarrow> expr \<Rightarrow> string set" where
  "evaluated_arg M a = (if is_mut_borrow a then (case a of BorrowExpr _ _ target _ \<Rightarrow>
         set_option (place_of M target) | _ \<Rightarrow> {}) else evaluated M a)"



subsection \<open>What the walk keeps\<close>

definition kept :: "checker \<Rightarrow> bstate \<Rightarrow> checker \<times> bstate \<Rightarrow> bool" where
  "kept ck0 st0 = (\<lambda>(ck, st). ck_le ck0 ck \<and> bs_moved st0 \<subseteq> bs_moved st \<and>
     bs_reachable st = bs_reachable st0)"

interpretation kept: loan_invariant M UNIV "kept ck0 st0" for M ck0 st0
proof unfold_locales
  fix ck and st :: bstate and p r ac via b mu c msg Q
  assume run: "kept ck0 st0 (ck, st)"
  then have le: "ck_le ck0 ck" and mv: "bs_moved st0 \<subseteq> bs_moved st"
      and re: "bs_reachable st = bs_reachable st0"
    by (auto simp: kept_def)
  show "kept ck0 st0 (access_place M p r ac via ck st)"
    using ck_le_trans [OF le ck_le_access] mv re access_frame(4,5) [where M = M and p = p and r = r and ac = ac and via = via and ck = ck and st = st]
    by (auto simp: kept_def case_prod_beta)
  show "kept ck0 st0 (begin_borrow M p b mu r via ck st)"
    using ck_le_trans [OF le ck_le_access] mv re
    by (simp add: kept_def case_prod_beta begin_borrow_fst begin_borrow_snd add_loan_def)
  show "kept ck0 st0 (begin_two_phase_reservation M p b r ck st)"
    using ck_le_trans [OF le ck_le_access] mv re
    by (simp add: kept_def case_prod_beta reserve_fst reserve_snd add_loan_def)
  show "kept ck0 st0 (activate_two_phase b r ck st)"
    using ck_le_trans [OF le ck_le_activate] mv re activate_two_phase_frame [of b r ck st]
    by (auto simp: kept_def case_prod_beta)
  show "kept ck0 st0 (report_error r c msg ck, st)"
    using ck_le_trans [OF le ck_le_report] mv re by (simp add: kept_def)
  show "kept ck0 st0 (ck, st\<lparr>bs_borrows := filter Q (bs_borrows st)\<rparr>)"
    using run by (simp add: kept_def)
qed simp

lemma kept_refl: "kept ck st (ck, st)"
  by (simp add: kept_def)







lemmas kept_walk = kept.inv_inspect_all [OF refl subset_UNIV kept_refl]





lemma reserve_arguments_nonempty:
  "a \<in> set args \<Longrightarrow> is_mut_borrow a \<Longrightarrow> p \<in> evaluated_arg M a \<Longrightarrow>
    fst (reserve_arguments M r i args ck st) \<noteq> []"
proof (induction args arbitrary: i ck st)
  case (Cons arg args)
  then show ?case
    by (auto simp: Let_def case_prod_beta evaluated_arg_def is_mut_borrow_def
      split: expr.splits bool.splits option.splits)
qed simp

subsection \<open>Every evaluation of a moved place is reported\<close>





text \<open>
  C5: the walk over an expression never makes a moved place available again, and an expression that
  is a place of a type that is not Copy is moved by an accepted by-value use.
\<close>

theorem moves_are_recorded:
  "bs_moved st \<subseteq> bs_moved (snd (inspect_expr M e ac ck st)) \<and>
   (bs_reachable st \<and> place_of M e = Some p \<and> \<not> is_copy_type M ck (type_of_place M p st) \<and>
      ck_emitted (fst (inspect_expr M e AcMove ck st)) = {} \<longrightarrow>
    p \<in> bs_moved (snd (inspect_expr M e AcMove ck st)))"
proof -
  have "kept ck st (inspect_expr M e ac ck st)"
    by (rule kept_walk(1))
  moreover have "p \<in> bs_moved (snd (inspect_expr M e AcMove ck st))"
    if "bs_reachable st" "place_of M e = Some p" "\<not> is_copy_type M ck (type_of_place M p st)"
      "clean (fst (inspect_expr M e AcMove ck st))"
    using that
    by (simp add: inspect_expr.simps access_state clean_access permitted_def effective_access_def)
  ultimately show ?thesis
    by (auto simp: kept_def clean_def case_prod_beta)
qed

text \<open>Witness of C5: a string is moved by a call argument position.\<close>

lemma moves_are_recorded_witness:
  "''s'' \<in> bs_moved (snd (inspect_expr empty_model (NameExpr 1 initial_range ''s'') AcMove
     (new_checker no_diagnostics) (push_scope [(''s'', builtin_type ''str'')] initial_state)))"
proof -
  have "bs_reachable (push_scope [(''s'', builtin_type ''str'')] initial_state)"
    "place_of empty_model (NameExpr 1 initial_range ''s'') = Some ''s''"
    "\<not> is_copy_type empty_model (new_checker no_diagnostics)
       (type_of_place empty_model ''s'' (push_scope [(''s'', builtin_type ''str'')] initial_state))"
    "ck_emitted (fst (inspect_expr empty_model (NameExpr 1 initial_range ''s'') AcMove
     (new_checker no_diagnostics) (push_scope [(''s'', builtin_type ''str'')] initial_state))) = {}"
    by code_simp+
  then show ?thesis
    using moves_are_recorded [of "push_scope [(''s'', builtin_type ''str'')] initial_state" empty_model
        "NameExpr 1 initial_range ''s''" AcMove "new_checker no_diagnostics" "''s''"]
    by blast
qed

subsection \<open>Initialisation\<close>



lemma moved_set_origins [simp]: "bs_moved (set_reference_origins p os st) = bs_moved st"
  by (simp add: set_reference_origins_def Let_def)








subsection \<open>What the walk does not see\<close>



text \<open>Programs over a string \<open>x\<close> and a reference \<open>r\<close> to it; every statement keeps \<open>r\<close> live.\<close>

definition string_model :: sem_model where
  "string_model = empty_model\<lparr>sm_binding_types := [1 \<mapsto> ref_type (builtin_type ''str'') False]\<rparr>"

definition take_x :: "nat \<Rightarrow> stmt" where
  "take_x i = ExprStmt i initial_range (CallExpr (i + 1) initial_range
     (NameExpr (i + 2) initial_range ''take'') [] [NameExpr (i + 3) initial_range ''x''])"

definition borrow_x :: stmt where
  "borrow_x = LetStmt 1 initial_range ''r'' True None
     (Some (BorrowExpr 2 initial_range (NameExpr 3 initial_range ''x'') False))"

definition assign_r :: stmt where
  "assign_r = AssignStmt 4 initial_range (NameExpr 5 initial_range ''r'') ''='' (NameExpr 6 initial_range ''r'')"

definition string_run :: "stmt list \<Rightarrow> bstate checked" where
  "string_run ss = check_stmts string_model ss
     ((new_checker no_diagnostics)\<lparr>ck_live_before := (\<lambda>_. Some {''r'', ''x''})\<rparr>)
     (push_scope [(''x'', builtin_type ''str'')] initial_state)"

text \<open>
  Assigning a reference to itself forgets the loan it holds. Moving the borrowed value while
  the reference is live is reported without the assignment and accepted after it.
\<close>

theorem self_assignment_forgets_loan:
  "ck_emitted (fst (string_run [borrow_x, take_x 10])) \<noteq> {} \<and>
   ck_emitted (fst (string_run [borrow_x, assign_r, take_x 10])) = {}"
  by code_simp

definition skipped_call :: "nat \<Rightarrow> stmt" where
  "skipped_call i = ExprStmt i initial_range (CallExpr (i + 1) initial_range
     (NameExpr (i + 2) initial_range ''f'') []
     [BorrowExpr (i + 3) initial_range (NameExpr (i + 4) initial_range ''y'') True,
      BorrowExpr (i + 5) initial_range (CallExpr (i + 6) initial_range
        (NameExpr (i + 7) initial_range ''wrap'') [] [NameExpr (i + 8) initial_range ''x'']) True])"

text \<open>
  Of a call that reserves one mutable borrow, a mutable borrow of something that is not a place
  is not inspected at all: a string moved inside it can be moved again.
\<close>

theorem reserved_call_skips_argument:
  "ck_emitted (fst (string_run [take_x 10, take_x 20])) \<noteq> {} \<and>
   ck_emitted (fst (string_run [skipped_call 10, take_x 30])) = {} \<and>
   ck_emitted (fst (string_run [take_x 10, skipped_call 20])) = {}"
  by code_simp

end
