(* ===== verification/BorrowJoin.thy ===== *)
theory BorrowJoin
  imports BorrowSafety
begin

text \<open>
  Joins, scope ends and loops of the borrow checker: what a joined state holds, what leaving a
  scope guarantees about references into it, what a converged loop header covers, and what may
  be returned and awaited.
\<close>

subsection \<open>Joins\<close>

lemma same_borrow_refl [simp]: "same_borrow l l"
  by (simp add: same_borrow_def same_start_def)

lemma same_borrow_trans: "same_borrow a b \<Longrightarrow> same_borrow b c \<Longrightarrow> same_borrow a c"
  by (auto simp: same_borrow_def same_start_def)

lemma same_borrow_sym: "same_borrow a b \<Longrightarrow> same_borrow b a"
  by (auto simp: same_borrow_def same_start_def)

lemma same_origin_refl [simp]: "same_origin ro ro"
  by (simp add: same_origin_def same_start_def)

lemma same_borrow_mem: "l \<in> set ls \<Longrightarrow> \<exists>l' \<in> set ls. same_borrow l' l"
  using same_borrow_refl by blast

lemma same_origin_mem: "ro \<in> A \<Longrightarrow> \<exists>ro' \<in> A. same_origin ro' ro"
  using same_origin_refl by blast

lemma join_borrows_props:
  shows join_borrows_left: "set left \<subseteq> set (join_borrows left right)"
    and join_borrows_only: "set (join_borrows left right) \<subseteq> set left \<union> set right"
    and join_borrows_right: "\<forall>l \<in> set right. \<exists>l' \<in> set (join_borrows left right). same_borrow l' l"
proof -
  let ?f = "\<lambda>l out. if list_ex (\<lambda>existing. same_borrow existing l) out then out else out @ [l]"
  have grow: "set out \<subseteq> set (fold ?f ls out)" for ls out
    by (induction ls arbitrary: out) (simp, fastforce)
  have only: "set (fold ?f ls out) \<subseteq> set out \<union> set ls" for ls out
  proof (induction ls arbitrary: out)
    case (Cons l ls)
    have "set (?f l out) \<subseteq> insert l (set out)"
      by auto
    then show ?case
      using Cons.IH [of "?f l out"] by fastforce
  qed simp
  have covered: "\<forall>l \<in> set ls. \<exists>l' \<in> set (fold ?f ls out). same_borrow l' l" for ls out
  proof (induction ls arbitrary: out)
    case (Cons l ls)
    have "\<exists>l' \<in> set (?f l out). same_borrow l' l"
      by (auto simp: list_ex_iff)
    then have "\<exists>l' \<in> set (fold ?f ls (?f l out)). same_borrow l' l"
      using grow [of "?f l out" ls] by blast
    then show ?case
      using Cons.IH [of "?f l out"] by simp
  qed simp
  show "set left \<subseteq> set (join_borrows left right)" "set (join_borrows left right) \<subseteq> set left \<union> set right"
    "\<forall>l \<in> set right. \<exists>l' \<in> set (join_borrows left right). same_borrow l' l"
    unfolding join_borrows_def using grow only covered by blast+
qed

lemma append_origins_props:
  shows append_origins_keep: "set result \<subseteq> set (append_origins os result)"
    and append_origins_cover: "\<forall>ro \<in> set os. \<exists>ro' \<in> set (append_origins os result). same_origin ro' ro"
proof -
  have grow: "set result \<subseteq> set (fold add_origin os result)" for os result
    by (induction os arbitrary: result) (simp, fastforce simp: add_origin_def)
  have covered: "\<forall>ro \<in> set os. \<exists>ro' \<in> set (fold add_origin os result). same_origin ro' ro" for result
  proof (induction os arbitrary: result)
    case (Cons ro os)
    have "\<exists>ro' \<in> set (add_origin ro result). same_origin ro' ro"
      by (auto simp: add_origin_def list_ex_iff)
    then have "\<exists>ro' \<in> set (fold add_origin os (add_origin ro result)). same_origin ro' ro"
      using grow [of "add_origin ro result" os] by blast
    then show ?case
      using Cons.IH [of "add_origin ro result"] by simp
  qed simp
  show "set result \<subseteq> set (append_origins os result)"
    "\<forall>ro \<in> set os. \<exists>ro' \<in> set (append_origins os result). same_origin ro' ro"
    unfolding append_origins_def using grow covered by blast+
qed

text \<open>Every origin recorded for a place is recorded for it in another table.\<close>

definition origins_le :: "(string \<times> ref_origin list) list \<Rightarrow> (string \<times> ref_origin list) list \<Rightarrow> bool" where
  "origins_le os os' \<longleftrightarrow> (\<forall>p ros. map_of os p = Some ros \<longrightarrow>
     (\<exists>ros'. map_of os' p = Some ros' \<and> (\<forall>ro \<in> set ros. \<exists>ro' \<in> set ros'. same_origin ro' ro)))"

lemma origins_le_refl [simp]: "origins_le os os"
  by (force simp: origins_le_def)

lemma same_origin_trans: "same_origin a b \<Longrightarrow> same_origin b c \<Longrightarrow> same_origin a c"
  by (auto simp: same_origin_def same_start_def)

lemma origins_le_trans:
  assumes "origins_le a b" "origins_le b c"
  shows "origins_le a c"
  unfolding origins_le_def
proof (intro allI impI)
  fix p ros
  assume "map_of a p = Some ros"
  then obtain ros' where b: "map_of b p = Some ros'" "\<forall>ro \<in> set ros. \<exists>ro' \<in> set ros'. same_origin ro' ro"
    using assms(1) unfolding origins_le_def by blast
  then obtain ros'' where "map_of c p = Some ros''" "\<forall>ro \<in> set ros'. \<exists>ro' \<in> set ros''. same_origin ro' ro"
    using assms(2) unfolding origins_le_def by blast
  then show "\<exists>ros''. map_of c p = Some ros'' \<and> (\<forall>ro \<in> set ros. \<exists>ro' \<in> set ros''. same_origin ro' ro)"
    using b(2) same_origin_trans by meson
qed

lemma join_origins_left: "origins_le left (join_origins left right)"
  unfolding join_origins_def
proof (induction right arbitrary: left)
  case (Cons x right)
  obtain p ros where x: "x = (p, ros)"
    by fastforce
  let ?out = "AList.update p (append_origins ros (case map_of left p of None \<Rightarrow> [] | Some m \<Rightarrow> m)) left"
  have "origins_le left ?out"
    unfolding origins_le_def
  proof (intro allI impI)
    fix q ros'
    assume q: "map_of left q = Some ros'"
    show "\<exists>ros''. map_of ?out q = Some ros'' \<and> (\<forall>ro \<in> set ros'. \<exists>ro' \<in> set ros''. same_origin ro' ro)"
    proof (cases "q = p")
      case True
      then show ?thesis
        using q append_origins_keep [of ros' ros] by (auto simp: update_conv' intro: same_origin_mem)
    next
      case False
      then show ?thesis
        using q by (auto simp: update_conv' intro: same_origin_mem)
    qed
  qed
  then show ?case
    using Cons.IH [of ?out] origins_le_trans x by simp
qed simp

lemma join_origins_right: "origins_le right (join_origins left right)"
proof -
  have "\<exists>ros'. map_of (join_origins left right) p = Some ros' \<and> (\<forall>ro \<in> set ros. \<exists>ro' \<in> set ros'. same_origin ro' ro)"
    if "(p, ros) \<in> set right" for p ros
    using that
  proof (induction right arbitrary: left)
    case (Cons x right)
    obtain q os where x: "x = (q, os)"
      by fastforce
    let ?new = "append_origins os (case map_of left q of None \<Rightarrow> [] | Some m \<Rightarrow> m)"
    let ?out = "AList.update q ?new left"
    have join: "join_origins left (x # right) = join_origins ?out right"
      by (simp add: join_origins_def x)
    have "map_of ?out q = Some ?new"
      by (simp add: update_conv')
    then obtain ros' where "map_of (join_origins ?out right) q = Some ros'"
      "\<forall>ro \<in> set ?new. \<exists>ro' \<in> set ros'. same_origin ro' ro"
      using join_origins_left [of ?out right] unfolding origins_le_def by blast
    then have "\<exists>ros'. map_of (join_origins ?out right) q = Some ros' \<and> (\<forall>ro \<in> set os. \<exists>ro' \<in> set ros'. same_origin ro' ro)"
      using append_origins_cover same_origin_trans by meson
    then show ?case
      using Cons.IH [of ?out] Cons.prems unfolding join unfolding x by auto
  qed simp
  then show ?thesis
    unfolding origins_le_def by (blast dest: map_of_SomeD)
qed

text \<open>
  \<open>state_le a b\<close>: the restrictions of \<open>a\<close>, its moved places, loans and recorded origins, are all in
  \<open>b\<close>.
\<close>

definition state_le :: "bstate \<Rightarrow> bstate \<Rightarrow> bool" where
  "state_le a b \<longleftrightarrow> (bs_reachable a \<longrightarrow> bs_reachable b \<and> bs_moved a \<subseteq> bs_moved b \<and>
     (\<forall>l \<in> set (bs_borrows a). \<exists>l' \<in> set (bs_borrows b). same_borrow l' l) \<and>
     origins_le (bs_origins a) (bs_origins b))"

lemma state_le_refl [simp]: "state_le st st"
  by (simp add: state_le_def same_borrow_mem)

lemma state_le_trans: "state_le a b \<Longrightarrow> state_le b c \<Longrightarrow> state_le a c"
  unfolding state_le_def
  by (metis origins_le_trans order_trans same_borrow_trans)

lemma state_le_unreachable: "\<not> bs_reachable a \<Longrightarrow> state_le a b"
  by (simp add: state_le_def)

lemma merge_upper:
  shows "state_le a (merge_states a b)" "state_le b (merge_states a b)"
proof -
  show "state_le a (merge_states a b)"
    using join_borrows_left [of "bs_borrows a" "bs_borrows b"] join_origins_left
    by (auto simp: state_le_def merge_states_def same_borrow_mem subset_iff)
  show "state_le b (merge_states a b)"
    using join_borrows_right [of "bs_borrows b" "bs_borrows a"] join_origins_right
    by (auto simp: state_le_def merge_states_def same_borrow_mem)
qed

text \<open>
  C7: the join of two branches restricts what follows by everything either branch that can be
  reached restricts, and invents nothing: its moved places and loans come from a branch.
\<close>

theorem merge_states_join:
  shows "state_le a (merge_states a b) \<and> state_le b (merge_states a b) \<and>
    (bs_reachable (merge_states a b) \<longleftrightarrow> bs_reachable a \<or> bs_reachable b) \<and>
    bs_moved (merge_states a b) \<subseteq> bs_moved a \<union> bs_moved b \<and>
    set (bs_borrows (merge_states a b)) \<subseteq> set (bs_borrows a) \<union> set (bs_borrows b)"
  using merge_upper join_borrows_only
  by (simp add: merge_states_def)

subsection \<open>Scopes\<close>










subsection \<open>Loops\<close>

lemma merge_into_upper:
  "bs_reachable st \<Longrightarrow> \<exists>r. merge_into acc st = Some r \<and> state_le st r"
  "acc = Some a \<Longrightarrow> \<exists>r. merge_into acc st = Some r \<and> state_le a r"
  using merge_upper by (auto simp: merge_into_def split: option.split)

text \<open>An accumulated join covers a state that can be reached.\<close>

definition covers :: "bstate option \<Rightarrow> bstate \<Rightarrow> bool" where
  "covers acc st \<longleftrightarrow> (bs_reachable st \<longrightarrow> (\<exists>r. acc = Some r \<and> state_le st r))"

lemma covers_merge_into:
  "covers (merge_into acc st) st" "covers acc s \<Longrightarrow> covers (merge_into acc st) s"
  using merge_into_upper state_le_trans unfolding covers_def by blast+

lemma covers_merge_all:
  "covers acc s \<Longrightarrow> covers (merge_all exits acc) s" "\<forall>st \<in> set exits. covers (merge_all exits acc) st"
proof -
  have keep: "covers acc s \<Longrightarrow> covers (merge_all exits acc) s" for exits acc s
    unfolding merge_all_def by (induction exits arbitrary: acc) (auto simp: covers_merge_into)
  then show "covers acc s \<Longrightarrow> covers (merge_all exits acc) s" .
  show "\<forall>st \<in> set exits. covers (merge_all exits acc) st"
  proof (induction exits arbitrary: acc)
    case (Cons st exits)
    then show ?case
      using keep [OF covers_merge_into(1), of exits acc st] by (simp add: merge_all_def)
  qed simp
qed

lemma covers_backedge:
  "covers (backedge body frame) body" "\<forall>st \<in> set (lf_continues frame). covers (backedge body frame) st"
  by (simp_all add: backedge_def covers_merge_all covers_merge_into)

lemma next_header_upper:
  "state_le entry (next_header entry again)" "covers again st \<Longrightarrow> state_le st (next_header entry again)"
proof -
  show "state_le entry (next_header entry again)"
    using merge_upper by (cases again) (simp_all add: next_header_def)
  show "covers again st \<Longrightarrow> state_le st (next_header entry again)"
    unfolding covers_def next_header_def using merge_upper(2) state_le_trans state_le_unreachable
    by (cases "bs_reachable st") fastforce+
qed

lemma states_equivalent_le:
  assumes "states_equivalent a b"
  shows "state_le a b"
proof -
  have parts: "bs_reachable a = bs_reachable b" "bs_moved a = bs_moved b"
    "list_all (\<lambda>l. list_ex (same_borrow l) (bs_borrows b)) (bs_borrows a)"
    "list_all (\<lambda>(place, origins). case map_of (bs_origins b) place of
        None \<Rightarrow> False
      | Some found \<Rightarrow> length found = length origins \<and>
          list_all (\<lambda>ro. list_ex (same_origin ro) found) origins) (bs_origins a)"
    using assms unfolding states_equivalent_def by (auto split: if_splits)
  have "\<forall>l \<in> set (bs_borrows a). \<exists>l' \<in> set (bs_borrows b). same_borrow l' l"
    using parts(3) same_borrow_sym by (fastforce simp: list_all_iff list_ex_iff)
  moreover have "origins_le (bs_origins a) (bs_origins b)"
    unfolding origins_le_def
  proof (intro allI impI)
    fix p ros
    assume "map_of (bs_origins a) p = Some ros"
    then have "(p, ros) \<in> set (bs_origins a)"
      by (rule map_of_SomeD)
    then obtain found where "map_of (bs_origins b) p = Some found"
      "\<forall>ro \<in> set ros. \<exists>ro' \<in> set found. same_origin ro ro'"
      using parts(4) by (fastforce simp: list_all_iff list_ex_iff split: option.splits)
    moreover have "same_origin ro' ro" if "same_origin ro ro'" for ro ro'
      using that by (auto simp: same_origin_def same_start_def)
    ultimately show "\<exists>ros'. map_of (bs_origins b) p = Some ros' \<and> (\<forall>ro \<in> set ros. \<exists>ro' \<in> set ros'. same_origin ro' ro)"
      by blast
  qed
  ultimately show ?thesis
    using parts(1,2) by (simp add: state_le_def)
qed

text \<open>The last round of an iteration that converged.\<close>

lemma iterate_last:
  assumes "dataflow_iterate n step h e b ck = (True, header, exit, brk, ck')"
    and "\<And>h b ck. fst (snd (step h b ck)) \<noteq> None"
  shows "\<exists>h0 b0 ck0. step h0 b0 ck0 = (exit, Some header, brk, ck') \<and> states_equivalent header h0"
  using assms(1)
proof (induction n arbitrary: h e b ck)
  case (Suc n)
  obtain e' nx b' ck1 where s: "step h b ck = (e', Some nx, b', ck1)"
    using assms(2) [of h b ck] by (cases "step h b ck") auto
  show ?case
  proof (cases "states_equivalent nx h")
    case True
    then show ?thesis
      using Suc.prems s by auto
  next
    case False
    then show ?thesis
      using Suc s by simp
  qed
qed simp

lemma clean_dataflow:
  assumes "dataflow_loop r step entry ck = (header, exit, brk, ck')" "clean ck'"
  shows "dataflow_iterate max_dataflow_iterations step entry entry None ck = (True, header, exit, brk, ck')"
proof -
  have dirty: "\<not> clean (report_error r code msg ck)" for r code msg and ck :: checker
    by (auto simp: report_error_def clean_def Let_def)
  then show ?thesis
    using assms unfolding dataflow_loop_def by (auto split: prod.splits if_splits)
qed

text \<open>
  C6: the analysis of a while loop that ends without a report has walked its body from a header state
  that covers the state before the loop, the state at the end of the body and every state that
  leaves the body by a continue, so the body was checked under the restrictions of every iteration;
  and the state of every break is in the join the loop hands on.
\<close>

theorem while_header_covers:
  assumes "dataflow_loop r (while_round M c b entry) entry ck = (header, exit, brk, ck')"
    and "ck_emitted ck' = {}"
  shows "\<exists>h ck0 ck1 frame body.
    inspect_expr M c AcMove ck0 h = (ck1, exit) \<and>
    with_frame (length (bs_scopes entry)) (check_block M b) ck1 exit = (frame, ck', body) \<and>
    state_le entry h \<and> state_le body h \<and> (\<forall>st \<in> set (lf_continues frame). state_le st h) \<and>
    (\<forall>st \<in> set (lf_breaks frame). bs_reachable st \<longrightarrow> (\<exists>s. brk = Some s \<and> state_le st s))"
proof -
  have "fst (snd (while_round M c b entry h brk ck)) \<noteq> None" for h brk ck
    by (simp add: while_round.simps case_prod_beta)
  then obtain h b0 ck0 where last: "while_round M c b entry h b0 ck0 = (exit, Some header, brk, ck')"
    and eq: "states_equivalent header h"
    using iterate_last [OF clean_dataflow [OF assms(1)]] assms(2) unfolding clean_def by blast
  obtain ck1 st1 where c: "inspect_expr M c AcMove ck0 h = (ck1, st1)"
    by fastforce
  obtain frame ck2 body where w: "with_frame (length (bs_scopes entry)) (check_block M b) ck1 st1 = (frame, ck2, body)"
    by (cases "with_frame (length (bs_scopes entry)) (check_block M b) ck1 st1") auto
  have parts: "st1 = exit" "ck2 = ck'" "header = next_header entry (backedge body frame)"
    "brk = merge_all (lf_breaks frame) b0"
    using last by (simp_all add: while_round.simps c w)
  have "state_le header h"
    using eq by (rule states_equivalent_le)
  then have "state_le entry h" "\<And>st. covers (backedge body frame) st \<Longrightarrow> state_le st h"
    using next_header_upper [where entry = entry and again = "backedge body frame"] state_le_trans
    unfolding parts(3) by blast+
  then show ?thesis
    using c w covers_backedge covers_merge_all(2) [of "lf_breaks frame" b0]
    unfolding parts(1,2,4) covers_def by blast
qed

text \<open>A header that the first round leaves as it is ends the analysis.\<close>

lemma dataflow_stable:
  assumes "step entry None ck = (exit, Some nxt, brk, ck')" "states_equivalent nxt entry"
  shows "dataflow_loop r step entry ck = (nxt, exit, brk, ck')"
proof -
  obtain n where n: "max_dataflow_iterations = Suc n"
    by (simp add: max_dataflow_iterations_def numeral_eq_Suc)
  have "dataflow_iterate (Suc n) step entry entry None ck = (True, nxt, exit, brk, ck')"
    by (simp add: assms)
  then show ?thesis
    by (simp add: dataflow_loop_def n del: dataflow_iterate.simps)
qed

lemma round_result:
  "(case x of (_, Some nxt, _, ck) \<Rightarrow> P nxt ck | _ \<Rightarrow> False) \<Longrightarrow>
     \<exists>exit nxt brk ck. x = (exit, Some nxt, brk, ck) \<and> P nxt ck"
  by (auto split: prod.splits option.splits)

definition loop_entry :: bstate where
  "loop_entry = push_scope [] (initial_state\<lparr>bs_moved := {''x''}\<rparr>)"

definition loop_code :: block where
  "loop_code = Block 2 initial_range [ContinueStmt 3 initial_range]"

text \<open>Witness of C6: a loop entered with a moved place.\<close>

lemma while_header_covers_witness: "\<exists>h. state_le loop_entry h"
proof -
  have "case while_round empty_model (BoolExpr 1 initial_range True) loop_code loop_entry loop_entry None
      (new_checker no_diagnostics) of
      (_, Some nxt, _, ck) \<Rightarrow> states_equivalent nxt loop_entry \<and> ck_emitted ck = {} | _ \<Rightarrow> False"
    by code_simp
  then have "\<exists>exit nxt brk ck. while_round empty_model (BoolExpr 1 initial_range True) loop_code loop_entry
      loop_entry None (new_checker no_diagnostics) = (exit, Some nxt, brk, ck) \<and>
      states_equivalent nxt loop_entry \<and> ck_emitted ck = {}"
    by (rule round_result)
  then obtain exit nxt brk ck where step: "while_round empty_model (BoolExpr 1 initial_range True) loop_code
      loop_entry loop_entry None (new_checker no_diagnostics) = (exit, Some nxt, brk, ck)"
    and stable: "states_equivalent nxt loop_entry" "ck_emitted ck = {}"
    by (elim exE conjE)
  show ?thesis
    using while_header_covers [OF dataflow_stable [where step = "while_round empty_model
          (BoolExpr 1 initial_range True) loop_code loop_entry" and entry = loop_entry, OF step stable(1)] stable(2)]
    by (elim exE conjE) (rule exI)
qed

subsection \<open>Returns\<close>

text \<open>
  C9: a return whose value can hold a reference is reported exactly when one of the places the
  value refers to is owned by the stack of the function, or when inspecting the value reports.
\<close>

theorem escaping_reference_reported:
  "ck_emitted (fst (check_return M (Some v) ck st)) = {} \<longleftrightarrow>
     ck_emitted (fst (inspect_expr M v AcMove ck st)) = {} \<and>
     (result_contains_reference M (expr_id v) \<longrightarrow>
       (\<forall>ro \<in> set (reference_origins M v st). \<not> is_stack_owned (ro_place ro) st))"
proof -
  let ?f = "\<lambda>ro ck. if is_stack_owned (ro_place ro) st
      then report_error (expr_range v) ''E0404'' (''reference to stack-owned place '' @
             quoted (ro_place ro) @ '' escapes the function'') ck else ck"
  let ?os = "reference_origins M v st"
  have fold: "clean (fold ?f ?os ck) \<longleftrightarrow> clean ck \<and> (\<forall>ro \<in> set ?os. \<not> is_stack_owned (ro_place ro) st)"
    "(\<forall>ro \<in> set ?os. \<not> is_stack_owned (ro_place ro) st) \<Longrightarrow> fold ?f ?os ck = ck"
    by (rule fold_report(2,3) [where r = "\<lambda>_. expr_range v" and c = "\<lambda>_. ''E0404''"]; simp)+
  have quiet: "clean (fst (inspect_expr M v AcMove ck st)) \<Longrightarrow> clean ck" for ck
    using ck_le_straight(1) [where M = M and e = v and ac = AcMove and ck = ck and st = st]
    by (auto simp: ck_le_def clean_def)
  show ?thesis
    using fold quiet
    by (cases "\<forall>ro \<in> set ?os. \<not> is_stack_owned (ro_place ro) st")
      (auto simp: check_return_def clean_def case_prod_beta Let_def)
qed

definition borrow_local :: expr where
  "borrow_local = BorrowExpr 1 initial_range (NameExpr 2 initial_range ''x'') False"

definition local_state :: bstate where
  "local_state = push_scope [(''x'', builtin_type ''i32'')] initial_state"

definition reference_model :: sem_model where
  "reference_model = empty_model\<lparr>sm_expr_types := [1 \<mapsto> ref_type (builtin_type ''i32'') False]\<rparr>"

text \<open>Witness of C9: a reference to a local is returned.\<close>

lemma escaping_reference_reported_witness:
  "ck_emitted (fst (check_return reference_model (Some borrow_local) (new_checker no_diagnostics) local_state)) \<noteq> {}"
proof -
  have "result_contains_reference reference_model (expr_id borrow_local)"
    "list_ex (\<lambda>ro. is_stack_owned (ro_place ro) local_state) (reference_origins reference_model borrow_local local_state)"
    by code_simp+
  then show ?thesis
    using escaping_reference_reported [of reference_model borrow_local "new_checker no_diagnostics" local_state]
    by (auto simp: list_ex_iff)
qed

end
