(* ===== verification/Mir.thy ===== *)
theory Mir
  imports Types
begin

text \<open>
  The intermediate representation of include/uinx/mir.hpp: instructions over named values, basic
  blocks, functions and modules. A value is named by a string: a temporary \<open>%t0\<close>, an argument
  \<open>%arg.x\<close>, a stack slot \<open>%x.slot.0\<close>, a global \<open>@g\<close> or a literal.
\<close>

datatype mir_op =
  OpAlloca | OpConstInt | OpConstFloat | OpConstBool | OpConstChar | OpConstString | OpStructInit
| OpLoad | OpStore | OpAtomicRmw | OpFence | OpCompilerFence | OpFieldAddr | OpIndexAddr | OpBinary
| OpCompare | OpCall | OpCast | OpAddressOf | OpAwait | OpInlineAsm | OpDrop | OpJump | OpCondJump
| OpReturn

record mir_asm =
  ma_kind :: asm_kind
  ma_constraint :: string
  ma_value :: string
  ma_out_slot :: string
  ma_type :: ty

record instr =
  in_op :: mir_op
  in_result :: string
  in_type :: ty
  in_args :: "string list"
  in_text :: string
  in_asm :: "mir_asm list"
  in_flag :: bool
  in_range :: src_range
  in_aux :: ty

definition instr_of ::
  "mir_op \<Rightarrow> string \<Rightarrow> ty \<Rightarrow> string list \<Rightarrow> string \<Rightarrow> bool \<Rightarrow> src_range \<Rightarrow> instr" where
  "instr_of op res t args text flag r =
     \<lparr>in_op = op, in_result = res, in_type = t, in_args = args, in_text = text, in_asm = [],
      in_flag = flag, in_range = r, in_aux = error_type\<rparr>"

lemma instr_of_simps [simp]:
  "in_op (instr_of op res t args text flag r) = op"
  "in_result (instr_of op res t args text flag r) = res"
  "in_type (instr_of op res t args text flag r) = t"
  "in_args (instr_of op res t args text flag r) = args"
  "in_text (instr_of op res t args text flag r) = text"
  "in_asm (instr_of op res t args text flag r) = []"
  "in_flag (instr_of op res t args text flag r) = flag"
  "in_aux (instr_of op res t args text flag r) = error_type"
  by (simp_all add: instr_of_def)

record basic_block =
  bb_label :: string
  bb_instrs :: "instr list"
  bb_terminated :: bool

record mir_param =
  mp_name :: string
  mp_type :: ty

record mir_function =
  mf_name :: string
  mf_source_name :: string
  mf_params :: "mir_param list"
  mf_result :: ty
  mf_blocks :: "basic_block list"
  mf_is_extern :: bool
  mf_is_unsafe :: bool
  mf_is_async :: bool
  mf_abi :: string

record string_constant =
  sc_symbol :: string
  sc_value :: string

record mir_global =
  mg_name :: string
  mg_type :: ty
  mg_init :: string
  mg_is_mut :: bool
  mg_is_shared :: bool
  mg_is_percpu :: bool

record mir_module =
  mm_functions :: "mir_function list"
  mm_strings :: "string_constant list"
  mm_globals :: "mir_global list"
  mm_structs :: "struct_decl list"

definition empty_mir :: mir_module where
  "empty_mir = \<lparr>mm_functions = [], mm_strings = [], mm_globals = [], mm_structs = []\<rparr>"

definition unsigned_integer_kind :: "type_kind \<Rightarrow> bool" where
  "unsigned_integer_kind k \<longleftrightarrow> k \<in> {KU8, KU16, KU32, KU64, KU128, KUsize}"

definition builtin_function :: "string \<Rightarrow> bool" where
  "builtin_function name \<longleftrightarrow> name \<in> {''print'', ''println'', ''eprint'', ''eprintln'', ''input'',
     ''str'', ''int'', ''float'', ''bool'', ''len''}"

definition is_terminator :: "mir_op \<Rightarrow> bool" where
  "is_terminator op \<longleftrightarrow> op = OpReturn \<or> op = OpJump \<or> op = OpCondJump"

text \<open>The labels an instruction can jump to.\<close>

definition jump_targets :: "instr \<Rightarrow> string list" where
  "jump_targets i = (case in_op i of
      OpJump \<Rightarrow> take 1 (in_args i)
    | OpCondJump \<Rightarrow> if 3 \<le> length (in_args i) then [in_args i ! 1, in_args i ! 2] else []
    | _ \<Rightarrow> [])"

end
