(* ===== verification/MirOpt.thy ===== *)
theory MirOpt
  imports Mir "HOL-Library.Signed_Division"
begin

unbundle bit_operations_syntax

text \<open>
  The optimiser of src/mir_optimizer.cpp: removal of unreachable blocks, forwarding of stores to
  loads inside a block, constant folding in 64 bits and removal of unused values. A map that a pass
  only looks up, updates or clears is a HOL map.
\<close>

subsection \<open>Unreachable blocks\<close>

definition label_index :: "basic_block list \<Rightarrow> string \<rightharpoonup> nat" where
  "label_index bs = fold (\<lambda>(i, b) m. m(bb_label b \<mapsto> i)) (zip [0..<length bs] bs) Map.empty"

text \<open>The indices pushed for a block, in the order of the pushes.\<close>

definition block_succs :: "basic_block list \<Rightarrow> nat \<Rightarrow> nat list" where
  "block_succs bs index =
     (let next_block = (if index + 1 < length bs then [index + 1] else []);
          target = (\<lambda>l. case label_index bs l of None \<Rightarrow> [] | Some i \<Rightarrow> [i]);
          is = bb_instrs (bs ! index)
      in if is = [] then next_block
         else
           (let tail = last is in
            if in_op tail = OpJump \<and> in_args tail \<noteq> [] then target (in_args tail ! 0)
            else if in_op tail = OpCondJump \<and> 3 \<le> length (in_args tail)
              then target (in_args tail ! 1) @ target (in_args tail ! 2)
            else if in_op tail \<noteq> OpReturn then next_block else []))"

text \<open>The work list is a stack; the model has its top first.\<close>

function reach_labels :: "basic_block list \<Rightarrow> nat list \<Rightarrow> string set \<Rightarrow> string set" where
  "reach_labels bs [] reached = reached"
| "reach_labels bs (index # work) reached =
     (if length bs \<le> index \<or> bb_label (bs ! index) \<in> reached then reach_labels bs work reached
      else reach_labels bs (rev (block_succs bs index) @ work) (insert (bb_label (bs ! index)) reached))"
  by pat_completeness auto
termination
proof (relation "measures [\<lambda>(bs, work, reached). card (bb_label ` set bs - reached),
    \<lambda>(bs, work, reached). length work]", goal_cases)
  case (3 bs index work reached)
  then have "bb_label (bs ! index) \<in> bb_label ` set bs - reached"
    by simp
  then have "bb_label ` set bs - insert (bb_label (bs ! index)) reached \<subset> bb_label ` set bs - reached"
    by blast
  then have "card (bb_label ` set bs - insert (bb_label (bs ! index)) reached) <
      card (bb_label ` set bs - reached)"
    by (intro psubset_card_mono) auto
  then show ?case
    by simp
qed simp_all

definition remove_unreachable :: "mir_function \<Rightarrow> mir_function" where
  "remove_unreachable f =
     (if mf_blocks f = [] then f
      else f\<lparr>mf_blocks := filter (\<lambda>b. bb_label b \<in> reach_labels (mf_blocks f) [0] {}) (mf_blocks f)\<rparr>)"

subsection \<open>Forwarding of stored values\<close>

text \<open>At most \<open>depth\<close> steps along the aliases.\<close>

fun resolve :: "nat \<Rightarrow> (string \<rightharpoonup> string) \<Rightarrow> string \<Rightarrow> string" where
  "resolve 0 aliases v = v"
| "resolve (Suc depth) aliases v =
     (case aliases v of
       None \<Rightarrow> v
     | Some w \<Rightarrow> if w = v then v else resolve depth aliases w)"

definition alias_depth :: nat where
  "alias_depth = 32"

fun contains_sub :: "string \<Rightarrow> string \<Rightarrow> bool" where
  "contains_sub sub [] = (sub = [])"
| "contains_sub sub (c # cs) = (starts_with (c # cs) sub \<or> contains_sub sub cs)"

definition is_local_slot :: "string \<Rightarrow> bool" where
  "is_local_slot address \<longleftrightarrow> address \<noteq> [] \<and> hd address = CHR ''%'' \<and> contains_sub ''.slot.'' address"

definition resolve_operands :: "(string \<rightharpoonup> string) \<Rightarrow> instr \<Rightarrow> instr" where
  "resolve_operands aliases i =
     i\<lparr>in_args := map (resolve alias_depth aliases) (in_args i),
       in_asm := map (\<lambda>a. if ma_value a \<noteq> [] then a\<lparr>ma_value := resolve alias_depth aliases (ma_value a)\<rparr>
         else a) (in_asm i)\<rparr>"

text \<open>What an instruction that stays leaves known of the slots.\<close>

definition update_slots :: "instr \<Rightarrow> (string \<rightharpoonup> string) \<Rightarrow> (string \<rightharpoonup> string)" where
  "update_slots i slots =
     (if in_op i = OpStore \<and> \<not> in_flag i \<and> 2 \<le> length (in_args i) then
        (if is_local_slot (in_args i ! 1) then slots(in_args i ! 1 \<mapsto> in_args i ! 0) else Map.empty)
      else if in_op i = OpAddressOf then
        (if in_args i \<noteq> [] then slots(in_args i ! 0 := None) else slots)
      else if in_op i \<in> {OpCall, OpInlineAsm, OpAtomicRmw, OpFence, OpCompilerFence} \<or>
              in_op i = OpLoad \<and> in_flag i \<or> in_op i = OpStore \<and> in_flag i then Map.empty
      else slots)"

fun forward_instrs ::
  "(string \<rightharpoonup> string) \<Rightarrow> (string \<rightharpoonup> string) \<Rightarrow> instr list \<Rightarrow> instr list" where
  "forward_instrs slots aliases [] = []"
| "forward_instrs slots aliases (i # is) =
     (let i = resolve_operands aliases i in
      case (if in_op i = OpLoad \<and> \<not> in_flag i \<and> in_args i \<noteq> [] then slots (in_args i ! 0) else None) of
        Some v \<Rightarrow> forward_instrs slots (aliases(in_result i \<mapsto> resolve alias_depth aliases v)) is
      | None \<Rightarrow> i # forward_instrs (update_slots i slots) aliases is)"

definition forward_local_loads :: "mir_function \<Rightarrow> mir_function" where
  "forward_local_loads f =
     f\<lparr>mf_blocks := map (\<lambda>b. b\<lparr>bb_instrs := forward_instrs Map.empty Map.empty (bb_instrs b)\<rparr>) (mf_blocks f)\<rparr>"

subsection \<open>Constant folding\<close>

text \<open>
  \<open>strtoll(s, &end, 0)\<close>: white space, a sign, a prefix that chooses the base, digits; a number out
  of range saturates. The code accepts the number when the whole string was read.
\<close>

definition is_space :: "char \<Rightarrow> bool" where
  "is_space c \<longleftrightarrow> (let n = of_char c :: nat in n = 32 \<or> 9 \<le> n \<and> n \<le> 13)"

definition digit_value :: "char \<Rightarrow> nat option" where
  "digit_value c =
     (let n = of_char c :: nat in
      if 48 \<le> n \<and> n \<le> 57 then Some (n - 48)
      else if 97 \<le> n \<and> n \<le> 122 then Some (n - 87)
      else if 65 \<le> n \<and> n \<le> 90 then Some (n - 55)
      else None)"

text \<open>The value of a string made of digits of the base, and nothing else.\<close>

fun all_digits :: "nat \<Rightarrow> nat \<Rightarrow> string \<Rightarrow> nat option" where
  "all_digits base acc [] = Some acc"
| "all_digits base acc (c # cs) =
     (case digit_value c of
       None \<Rightarrow> None
     | Some d \<Rightarrow> if d < base then all_digits base (acc * base + d) cs else None)"

definition parse_magnitude :: "string \<Rightarrow> nat option" where
  "parse_magnitude s =
     (if s = [] then None
      else if hd s = CHR ''0'' then
        (if 3 \<le> length s \<and> (s ! 1 = CHR ''x'' \<or> s ! 1 = CHR ''X'') then all_digits 16 0 (drop 2 s)
         else all_digits 8 0 s)
      else all_digits 10 0 s)"

definition saturate :: "int \<Rightarrow> int" where
  "saturate n = max (- (2 ^ 63)) (min (2 ^ 63 - 1) n)"

definition parse_int :: "string \<Rightarrow> 64 word option" where
  "parse_int s =
     (let s = dropWhile is_space s;
          negative = (s \<noteq> [] \<and> hd s = CHR ''-'');
          s = (if s \<noteq> [] \<and> (hd s = CHR ''-'' \<or> hd s = CHR ''+'') then tl s else s)
      in map_option (\<lambda>n. word_of_int (saturate (if negative then - int n else int n))) (parse_magnitude s))"

definition int_to_string :: "int \<Rightarrow> string" where
  "int_to_string n = (if n < 0 then ''-'' @ nat_to_string (nat (- n)) else nat_to_string (nat n))"

definition const_get :: "(string \<rightharpoonup> 64 word) \<Rightarrow> string \<Rightarrow> 64 word option" where
  "const_get constants v = (case constants v of Some w \<Rightarrow> Some w | None \<Rightarrow> parse_int v)"

text \<open>
  The result of folding an operation. The division of the least number by minus one is undefined
  behaviour of the compiler itself: the signed quotient does not fit.
\<close>

datatype folded = Folded "64 word" | NotFolded | Undefined

definition signed_fold :: "(int \<Rightarrow> int \<Rightarrow> int) \<Rightarrow> 64 word \<Rightarrow> 64 word \<Rightarrow> folded" where
  "signed_fold f a b =
     (if sint a = - (2 ^ 63) \<and> sint b = - 1 then Undefined else Folded (word_of_int (f (sint a) (sint b))))"

definition fold_binary :: "type_kind \<Rightarrow> string \<Rightarrow> 64 word \<Rightarrow> 64 word \<Rightarrow> folded" where
  "fold_binary k op a b =
     (let u = unsigned_integer_kind k in
      if op = ''+'' then Folded (a + b)
      else if op = ''-'' then Folded (a - b)
      else if op = ''*'' then Folded (a * b)
      else if op = ''/'' then
        (if b = 0 then NotFolded else if u then Folded (a div b) else signed_fold (sdiv) a b)
      else if op = ''%'' then
        (if b = 0 then NotFolded else if u then Folded (a mod b) else signed_fold (smod) a b)
      else if op = ''&'' \<or> op = ''&&'' then Folded (a AND b)
      else if op = ''|'' \<or> op = ''||'' then Folded (a OR b)
      else if op = ''^'' then Folded (a XOR b)
      else if op = ''<<'' then
        (if sint b < 0 \<or> 64 \<le> sint b then NotFolded else Folded (push_bit (unat b) a))
      else if op = ''>>'' then
        (if sint b < 0 \<or> 64 \<le> sint b then NotFolded
         else Folded (if u then drop_bit (unat b) a else signed_drop_bit (unat b) a))
      else NotFolded)"

definition fold_compare :: "type_kind \<Rightarrow> string \<Rightarrow> 64 word \<Rightarrow> 64 word \<Rightarrow> bool" where
  "fold_compare k op a b =
     (let u = unsigned_integer_kind k in
      if op = ''=='' then a = b
      else if op = ''!='' then a \<noteq> b
      else if op = ''<'' then (if u then a < b else a <s b)
      else if op = ''<='' then (if u then a \<le> b else a \<le>s b)
      else if op = ''>'' then (if u then b < a else b <s a)
      else if op = ''>='' then (if u then b \<le> a else b \<le>s a)
      else False)"

definition replace_const :: "mir_op \<Rightarrow> string \<Rightarrow> instr \<Rightarrow> instr" where
  "replace_const op text i = i\<lparr>in_op := op, in_args := [], in_text := text\<rparr>"

text \<open>One instruction; \<open>None\<close> stands for undefined behaviour.\<close>

definition fold_not :: "(string \<rightharpoonup> 64 word) \<Rightarrow> instr \<Rightarrow> 64 word \<Rightarrow> instr \<times> (string \<rightharpoonup> 64 word)" where
  "fold_not constants i a =
     (let is_bool = (ty_kind (in_type i) = KBool);
          result = (if is_bool then (if a = 0 then 1 else 0) else NOT a)
      in (replace_const (if is_bool then OpConstBool else OpConstInt) (int_to_string (sint result)) i,
          constants(in_result i \<mapsto> result)))"

definition fold_instr ::
  "(string \<rightharpoonup> 64 word) \<Rightarrow> instr \<Rightarrow> (instr \<times> (string \<rightharpoonup> 64 word)) option" where
  "fold_instr constants i =
     (if in_op i \<in> {OpConstInt, OpConstBool, OpConstChar} \<and> in_result i \<noteq> [] then
        Some (i, case const_get constants (in_text i) of
            None \<Rightarrow> constants | Some v \<Rightarrow> constants(in_result i \<mapsto> v))
      else if ty_kind (in_type i) \<in> {KI128, KU128} then Some (i, constants)
      else if in_op i = OpBinary \<and> in_result i \<noteq> [] then
        (if in_text i = ''!'' \<and> length (in_args i) = 1 \<and> const_get constants (in_args i ! 0) \<noteq> None then
           Some (fold_not constants i (the (const_get constants (in_args i ! 0))))
         else if length (in_args i) \<noteq> 2 then Some (i, constants)
         else case (const_get constants (in_args i ! 0), const_get constants (in_args i ! 1)) of
           (Some a, Some b) \<Rightarrow>
             (case fold_binary (ty_kind (in_type i)) (in_text i) a b of
               Folded r \<Rightarrow> Some (replace_const OpConstInt (int_to_string (sint r)) i,
                   constants(in_result i \<mapsto> r))
             | NotFolded \<Rightarrow> Some (i, constants)
             | Undefined \<Rightarrow> None)
         | _ \<Rightarrow> Some (i, constants))
      else if in_op i = OpCompare \<and> length (in_args i) = 2 \<and> in_result i \<noteq> [] then
        (case (const_get constants (in_args i ! 0), const_get constants (in_args i ! 1)) of
           (Some a, Some b) \<Rightarrow>
             (let r = fold_compare (ty_kind (in_type i)) (in_text i) a b in
              Some ((replace_const OpConstBool (if r then ''1'' else ''0'') i)\<lparr>in_type := builtin_type ''bool''\<rparr>,
                constants(in_result i \<mapsto> if r then 1 else 0)))
         | _ \<Rightarrow> Some (i, constants))
      else Some (i, constants))"

fun fold_instrs :: "(string \<rightharpoonup> 64 word) \<Rightarrow> instr list \<Rightarrow> instr list option" where
  "fold_instrs constants [] = Some []"
| "fold_instrs constants (i # is) =
     (case fold_instr constants i of
       None \<Rightarrow> None
     | Some (i', constants') \<Rightarrow> map_option ((#) i') (fold_instrs constants' is))"

fun fold_blocks :: "basic_block list \<Rightarrow> basic_block list option" where
  "fold_blocks [] = Some []"
| "fold_blocks (b # bs) =
     (case fold_instrs Map.empty (bb_instrs b) of
       None \<Rightarrow> None
     | Some is \<Rightarrow> map_option ((#) (b\<lparr>bb_instrs := is\<rparr>)) (fold_blocks bs))"

definition constant_fold :: "mir_function \<Rightarrow> mir_function option" where
  "constant_fold f = map_option (\<lambda>bs. f\<lparr>mf_blocks := bs\<rparr>) (fold_blocks (mf_blocks f))"

subsection \<open>Unused values\<close>

definition instr_uses :: "instr \<Rightarrow> string list" where
  "instr_uses i = in_args i @ filter (\<lambda>v. v \<noteq> []) (map ma_value (in_asm i))"

definition block_uses :: "basic_block list \<Rightarrow> string list" where
  "block_uses bs = concat (map (\<lambda>b. concat (map instr_uses (bb_instrs b))) bs)"

definition is_pure :: "instr \<Rightarrow> bool" where
  "is_pure i \<longleftrightarrow> in_op i \<in> {OpAlloca, OpConstInt, OpConstFloat, OpConstBool, OpConstChar, OpConstString,
     OpStructInit, OpFieldAddr, OpBinary, OpCompare, OpCast, OpAddressOf} \<or> in_op i = OpLoad \<and> \<not> in_flag i"

definition is_dead :: "string set \<Rightarrow> instr \<Rightarrow> bool" where
  "is_dead used i \<longleftrightarrow> in_result i \<noteq> [] \<and> in_result i \<notin> used \<and> is_pure i"

definition sweep :: "basic_block list \<Rightarrow> basic_block list" where
  "sweep bs = map (\<lambda>b. b\<lparr>bb_instrs := filter (\<lambda>i. \<not> is_dead (set (block_uses bs)) i) (bb_instrs b)\<rparr>) bs"

definition has_dead :: "basic_block list \<Rightarrow> bool" where
  "has_dead bs \<longleftrightarrow> list_ex (\<lambda>b. list_ex (is_dead (set (block_uses bs))) (bb_instrs b)) bs"

lemma sweep_smaller:
  assumes "has_dead bs"
  shows "sum_list (map (length \<circ> bb_instrs) (sweep bs)) < sum_list (map (length \<circ> bb_instrs) bs)"
proof -
  have "sum_list (map (\<lambda>b. length (filter P (bb_instrs b))) cs) < sum_list (map (\<lambda>b. length (bb_instrs b)) cs)"
    if "list_ex (\<lambda>b. list_ex (\<lambda>i. \<not> P i) (bb_instrs b)) cs" for P cs
    using that
  proof (induction cs)
    case (Cons b cs)
    have "sum_list (map (\<lambda>b. length (filter P (bb_instrs b))) cs) \<le> sum_list (map (\<lambda>b. length (bb_instrs b)) cs)"
      by (intro sum_list_mono) simp
    moreover have "length (filter P (bb_instrs b)) < length (bb_instrs b)"
      if "list_ex (\<lambda>i. \<not> P i) (bb_instrs b)"
      using that length_filter_less by (fastforce simp: list_ex_iff)
    ultimately show ?case
      using Cons by (auto simp: add_less_le_mono add_le_less_mono)
  qed simp
  from this [of "\<lambda>i. \<not> is_dead (set (block_uses bs)) i" bs] show ?thesis
    using assms by (simp add: has_dead_def sweep_def comp_def)
qed

function sweep_all :: "basic_block list \<Rightarrow> basic_block list" where
  "sweep_all bs = (if has_dead bs then sweep_all (sweep bs) else bs)"
  by pat_completeness auto
termination
  by (relation "measure (\<lambda>bs. sum_list (map (length \<circ> bb_instrs) bs))") (use sweep_smaller in auto)

declare sweep_all.simps [simp del]

definition eliminate_dead_values :: "mir_function \<Rightarrow> mir_function" where
  "eliminate_dead_values f = f\<lparr>mf_blocks := sweep_all (mf_blocks f)\<rparr>"

subsection \<open>The passes\<close>

definition optimize_function :: "int \<Rightarrow> mir_function \<Rightarrow> mir_function option" where
  "optimize_function level f =
     (if mf_is_extern f then Some f
      else map_option (\<lambda>f. let f = eliminate_dead_values f in
             if 2 \<le> level then eliminate_dead_values (forward_local_loads f) else f)
           (constant_fold (forward_local_loads (remove_unreachable f))))"

fun optimize_functions :: "int \<Rightarrow> mir_function list \<Rightarrow> mir_function list option" where
  "optimize_functions level [] = Some []"
| "optimize_functions level (f # fs) =
     (case optimize_function level f of
       None \<Rightarrow> None | Some f' \<Rightarrow> map_option ((#) f') (optimize_functions level fs))"

definition optimize :: "int \<Rightarrow> mir_module \<Rightarrow> mir_module option" where
  "optimize level m =
     (if level \<le> 0 then Some m
      else map_option (\<lambda>fs. m\<lparr>mm_functions := fs\<rparr>) (optimize_functions level (mm_functions m)))"

end
