(* ===== verification/MirFlow.thy ===== *)
theory MirFlow
  imports MirOpt
begin

text \<open>
  Removal of unreachable blocks keeps the control flow: control that starts in the entry block
  visits the same blocks in the same order before and after.
\<close>

subsection \<open>Control flow\<close>

text \<open>Control leaves a block by the jump that ends it or falls through to the next block.\<close>

definition falls_through :: "basic_block \<Rightarrow> bool" where
  "falls_through b \<longleftrightarrow> bb_instrs b = [] \<or>
     jump_targets (last (bb_instrs b)) = [] \<and> in_op (last (bb_instrs b)) \<noteq> OpReturn"

inductive goes :: "basic_block list \<Rightarrow> basic_block \<Rightarrow> basic_block \<Rightarrow> bool" for bs where
  fall: "bs = xs @ b # c # ys \<Longrightarrow> falls_through b \<Longrightarrow> goes bs b c"
| jump: "b \<in> set bs \<Longrightarrow> c \<in> set bs \<Longrightarrow> bb_instrs b \<noteq> [] \<Longrightarrow>
    bb_label c \<in> set (jump_targets (last (bb_instrs b))) \<Longrightarrow> goes bs b c"

inductive_cases goesE [consumes 1, case_names fall jump]: "goes bs b c"

text \<open>The blocks control visits, in order, from block \<open>b\<close> on.\<close>

inductive visits :: "basic_block list \<Rightarrow> basic_block list \<Rightarrow> bool" for bs where
  start: "b \<in> set bs \<Longrightarrow> visits bs [b]"
| step: "goes bs b c \<Longrightarrow> visits bs (c # path) \<Longrightarrow> visits bs (b # c # path)"

inductive_cases visits_ConsE: "visits bs (b # path)"

subsection \<open>The work list\<close>

lemma label_index_snoc:
  "label_index (bs @ [b]) = (label_index bs)(bb_label b \<mapsto> length bs)"
  by (simp add: label_index_def)

lemma label_index_Some:
  "label_index bs l = Some i \<Longrightarrow> i < length bs \<and> bb_label (bs ! i) = l"
  by (induction bs rule: rev_induct)
    (auto simp: label_index_snoc nth_append label_index_def split: if_splits)

lemma label_index_exists: "b \<in> set bs \<Longrightarrow> \<exists>i. label_index bs (bb_label b) = Some i"
  by (induction bs rule: rev_induct) (auto simp: label_index_snoc)

lemma succ_bound: "j \<in> set (block_succs bs i) \<Longrightarrow> j < length bs"
proof -
  assume j: "j \<in> set (block_succs bs i)"
  then have "i + 1 < length bs \<and> j = i + 1 \<or> (\<exists>l. label_index bs l = Some j)"
    by (auto simp: block_succs_def Let_def split: if_splits option.splits)
  then show ?thesis
    using label_index_Some by auto
qed

lemma jump_targets_Nil:
  "jump_targets i = [] \<longleftrightarrow> \<not> (in_op i = OpJump \<and> in_args i \<noteq> []) \<and>
     \<not> (in_op i = OpCondJump \<and> 3 \<le> length (in_args i))"
  by (cases "in_op i") (simp_all add: jump_targets_def)

text \<open>The successors of a block, by how control leaves it.\<close>

lemma block_succs_eq:
  "block_succs bs i =
     (if falls_through (bs ! i) then (if i + 1 < length bs then [i + 1] else [])
      else concat (map (\<lambda>l. case label_index bs l of None \<Rightarrow> [] | Some j \<Rightarrow> [j])
        (jump_targets (last (bb_instrs (bs ! i))))))"
proof -
  let ?tail = "last (bb_instrs (bs ! i))"
  consider (empty) "bb_instrs (bs ! i) = []"
    | (j) a as where "bb_instrs (bs ! i) \<noteq> []" "in_op ?tail = OpJump" "in_args ?tail = a # as"
    | (c) "bb_instrs (bs ! i) \<noteq> []" "in_op ?tail = OpCondJump" "3 \<le> length (in_args ?tail)"
    | (other) "bb_instrs (bs ! i) \<noteq> []" "jump_targets ?tail = []"
    by (metis jump_targets_Nil list.exhaust)
  then show ?thesis
  proof cases
    case other
    then show ?thesis
      using jump_targets_Nil [of ?tail] by (auto simp: block_succs_def falls_through_def Let_def)
  qed (simp_all add: block_succs_def falls_through_def jump_targets_def Let_def)
qed

lemma jump_succs:
  assumes "bb_instrs (bs ! i) \<noteq> []" "jump_targets (last (bb_instrs (bs ! i))) \<noteq> []"
  shows "set (block_succs bs i) =
    {j. \<exists>l \<in> set (jump_targets (last (bb_instrs (bs ! i)))). label_index bs l = Some j}"
  using assms by (auto simp: block_succs_eq falls_through_def split: option.splits)

lemma fall_succs:
  "falls_through (bs ! i) \<Longrightarrow> block_succs bs i = (if i + 1 < length bs then [i + 1] else [])"
  by (simp add: block_succs_eq)

lemma reach_seen:
  "length bs \<le> i \<or> bb_label (bs ! i) \<in> reached \<Longrightarrow>
     reach_labels bs (i # work) reached = reach_labels bs work reached"
  by (subst reach_labels.simps(2)) (simp del: reach_labels.simps)

lemma reach_new:
  "i < length bs \<Longrightarrow> bb_label (bs ! i) \<notin> reached \<Longrightarrow> reach_labels bs (i # work) reached =
     reach_labels bs (rev (block_succs bs i) @ work) (insert (bb_label (bs ! i)) reached)"
  by (subst reach_labels.simps(2)) (simp del: reach_labels.simps)

lemmas reach_rules = reach_seen reach_new

declare reach_labels.simps(2) [simp del]

lemma reach_keeps: "reached \<subseteq> reach_labels bs work reached"
proof (induction bs work reached rule: reach_labels.induct)
  case (2 bs index work reached)
  then show ?case
    by (cases "length bs \<le> index \<or> bb_label (bs ! index) \<in> reached") (auto simp: reach_rules)
qed simp

lemma reach_work:
  "i \<in> set work \<Longrightarrow> i < length bs \<Longrightarrow> bb_label (bs ! i) \<in> reach_labels bs work reached"
proof (induction bs work reached rule: reach_labels.induct)
  case (2 bs index work reached)
  show ?case
  proof (cases "length bs \<le> index \<or> bb_label (bs ! index) \<in> reached")
    case True
    then show ?thesis
      using 2 reach_keeps [of reached bs work] by (auto simp: reach_seen)
  next
    case False
    let ?rest = "reach_labels bs (rev (block_succs bs index) @ work) (insert (bb_label (bs ! index)) reached)"
    have "bb_label (bs ! index) \<in> ?rest"
      using reach_keeps [of "insert (bb_label (bs ! index)) reached" bs "rev (block_succs bs index) @ work"] by simp
    then show ?thesis
      using "2.IH"(2) [OF False] "2.prems" False by (auto simp: reach_new)
  qed
qed simp

lemma same_label: "distinct (map bb_label bs) \<Longrightarrow> i < length bs \<Longrightarrow> j < length bs \<Longrightarrow>
    bb_label (bs ! i) = bb_label (bs ! j) \<Longrightarrow> i = j"
  by (metis length_map nth_eq_iff_index_eq nth_map)

lemma reach_closed:
  assumes "distinct (map bb_label bs)"
    and "\<forall>i < length bs. bb_label (bs ! i) \<in> reached \<longrightarrow>
      (\<forall>j \<in> set (block_succs bs i). bb_label (bs ! j) \<in> reached \<or> j \<in> set work)"
  shows "\<forall>i < length bs. bb_label (bs ! i) \<in> reach_labels bs work reached \<longrightarrow>
      (\<forall>j \<in> set (block_succs bs i). bb_label (bs ! j) \<in> reach_labels bs work reached)"
  using assms
proof (induction bs work reached rule: reach_labels.induct)
  case (2 bs index work reached)
  show ?case
  proof (cases "length bs \<le> index \<or> bb_label (bs ! index) \<in> reached")
    case True
    have "bb_label (bs ! j) \<in> reached \<or> j \<in> set work"
      if "i < length bs" "bb_label (bs ! i) \<in> reached" "j \<in> set (block_succs bs i)" for i j
      using "2.prems"(2) that True succ_bound [OF that(3)] by fastforce
    then show ?thesis
      using "2.IH"(1) [OF True "2.prems"(1)] True by (simp add: reach_seen)
  next
    case False
    have "bb_label (bs ! j) \<in> insert (bb_label (bs ! index)) reached \<or>
        j \<in> set (rev (block_succs bs index) @ work)"
      if "i < length bs" "bb_label (bs ! i) \<in> insert (bb_label (bs ! index)) reached"
        "j \<in> set (block_succs bs i)" for i j
    proof (cases "bb_label (bs ! i) \<in> reached")
      case True
      then show ?thesis
        using "2.prems"(2) that(1,3) by fastforce
    next
      case new: False
      then have "i = index"
        using that False same_label [OF "2.prems"(1)] by auto
      then show ?thesis
        using that(3) by simp
    qed
    then show ?thesis
      using "2.IH"(2) [OF False "2.prems"(1)] False by (simp add: reach_new)
  qed
qed simp

lemma reach_sound:
  assumes "\<forall>i \<in> set work. P i" "\<forall>i < length bs. P i \<longrightarrow> (\<forall>j \<in> set (block_succs bs i). P j)"
    "reached \<subseteq> {bb_label (bs ! i) |i. i < length bs \<and> P i}"
  shows "reach_labels bs work reached \<subseteq> {bb_label (bs ! i) |i. i < length bs \<and> P i}"
  using assms
proof (induction bs work reached rule: reach_labels.induct)
  case (2 bs index work reached)
  show ?case
  proof (cases "length bs \<le> index \<or> bb_label (bs ! index) \<in> reached")
    case True
    then show ?thesis
      using "2.IH"(1) [OF True] "2.prems" by (simp add: reach_seen)
  next
    case False
    then have P: "P index" "index < length bs"
      using "2.prems"(1) by auto
    then have "\<forall>i \<in> set (rev (block_succs bs index) @ work). P i"
      using "2.prems"(1,2) by fastforce
    moreover have "insert (bb_label (bs ! index)) reached \<subseteq> {bb_label (bs ! i) |i. i < length bs \<and> P i}"
      using "2.prems"(3) P by blast
    ultimately show ?thesis
      using "2.IH"(2) [OF False] "2.prems"(2) False by (simp add: reach_new)
  qed
qed simp

subsection \<open>The blocks that are kept\<close>

definition kept_labels :: "basic_block list \<Rightarrow> string set" where
  "kept_labels bs = reach_labels bs [0] {}"

lemma goes_index:
  assumes "distinct (map bb_label bs)" "i < length bs" "goes bs (bs ! i) c"
  shows "\<exists>j \<in> set (block_succs bs i). c = bs ! j"
  using assms(3)
proof (cases rule: goesE)
  case (fall xs ys)
  have "bs ! length xs = bs ! i" "length xs < length bs"
    using fall(1) by (metis nth_append_length) (metis fall(1) length_append length_Cons less_add_Suc1 add_Suc_right)
  then have i: "i = length xs"
    using same_label [OF assms(1,2)] by metis
  moreover have "i + 1 < length bs"
    unfolding i by (subst fall(1)) simp
  moreover have "bs ! (i + 1) = c"
    unfolding i by (subst fall(1)) (simp add: nth_append)
  ultimately show ?thesis
    using fall_succs [OF fall(2)] by simp
next
  case jump
  obtain j where j: "label_index bs (bb_label c) = Some j"
    using label_index_exists [OF jump(2)] by blast
  then have "bs ! j = c"
    using label_index_Some [OF j] jump(2) same_label [OF assms(1)] by (metis in_set_conv_nth)
  moreover have "j \<in> set (block_succs bs i)"
    using jump_succs [OF jump(3)] jump(4) j by fastforce
  ultimately show ?thesis
    by blast
qed

lemma kept_closed:
  assumes "distinct (map bb_label bs)" "b \<in> set bs" "bb_label b \<in> kept_labels bs" "goes bs b c"
  shows "bb_label c \<in> kept_labels bs" "c \<in> set bs"
proof -
  obtain i where i: "i < length bs" "b = bs ! i"
    using assms(2) by (auto simp: in_set_conv_nth)
  obtain j where j: "j \<in> set (block_succs bs i)" "c = bs ! j"
    using goes_index [OF assms(1) i(1)] assms(4) i(2) by blast
  show "bb_label c \<in> kept_labels bs"
    using reach_closed [OF assms(1), of "{}" "[0]"] i assms(3) j by (simp add: kept_labels_def)
  show "c \<in> set bs"
    using j succ_bound by simp
qed

lemma filter_adjacent: "P b \<Longrightarrow> P c \<Longrightarrow> filter P (xs @ b # c # ys) = filter P xs @ b # c # filter P ys"
  by simp

lemma next_unique:
  "distinct (xs @ b # c # ys) \<Longrightarrow> xs @ b # c # ys = us @ b # d # vs \<Longrightarrow> c = d"
proof (induction xs arbitrary: us)
  case Nil
  have "b \<notin> set (c # ys)"
    using Nil.prems(1) by simp
  moreover have "us \<noteq> [] \<Longrightarrow> b \<in> set (c # ys)"
    using Nil.prems(2) by (cases us) (simp_all del: set_simps, simp)
  ultimately show ?case
    using Nil.prems(2) by (cases us) auto
next
  case (Cons x xs)
  show ?case
  proof (cases us)
    case Nil
    then show ?thesis
      using Cons.prems by auto
  next
    case us: (Cons u us')
    then show ?thesis
      using Cons.IH [of us'] Cons.prems distinct.simps(2) by (metis append_Cons list.inject)
  qed
qed

definition kept_blocks :: "basic_block list \<Rightarrow> basic_block list" where
  "kept_blocks bs = filter (\<lambda>b. bb_label b \<in> kept_labels bs) bs"

lemma goes_kept:
  assumes "distinct (map bb_label bs)" "b \<in> set (kept_blocks bs)" "goes bs b c"
  shows "goes (kept_blocks bs) b c" "c \<in> set (kept_blocks bs)"
proof -
  have c: "c \<in> set (kept_blocks bs)"
    using kept_closed [OF assms(1) _ _ assms(3)] assms(2) by (simp add: kept_blocks_def)
  then show "c \<in> set (kept_blocks bs)" .
  show "goes (kept_blocks bs) b c"
    using assms(3)
  proof (cases rule: goesE)
    case (fall xs ys)
    have "bb_label b \<in> kept_labels bs" "bb_label c \<in> kept_labels bs"
      using assms(2) c by (simp_all add: kept_blocks_def)
    then have "kept_blocks bs = filter (\<lambda>b. bb_label b \<in> kept_labels bs) xs @ b # c #
        filter (\<lambda>b. bb_label b \<in> kept_labels bs) ys"
      unfolding kept_blocks_def
      using filter_adjacent [of "\<lambda>b. bb_label b \<in> kept_labels bs" b c xs ys] fall(1) by simp
    then show ?thesis
      using fall(2) by (rule goes.fall)
  next
    case jump
    then show ?thesis
      using assms(2) c by (auto intro: goes.jump)
  qed
qed

lemma goes_back:
  assumes "distinct (map bb_label bs)" "goes (kept_blocks bs) b c"
  shows "goes bs b c"
  using assms(2)
proof (cases rule: goesE)
  case (fall xs ys)
  have b: "b \<in> set (kept_blocks bs)"
    using fall(1) by simp
  then obtain us vs where bs: "bs = us @ b # vs"
    by (auto simp: kept_blocks_def in_set_conv_decomp)
  have dist: "distinct (kept_blocks bs)"
    using assms(1) by (simp add: kept_blocks_def distinct_map)
  show ?thesis
  proof (cases vs)
    case Nil
    have "bb_label b \<in> kept_labels bs"
      using b by (simp add: kept_blocks_def)
    then have "kept_blocks bs = filter (\<lambda>b. bb_label b \<in> kept_labels bs) us @ [b]"
      unfolding kept_blocks_def by (subst (2) bs) (simp add: Nil)
    then have "last (kept_blocks bs) = b"
      by simp
    moreover have "last (kept_blocks bs) \<in> set (c # ys)"
      unfolding fall(1) by simp
    ultimately show ?thesis
      using dist unfolding fall(1) by auto
  next
    case (Cons d vs')
    have "goes bs b d"
      using goes.fall [of bs us b d vs'] fall(2) bs Cons by simp
    moreover have "c = d"
    proof -
      have "bb_label b \<in> kept_labels bs" "bb_label d \<in> kept_labels bs"
        using b goes_kept(2) [OF assms(1) b \<open>goes bs b d\<close>] by (simp_all add: kept_blocks_def)
      then have "kept_blocks bs = filter (\<lambda>b. bb_label b \<in> kept_labels bs) us @ b # d #
          filter (\<lambda>b. bb_label b \<in> kept_labels bs) vs'"
        unfolding kept_blocks_def
        using filter_adjacent [of "\<lambda>b. bb_label b \<in> kept_labels bs" b d us vs'] bs Cons by simp
      then show ?thesis
        using next_unique dist fall(1) by metis
    qed
    ultimately show ?thesis
      by simp
  qed
next
  case jump
  then show ?thesis
    by (auto simp: kept_blocks_def intro: goes.jump)
qed

lemma kept_entry: "bs \<noteq> [] \<Longrightarrow> hd (kept_blocks bs) = hd bs \<and> kept_blocks bs \<noteq> []"
  using reach_work [of 0 "[0]" bs "{}"] by (cases bs) (auto simp: kept_blocks_def kept_labels_def)

lemma visits_kept:
  assumes "distinct (map bb_label bs)" "visits bs path" "hd path \<in> set (kept_blocks bs)"
  shows "visits (kept_blocks bs) path"
  using assms(2,3)
proof (induction rule: visits.induct)
  case (start b)
  then show ?case
    by (auto intro: visits.start)
next
  case (step b c path)
  then show ?case
    using goes_kept [OF assms(1) _ step.hyps(1)] by (auto intro: visits.step)
qed

lemma visits_back:
  assumes "distinct (map bb_label bs)" "visits (kept_blocks bs) path"
  shows "visits bs path"
  using assms(2)
proof (induction rule: visits.induct)
  case (start b)
  then show ?case
    by (auto intro: visits.start simp: kept_blocks_def)
next
  case (step b c path)
  then show ?case
    by (blast intro: visits.step goes_back [OF assms(1)])
qed

lemma visits_mem: "visits bs path \<Longrightarrow> set path \<subseteq> set bs"
  by (induction rule: visits.induct) (auto elim: goesE)

lemma visits_snoc:
  assumes "visits bs path" "goes bs (last path) c" "c \<in> set bs"
  shows "visits bs (path @ [c])"
  using assms
proof (induction rule: visits.induct)
  case (step b d path)
  then show ?case
    using visits.step [of bs b d "path @ [c]"] by simp
qed (auto intro: visits.intros)

lemma kept_visited:
  assumes "distinct (map bb_label bs)" "bs \<noteq> []" "b \<in> set (kept_blocks bs)"
  shows "\<exists>path. visits bs (hd bs # path) \<and> last (hd bs # path) = b"
proof -
  define P where "P i \<longleftrightarrow> i < length bs \<and> (\<exists>path. visits bs (hd bs # path) \<and> last (hd bs # path) = bs ! i)" for i
  have "P 0"
    using assms(2) by (auto simp: P_def hd_conv_nth intro!: exI [of _ "[]"] visits.start)
  moreover have "P j" if "P i" "j \<in> set (block_succs bs i)" for i j
  proof -
    obtain path where i: "i < length bs" "visits bs (hd bs # path)" "last (hd bs # path) = bs ! i"
      using \<open>P i\<close> P_def by auto
    have j: "j < length bs"
      using \<open>j \<in> set (block_succs bs i)\<close> by (rule succ_bound)
    have "goes bs (bs ! i) (bs ! j)"
    proof (cases "falls_through (bs ! i)")
      case True
      then have "j = Suc i"
        using \<open>j \<in> set (block_succs bs i)\<close> fall_succs [OF True] by (auto split: if_splits)
      moreover from this have "bs = take i bs @ bs ! i # bs ! Suc i # drop (Suc (Suc i)) bs"
        using j i(1) by (metis Cons_nth_drop_Suc append_take_drop_id)
      ultimately show ?thesis
        using True goes.fall by metis
    next
      case False
      then obtain l where "l \<in> set (jump_targets (last (bb_instrs (bs ! i))))" "label_index bs l = Some j"
        using \<open>j \<in> set (block_succs bs i)\<close> by (auto simp: block_succs_eq split: option.splits)
      then show ?thesis
        using False i(1) j label_index_Some [of bs l j] by (auto simp: falls_through_def intro: goes.jump)
    qed
    then have "visits bs ((hd bs # path) @ [bs ! j])"
      using visits_snoc [OF i(2)] i(3) j by simp
    then show ?thesis
      using j unfolding P_def by (intro conjI exI [of _ "path @ [bs ! j]"]) simp_all
  qed
  ultimately have "kept_labels bs \<subseteq> {bb_label (bs ! i) |i. i < length bs \<and> P i}"
    unfolding kept_labels_def by (intro reach_sound) auto
  then obtain i where "bb_label b = bb_label (bs ! i)" "i < length bs" "P i"
    using assms(3) by (auto simp: kept_blocks_def)
  moreover from this have "b = bs ! i"
    using assms(1,3) same_label by (fastforce simp: kept_blocks_def in_set_conv_nth)
  ultimately show ?thesis
    by (simp add: P_def)
qed

text \<open>
  C19: with distinct labels, removing unreachable blocks keeps the entry block, keeps exactly the
  blocks control can visit from it, and leaves the sequences of blocks that control visits from the
  entry as they are.
\<close>

theorem remove_unreachable_sound:
  assumes "distinct (map bb_label (mf_blocks f))" "mf_blocks f \<noteq> []"
  shows "hd (mf_blocks (remove_unreachable f)) = hd (mf_blocks f) \<and>
    (\<forall>path. visits (mf_blocks (remove_unreachable f)) (hd (mf_blocks f) # path) \<longleftrightarrow>
      visits (mf_blocks f) (hd (mf_blocks f) # path)) \<and>
    set (mf_blocks (remove_unreachable f)) =
      {b. \<exists>path. visits (mf_blocks f) (hd (mf_blocks f) # path) \<and> last (hd (mf_blocks f) # path) = b}"
proof -
  let ?bs = "mf_blocks f"
  have kept: "mf_blocks (remove_unreachable f) = kept_blocks ?bs"
    using assms(2) by (simp add: remove_unreachable_def kept_blocks_def kept_labels_def)
  have entry: "hd (kept_blocks ?bs) = hd ?bs" "hd ?bs \<in> set (kept_blocks ?bs)"
    using kept_entry [OF assms(2)] hd_in_set by (metis, metis)
  have same: "visits (kept_blocks ?bs) (hd ?bs # path) \<longleftrightarrow> visits ?bs (hd ?bs # path)" for path
    using visits_kept [OF assms(1)] visits_back [OF assms(1)] entry(2) by fastforce
  have "last (hd ?bs # path) \<in> set (kept_blocks ?bs)" if "visits ?bs (hd ?bs # path)" for path
    using visits_mem [of "kept_blocks ?bs" "hd ?bs # path"] that same last_in_set by blast
  then show ?thesis
    unfolding kept using entry(1) same kept_visited [OF assms(1,2)] by blast
qed

definition return_block :: basic_block where
  "return_block = \<lparr>bb_label = ''entry'', bb_instrs = [instr_of OpReturn [] (builtin_type ''unit'') [] [] False initial_range],
     bb_terminated = True\<rparr>"

definition dead_block :: basic_block where
  "dead_block = \<lparr>bb_label = ''if.end.1'', bb_instrs = [instr_of OpJump [] (builtin_type ''unit'') [''entry''] [] False initial_range],
     bb_terminated = True\<rparr>"

definition two_blocks :: mir_function where
  "two_blocks = \<lparr>mf_name = ''f'', mf_source_name = ''f'', mf_params = [], mf_result = builtin_type ''unit'',
     mf_blocks = [return_block, dead_block], mf_is_extern = False, mf_is_unsafe = False, mf_is_async = False,
     mf_abi = ''Uinx''\<rparr>"

text \<open>Witness of C19: a block that nothing jumps to goes away, and control never visits it.\<close>

lemma remove_unreachable_sound_witness:
  "\<not> (\<exists>path. visits (mf_blocks two_blocks) (return_block # path) \<and> last (return_block # path) = dead_block)"
proof -
  have "map bb_label (mf_blocks (remove_unreachable two_blocks)) = [''entry'']"
    by code_simp
  then have gone: "dead_block \<notin> set (mf_blocks (remove_unreachable two_blocks))"
    by (auto simp: dead_block_def dest: arg_cong [of _ _ set])
  have "distinct (map bb_label (mf_blocks two_blocks))" "mf_blocks two_blocks \<noteq> []"
    "hd (mf_blocks two_blocks) = return_block"
    by (simp_all add: two_blocks_def return_block_def dead_block_def)
  then show ?thesis
    using remove_unreachable_sound [of two_blocks] gone by auto
qed

end
