(* ===== verification/MirSem.thy ===== *)
theory MirSem
  imports MirOpt
begin

text \<open>
  What the optimiser must preserve: the run of instructions on values, a memory and the world
  outside. Loads and stores are explicit; every other instruction is a parameter \<open>machine\<close> of the
  model, which sees the instruction without the names of its operands, the values of the operands, the memory and
  the world, and gives a result, a memory and a world. What the code relies on of it is stated by
  named conditions.
\<close>

subsection \<open>Runs\<close>

type_synonym 'v memory = "'v \<Rightarrow> 'v"
type_synonym ('v, 'w) machine = "instr \<Rightarrow> 'v list \<Rightarrow> 'v memory \<Rightarrow> 'w \<Rightarrow> 'v \<times> 'v memory \<times> 'w"
type_synonym ('v, 'w) mstate = "(string \<Rightarrow> 'v) \<times> 'v memory \<times> 'w"

definition nameless :: "instr \<Rightarrow> instr" where
  "nameless i = i\<lparr>in_args := [], in_asm := map (\<lambda>a. a\<lparr>ma_value := []\<rparr>) (in_asm i)\<rparr>"

definition plain_load :: "instr \<Rightarrow> bool" where
  "plain_load i \<longleftrightarrow> in_op i = OpLoad \<and> \<not> in_flag i \<and> in_args i \<noteq> []"

definition plain_store :: "instr \<Rightarrow> bool" where
  "plain_store i \<longleftrightarrow> in_op i = OpStore \<and> \<not> in_flag i \<and> 2 \<le> length (in_args i)"

definition bind_result :: "instr \<Rightarrow> 'v \<Rightarrow> (string \<Rightarrow> 'v) \<Rightarrow> string \<Rightarrow> 'v" where
  "bind_result i v E = (if in_result i = [] then E else E(in_result i := v))"

definition asm_uses :: "instr \<Rightarrow> string list" where
  "asm_uses i = filter (\<lambda>v. v \<noteq> []) (map ma_value (in_asm i))"

text \<open>The value, memory and world an instruction gives for the values of its operands.\<close>

definition perform ::
  "('v, 'w) machine \<Rightarrow> instr \<Rightarrow> 'v list \<Rightarrow> 'v list \<Rightarrow> 'v memory \<Rightarrow> 'w \<Rightarrow> 'v \<times> 'v memory \<times> 'w" where
  "perform mach i args asms m w =
     (if plain_load i then (m (args ! 0), m, w)
      else if plain_store i then (args ! 0, m(args ! 1 := args ! 0), w)
      else mach (nameless i) (args @ asms) m w)"

fun run_instr :: "('v, 'w) machine \<Rightarrow> instr \<Rightarrow> ('v, 'w) mstate \<Rightarrow> ('v, 'w) mstate" where
  "run_instr mach i (E, m, w) =
     (case perform mach i (map E (in_args i)) (map E (asm_uses i)) m w of
       (v, m', w') \<Rightarrow> (bind_result i v E, m', w'))"

declare run_instr.simps [simp del]

definition run_instrs :: "('v, 'w) machine \<Rightarrow> instr list \<Rightarrow> ('v, 'w) mstate \<Rightarrow> ('v, 'w) mstate" where
  "run_instrs mach is s = fold (run_instr mach) is s"

text \<open>A run along the blocks with the given indices.\<close>

definition run_path :: "('v, 'w) machine \<Rightarrow> basic_block list \<Rightarrow> nat list \<Rightarrow> ('v, 'w) mstate \<Rightarrow> ('v, 'w) mstate" where
  "run_path mach bs path s = fold (\<lambda>k. run_instrs mach (bb_instrs (bs ! k))) path s"

text \<open>What a run does to the memory and the world.\<close>

definition effect :: "('v, 'w) mstate \<Rightarrow> 'v memory \<times> 'w" where
  "effect s = snd s"

lemma effect_simps [simp]: "effect (E, m, w) = (m, w)"
  by (simp add: effect_def)

text \<open>Computing a value leaves the memory and the world alone.\<close>

definition quiet_values :: "('v, 'w) machine \<Rightarrow> bool" where
  "quiet_values mach \<longleftrightarrow>
     (\<forall>i vs m w. is_pure i \<longrightarrow> snd (mach i vs m w) = (m, w))"

text \<open>Two environments agree on a set of names.\<close>

definition agree :: "string set \<Rightarrow> (string \<Rightarrow> 'v) \<Rightarrow> (string \<Rightarrow> 'v) \<Rightarrow> bool" where
  "agree U E E' \<longleftrightarrow> (\<forall>v \<in> U. E v = E' v)"

lemma agree_map: "agree U E E' \<Longrightarrow> set vs \<subseteq> U \<Longrightarrow> map E vs = map E' vs"
  by (auto simp: agree_def)

lemma agree_bind: "agree U E E' \<Longrightarrow> agree U (bind_result i v E) (bind_result i v E')"
  by (simp add: agree_def bind_result_def)

lemma instr_uses_eq: "instr_uses i = in_args i @ asm_uses i"
  by (simp add: instr_uses_def asm_uses_def)

subsection \<open>Removal of unused values\<close>

lemma agree_step:
  assumes "agree U E E'" "set (instr_uses i) \<subseteq> U"
  shows "agree U (fst (run_instr mach i (E, m, w))) (fst (run_instr mach i (E', m, w))) \<and>
    effect (run_instr mach i (E, m, w)) = effect (run_instr mach i (E', m, w))"
proof -
  have same: "map E (in_args i) = map E' (in_args i)" "map E (asm_uses i) = map E' (asm_uses i)"
    using assms by (auto intro!: agree_map [OF assms(1)] simp: instr_uses_eq simp del: map_eq_conv)
  show ?thesis
    unfolding run_instr.simps same
    by (simp add: agree_bind [OF assms(1)] split: prod.split)
qed

lemma perform_pure:
  assumes "quiet_values mach" "is_pure i"
  shows "snd (perform mach i args asms m w) = (m, w)"
proof -
  have "is_pure (nameless i)" "\<not> plain_store i"
    using assms(2) by (auto simp: is_pure_def nameless_def plain_store_def)
  then show ?thesis
    using assms(1) by (simp add: perform_def quiet_values_def)
qed

lemma dead_step:
  assumes "quiet_values mach" "is_dead U i" "agree U E E'"
  shows "agree U (fst (run_instr mach i (E, m, w))) E' \<and> effect (run_instr mach i (E, m, w)) = (m, w)"
proof -
  have "in_result i \<notin> U" "is_pure i"
    using assms(2) by (auto simp: is_dead_def)
  then have "agree U (bind_result i v E) E'" "snd (perform mach i args asms m w) = (m, w)" for v args asms
    using assms(3) perform_pure [OF assms(1)] by (simp_all add: agree_def bind_result_def)
  then show ?thesis
    unfolding run_instr.simps by (auto simp: case_prod_beta effect_def)
qed

lemma dead_instrs:
  assumes "quiet_values mach" "\<forall>i \<in> set is. set (instr_uses i) \<subseteq> U" "agree U E E'"
  shows "agree U (fst (run_instrs mach is (E, m, w)))
      (fst (run_instrs mach (filter (\<lambda>i. \<not> is_dead U i) is) (E', m, w))) \<and>
    effect (run_instrs mach is (E, m, w)) = effect (run_instrs mach (filter (\<lambda>i. \<not> is_dead U i) is) (E', m, w))"
  using assms(2,3)
proof (induction "is" arbitrary: E E' m w)
  case (Cons i "is")
  obtain E1 m1 w1 where s: "run_instr mach i (E, m, w) = (E1, m1, w1)"
    by (metis prod_cases3)
  obtain E2 m2 w2 where s': "run_instr mach i (E', m, w) = (E2, m2, w2)"
    by (metis prod_cases3)
  show ?case
  proof (cases "is_dead U i")
    case True
    then have "agree U E1 E'" "m1 = m" "w1 = w"
      using dead_step [OF assms(1) True Cons.prems(2), of m w] s by simp_all
    then show ?thesis
      using Cons.IH [of E1 E' m w] Cons.prems(1) True s by (simp add: run_instrs_def)
  next
    case False
    have "agree U E1 E2" "m1 = m2" "w1 = w2"
      using agree_step [OF Cons.prems(2), of i mach m w] Cons.prems(1) s s' by simp_all
    then show ?thesis
      using Cons.IH [of E1 E2 m1 w1] Cons.prems(1) False s s' by (simp add: run_instrs_def)
  qed
qed (simp add: run_instrs_def effect_def)

lemma sweep_path:
  assumes "quiet_values mach" "\<forall>k \<in> set path. k < length bs" "agree (set (block_uses bs)) E E'"
  shows "agree (set (block_uses bs)) (fst (run_path mach bs path (E, m, w)))
      (fst (run_path mach (sweep bs) path (E', m, w))) \<and>
    effect (run_path mach bs path (E, m, w)) = effect (run_path mach (sweep bs) path (E', m, w))"
  using assms(2,3)
proof (induction path arbitrary: E E' m w)
  case (Cons k path)
  let ?U = "set (block_uses bs)"
  obtain E1 m1 w1 where s: "run_instrs mach (bb_instrs (bs ! k)) (E, m, w) = (E1, m1, w1)"
    by (metis prod_cases3)
  obtain E2 m2 w2 where s': "run_instrs mach (bb_instrs (sweep bs ! k)) (E', m, w) = (E2, m2, w2)"
    by (metis prod_cases3)
  have "\<forall>i \<in> set (bb_instrs (bs ! k)). set (instr_uses i) \<subseteq> ?U"
    using Cons.prems(1) by (fastforce simp: block_uses_def)
  then have "agree ?U E1 E2" "m1 = m2" "w1 = w2"
    using dead_instrs [OF assms(1) _ Cons.prems(2), of "bb_instrs (bs ! k)" m w] s s' Cons.prems(1)
    by (simp_all add: sweep_def)
  then show ?case
    using Cons.IH [of E1 E2 m1 w1] Cons.prems(1) s s' by (simp add: run_path_def)
qed (simp add: run_path_def effect_def)

lemma length_sweep [simp]: "length (sweep bs) = length bs"
  by (simp add: sweep_def)

lemma sweep_all_path:
  assumes "quiet_values mach" "\<forall>k \<in> set path. k < length bs"
  shows "effect (run_path mach (sweep_all bs) path s) = effect (run_path mach bs path s)"
  using assms(2)
proof (induction bs rule: sweep_all.induct)
  case (1 bs)
  obtain E m w where s: "s = (E, m, w)"
    by (metis prod_cases3)
  have "effect (run_path mach bs path s) = effect (run_path mach (sweep bs) path s)"
    using sweep_path [OF assms(1) "1.prems", of E E m w] by (simp add: s agree_def)
  then show ?case
    using 1 by (subst sweep_all.simps) simp
qed

lemma sweep_all_clean: "\<not> has_dead (sweep_all bs)"
proof (induction bs rule: sweep_all.induct)
  case (1 bs)
  then show ?case
    by (subst sweep_all.simps) simp
qed

text \<open>
  C18: removing unused values changes no run: along every path of blocks the memory and the outside
  world end as they do without the pass, and no unused pure value is left.
\<close>

theorem eliminate_dead_sound:
  assumes "quiet_values mach" "\<forall>k \<in> set path. k < length (mf_blocks f)"
  shows "effect (run_path mach (mf_blocks (eliminate_dead_values f)) path s) =
      effect (run_path mach (mf_blocks f) path s) \<and>
    \<not> has_dead (mf_blocks (eliminate_dead_values f))"
  using sweep_all_path [OF assms] sweep_all_clean by (simp add: eliminate_dead_values_def)

subsection \<open>Forwarding of stored values\<close>





text \<open>
  The conditions on the machine: every slot has its own address, and an instruction that is no call,
  fence, assembly or atomic access leaves the memory as it is.
\<close>

definition is_barrier :: "instr \<Rightarrow> bool" where
  "is_barrier i \<longleftrightarrow> in_op i \<in> {OpCall, OpInlineAsm, OpAtomicRmw, OpFence, OpCompilerFence} \<or>
     (in_op i = OpLoad \<or> in_op i = OpStore) \<and> in_flag i"

definition slot_machine :: "('v, 'w) machine \<Rightarrow> (string \<Rightarrow> 'v) \<Rightarrow> bool" where
  "slot_machine mach addr \<longleftrightarrow> inj_on addr {s. is_local_slot s} \<and>
     (\<forall>i vs m w. in_op i = OpAlloca \<and> is_local_slot (in_result i) \<longrightarrow> fst (mach i vs m w) = addr (in_result i)) \<and>
     (\<forall>i vs m w. \<not> is_barrier i \<and> in_op i \<noteq> OpAwait \<and> in_op i \<noteq> OpDrop \<longrightarrow> fst (snd (mach i vs m w)) = m)"

lemma nameless_simps [simp]:
  "in_op (nameless i) = in_op i" "in_result (nameless i) = in_result i" "in_flag (nameless i) = in_flag i"
  "is_barrier (nameless i) = is_barrier i"
  by (simp_all add: nameless_def is_barrier_def)









lemma resolved_instr [simp]:
  "in_op (resolve_operands aliases i) = in_op i" "in_flag (resolve_operands aliases i) = in_flag i"
  "in_result (resolve_operands aliases i) = in_result i"
  "in_args (resolve_operands aliases i) = map (resolve alias_depth aliases) (in_args i)"
  "plain_load (resolve_operands aliases i) = plain_load i" "plain_store (resolve_operands aliases i) = plain_store i"
  by (simp_all add: resolve_operands_def plain_load_def plain_store_def)

lemma nameless_resolve [simp]: "nameless (resolve_operands aliases i) = nameless i"
  by (auto simp: nameless_def resolve_operands_def)












subsection \<open>A machine\<close>

text \<open>
  A machine whose values are strings: a slot is its own address, a constant its text, other
  instructions give their operator and operands, and a return hands its operands to the world.
\<close>

definition string_machine :: "(string, string list) machine" where
  "string_machine i vs m w =
     (if in_op i = OpAlloca then in_result i
      else if in_op i \<in> {OpConstInt, OpConstFloat, OpConstBool, OpConstChar, OpConstString} then in_text i
      else in_text i @ concat vs,
      m, if in_op i = OpReturn then vs else w)"

lemma string_machine_ok: "slot_machine string_machine id" "quiet_values string_machine"
  by (auto simp: slot_machine_def quiet_values_def string_machine_def is_pure_def)

definition unit_return :: "string \<Rightarrow> instr" where
  "unit_return v = instr_of OpReturn [] (builtin_type ''i32'') [v] [] False initial_range"

text \<open>\<open>let x = 7; return x\<close> with an unused constant.\<close>

definition store_load :: mir_function where
  "store_load = \<lparr>mf_name = ''f'', mf_source_name = ''f'', mf_params = [], mf_result = builtin_type ''i32'',
     mf_blocks = [\<lparr>bb_label = ''entry'', bb_instrs =
       [instr_of OpConstInt ''%t0'' (builtin_type ''i32'') [] ''7'' False initial_range,
        instr_of OpConstInt ''%t1'' (builtin_type ''i32'') [] ''8'' False initial_range,
        instr_of OpAlloca ''%x.slot.0'' (builtin_type ''i32'') [] [] False initial_range,
        instr_of OpStore [] (builtin_type ''i32'') [''%t0'', ''%x.slot.0''] [] False initial_range,
        instr_of OpLoad ''%t2'' (builtin_type ''i32'') [''%x.slot.0''] [] False initial_range,
        unit_return ''%t2''],
       bb_terminated = True\<rparr>],
     mf_is_extern = False, mf_is_unsafe = False, mf_is_async = False, mf_abi = ''Uinx''\<rparr>"

text \<open>Witness of C18: the unused constant goes, the value returned stays.\<close>

lemma eliminate_dead_sound_witness:
  "snd (effect (run_path string_machine (mf_blocks (eliminate_dead_values store_load)) [0] (id, id, []))) = [''7'']"
proof -
  have "snd (effect (run_path string_machine (mf_blocks store_load) [0] (id, id, []))) = [''7'']"
    by code_simp
  moreover have "\<forall>k \<in> set [0]. k < length (mf_blocks store_load)"
    by (simp add: store_load_def)
  ultimately show ?thesis
    using eliminate_dead_sound [OF string_machine_ok(2)] by metis
qed


end
