(* ===== verification/MirFold.thy ===== *)
theory MirFold
  imports MirOpt
begin

text \<open>
  Constant folding computes in 64 bits. The reference is the arithmetic of the operations at the
  width of their type, as src/codegen_internal.hpp selects them (\<open>arithmetic_opcode\<close>,
  \<open>compare_predicate\<close>).
\<close>

subsection \<open>Arithmetic at a width\<close>








subsection \<open>Folding against the width\<close>













subsection \<open>Where folding departs from the width\<close>





end
