(* ===== verification/Resolver.thy ===== *)
theory Resolver
  imports SemModel Mir
begin

text \<open>
  \<open>NameResolver\<close> (src/sema_resolve.cpp): the symbols of a module, and which symbol a name, a binding
  or a parameter stands for. The state is the resolved module and the diagnostics; the vector of
  scopes has its innermost first, a scope is a map. Expressions only read the scopes.
\<close>

record resolver =
  rs_hir :: hir_module
  rs_diags :: diagnostics

type_synonym scopes = "(string \<rightharpoonup> symbol_id) list"

definition quoted :: "string \<Rightarrow> string" where
  "quoted n = [CHR 0x27] @ n @ [CHR 0x27]"

definition rs_error :: "src_range \<Rightarrow> string \<Rightarrow> string \<Rightarrow> resolver \<Rightarrow> resolver" where
  "rs_error r code message s = s\<lparr>rs_diags := diag_error r code message (rs_diags s)\<rparr>"

definition add_symbol ::
  "symbol_kind \<Rightarrow> string \<Rightarrow> src_range \<Rightarrow> symbol_id option \<Rightarrow> resolver \<Rightarrow> symbol_id \<times> resolver" where
  "add_symbol k n r p s =
     (let hm = rs_hir s; i = of_nat (length (hm_symbols hm)) in
      (i, s\<lparr>rs_hir := hm\<lparr>hm_symbols := hm_symbols hm @
        [\<lparr>sym_id = i, sym_kind = k, sym_name = n, sym_range = r, sym_parent = p\<rparr>]\<rparr>\<rparr>))"

definition resolve_node :: "nat \<Rightarrow> symbol_id \<Rightarrow> resolver \<Rightarrow> resolver" where
  "resolve_node i k s =
     s\<lparr>rs_hir := (rs_hir s)\<lparr>hm_expr_resolution := (hm_expr_resolution (rs_hir s))(i \<mapsto> k)\<rparr>\<rparr>"

fun find_scopes :: "string \<Rightarrow> scopes \<Rightarrow> symbol_id option" where
  "find_scopes n [] = None"
| "find_scopes n (sc # scs) = (case sc n of Some i \<Rightarrow> Some i | None \<Rightarrow> find_scopes n scs)"

definition bind_top :: "string \<Rightarrow> symbol_id \<Rightarrow> scopes \<Rightarrow> scopes" where
  "bind_top n i scs = (case scs of [] \<Rightarrow> [] | sc # scs \<Rightarrow> sc(n \<mapsto> i) # scs)"

definition in_top :: "string \<Rightarrow> scopes \<Rightarrow> bool" where
  "in_top n scs \<longleftrightarrow> (case scs of [] \<Rightarrow> False | sc # _ \<Rightarrow> sc n \<noteq> None)"

subsection \<open>Expressions\<close>

definition resolve_name :: "nat \<Rightarrow> src_range \<Rightarrow> string \<Rightarrow> scopes \<Rightarrow> resolver \<Rightarrow> resolver" where
  "resolve_name i r n scs s =
     (case find_scopes n scs of
       Some k \<Rightarrow> resolve_node i k s
     | None \<Rightarrow>
         (case hm_globals (rs_hir s) n of
           Some k \<Rightarrow> resolve_node i k s
         | None \<Rightarrow> if builtin_function n then s
             else rs_error r ''E0204'' (''unresolved name '' @ quoted n) s))"

definition resolve_struct :: "nat \<Rightarrow> src_range \<Rightarrow> string \<Rightarrow> resolver \<Rightarrow> resolver" where
  "resolve_struct i r n s =
     (case hm_globals (rs_hir s) n of
       None \<Rightarrow> rs_error r ''E0206'' (''unknown struct '' @ quoted n) s
     | Some k \<Rightarrow> resolve_node i k s)"

text \<open>The output bindings of inline assembly, looked for in the scopes only.\<close>

fun check_outputs :: "asm_operand list \<Rightarrow> scopes \<Rightarrow> resolver \<Rightarrow> resolver" where
  "check_outputs [] scs s = s"
| "check_outputs (p # ps) scs s =
     check_outputs ps scs
       (if ao_out_name p \<noteq> [] \<and> find_scopes (ao_out_name p) scs = None
        then rs_error (ao_range p) ''E0205'' (''unknown asm output binding '' @ quoted (ao_out_name p)) s
        else s)"

fun resolve_expr :: "expr \<Rightarrow> scopes \<Rightarrow> resolver \<Rightarrow> resolver"
and resolve_exprs :: "expr list \<Rightarrow> scopes \<Rightarrow> resolver \<Rightarrow> resolver"
and resolve_fields :: "field_init list \<Rightarrow> scopes \<Rightarrow> resolver \<Rightarrow> resolver"
and resolve_operand_values :: "asm_operand list \<Rightarrow> scopes \<Rightarrow> resolver \<Rightarrow> resolver" where
  "resolve_expr (NameExpr i r n) scs s = resolve_name i r n scs s"
| "resolve_expr (StructLiteralExpr i r n _ fs) scs s = resolve_fields fs scs (resolve_struct i r n s)"
| "resolve_expr (UnaryExpr _ _ _ e) scs s = resolve_expr e scs s"
| "resolve_expr (BinaryExpr _ _ _ a b) scs s = resolve_expr b scs (resolve_expr a scs s)"
| "resolve_expr (BorrowExpr _ _ e _) scs s = resolve_expr e scs s"
| "resolve_expr (CallExpr _ _ f _ as) scs s = resolve_exprs as scs (resolve_expr f scs s)"
| "resolve_expr (MemberExpr _ _ e _) scs s = resolve_expr e scs s"
| "resolve_expr (IndexExpr _ _ a b) scs s = resolve_expr b scs (resolve_expr a scs s)"
| "resolve_expr (AwaitExpr _ _ e) scs s = resolve_expr e scs s"
| "resolve_expr (CastExpr _ _ e _) scs s = resolve_expr e scs s"
| "resolve_expr (AsmExpr _ _ _ ps _) scs s = check_outputs ps scs (resolve_operand_values ps scs s)"
| "resolve_expr (IntegerExpr _ _ _) scs s = s"
| "resolve_expr (FloatExpr _ _ _) scs s = s"
| "resolve_expr (StringExpr _ _ _) scs s = s"
| "resolve_expr (CharExpr _ _ _) scs s = s"
| "resolve_expr (BoolExpr _ _ _) scs s = s"
| "resolve_exprs [] scs s = s"
| "resolve_exprs (e # es) scs s = resolve_exprs es scs (resolve_expr e scs s)"
| "resolve_fields [] scs s = s"
| "resolve_fields (FieldInit _ e _ # fs) scs s = resolve_fields fs scs (resolve_expr e scs s)"
| "resolve_operand_values [] scs s = s"
| "resolve_operand_values (AsmOperand _ _ v _ _ # ps) scs s =
     resolve_operand_values ps scs (case v of None \<Rightarrow> s | Some e \<Rightarrow> resolve_expr e scs s)"

definition resolve_option :: "expr option \<Rightarrow> scopes \<Rightarrow> resolver \<Rightarrow> resolver" where
  "resolve_option w scs s = (case w of None \<Rightarrow> s | Some e \<Rightarrow> resolve_expr e scs s)"

subsection \<open>Statements\<close>

definition resolve_let ::
  "nat \<Rightarrow> src_range \<Rightarrow> string \<Rightarrow> symbol_id option \<Rightarrow> scopes \<Rightarrow> resolver \<Rightarrow> scopes \<times> resolver" where
  "resolve_let i r n owner scs s =
     (case add_symbol SymLocal n r owner s of (k, s) \<Rightarrow>
       (let (scs, s) = (if in_top n scs
              then (scs, rs_error r ''E0203'' (''binding '' @ quoted n @ '' already exists in this scope'') s)
              else (bind_top n k scs, s))
        in (scs, s\<lparr>rs_hir := (rs_hir s)\<lparr>hm_bindings := (hm_bindings (rs_hir s))(i \<mapsto> k)\<rparr>\<rparr>)))"

text \<open>An assignment to a name nothing declares is a binding of it.\<close>

definition is_new_name :: "expr \<Rightarrow> string \<Rightarrow> scopes \<Rightarrow> resolver \<Rightarrow> string option" where
  "is_new_name target op scs s =
     (case target of
       NameExpr _ _ n \<Rightarrow>
         if op = ''='' \<and> hm_globals (rs_hir s) n = None \<and> find_scopes n scs = None then Some n else None
     | _ \<Rightarrow> None)"

definition resolve_assign ::
  "nat \<Rightarrow> expr \<Rightarrow> string \<Rightarrow> expr \<Rightarrow> symbol_id option \<Rightarrow> scopes \<Rightarrow> resolver \<Rightarrow> scopes \<times> resolver" where
  "resolve_assign i target op v owner scs s =
     (case is_new_name target op scs s of
       Some n \<Rightarrow>
         (case add_symbol SymLocal n (expr_range target) owner (resolve_expr v scs s) of (k, s) \<Rightarrow>
           (bind_top n k scs,
            resolve_node (expr_id target) k
              (s\<lparr>rs_hir := (rs_hir s)\<lparr>hm_assignment_bindings := (hm_assignment_bindings (rs_hir s))(i \<mapsto> k)\<rparr>\<rparr>)))
     | None \<Rightarrow> (scs, resolve_expr v scs (resolve_expr target scs s)))"

definition enter_for ::
  "nat \<Rightarrow> src_range \<Rightarrow> string \<Rightarrow> symbol_id option \<Rightarrow> scopes \<Rightarrow> resolver \<Rightarrow> scopes \<times> resolver" where
  "enter_for i r n owner scs s =
     (case add_symbol SymLocal n r owner s of (k, s) \<Rightarrow>
       ([n \<mapsto> k] # scs, s\<lparr>rs_hir := (rs_hir s)\<lparr>hm_for_bindings := (hm_for_bindings (rs_hir s))(i \<mapsto> k)\<rparr>\<rparr>))"

fun resolve_block :: "block \<Rightarrow> symbol_id option \<Rightarrow> scopes \<Rightarrow> resolver \<Rightarrow> resolver"
and resolve_stmts :: "stmt list \<Rightarrow> symbol_id option \<Rightarrow> scopes \<Rightarrow> resolver \<Rightarrow> resolver"
and resolve_stmt :: "stmt \<Rightarrow> symbol_id option \<Rightarrow> scopes \<Rightarrow> resolver \<Rightarrow> scopes \<times> resolver" where
  "resolve_block (Block _ _ sts) owner scs s = resolve_stmts sts owner (Map.empty # scs) s"
| "resolve_stmts [] owner scs s = s"
| "resolve_stmts (st # sts) owner scs s =
     (case resolve_stmt st owner scs s of (scs, s) \<Rightarrow> resolve_stmts sts owner scs s)"
| "resolve_stmt (LetStmt i r n _ _ init) owner scs s =
     resolve_let i r n owner scs (resolve_option init scs s)"
| "resolve_stmt (AssignStmt i _ target op v) owner scs s = resolve_assign i target op v owner scs s"
| "resolve_stmt (ExprStmt _ _ e) owner scs s = (scs, resolve_expr e scs s)"
| "resolve_stmt (ReturnStmt _ _ w) owner scs s = (scs, resolve_option w scs s)"
| "resolve_stmt (BlockStmt b) owner scs s = (scs, resolve_block b owner scs s)"
| "resolve_stmt (IfStmt _ _ c t e) owner scs s =
     (scs, case (e, resolve_block t owner scs (resolve_expr c scs s)) of
        (None, s) \<Rightarrow> s
      | (Some b, s) \<Rightarrow> resolve_block b owner scs s)"
| "resolve_stmt (WhileStmt _ _ c b) owner scs s = (scs, resolve_block b owner scs (resolve_expr c scs s))"
| "resolve_stmt (ForStmt i r n b e _ body) owner scs s =
     (case enter_for i r n owner scs (resolve_expr e scs (resolve_expr b scs s)) of
       (inner, s) \<Rightarrow> (scs, resolve_block body owner inner s))"
| "resolve_stmt (LoopStmt _ _ b) owner scs s = (scs, resolve_block b owner scs s)"
| "resolve_stmt (UnsafeStmt _ _ b) owner scs s = (scs, resolve_block b owner scs s)"
| "resolve_stmt (BreakStmt _ _) owner scs s = (scs, s)"
| "resolve_stmt (ContinueStmt _ _) owner scs s = (scs, s)"
| "resolve_stmt (FenceStmt _ _ _ _) owner scs s = (scs, s)"

subsection \<open>Functions and modules\<close>

definition declare_name ::
  "string \<Rightarrow> src_range \<Rightarrow> string \<Rightarrow> string \<Rightarrow> symbol_id \<Rightarrow> scopes \<times> resolver \<Rightarrow> scopes \<times> resolver" where
  "declare_name n r code what k = (\<lambda>(scs, s).
     if in_top n scs then (scs, rs_error r code (''duplicate '' @ what @ '' '' @ quoted n) s)
     else (bind_top n k scs, s))"

definition resolve_generic ::
  "symbol_id option \<Rightarrow> generic_param \<Rightarrow> scopes \<times> resolver \<Rightarrow> scopes \<times> resolver" where
  "resolve_generic owner g = (\<lambda>(scs, s).
     case add_symbol SymGeneric (gp_name g) (gp_range g) owner s of (k, s) \<Rightarrow>
       declare_name (gp_name g) (gp_range g) ''E0201'' ''generic parameter'' k (scs, s))"

definition resolve_param :: "symbol_id option \<Rightarrow> param \<Rightarrow> scopes \<times> resolver \<Rightarrow> scopes \<times> resolver" where
  "resolve_param owner p = (\<lambda>(scs, s).
     case add_symbol SymParameter (par_name p) (par_range p) owner s of (k, s) \<Rightarrow>
       (case declare_name (par_name p) (par_range p) ''E0202'' ''parameter'' k (scs, s) of (scs, s) \<Rightarrow>
         (scs, s\<lparr>rs_hir := (rs_hir s)\<lparr>hm_params := (hm_params (rs_hir s))(par_id p \<mapsto> k)\<rparr>\<rparr>)))"

definition resolve_function :: "function_decl \<Rightarrow> resolver \<Rightarrow> resolver" where
  "resolve_function d s =
     (let owner = hm_globals (rs_hir s) (fd_name d) in
      case fold (resolve_param owner) (fd_params d)
             (fold (resolve_generic owner) (fd_generics d) ([Map.empty], s)) of
        (scs, s) \<Rightarrow> (case fd_body d of None \<Rightarrow> s | Some b \<Rightarrow> resolve_block b owner scs s))"

definition declare_global :: "symbol_kind \<Rightarrow> string \<Rightarrow> src_range \<Rightarrow> bool \<Rightarrow> resolver \<Rightarrow> resolver" where
  "declare_global k n r silent s =
     (if hm_globals (rs_hir s) n \<noteq> None then
        (if silent then s else rs_error r ''E0200'' (''duplicate global symbol '' @ quoted n) s)
      else (case add_symbol k n r None s of (i, s) \<Rightarrow>
        s\<lparr>rs_hir := (rs_hir s)\<lparr>hm_globals := (hm_globals (rs_hir s))(n \<mapsto> i)\<rparr>\<rparr>))"

definition declare_item :: "item \<Rightarrow> resolver \<Rightarrow> resolver" where
  "declare_item it s =
     (case it of
       FunctionItem d \<Rightarrow> declare_global SymFunction (fd_name d) (fd_range d) (fd_is_extern d) s
     | StructItem d \<Rightarrow> declare_global SymStruct (sd_name d) (sd_range d) False s
     | TraitItem d \<Rightarrow> declare_global SymTrait (td_name d) (td_range d) False s
     | GlobalItem d \<Rightarrow> declare_global SymGlobal (gd_name d) (gd_range d) False s
     | _ \<Rightarrow> s)"

definition resolve_item :: "item \<Rightarrow> resolver \<Rightarrow> resolver" where
  "resolve_item it s =
     (case it of
       FunctionItem d \<Rightarrow> resolve_function d s
     | ImplItem im \<Rightarrow> fold resolve_function (im_methods im) s
     | _ \<Rightarrow> s)"

definition resolve_module :: "ast_module \<Rightarrow> diagnostics \<Rightarrow> hir_module \<times> diagnostics" where
  "resolve_module md ds =
     (let s = fold resolve_item (am_items md)
            (fold declare_item (am_items md) \<lparr>rs_hir = empty_hir, rs_diags = ds\<rparr>)
      in (rs_hir s, rs_diags s))"

end
