(* ===== verification/ResolverSound.thy ===== *)
theory ResolverSound
  imports Resolver
begin

text \<open>
  What name resolution promises. A name stands for a symbol of that name, and when nothing was
  reported every name of a function body stands for a symbol or a builtin function. Symbol ids are
  32-bit numbers, so the first promise is for modules of at most \<open>2 ^ 32\<close> symbols.
\<close>

subsection \<open>The names of a program\<close>

text \<open>The nodes that name something, with the name.\<close>

fun name_nodes :: "expr \<Rightarrow> (nat \<times> string) list"
and name_nodes_list :: "expr list \<Rightarrow> (nat \<times> string) list"
and name_nodes_fields :: "field_init list \<Rightarrow> (nat \<times> string) list"
and name_nodes_operands :: "asm_operand list \<Rightarrow> (nat \<times> string) list" where
  "name_nodes (NameExpr i _ n) = [(i, n)]"
| "name_nodes (StructLiteralExpr i _ n _ fs) = (i, n) # name_nodes_fields fs"
| "name_nodes (UnaryExpr _ _ _ e) = name_nodes e"
| "name_nodes (BinaryExpr _ _ _ a b) = name_nodes a @ name_nodes b"
| "name_nodes (BorrowExpr _ _ e _) = name_nodes e"
| "name_nodes (CallExpr _ _ f _ as) = name_nodes f @ name_nodes_list as"
| "name_nodes (MemberExpr _ _ e _) = name_nodes e"
| "name_nodes (IndexExpr _ _ a b) = name_nodes a @ name_nodes b"
| "name_nodes (AwaitExpr _ _ e) = name_nodes e"
| "name_nodes (CastExpr _ _ e _) = name_nodes e"
| "name_nodes (AsmExpr _ _ _ ps _) = name_nodes_operands ps"
| "name_nodes (IntegerExpr _ _ _) = []"
| "name_nodes (FloatExpr _ _ _) = []"
| "name_nodes (StringExpr _ _ _) = []"
| "name_nodes (CharExpr _ _ _) = []"
| "name_nodes (BoolExpr _ _ _) = []"
| "name_nodes_list [] = []"
| "name_nodes_list (e # es) = name_nodes e @ name_nodes_list es"
| "name_nodes_fields [] = []"
| "name_nodes_fields (FieldInit _ e _ # fs) = name_nodes e @ name_nodes_fields fs"
| "name_nodes_operands [] = []"
| "name_nodes_operands (AsmOperand _ _ v _ _ # ps) =
     (case v of None \<Rightarrow> [] | Some e \<Rightarrow> name_nodes e) @ name_nodes_operands ps"

definition option_nodes :: "expr option \<Rightarrow> (nat \<times> string) list" where
  "option_nodes w = (case w of None \<Rightarrow> [] | Some e \<Rightarrow> name_nodes e)"

fun block_nodes :: "block \<Rightarrow> (nat \<times> string) list"
and stmts_nodes :: "stmt list \<Rightarrow> (nat \<times> string) list"
and stmt_nodes :: "stmt \<Rightarrow> (nat \<times> string) list" where
  "block_nodes (Block _ _ sts) = stmts_nodes sts"
| "stmts_nodes [] = []"
| "stmts_nodes (st # sts) = stmt_nodes st @ stmts_nodes sts"
| "stmt_nodes (LetStmt _ _ _ _ _ init) = option_nodes init"
| "stmt_nodes (AssignStmt _ _ target _ v) = name_nodes target @ name_nodes v"
| "stmt_nodes (ExprStmt _ _ e) = name_nodes e"
| "stmt_nodes (ReturnStmt _ _ w) = option_nodes w"
| "stmt_nodes (BlockStmt b) = block_nodes b"
| "stmt_nodes (IfStmt _ _ c t e) = name_nodes c @ block_nodes t @ (case e of None \<Rightarrow> [] | Some b \<Rightarrow> block_nodes b)"
| "stmt_nodes (WhileStmt _ _ c b) = name_nodes c @ block_nodes b"
| "stmt_nodes (ForStmt _ _ _ b e _ body) = name_nodes b @ name_nodes e @ block_nodes body"
| "stmt_nodes (LoopStmt _ _ b) = block_nodes b"
| "stmt_nodes (UnsafeStmt _ _ b) = block_nodes b"
| "stmt_nodes (BreakStmt _ _) = []"
| "stmt_nodes (ContinueStmt _ _) = []"
| "stmt_nodes (FenceStmt _ _ _ _) = []"

definition function_nodes :: "function_decl \<Rightarrow> (nat \<times> string) list" where
  "function_nodes d = (case fd_body d of None \<Rightarrow> [] | Some b \<Rightarrow> block_nodes b)"

definition item_nodes :: "item \<Rightarrow> (nat \<times> string) list" where
  "item_nodes it = (case it of
     FunctionItem d \<Rightarrow> function_nodes d
   | ImplItem im \<Rightarrow> concat (map function_nodes (im_methods im))
   | _ \<Rightarrow> [])"

definition module_nodes :: "ast_module \<Rightarrow> (nat \<times> string) list" where
  "module_nodes md = concat (map item_nodes (am_items md))"

subsection \<open>States of the resolver\<close>

abbreviation symbols :: "resolver \<Rightarrow> hir_symbol list" where
  "symbols s \<equiv> hm_symbols (rs_hir s)"

definition named :: "resolver \<Rightarrow> symbol_id \<Rightarrow> string \<Rightarrow> bool" where
  "named s k n \<longleftrightarrow> unat k < length (symbols s) \<and> sym_name (symbols s ! unat k) = n"

definition scopes_ok :: "resolver \<Rightarrow> scopes \<Rightarrow> bool" where
  "scopes_ok s scs \<longleftrightarrow> (\<forall>sc \<in> set scs. \<forall>n k. sc n = Some k \<longrightarrow> named s k n)"

definition hir_ok :: "(nat \<Rightarrow> string) \<Rightarrow> resolver \<Rightarrow> bool" where
  "hir_ok names s \<longleftrightarrow> (\<forall>n k. hm_globals (rs_hir s) n = Some k \<longrightarrow> named s k n) \<and>
     (\<forall>i k. hm_expr_resolution (rs_hir s) i = Some k \<longrightarrow> named s k (names i))"

definition names_ok :: "(nat \<Rightarrow> string) \<Rightarrow> scopes \<Rightarrow> resolver \<Rightarrow> bool" where
  "names_ok names scs s \<longleftrightarrow> (length (symbols s) \<le> 2 ^ 32 \<longrightarrow> hir_ok names s \<and> scopes_ok s scs)"

text \<open>Symbols and resolutions are only added, and errors stay.\<close>

definition extends :: "resolver \<Rightarrow> resolver \<Rightarrow> bool" where
  "extends s t \<longleftrightarrow> prefix (symbols s) (symbols t) \<and>
     dom (hm_expr_resolution (rs_hir s)) \<subseteq> dom (hm_expr_resolution (rs_hir t)) \<and>
     diag_le (rs_diags s) (rs_diags t)"

definition resolved :: "(nat \<times> string) list \<Rightarrow> resolver \<Rightarrow> bool" where
  "resolved ns s \<longleftrightarrow> has_errors (rs_diags s) \<or>
     (\<forall>(i, n) \<in> set ns. i \<in> dom (hm_expr_resolution (rs_hir s)) \<or> builtin_function n)"

definition agrees :: "(nat \<Rightarrow> string) \<Rightarrow> (nat \<times> string) list \<Rightarrow> bool" where
  "agrees names ns \<longleftrightarrow> (\<forall>(i, n) \<in> set ns. names i = n)"

lemma agrees_simps [simp]:
  "agrees names []" "agrees names ((i, n) # ns) \<longleftrightarrow> names i = n \<and> agrees names ns"
  "agrees names (ns @ ms) \<longleftrightarrow> agrees names ns \<and> agrees names ms"
  by (auto simp: agrees_def split: prod.splits)

lemma extends_refl [simp, intro]: "extends s s"
  by (simp add: extends_def)

lemma extends_trans [trans]: "extends s t \<Longrightarrow> extends t u \<Longrightarrow> extends s u"
  unfolding extends_def by (auto intro: prefix_order.trans diag_le_trans)

lemma extends_named: "extends s t \<Longrightarrow> named s k n \<Longrightarrow> named t k n"
  by (auto simp: extends_def named_def prefix_def nth_append)

lemma extends_resolved: "extends s t \<Longrightarrow> resolved ns s \<Longrightarrow> resolved ns t"
  unfolding extends_def resolved_def using diag_le_has_errors by fast

lemma resolved_append [simp]: "resolved (ns @ ms) s \<longleftrightarrow> resolved ns s \<and> resolved ms s"
  by (auto simp: resolved_def)

lemma resolved_Nil [simp]: "resolved [] s"
  by (simp add: resolved_def)

lemma resolved_Cons: "resolved ((i, n) # ns) s \<longleftrightarrow> resolved [(i, n)] s \<and> resolved ns s"
  by (auto simp: resolved_def)

text \<open>
  A step of the resolver that visits the nodes \<open>ns\<close>: it extends the state, leaves the globals alone,
  keeps the names right and resolves the nodes.
\<close>

definition visits_nodes :: "(nat \<times> string) list \<Rightarrow> scopes \<Rightarrow> resolver \<Rightarrow> resolver \<Rightarrow> bool" where
  "visits_nodes ns scs s t \<longleftrightarrow> extends s t \<and> resolved ns t \<and>
     (\<forall>names. agrees names ns \<longrightarrow> names_ok names scs s \<longrightarrow> names_ok names scs t)"

lemma visits_Nil [simp, intro]: "visits_nodes [] scs s s"
  by (simp add: visits_nodes_def)

lemma visits_seq: "visits_nodes ns scs s t \<Longrightarrow> visits_nodes ms scs t u \<Longrightarrow> visits_nodes (ns @ ms) scs s u"
  unfolding visits_nodes_def by (auto intro: extends_trans extends_resolved)

lemma visits_extends: "visits_nodes ns scs s t \<Longrightarrow> extends s t"
  by (simp add: visits_nodes_def)

lemma visits_error [intro]: "visits_nodes ns scs s (rs_error r c m s)"
  by (simp add: visits_nodes_def extends_def resolved_def rs_error_def names_ok_def hir_ok_def scopes_ok_def named_def)

lemma error_ok: "names_ok names scs s \<Longrightarrow> names_ok names scs (rs_error r c m s)"
  by (simp add: rs_error_def names_ok_def hir_ok_def scopes_ok_def named_def)

lemma find_scopes_named: "scopes_ok s scs \<Longrightarrow> find_scopes n scs = Some k \<Longrightarrow> named s k n"
  by (induction n scs rule: find_scopes.induct) (auto simp: scopes_ok_def split: option.splits)

lemma visits_resolve_node:
  assumes "\<And>names. names_ok names scs s \<Longrightarrow> length (symbols s) \<le> 2 ^ 32 \<Longrightarrow> named s k n"
  shows "visits_nodes [(i, n)] scs s (resolve_node i k s)"
  using assms
  by (auto simp: visits_nodes_def extends_def resolved_def resolve_node_def names_ok_def hir_ok_def scopes_ok_def
      named_def split: if_splits)

lemma visits_name: "visits_nodes [(i, n)] scs s (resolve_name i r n scs s)"
proof -
  have "visits_nodes [(i, n)] scs s s" if "builtin_function n"
    using that by (simp add: visits_nodes_def resolved_def)
  moreover have "visits_nodes [(i, n)] scs s (resolve_node i k s)" if "find_scopes n scs = Some k" for k
    using that by (intro visits_resolve_node) (auto simp: names_ok_def dest: find_scopes_named)
  moreover have "visits_nodes [(i, n)] scs s (resolve_node i k s)" if "hm_globals (rs_hir s) n = Some k" for k
    using that by (intro visits_resolve_node) (auto simp: names_ok_def hir_ok_def)
  ultimately show ?thesis
    by (auto simp: resolve_name_def split: option.split)
qed

lemma visits_struct: "visits_nodes [(i, n)] scs s (resolve_struct i r n s)"
  unfolding resolve_struct_def
  by (auto split: option.split intro!: visits_resolve_node) (simp add: names_ok_def hir_ok_def)

lemma visits_outputs: "visits_nodes [] scs s (check_outputs ps scs s)"
proof (induction ps arbitrary: s)
  case (Cons p ps)
  show ?case
    using visits_seq [OF _ Cons.IH, of "[]"] by auto
qed simp

lemma visits_expr:
  "visits_nodes (name_nodes e) scs s (resolve_expr e scs s)"
  "visits_nodes (name_nodes_list es) scs s (resolve_exprs es scs s)"
  "visits_nodes (name_nodes_fields fs) scs s (resolve_fields fs scs s)"
  "visits_nodes (name_nodes_operands ps) scs s (resolve_operand_values ps scs s)"
proof (induction e scs s and es scs s and fs scs s and ps scs s
    rule: resolve_expr_resolve_exprs_resolve_fields_resolve_operand_values.induct)
  case (2 i r n gs fs scs s)
  then show ?case
    using visits_seq [OF visits_struct] by fastforce
next
  case (11 i r t ps v scs s)
  then show ?case
    using visits_seq [OF _ visits_outputs] by fastforce
next
  case (22 k c v n r ps scs s)
  then show ?case
    using visits_seq by (cases v) auto
qed (simp_all add: visits_name visits_seq)

subsection \<open>Statements\<close>

lemma visits_option: "visits_nodes (option_nodes w) scs s (resolve_option w scs s)"
  by (simp add: option_nodes_def resolve_option_def visits_expr split: option.split)

lemma names_ok_outer:
  "names_ok names scs s \<Longrightarrow> extends s u \<Longrightarrow> names_ok names scs' u \<Longrightarrow> names_ok names scs u"
  unfolding names_ok_def scopes_ok_def
  by (meson extends_def extends_named order_trans prefix_length_le)

lemma visits_inner:
  assumes "visits_nodes ns scs s t" "visits_nodes ms scs' t u"
    and "\<And>names. agrees names ns \<Longrightarrow> names_ok names scs s \<Longrightarrow> names_ok names scs' t"
  shows "visits_nodes (ns @ ms) scs s u"
proof -
  have ext: "extends s u"
    using assms(1,2) extends_trans by (blast dest: visits_extends)
  moreover have "resolved (ns @ ms) u"
    using assms(1,2) extends_resolved by (auto simp: visits_nodes_def)
  moreover have "names_ok names scs u" if "agrees names (ns @ ms)" "names_ok names scs s" for names
    using names_ok_outer [OF that(2) ext, of scs'] assms(2,3) that by (auto simp: visits_nodes_def)
  ultimately show ?thesis
    by (simp add: visits_nodes_def)
qed

text \<open>A fresh symbol has the name it was added under.\<close>

lemma add_symbol_extends: "add_symbol k n r p s = (i, t) \<Longrightarrow> extends s t"
  by (auto simp: add_symbol_def Let_def extends_def)

lemma add_symbol_named:
  assumes "add_symbol k n r p s = (i, t)" "length (symbols t) \<le> 2 ^ 32"
  shows "named t i n"
proof -
  have "unat (of_nat (length (symbols s)) :: symbol_id) = length (symbols s)"
    using assms by (auto simp: add_symbol_def Let_def unat_of_nat)
  then show ?thesis
    using assms(1) by (auto simp: add_symbol_def Let_def named_def)
qed

lemma add_symbol_visits:
  assumes "add_symbol k n r p s = (i, t)"
  shows "visits_nodes [] scs s t"
proof -
  have "names_ok names scs t" if "names_ok names scs s" for names
    using assms that extends_named [OF add_symbol_extends [OF assms]]
    by (auto simp: add_symbol_def Let_def names_ok_def hir_ok_def scopes_ok_def)
  then show ?thesis
    using add_symbol_extends [OF assms] by (simp add: visits_nodes_def)
qed

lemma visits_record:
  assumes "symbols t = symbols s" "hm_globals (rs_hir t) = hm_globals (rs_hir s)"
    "hm_expr_resolution (rs_hir t) = hm_expr_resolution (rs_hir s)" "rs_diags t = rs_diags s"
  shows "visits_nodes [] scs s t"
  using assms by (simp add: visits_nodes_def extends_def names_ok_def hir_ok_def scopes_ok_def named_def)

lemma bind_top_ok:
  assumes "names_ok names scs t" "length (symbols t) \<le> 2 ^ 32 \<Longrightarrow> named t k n"
  shows "names_ok names (bind_top n k scs) t"
  using assms unfolding names_ok_def scopes_ok_def bind_top_def
  by (auto split: list.splits if_splits)

definition stmt_visits :: "(nat \<times> string) list \<Rightarrow> scopes \<Rightarrow> resolver \<Rightarrow> scopes \<times> resolver \<Rightarrow> bool" where
  "stmt_visits ns scs s = (\<lambda>(scs', t). visits_nodes ns scs s t \<and>
     (\<forall>names. agrees names ns \<longrightarrow> names_ok names scs s \<longrightarrow> names_ok names scs' t))"

lemma stmt_visits_same: "stmt_visits ns scs s (scs, t) \<longleftrightarrow> visits_nodes ns scs s t"
  by (auto simp: stmt_visits_def visits_nodes_def)

lemma stmt_visits_seq:
  "visits_nodes ns scs s t \<Longrightarrow> stmt_visits ms scs t p \<Longrightarrow> stmt_visits (ns @ ms) scs s p"
  unfolding stmt_visits_def by (cases p) (auto intro: visits_seq simp: visits_nodes_def dest: extends_trans extends_resolved)

lemma stmt_visits_then:
  assumes "stmt_visits ns scs s (scs', t)" "stmt_visits ms scs' t p"
  shows "stmt_visits (ns @ ms) scs s p"
proof -
  obtain scs'' u where p: "p = (scs'', u)"
    by fastforce
  have "visits_nodes (ns @ ms) scs s u"
    by (rule visits_inner [of _ _ _ t _ scs']) (use assms p in \<open>auto simp: stmt_visits_def\<close>)
  then show ?thesis
    using assms p by (auto simp: stmt_visits_def)
qed

lemma let_visits: "stmt_visits [] scs s (resolve_let i r n owner scs s)"
proof -
  obtain k t where t: "add_symbol SymLocal n r owner s = (k, t)"
    by fastforce
  define u where "u = (if in_top n scs then rs_error r ''E0203'' (''binding '' @ quoted n @ '' already exists in this scope'') t else t)"
  define v where "v = u\<lparr>rs_hir := (rs_hir u)\<lparr>hm_bindings := (hm_bindings (rs_hir u))(i \<mapsto> k)\<rparr>\<rparr>"
  have eq: "resolve_let i r n owner scs s = (if in_top n scs then scs else bind_top n k scs, v)"
    by (simp add: resolve_let_def t u_def v_def)
  have "visits_nodes [] scs t u"
    by (auto simp: u_def)
  moreover have "visits_nodes [] scs u v"
    by (rule visits_record) (simp_all add: v_def)
  ultimately have tv: "visits_nodes [] scs t v"
    using visits_seq [of "[]" scs t u "[]" v] by simp
  have sv: "visits_nodes [] scs s v"
    using visits_seq [OF add_symbol_visits [OF t] tv] by simp
  have "named v k n" if "length (symbols v) \<le> 2 ^ 32"
    using that add_symbol_named [OF t] by (simp add: v_def u_def named_def rs_error_def split: if_splits)
  then show ?thesis
    using sv unfolding eq by (auto simp: stmt_visits_def visits_nodes_def intro: bind_top_ok)
qed

lemma assign_visits:
  "stmt_visits (name_nodes target @ name_nodes v) scs s (resolve_assign i target op v owner scs s)"
proof (cases "is_new_name target op scs s")
  case None
  then show ?thesis
    using visits_seq [OF visits_expr(1) visits_expr(1)] by (simp add: resolve_assign_def stmt_visits_same)
next
  case (Some n)
  then obtain j r where target: "target = NameExpr j r n"
    by (auto simp: is_new_name_def split: expr.splits if_splits)
  obtain k t where t: "add_symbol SymLocal n r owner (resolve_expr v scs s) = (k, t)"
    by fastforce
  define u where "u = t\<lparr>rs_hir := (rs_hir t)\<lparr>hm_assignment_bindings := (hm_assignment_bindings (rs_hir t))(i \<mapsto> k)\<rparr>\<rparr>"
  have eq: "resolve_assign i target op v owner scs s = (bind_top n k scs, resolve_node j k u)"
    using Some t by (simp add: resolve_assign_def u_def target)
  have tu: "visits_nodes [] scs t u"
    by (rule visits_record) (simp_all add: u_def)
  have su: "visits_nodes (name_nodes v) scs s u"
    using visits_seq [OF visits_seq [OF visits_expr(1) add_symbol_visits [OF t]] tu] by simp
  have named: "named u k n" if "length (symbols u) \<le> 2 ^ 32"
    using that add_symbol_named [OF t] by (simp add: u_def named_def)
  have "visits_nodes [(j, n)] scs u (resolve_node j k u)"
    using named by (intro visits_resolve_node)
  from visits_seq [OF su this] have all: "visits_nodes (name_nodes target @ name_nodes v) scs s (resolve_node j k u)"
    by (auto simp: visits_nodes_def target resolved_Cons [of j n "name_nodes v"])
  have "named (resolve_node j k u) k n" if "length (symbols (resolve_node j k u)) \<le> 2 ^ 32"
    using that named by (simp add: resolve_node_def named_def)
  with all show ?thesis
    unfolding eq stmt_visits_def by (auto simp: visits_nodes_def intro: bind_top_ok)
qed

lemma enter_for_visits:
  assumes "enter_for i r n owner scs s = (inner, t)"
  shows "visits_nodes [] scs s t" "names_ok names scs s \<Longrightarrow> names_ok names inner t"
proof -
  obtain k u where u: "add_symbol SymLocal n r owner s = (k, u)"
    by fastforce
  have t: "inner = [n \<mapsto> k] # scs"
    "t = u\<lparr>rs_hir := (rs_hir u)\<lparr>hm_for_bindings := (hm_for_bindings (rs_hir u))(i \<mapsto> k)\<rparr>\<rparr>"
    using assms by (simp_all add: enter_for_def u)
  have "visits_nodes [] scs u t"
    by (rule visits_record) (simp_all add: t)
  then show st: "visits_nodes [] scs s t"
    using visits_seq [OF add_symbol_visits [OF u]] by fastforce
  have "named t k n" if "length (symbols t) \<le> 2 ^ 32"
    using that add_symbol_named [OF u] by (simp add: t named_def)
  then show "names_ok names inner t" if "names_ok names scs s"
    using st that by (auto simp: visits_nodes_def names_ok_def scopes_ok_def t(1) split: if_splits)
qed

lemma visits_block:
  "visits_nodes (block_nodes b) scs s (resolve_block b owner scs s)"
  "visits_nodes (stmts_nodes sts) scs s (resolve_stmts sts owner scs s)"
  "stmt_visits (stmt_nodes st) scs s (resolve_stmt st owner scs s)"
proof (induction b owner scs s and sts owner scs s and st owner scs s
    rule: resolve_block_resolve_stmts_resolve_stmt.induct)
  case (1 i r sts owner scs s)
  have "names_ok names (Map.empty # scs) s" if "names_ok names scs s" for names
    using that by (auto simp: names_ok_def scopes_ok_def)
  then show ?case
    using visits_inner [OF visits_Nil 1, of scs] by simp
next
  case (3 st sts owner scs s)
  obtain scs' t where t: "resolve_stmt st owner scs s = (scs', t)"
    by fastforce
  show ?case
    using visits_inner [of "stmt_nodes st" scs s t "stmts_nodes sts" scs'] 3 t
    by (auto simp: stmt_visits_def)
next
  case (4 i r n m t init owner scs s)
  have lv: "stmt_visits [] scs (resolve_option init scs s) (resolve_let i r n owner scs (resolve_option init scs s))"
    by (rule let_visits)
  show ?case
    using stmt_visits_seq [OF visits_option lv] by simp
next
  case (5 i r target op v owner scs s)
  then show ?case
    using assign_visits by simp
next
  case (9 i r c t e owner scs s)
  then show ?case
    using visits_seq [OF visits_expr(1) "9.IH"(1)] visits_seq [OF visits_seq [OF visits_expr(1) "9.IH"(1)]]
    by (cases e) (auto simp: stmt_visits_same)
next
  case (11 i r n b e inc body owner scs s)
  obtain inner t where t: "enter_for i r n owner scs (resolve_expr e scs (resolve_expr b scs s)) = (inner, t)"
    by fastforce
  have be: "visits_nodes (name_nodes b @ name_nodes e) scs s (resolve_expr e scs (resolve_expr b scs s))"
    by (rule visits_seq [OF visits_expr(1) visits_expr(1)])
  have "visits_nodes (name_nodes b @ name_nodes e) scs s t"
    using visits_seq [OF be enter_for_visits(1) [OF t]] by simp
  from visits_inner [OF this "11.IH" [OF t [symmetric]]] show ?case
    using be enter_for_visits(2) [OF t] by (auto simp: stmt_visits_same t visits_nodes_def)
next
  case (10 i r c b owner scs s)
  then show ?case
    using visits_seq [OF visits_expr(1)] by (simp add: stmt_visits_same)
qed (simp_all add: stmt_visits_same visits_expr visits_option)

subsection \<open>Functions and modules\<close>

abbreviation no_scopes :: scopes where
  "no_scopes \<equiv> []"

text \<open>A step on scopes and state, with the scopes it starts and ends with.\<close>

definition declares :: "(scopes \<times> resolver \<Rightarrow> scopes \<times> resolver) \<Rightarrow> bool" where
  "declares f \<longleftrightarrow> (\<forall>scs s. stmt_visits [] scs s (f (scs, s)))"

lemma declares_fold:
  assumes "\<And>x. declares (f x)"
  shows "stmt_visits [] scs s (fold f xs (scs, s))"
proof (induction xs arbitrary: scs s)
  case Nil
  then show ?case
    by (simp add: stmt_visits_same)
next
  case (Cons x xs)
  obtain scs' t where t: "f x (scs, s) = (scs', t)"
    by fastforce
  have step: "stmt_visits [] scs s (scs', t)"
    using assms t unfolding declares_def by metis
  have rest: "stmt_visits [] scs' t (fold f xs (scs', t))"
    by (rule Cons.IH)
  show ?case
    using stmt_visits_then [OF step rest] by (simp add: t)
qed

lemma declare_name_visits:
  assumes "length (symbols s) \<le> 2 ^ 32 \<Longrightarrow> named s k n"
  shows "stmt_visits [] scs s (declare_name n r c w k (scs, s))"
  using assms unfolding declare_name_def
  by (auto simp: stmt_visits_def visits_error error_ok intro: bind_top_ok)

lemma resolve_generic_visits: "declares (resolve_generic owner g)"
proof -
  have "stmt_visits [] scs s (resolve_generic owner g (scs, s))" for scs s
  proof -
    obtain k t where t: "add_symbol SymGeneric (gp_name g) (gp_range g) owner s = (k, t)"
      by fastforce
    show ?thesis
      using stmt_visits_seq [OF add_symbol_visits [OF t] declare_name_visits [OF add_symbol_named [OF t]]]
      by (simp add: resolve_generic_def t)
  qed
  then show ?thesis
    by (simp add: declares_def)
qed

lemma resolve_param_visits: "declares (resolve_param owner p)"
proof -
  have "stmt_visits [] scs s (resolve_param owner p (scs, s))" for scs s
  proof -
    obtain k t where t: "add_symbol SymParameter (par_name p) (par_range p) owner s = (k, t)"
      by fastforce
    obtain scs' u where u: "declare_name (par_name p) (par_range p) ''E0202'' ''parameter'' k (scs, t) = (scs', u)"
      by fastforce
    define v where "v = u\<lparr>rs_hir := (rs_hir u)\<lparr>hm_params := (hm_params (rs_hir u))(par_id p \<mapsto> k)\<rparr>\<rparr>"
    have su: "stmt_visits [] scs s (scs', u)"
      using stmt_visits_seq [OF add_symbol_visits [OF t] declare_name_visits [OF add_symbol_named [OF t]]] u
      by (metis append_Nil)
    have uv: "visits_nodes [] scs' u v"
      by (rule visits_record) (simp_all add: v_def)
    then have "stmt_visits [] scs' u (scs', v)"
      by (simp add: stmt_visits_same)
    from stmt_visits_then [OF su this] show ?thesis
      by (simp add: resolve_param_def t u v_def)
  qed
  then show ?thesis
    by (simp add: declares_def)
qed

lemma visits_function: "visits_nodes (function_nodes d) no_scopes s (resolve_function d s)"
proof -
  define owner where "owner = hm_globals (rs_hir s) (fd_name d)"
  obtain scs t where t: "fold (resolve_generic owner) (fd_generics d) ([Map.empty], s) = (scs, t)"
    by fastforce
  obtain scs' u where u: "fold (resolve_param owner) (fd_params d) (scs, t) = (scs', u)"
    by fastforce
  have "stmt_visits [] [Map.empty] s (fold (resolve_generic owner) (fd_generics d) ([Map.empty], s))"
    by (rule declares_fold) (rule resolve_generic_visits)
  then have st: "stmt_visits [] [Map.empty] s (scs, t)"
    by (simp only: t)
  have "stmt_visits [] scs t (fold (resolve_param owner) (fd_params d) (scs, t))"
    by (rule declares_fold) (rule resolve_param_visits)
  then have tu: "stmt_visits [] scs t (scs', u)"
    by (simp only: u)
  have su: "stmt_visits [] [Map.empty] s (scs', u)"
    using stmt_visits_then [OF st tu] by simp
  have start: "names_ok names [Map.empty] s" if "names_ok names no_scopes s" for names
    using that by (simp add: names_ok_def scopes_ok_def)
  have s_u: "visits_nodes [] no_scopes s u"
    using visits_inner [OF visits_Nil _ start, of "[]" u] su by (auto simp: stmt_visits_def)
  have inner: "names_ok names scs' u" if "names_ok names no_scopes s" for names
    using su start [OF that] by (simp add: stmt_visits_def)
  show ?thesis
  proof (cases "fd_body d")
    case None
    then show ?thesis
      using s_u by (simp add: resolve_function_def function_nodes_def owner_def [symmetric] t u)
  next
    case (Some b)
    have "visits_nodes (block_nodes b) scs' u (resolve_block b owner scs' u)"
      by (rule visits_block(1))
    from visits_inner [OF s_u this inner] show ?thesis
      by (simp add: resolve_function_def function_nodes_def owner_def [symmetric] t u Some)
  qed
qed

lemma visits_fold:
  assumes "\<And>x s. visits_nodes (ns x) no_scopes s (f x s)"
  shows "visits_nodes (concat (map ns xs)) no_scopes s (fold f xs s)"
  using assms by (induction xs arbitrary: s) (auto intro: visits_seq)

lemma visits_item: "visits_nodes (item_nodes it) no_scopes s (resolve_item it s)"
  by (cases it) (simp_all add: item_nodes_def resolve_item_def visits_function visits_fold)

text \<open>The declarations come first.\<close>

lemma declare_global_ok:
  assumes "names_ok names no_scopes s"
  shows "names_ok names no_scopes (declare_global k n r silent s)"
proof (cases "hm_globals (rs_hir s) n")
  case None
  obtain i t where t: "add_symbol k n r None s = (i, t)"
    by fastforce
  have "names_ok names no_scopes t"
    using add_symbol_visits [OF t] assms by (simp add: visits_nodes_def)
  then show ?thesis
    using add_symbol_named [OF t] None
    by (auto simp: declare_global_def t names_ok_def hir_ok_def scopes_ok_def named_def)
next
  case (Some i)
  with assms show ?thesis
    by (simp add: declare_global_def error_ok)
qed

lemma declare_items_ok:
  "names_ok names no_scopes s \<Longrightarrow> names_ok names no_scopes (fold declare_item its s)"
proof (induction its arbitrary: s)
  case (Cons it its)
  have "names_ok names no_scopes (declare_item it s)"
    using Cons.prems by (cases it) (simp_all add: declare_item_def declare_global_ok)
  then show ?case
    using Cons.IH by simp
qed simp

lemma resolve_module_visits:
  fixes md :: ast_module and ds :: diagnostics
  defines "s \<equiv> fold declare_item (am_items md) \<lparr>rs_hir = empty_hir, rs_diags = ds\<rparr>"
  shows "\<exists>t. resolve_module md ds = (rs_hir t, rs_diags t) \<and> visits_nodes (module_nodes md) no_scopes s t \<and>
    (\<forall>names. names_ok names no_scopes s)"
proof -
  define t where "t = fold resolve_item (am_items md) s"
  have eq: "resolve_module md ds = (rs_hir t, rs_diags t)"
    by (simp add: resolve_module_def t_def s_def Let_def)
  have v: "visits_nodes (module_nodes md) no_scopes s t"
    unfolding t_def module_nodes_def by (rule visits_fold) (rule visits_item)
  have ok: "names_ok names no_scopes s" for names
    unfolding s_def
    by (rule declare_items_ok) (simp add: names_ok_def hir_ok_def scopes_ok_def empty_hir_def)
  show ?thesis
    using eq v ok by blast
qed

lemma resolve_module_names_ok:
  assumes "resolve_module md ds = (hm, ds')" "agrees names (module_nodes md)"
  shows "names_ok names no_scopes \<lparr>rs_hir = hm, rs_diags = ds'\<rparr>"
  using resolve_module_visits [of md ds] assms
  by (auto simp: visits_nodes_def names_ok_def hir_ok_def scopes_ok_def named_def)

subsection \<open>Properties\<close>

text \<open>
  C12: name resolution. In a module of at most 2 to the 32 symbols whose nodes have one name each, every
  node the resolver has resolved stands for a symbol of the module, and that symbol has the node's name.
\<close>

theorem resolution_named:
  assumes "resolve_module md ds = (hm, ds')" "agrees names (module_nodes md)"
    and "length (hm_symbols hm) \<le> 2 ^ 32" "hm_expr_resolution hm i = Some k"
  shows "unat k < length (hm_symbols hm) \<and> sym_name (hm_symbols hm ! unat k) = names i"
  using resolve_module_names_ok [OF assms(1,2)] assms(3,4)
  by (simp add: names_ok_def hir_ok_def named_def)

text \<open>
  C13: when the resolver has reported nothing, every name and struct literal in the body of a function
  or method of the module has a symbol, or names a builtin function.
\<close>

theorem resolution_complete:
  assumes "resolve_module md ds = (hm, ds')" "\<not> has_errors ds'" "(i, n) \<in> set (module_nodes md)"
  shows "(\<exists>k. hm_expr_resolution hm i = Some k) \<or> builtin_function n"
  using resolve_module_visits [of md ds] assms
  by (auto simp: visits_nodes_def resolved_def)

end
