(* ===== verification/MirLower.thy ===== *)
theory MirLower
  imports Mir Traits
begin

text \<open>
  Lowering of the checked tree to the intermediate representation (src/mir.cpp, src/mir_stmt.cpp,
  src/mir_expr.cpp). One record holds the members of the lowerer (\<open>lo_\<close>) and the state of the function
  being lowered (\<open>lw_\<close>). A vector used as a stack has its top first.
\<close>

subsection \<open>State\<close>

record specialization =
  sp_decl :: function_decl
  sp_subst :: "string \<rightharpoonup> ty"
  sp_name :: string

record lowering =
  lo_diags :: diagnostics
  lo_out :: mir_module
  lo_pending :: "specialization list"
  lo_emitted :: "string set"
  lo_smp :: smp_mode
  lw_fn :: mir_function
  lw_block :: nat
  lw_temps :: nat
  lw_slot_count :: nat
  lw_slots :: "string \<rightharpoonup> string"
  lw_types :: "string \<rightharpoonup> ty"
  lw_locals :: "string list list"
  lw_subst :: "string \<rightharpoonup> ty"
  lw_loops :: "(nat \<times> nat) list"
  lw_smp :: smp_mode

type_synonym 'a lowered = "'a \<times> lowering"

definition unit_type :: ty where
  "unit_type = builtin_type ''unit''"

definition temp :: "lowering \<Rightarrow> string lowered" where
  "temp s = (''%t'' @ nat_to_string (lw_temps s), s\<lparr>lw_temps := lw_temps s + 1\<rparr>)"

definition slot :: "string \<Rightarrow> lowering \<Rightarrow> string lowered" where
  "slot h s = (''%'' @ h @ ''.slot.'' @ nat_to_string (lw_slot_count s), s\<lparr>lw_slot_count := lw_slot_count s + 1\<rparr>)"

definition lw_blocks :: "lowering \<Rightarrow> basic_block list" where
  "lw_blocks s = mf_blocks (lw_fn s)"

definition set_blocks :: "basic_block list \<Rightarrow> lowering \<Rightarrow> lowering" where
  "set_blocks bs s = s\<lparr>lw_fn := (lw_fn s)\<lparr>mf_blocks := bs\<rparr>\<rparr>"

definition terminated :: "lowering \<Rightarrow> bool" where
  "terminated s = bb_terminated (lw_blocks s ! lw_block s)"

definition new_block :: "string \<Rightarrow> lowering \<Rightarrow> nat lowered" where
  "new_block label s =
     (length (lw_blocks s),
      set_blocks (lw_blocks s @ [\<lparr>bb_label = label, bb_instrs = [], bb_terminated = False\<rparr>]) s)"

definition numbered_block :: "string \<Rightarrow> lowering \<Rightarrow> nat lowered" where
  "numbered_block hint s = new_block (hint @ nat_to_string (length (lw_blocks s))) s"

definition block_label :: "nat \<Rightarrow> lowering \<Rightarrow> string" where
  "block_label i s = bb_label (lw_blocks s ! i)"

definition report_lowering :: "src_range \<Rightarrow> string \<Rightarrow> string \<Rightarrow> lowering \<Rightarrow> lowering" where
  "report_lowering r code message s = s\<lparr>lo_diags := diag_error r code message (lo_diags s)\<rparr>"

definition add_instr :: "instr \<Rightarrow> basic_block \<Rightarrow> basic_block" where
  "add_instr i b = b\<lparr>bb_instrs := bb_instrs b @ [i], bb_terminated := bb_terminated b \<or> is_terminator (in_op i)\<rparr>"

definition emit :: "instr \<Rightarrow> lowering \<Rightarrow> lowering" where
  "emit i s =
     (if terminated s then
        s\<lparr>lo_diags := diag_warning (in_range i) ''W0500'' ''unreachable statement after terminator'' (lo_diags s)\<rparr>
      else set_blocks ((lw_blocks s)[lw_block s := add_instr i (lw_blocks s ! lw_block s)]) s)"

text \<open>An instruction with a fresh temporary as its result.\<close>

definition emit_value :: "mir_op \<Rightarrow> ty \<Rightarrow> string list \<Rightarrow> string \<Rightarrow> src_range \<Rightarrow> lowering \<Rightarrow> string lowered" where
  "emit_value op t args text r s =
     (case temp s of (v, s) \<Rightarrow> (v, emit (instr_of op v t args text False r) s))"

definition emit_plain :: "mir_op \<Rightarrow> ty \<Rightarrow> string list \<Rightarrow> string \<Rightarrow> src_range \<Rightarrow> lowering \<Rightarrow> lowering" where
  "emit_plain op t args text r s = emit (instr_of op [] t args text False r) s"

definition subst_type :: "ty \<Rightarrow> lowering \<Rightarrow> ty" where
  "subst_type t s = substitute_type t (lw_subst s)"

definition expr_type :: "sem_model \<Rightarrow> expr \<Rightarrow> lowering \<Rightarrow> ty" where
  "expr_type M e s = (case sm_expr_types M (expr_id e) of None \<Rightarrow> error_type | Some t \<Rightarrow> subst_type t s)"

definition needs_cast :: "ty \<Rightarrow> ty \<Rightarrow> bool" where
  "needs_cast from to \<longleftrightarrow> is_integer from \<and> is_integer to \<or> ty_kind from = KBool \<and> is_integer to \<or>
     is_integer from \<and> is_float to \<or> is_float from \<and> is_float to \<or> is_float from \<and> is_integer to"

definition coerce_value :: "string \<Rightarrow> ty \<Rightarrow> ty \<Rightarrow> src_range \<Rightarrow> lowering \<Rightarrow> string lowered" where
  "coerce_value v from to r s =
     (if type_eq from to \<or> v = ''undef'' \<or> v = [] then (v, s)
      else if \<not> needs_cast from to then (v, s)
      else emit_value OpCast to [v] (type_str from) r s)"

definition intern_string :: "string \<Rightarrow> lowering \<Rightarrow> string lowered" where
  "intern_string v s =
     (case find (\<lambda>c. sc_value c = v) (mm_strings (lo_out s)) of
       Some c \<Rightarrow> (sc_symbol c, s)
     | None \<Rightarrow>
         (let symbol = ''.str.'' @ nat_to_string (length (mm_strings (lo_out s)))
          in (symbol, s\<lparr>lo_out := (lo_out s)\<lparr>mm_strings := mm_strings (lo_out s) @ [\<lparr>sc_symbol = symbol, sc_value = v\<rparr>]\<rparr>\<rparr>)))"

definition add_function :: "mir_function \<Rightarrow> lowering \<Rightarrow> lowering" where
  "add_function f s = s\<lparr>lo_out := (lo_out s)\<lparr>mm_functions := mm_functions (lo_out s) @ [f]\<rparr>\<rparr>"

definition declare_runtime_function :: "string \<Rightarrow> ty \<Rightarrow> mir_param list \<Rightarrow> lowering \<Rightarrow> lowering" where
  "declare_runtime_function name result params s =
     (if list_ex (\<lambda>f. mf_name f = name) (mm_functions (lo_out s)) then s
      else add_function \<lparr>mf_name = name, mf_source_name = name, mf_params = params, mf_result = result,
        mf_blocks = [], mf_is_extern = True, mf_is_unsafe = False, mf_is_async = False, mf_abi = ''Uinx''\<rparr> s)"

subsection \<open>Atomic places and orders\<close>

definition place_is_atomic :: "sem_model \<Rightarrow> expr \<Rightarrow> lowering \<Rightarrow> bool" where
  "place_is_atomic M e s =
     (let t = expr_type M e s in
      if \<not> (is_integer t \<or> ty_kind t = KRawPtr) then False
      else case e of
        NameExpr _ _ name \<Rightarrow>
          (case map_of (sm_globals M) name of
            None \<Rightarrow> False | Some g \<Rightarrow> \<not> gi_is_percpu g \<and> gi_is_shared g)
      | MemberExpr _ _ b member \<Rightarrow>
          (let bt = expr_type M b s;
               bt = (case (ty_kind bt = KRef, ty_pointee bt) of (True, Some q) \<Rightarrow> q | _ \<Rightarrow> bt)
           in case map_of (sm_structs M) (ty_name bt) of
                None \<Rightarrow> False | Some si \<Rightarrow> member \<in> si_shared_fields si)
      | _ \<Rightarrow> False)"

definition load_order :: "lowering \<Rightarrow> string" where
  "load_order s = (if lw_smp s = SmpStrict then ''seq_cst'' else ''acquire'')"

definition store_order :: "lowering \<Rightarrow> string" where
  "store_order s = (if lw_smp s = SmpStrict then ''seq_cst'' else ''release'')"

definition rmw_order :: "lowering \<Rightarrow> string" where
  "rmw_order s = (if lw_smp s = SmpStrict then ''seq_cst'' else ''acq_rel'')"

subsection \<open>Calls\<close>

text \<open>The types a generic callee is used at.\<close>

definition call_subst :: "sem_model \<Rightarrow> type_ref list \<Rightarrow> expr list \<Rightarrow> function_sig \<Rightarrow> lowering \<Rightarrow> (string \<rightharpoonup> ty)" where
  "call_subst M gargs args sig s =
     (if gargs \<noteq> [] then
        fold (\<lambda>(n, g) m. m(n \<mapsto> type_from_ast g {})) (zip (fs_generic_names sig) gargs) Map.empty
      else
        fold (\<lambda>(a, p) m. let formal = subst_type p s in
          if ty_kind formal = KGeneric then m(ty_name formal \<mapsto> expr_type M a s) else m)
          (zip args (fs_params sig)) Map.empty)"

definition specialized_name :: "function_sig \<Rightarrow> (string \<rightharpoonup> ty) \<Rightarrow> string" where
  "specialized_name sig sub = fs_name sig @ concat (map (\<lambda>g. case sub g of
       None \<Rightarrow> []
     | Some t \<Rightarrow> ''$'' @ map (\<lambda>ch. if char_isalnum ch then ch else CHR ''_'') (type_str t)) (fs_generic_names sig))"

text \<open>
  A generic function is queued. The code stores the address of its declaration, which every
  signature the checker makes has; a signature without one queues nothing here.
\<close>

definition specialize_call ::
  "sem_model \<Rightarrow> type_ref list \<Rightarrow> expr list \<Rightarrow> function_sig \<Rightarrow> lowering \<Rightarrow> string lowered" where
  "specialize_call M gargs args sig s =
     (if fs_generic_names sig = [] then (fs_name sig, s)
      else
        (let sub = call_subst M gargs args sig s; n = specialized_name sig sub in
         (n, if n \<in> lo_emitted s then s
             else (case fs_decl sig of
               None \<Rightarrow> s
             | Some d \<Rightarrow> s\<lparr>lo_pending := \<lparr>sp_decl = d, sp_subst = sub, sp_name = n\<rparr> # lo_pending s\<rparr>))))"

text \<open>
  The parameter a method argument is coerced to. The code subtracts the number of arguments from
  that of the values at hand, which is one, the receiver, in 64-bit unsigned arithmetic.
\<close>

definition method_expected :: "function_sig \<Rightarrow> nat \<Rightarrow> nat \<Rightarrow> ty option" where
  "method_expected sig n i =
     (let offset = (if fs_params sig = [] then 0 else (2 ^ 64 + 1 - n) mod 2 ^ 64);
          k = (offset + i) mod 2 ^ 64
      in if k < length (fs_params sig) then Some (fs_params sig ! k) else None)"

definition named_expected :: "function_sig option \<Rightarrow> nat \<Rightarrow> ty option" where
  "named_expected fi i = (case fi of
     None \<Rightarrow> None | Some sig \<Rightarrow> if i < length (fs_params sig) then Some (fs_params sig ! i) else None)"

definition runtime_call ::
  "string \<Rightarrow> ty \<Rightarrow> ty list \<Rightarrow> string list \<Rightarrow> src_range \<Rightarrow> lowering \<Rightarrow> string lowered" where
  "runtime_call name result ptys args r s =
     (let s = declare_runtime_function name result
            (map (\<lambda>(i, t). \<lparr>mp_name = ''p'' @ nat_to_string i, mp_type = t\<rparr>) (zip [0..<length ptys] ptys)) s
      in if is_unit result then ([], emit (instr_of OpCall [] result args name False r) s)
         else emit_value OpCall result args name r s)"

definition cast_value :: "string \<Rightarrow> ty \<Rightarrow> ty \<Rightarrow> src_range \<Rightarrow> lowering \<Rightarrow> string lowered" where
  "cast_value v from to r s =
     (if type_eq from to then (v, s) else emit_value OpCast to [v] (type_str from) r s)"

definition str_ref :: ty where
  "str_ref = ref_type (builtin_type ''str'') False"

definition is_string :: "ty \<Rightarrow> bool" where
  "is_string t \<longleftrightarrow> ty_kind t = KStr \<or>
     ty_kind t = KRef \<and> (case ty_pointee t of None \<Rightarrow> False | Some q \<Rightarrow> ty_kind q = KStr)"

definition wide_integer :: "ty \<Rightarrow> ty" where
  "wide_integer t = builtin_type (if unsigned_integer_kind (ty_kind t) then ''u64'' else ''i64'')"

text \<open>One printed argument.\<close>

definition print_value :: "string \<Rightarrow> string \<Rightarrow> ty \<Rightarrow> src_range \<Rightarrow> lowering \<Rightarrow> lowering" where
  "print_value fd v t r s =
     (let i32 = builtin_type ''i32'' in
      if is_integer t \<and> ty_kind t \<noteq> KI128 \<and> ty_kind t \<noteq> KU128 then
        (case cast_value v t (wide_integer t) r s of (v, s) \<Rightarrow>
          snd (runtime_call (if unsigned_integer_kind (ty_kind t) then ''uinx_print_u64'' else ''uinx_print_i64'')
            unit_type [wide_integer t, i32] [v, fd] r s))
      else if is_float t then
        (case cast_value v t (builtin_type ''f64'') r s of (v, s) \<Rightarrow>
          snd (runtime_call ''uinx_print_f64'' unit_type [builtin_type ''f64'', i32] [v, fd] r s))
      else if ty_kind t = KBool then
        (case cast_value v t (builtin_type ''i64'') r s of (v, s) \<Rightarrow>
          snd (runtime_call ''uinx_print_bool'' unit_type [builtin_type ''i64'', i32] [v, fd] r s))
      else if ty_kind t = KChar then
        snd (runtime_call ''uinx_print_char'' unit_type [i32, i32] [v, fd] r s)
      else snd (runtime_call ''uinx_print_cstr'' unit_type [str_ref, i32] [v, fd] r s))"

text \<open>The conversions \<open>str\<close>, \<open>int\<close>, \<open>float\<close>, \<open>bool\<close> and \<open>len\<close> of a lowered value.\<close>

definition lower_str :: "string \<Rightarrow> ty \<Rightarrow> src_range \<Rightarrow> lowering \<Rightarrow> (string \<times> ty) lowered option" where
  "lower_str v t r s =
     (let call = (\<lambda>f ptys v s. case runtime_call f str_ref ptys [v] r s of (v, s) \<Rightarrow> Some ((v, str_ref), s)) in
      if is_string t then Some ((v, str_ref), s)
      else if is_integer t then
        (case cast_value v t (wide_integer t) r s of (v, s) \<Rightarrow>
          call (if unsigned_integer_kind (ty_kind t) then ''uinx_string_from_u64'' else ''uinx_string_from_i64'')
            [wide_integer t] v s)
      else if is_float t then
        (case cast_value v t (builtin_type ''f64'') r s of (v, s) \<Rightarrow>
          call ''uinx_string_from_f64'' [builtin_type ''f64''] v s)
      else if ty_kind t = KBool then
        (case cast_value v t (builtin_type ''i64'') r s of (v, s) \<Rightarrow>
          call ''uinx_string_from_bool'' [builtin_type ''i64''] v s)
      else if ty_kind t = KChar then call ''uinx_string_from_char'' [builtin_type ''i32''] v s
      else None)"

definition lower_number :: "string \<Rightarrow> string \<Rightarrow> ty \<Rightarrow> src_range \<Rightarrow> lowering \<Rightarrow> (string \<times> ty) lowered" where
  "lower_number name v t r s =
     (let target = builtin_type (if name = ''int'' then ''i64'' else ''f64'') in
      case (if is_string t
            then runtime_call (if name = ''int'' then ''uinx_parse_i64_cstr'' else ''uinx_parse_f64_cstr'')
              target [str_ref] [v] r s
            else cast_value v t target r s) of (v, s) \<Rightarrow> ((v, target), s))"

definition lower_bool :: "string \<Rightarrow> ty \<Rightarrow> src_range \<Rightarrow> lowering \<Rightarrow> (string \<times> ty) lowered" where
  "lower_bool v t r s =
     (if ty_kind t = KBool then ((v, t), s)
      else case (if is_string t
                 then (case runtime_call ''uinx_parse_i64_cstr'' (builtin_type ''i64'') [str_ref] [v] r s of
                   (v, s) \<Rightarrow> ((v, builtin_type ''i64''), s))
                 else ((v, t), s)) of
        ((v, t), s) \<Rightarrow>
          (case emit_value OpConstInt t [] ''0'' r s of (zero, s) \<Rightarrow>
            (case emit_value OpCompare (builtin_type ''bool'') [v, zero] ''!='' r s of
              (result, s) \<Rightarrow> ((result, builtin_type ''bool''), s))))"

definition unsupported_builtin :: "ty \<Rightarrow> src_range \<Rightarrow> lowering \<Rightarrow> (string \<times> ty) lowered" where
  "unsupported_builtin result r s =
     ((''undef'', result), report_lowering r ''E0507'' ''internal: unsupported builtin lowering'' s)"

definition lower_conversion ::
  "string \<Rightarrow> ty \<Rightarrow> string \<Rightarrow> ty \<Rightarrow> src_range \<Rightarrow> lowering \<Rightarrow> (string \<times> ty) lowered" where
  "lower_conversion name result v t r s =
     (if name = ''str'' then
        (case lower_str v t r s of Some x \<Rightarrow> x | None \<Rightarrow> unsupported_builtin result r s)
      else if name = ''int'' \<or> name = ''float'' then lower_number name v t r s
      else if name = ''bool'' then lower_bool v t r s
      else if name = ''len'' \<and> is_string t then
        (case runtime_call ''uinx_cstr_len'' (builtin_type ''usize'') [str_ref] [v] r s of
          (v, s) \<Rightarrow> ((v, builtin_type ''usize''), s))
      else unsupported_builtin result r s)"

end
