(* ===== verification/MirExpr.thy ===== *)
theory MirExpr
  imports MirLower
begin

text \<open>
  Lowering of expressions and places (src/mir_expr.cpp). The functions recur on the expression;
  a structure literal is lowered in the order of the declared fields.
\<close>

definition emit_address ::
  "mir_op \<Rightarrow> ty \<Rightarrow> string list \<Rightarrow> string \<Rightarrow> ty \<Rightarrow> src_range \<Rightarrow> lowering \<Rightarrow> string lowered" where
  "emit_address op t args text aux r s =
     (case temp s of (v, s) \<Rightarrow> (v, emit ((instr_of op v t args text False r)\<lparr>in_aux := aux\<rparr>) s))"

definition emit_load :: "ty \<Rightarrow> string \<Rightarrow> bool \<Rightarrow> src_range \<Rightarrow> lowering \<Rightarrow> string lowered" where
  "emit_load t addr atomic r s =
     (case temp s of (v, s) \<Rightarrow>
       (v, emit (instr_of OpLoad v t [addr] (if atomic then load_order s else []) atomic r) s))"

text \<open>The storage of a name.\<close>

definition name_address :: "sem_model \<Rightarrow> string \<Rightarrow> src_range \<Rightarrow> lowering \<Rightarrow> string lowered" where
  "name_address M name r s =
     (case lw_slots s name of
       Some sl \<Rightarrow> (sl, s)
     | None \<Rightarrow>
         if map_of (sm_globals M) name \<noteq> None then (''@'' @ name, s)
         else (''null'', report_lowering r ''E0502'' (''internal: no storage for '' @ [CHR 0x27] @ name @ [CHR 0x27]) s))"

fun index_of :: "string \<Rightarrow> string list \<Rightarrow> nat option" where
  "index_of x [] = None"
| "index_of x (y # ys) = (if y = x then Some 0 else map_option Suc (index_of x ys))"

text \<open>The address of a field, for the address and the type of the base.\<close>

definition field_address ::
  "sem_model \<Rightarrow> string \<Rightarrow> ty \<Rightarrow> ty \<Rightarrow> string \<Rightarrow> src_range \<Rightarrow> lowering \<Rightarrow> string lowered" where
  "field_address M base bt ft member r s =
     (let quote = (\<lambda>n. [CHR 0x27] @ n @ [CHR 0x27]) in
      if ty_kind bt \<noteq> KNamed then
        (''null'', report_lowering r ''E0503'' ''field address base is not a struct'' s)
      else case map_of (sm_structs M) (ty_name bt) of
        None \<Rightarrow> (''null'', report_lowering r ''E0503'' (''unknown struct layout for '' @ quote (ty_name bt)) s)
      | Some si \<Rightarrow>
          (case si_decl si of
            None \<Rightarrow> (''null'', report_lowering r ''E0503'' (''unknown struct layout for '' @ quote (ty_name bt)) s)
          | Some d \<Rightarrow>
              (case index_of member (map fld_name (sd_fields d)) of
                None \<Rightarrow> (''null'', report_lowering r ''E0503'' (''unknown field '' @ quote member) s)
              | Some k \<Rightarrow> emit_address OpFieldAddr ft [base] (nat_to_string k) bt r s)))"

text \<open>The data pointer and the length of a slice at an address.\<close>

definition slice_parts :: "string \<Rightarrow> ty \<Rightarrow> src_range \<Rightarrow> lowering \<Rightarrow> (string \<times> string) lowered" where
  "slice_parts container ct r s =
     (let data_t = raw_ptr_type (hd (ty_args ct)) (ty_name ct = ''SliceMut'');
          usize = builtin_type ''usize''
      in case emit_address OpFieldAddr data_t [container] ''0'' ct r s of (da, s) \<Rightarrow>
        (case emit_load data_t da False r s of (data, s) \<Rightarrow>
          (case emit_address OpFieldAddr usize [container] ''1'' ct r s of (la, s) \<Rightarrow>
            (case emit_load usize la False r s of (len, s) \<Rightarrow> ((data, len), s)))))"

definition is_slice :: "ty \<Rightarrow> bool" where
  "is_slice t \<longleftrightarrow> ty_kind t = KNamed \<and> (ty_name t = ''Slice'' \<or> ty_name t = ''SliceMut'') \<and> ty_args t \<noteq> []"

text \<open>The value given for a field; the last one counts.\<close>

definition field_value :: "string \<Rightarrow> field_init list \<Rightarrow> expr option" where
  "field_value n fs = map_option fi_value (find (\<lambda>f. fi_name f = n) (rev fs))"

lemma field_value_size: "field_value n fs = Some v \<Longrightarrow> size v < size_list size fs"
proof -
  assume "field_value n fs = Some v"
  then obtain f where f: "find (\<lambda>f. fi_name f = n) (rev fs) = Some f" "v = fi_value f"
    by (auto simp: field_value_def)
  then have "f \<in> set fs"
    by (metis find_Some_iff nth_mem set_rev)
  then show ?thesis
    using size_field_value f(2) by simp
qed

definition field_expected :: "struct_info \<Rightarrow> ty \<Rightarrow> field_decl \<Rightarrow> ty" where
  "field_expected si t d = substitute_type (type_from_ast (fld_type d) (set (si_generic_names si))) (struct_subst si t)"

definition is_comparison :: "string \<Rightarrow> bool" where
  "is_comparison op \<longleftrightarrow> op \<in> {''=='', ''!='', ''<'', ''<='', ''>'', ''>=''}"

text \<open>\<open>-v\<close>, \<open>!v\<close> and the other unary operators of a lowered operand of type \<open>t\<close>, at type \<open>ty\<close>.\<close>

definition cast_operand :: "string \<Rightarrow> ty \<Rightarrow> ty \<Rightarrow> src_range \<Rightarrow> lowering \<Rightarrow> string lowered" where
  "cast_operand v from to r s =
     (if \<not> type_eq from to then emit_value OpCast to [v] (type_str from) r s else (v, s))"

definition lower_operator ::
  "string \<Rightarrow> string \<Rightarrow> ty \<Rightarrow> ty \<Rightarrow> src_range \<Rightarrow> lowering \<Rightarrow> string lowered" where
  "lower_operator op v from t r s =
     (case temp s of (result, s) \<Rightarrow>
       (case temp s of (zero, s) \<Rightarrow>
         (case cast_operand v from t r s of (operand, s) \<Rightarrow>
           (if op = ''-'' then
              (let s = emit (instr_of (if is_float t then OpConstFloat else OpConstInt) zero t []
                     (if is_float t then ''0.0'' else ''0'') False r) s
               in (result, emit (instr_of OpBinary result t [zero, operand] ''-'' False r) s))
            else (result, emit (instr_of OpBinary result t [operand] op False r) s)))))"

definition lower_binary ::
  "string \<Rightarrow> string \<times> ty \<Rightarrow> src_range \<Rightarrow> string \<times> ty \<Rightarrow> src_range \<Rightarrow> ty \<Rightarrow> src_range \<Rightarrow> lowering \<Rightarrow>
     (string \<times> ty) lowered" where
  "lower_binary op left lr right rr t r s =
     (case temp s of (result, s) \<Rightarrow>
       (let cmp = is_comparison op; target = (if cmp then snd left else t) in
        case coerce_value (fst left) (snd left) target lr s of (l, s) \<Rightarrow>
          (case coerce_value (fst right) (snd right) target rr s of (rv, s) \<Rightarrow>
            ((result, t), emit (instr_of (if cmp then OpCompare else OpBinary) result target [l, rv] op False r) s))))"

text \<open>The call itself, once callee and arguments are known.\<close>

definition emit_call :: "string \<Rightarrow> string list \<Rightarrow> ty \<Rightarrow> src_range \<Rightarrow> lowering \<Rightarrow> (string \<times> ty) lowered" where
  "emit_call callee args t r s =
     (case (if is_unit t then ([], s) else temp s) of
       (v, s) \<Rightarrow> ((v, t), emit (instr_of OpCall v t args callee False r) s))"

definition find_signature :: "sem_model \<Rightarrow> expr \<Rightarrow> string \<Rightarrow> lowering \<Rightarrow> function_sig option" where
  "find_signature M base member s =
     (let t = expr_type M base s;
          owner = (case (ty_kind t = KRef, ty_pointee t) of (True, Some q) \<Rightarrow> q | _ \<Rightarrow> t)
      in map_of (sm_functions M) (ty_name owner @ ''::'' @ member))"

definition takes_reference :: "function_sig \<Rightarrow> bool" where
  "takes_reference sig = (case fs_params sig of [] \<Rightarrow> False | p # _ \<Rightarrow> ty_kind p = KRef)"

text \<open>The output operand of inline assembly. Reading \<open>local_types\<close> adds a missing entry.\<close>

definition asm_output :: "asm_operand \<Rightarrow> mir_asm \<Rightarrow> lowering \<Rightarrow> mir_asm lowered" where
  "asm_output p a s =
     (if ao_out_name p = [] then (a, s)
      else case lw_slots s (ao_out_name p) of
        None \<Rightarrow> (a, s)
      | Some sl \<Rightarrow>
          (case lw_types s (ao_out_name p) of
            Some t \<Rightarrow> (a\<lparr>ma_out_slot := sl, ma_type := t\<rparr>, s)
          | None \<Rightarrow> (a\<lparr>ma_out_slot := sl, ma_type := error_type\<rparr>,
                s\<lparr>lw_types := (lw_types s)(ao_out_name p \<mapsto> error_type)\<rparr>)))"

definition asm_instr :: "string \<Rightarrow> mir_asm list \<Rightarrow> bool \<Rightarrow> src_range \<Rightarrow> instr" where
  "asm_instr text ops volatile r = (instr_of OpInlineAsm [] unit_type [] text volatile r)\<lparr>in_asm := ops\<rparr>"

definition print_names :: "string set" where
  "print_names = {''print'', ''println'', ''eprint'', ''eprintln''}"

definition error_outputs :: "string set" where
  "error_outputs = {''eprint'', ''eprintln''}"

function (sequential)
    lower_expr :: "sem_model \<Rightarrow> expr \<Rightarrow> lowering \<Rightarrow> (string \<times> ty) lowered"
and lower_place :: "sem_model \<Rightarrow> expr \<Rightarrow> lowering \<Rightarrow> string lowered"
and lower_args :: "sem_model \<Rightarrow> expr list \<Rightarrow> nat \<Rightarrow> (nat \<Rightarrow> ty option) \<Rightarrow> lowering \<Rightarrow> string list lowered"
and lower_fields ::
  "sem_model \<Rightarrow> field_init list \<Rightarrow> field_decl list \<Rightarrow> struct_info \<Rightarrow> ty \<Rightarrow> lowering \<Rightarrow> string list lowered"
and lower_operands :: "sem_model \<Rightarrow> asm_operand list \<Rightarrow> lowering \<Rightarrow> mir_asm list lowered"
and lower_prints :: "sem_model \<Rightarrow> expr list \<Rightarrow> bool \<Rightarrow> string \<Rightarrow> src_range \<Rightarrow> lowering \<Rightarrow> lowering"
and lower_builtin ::
  "sem_model \<Rightarrow> string \<Rightarrow> expr list \<Rightarrow> ty \<Rightarrow> src_range \<Rightarrow> lowering \<Rightarrow> (string \<times> ty) lowered" where
  "lower_expr M e s =
     (let t = expr_type M e s; r = expr_range e in
      case e of
        IntegerExpr _ _ v \<Rightarrow> (case emit_value OpConstInt t [] v r s of (x, s) \<Rightarrow> ((x, t), s))
      | FloatExpr _ _ v \<Rightarrow> (case emit_value OpConstFloat t [] v r s of (x, s) \<Rightarrow> ((x, t), s))
      | BoolExpr _ _ v \<Rightarrow>
          (case emit_value OpConstBool t [] (if v then ''1'' else ''0'') r s of (x, s) \<Rightarrow> ((x, t), s))
      | CharExpr _ _ v \<Rightarrow>
          (case emit_value OpConstChar t [] (nat_to_string (if v = [] then 0 else of_char (hd v))) r s of
            (x, s) \<Rightarrow> ((x, t), s))
      | StringExpr _ _ v \<Rightarrow>
          (case temp s of (x, s) \<Rightarrow>
            (case intern_string v s of (symbol, s) \<Rightarrow>
              ((x, t), emit (instr_of OpConstString x t [] symbol False r) s)))
      | NameExpr _ _ name \<Rightarrow>
          (case name_address M name r s of (addr, s) \<Rightarrow>
            (case emit_load t addr (place_is_atomic M e s) r s of (x, s) \<Rightarrow> ((x, t), s)))
      | StructLiteralExpr _ _ name _ fs \<Rightarrow>
          (case map_of (sm_structs M) name of
            Some si \<Rightarrow>
              (case si_decl si of
                Some d \<Rightarrow>
                  (case lower_fields M fs (sd_fields d) si t s of (args, s) \<Rightarrow>
                    (case emit_value OpStructInit t args [] r s of (x, s) \<Rightarrow> ((x, t), s)))
              | None \<Rightarrow> ((''undef'', t), report_lowering r ''E0506''
                    (''missing struct layout for '' @ [CHR 0x27] @ name @ [CHR 0x27]) s))
          | None \<Rightarrow> ((''undef'', t), report_lowering r ''E0506''
                (''missing struct layout for '' @ [CHR 0x27] @ name @ [CHR 0x27]) s))
      | BorrowExpr _ _ target _ \<Rightarrow>
          (case lower_place M target s of (a, s) \<Rightarrow>
            (case emit_value OpAddressOf t [a] [] r s of (x, s) \<Rightarrow> ((x, t), s)))
      | UnaryExpr _ _ op operand \<Rightarrow>
          (case lower_expr M operand s of ((v, from), s) \<Rightarrow>
            (if op = ''move'' then ((v, t), s)
             else if op = ''*'' then (case emit_load t v False r s of (x, s) \<Rightarrow> ((x, t), s))
             else (case lower_operator op v from t r s of (x, s) \<Rightarrow> ((x, t), s))))
      | BinaryExpr _ _ op a b \<Rightarrow>
          (case lower_expr M a s of (left, s) \<Rightarrow>
            (case lower_expr M b s of (right, s) \<Rightarrow>
              lower_binary op left (expr_range a) right (expr_range b) t r s))
      | CallExpr _ _ callee gargs args \<Rightarrow>
          (case callee of
            NameExpr _ _ name \<Rightarrow>
              (if builtin_function name then lower_builtin M name args t r s
               else
                 (let fi = map_of (sm_functions M) name;
                      (f, s) = (case fi of None \<Rightarrow> (name, s) | Some sig \<Rightarrow> specialize_call M gargs args sig s)
                  in case lower_args M args 0 (named_expected fi) s of (vs, s) \<Rightarrow> emit_call f vs t r s))
          | MemberExpr _ _ base member \<Rightarrow>
              (case find_signature M base member s of
                None \<Rightarrow> ((''undef'', t), report_lowering r ''E0507''
                    ''internal: method signature missing during MIR lowering'' s)
              | Some sig \<Rightarrow>
                  (case (if takes_reference sig \<and> ty_kind (expr_type M base s) \<noteq> KRef
                         then lower_place M base s
                         else (case lower_expr M base s of ((v, _), s) \<Rightarrow> (v, s))) of
                    (self, s) \<Rightarrow>
                      (case lower_args M args 0 (method_expected sig (length args)) s of (vs, s) \<Rightarrow>
                        emit_call (fs_name sig) (self # vs) t r s)))
          | _ \<Rightarrow> ((''undef'', t), report_lowering r ''E0507''
                ''internal: unsupported call target during MIR lowering'' s))
      | CastExpr _ _ v _ \<Rightarrow>
          (case lower_expr M v s of ((x, from), s) \<Rightarrow>
            (case emit_value OpCast t [x] (type_str from) r s of (y, s) \<Rightarrow> ((y, t), s)))
      | AsmExpr _ _ text ops volatile \<Rightarrow>
          (case lower_operands M ops s of (mos, s) \<Rightarrow> (([], t), emit (asm_instr text mos volatile r) s))
      | AwaitExpr _ _ v \<Rightarrow>
          (case lower_expr M v s of ((x, _), s) \<Rightarrow>
            (case emit_value OpAwait t [x] [] r s of (y, s) \<Rightarrow> ((y, t), s)))
      | MemberExpr _ _ _ _ \<Rightarrow>
          (case lower_place M e s of (addr, s) \<Rightarrow>
            (case emit_load t addr (place_is_atomic M e s) r s of (x, s) \<Rightarrow> ((x, t), s)))
      | IndexExpr _ _ _ _ \<Rightarrow>
          (case lower_place M e s of (addr, s) \<Rightarrow>
            (case emit_load t addr False r s of (x, s) \<Rightarrow> ((x, t), s))))"
| "lower_place M e s =
     (case e of
        UnaryExpr _ r op operand \<Rightarrow>
          (if op = ''*'' then (case lower_expr M operand s of ((v, _), s) \<Rightarrow> (v, s))
           else (''null'', report_lowering r ''E0504'' ''expression is not an addressable place'' s))
      | NameExpr _ r name \<Rightarrow> name_address M name r s
      | MemberExpr _ r base member \<Rightarrow>
          (let bt = expr_type M base s in
           case (case (ty_kind bt = KRef, ty_pointee bt) of
               (True, Some q) \<Rightarrow> (case lower_expr M base s of ((v, _), s) \<Rightarrow> (v, q, s))
             | _ \<Rightarrow> (case lower_place M base s of (a, s) \<Rightarrow> (a, bt, s))) of
             (base_addr, bt, s) \<Rightarrow> field_address M base_addr bt (expr_type M e s) member r s)
      | IndexExpr _ r base index \<Rightarrow>
          (let ct = expr_type M base s in
           case (case (ty_kind ct = KRef, ty_pointee ct) of
               (True, Some q) \<Rightarrow> (case lower_expr M base s of ((v, _), s) \<Rightarrow> (v, q, s))
             | _ \<Rightarrow> (case lower_place M base s of (a, s) \<Rightarrow> (a, ct, s))) of
             (addr, ct, s) \<Rightarrow>
               (if \<not> is_slice ct then
                  (''null'', report_lowering r ''E0505'' ''MIR indexing requires Slice<T> or SliceMut<T>'' s)
                else
                  (case slice_parts addr ct r s of ((data, len), s) \<Rightarrow>
                    (case lower_expr M index s of ((i, it), s) \<Rightarrow>
                      emit_address OpIndexAddr (hd (ty_args ct)) [data, i, len] [] it r s))))
      | _ \<Rightarrow> (''null'', report_lowering (expr_range e) ''E0504'' ''expression is not an addressable place'' s))"
| "lower_args M [] i expected s = ([], s)"
| "lower_args M (a # as) i expected s =
     (case lower_expr M a s of ((v, actual), s) \<Rightarrow>
       (case (case expected i of
           None \<Rightarrow> (v, s) | Some p \<Rightarrow> coerce_value v actual (subst_type p s) (expr_range a) s) of
         (v, s) \<Rightarrow>
           (case lower_args M as (Suc i) expected s of (vs, s) \<Rightarrow> (v # vs, s))))"
| "lower_fields M fs [] si t s = ([], s)"
| "lower_fields M fs (d # ds) si t s =
     (case (case field_value (fld_name d) fs of
         None \<Rightarrow> (''undef'', s)
       | Some e \<Rightarrow>
           (case lower_expr M e s of ((v, actual), s) \<Rightarrow>
             coerce_value v actual (field_expected si t d) (expr_range e) s)) of
       (v, s) \<Rightarrow> (case lower_fields M fs ds si t s of (vs, s) \<Rightarrow> (v # vs, s)))"
| "lower_operands M [] s = ([], s)"
| "lower_operands M (p # ps) s =
     (let a = \<lparr>ma_kind = ao_kind p, ma_constraint = ao_constraint p, ma_value = [], ma_out_slot = [],
            ma_type = error_type\<rparr>
      in case (case ao_value p of
          None \<Rightarrow> (a, s)
        | Some e \<Rightarrow> (case lower_expr M e s of ((v, t), s) \<Rightarrow> (a\<lparr>ma_value := v, ma_type := t\<rparr>, s))) of
        (a, s) \<Rightarrow>
          (case asm_output p a s of (a, s) \<Rightarrow>
            (case lower_operands M ps s of (as, s) \<Rightarrow> (a # as, s))))"
| "lower_prints M [] first fd r s = s"
| "lower_prints M (a # as) first fd r s =
     (let s = (if first then s
               else snd (runtime_call ''uinx_print_space'' unit_type [builtin_type ''i32''] [fd] r s))
      in case lower_expr M a s of ((v, t), s) \<Rightarrow>
        lower_prints M as False fd r (print_value fd v t (expr_range a) s))"
| "lower_builtin M name args result r s =
     (if name \<in> print_names then
        (case emit_value OpConstInt (builtin_type ''i32'') [] (if name \<in> error_outputs then ''2'' else ''1'') r s of
          (fd, s) \<Rightarrow>
            (let s = lower_prints M args True fd r s
             in (([], unit_type), snd (runtime_call ''uinx_print_newline'' unit_type [builtin_type ''i32''] [fd] r s))))
      else if name = ''input'' then
        (case (case args of [] \<Rightarrow> (''null'', s)
               | a # _ \<Rightarrow> (case lower_expr M a s of ((v, _), s) \<Rightarrow> (v, s))) of
          (prompt, s) \<Rightarrow>
            (case emit_value OpConstInt (builtin_type ''i32'') [] ''1'' r s of (fd, s) \<Rightarrow>
              (case runtime_call ''uinx_input_cstr'' str_ref [str_ref, builtin_type ''i32''] [prompt, fd] r s of
                (v, s) \<Rightarrow> ((v, str_ref), s))))
      else case args of
        [] \<Rightarrow> unsupported_builtin result r s
      | a # _ \<Rightarrow> (case lower_expr M a s of ((v, t), s) \<Rightarrow> lower_conversion name result v t r s))"
  by pat_completeness auto
termination
  by (relation "inv_image (less_than <*lex*> less_than)
      (case_sum
        (case_sum (\<lambda>(M, e, s). (2 * size e + 1, 0)) (case_sum (\<lambda>(M, e, s). (2 * size e, 0))
          (\<lambda>(M, as, i, x, s). (2 * size_list size as, 0))))
        (case_sum
          (case_sum (\<lambda>(M, fs, ds, si, t, s). (2 * size_list size fs, length ds)) (\<lambda>(M, ps, s). (2 * size_list size ps, 0)))
          (case_sum (\<lambda>(M, as, f, fd, r, s). (2 * size_list size as, 0)) (\<lambda>(M, n, as, t, r, s). (2 * size_list size as + 1, 0)))))")
    (auto dest: field_value_size size_ao_value)

declare lower_expr.simps [simp del] lower_place.simps [simp del] lower_builtin.simps [simp del]

end
