(* ===== verification/MirStmt.thy ===== *)
theory MirStmt
  imports MirExpr
begin

text \<open>
  Lowering of statements, functions and modules (src/mir_stmt.cpp, src/mir.cpp). Specialisations of
  generic functions are queued while bodies are lowered and drained at the end of the module; a
  generic function that calls itself at ever larger types queues new ones for ever, so the drain
  carries fuel and \<open>None\<close> is running out of it.
\<close>

subsection \<open>Destructors\<close>

definition emit_drop :: "sem_model \<Rightarrow> string \<Rightarrow> lowering \<Rightarrow> lowering" where
  "emit_drop M name s =
     (case lw_types s name of
       None \<Rightarrow> s
     | Some t \<Rightarrow>
         if \<not> is_copy t \<and> satisfies 0 M t ''Drop'' = Some True then
           (case lw_slots s name of
             None \<Rightarrow> s | Some sl \<Rightarrow> emit (instr_of OpDrop [] t [sl] [] False initial_range) s)
         else s)"

definition emit_scope_drops :: "sem_model \<Rightarrow> lowering \<Rightarrow> lowering" where
  "emit_scope_drops M s =
     (case lw_locals s of [] \<Rightarrow> s | names # _ \<Rightarrow> fold (emit_drop M) (rev names) s)"

subsection \<open>Bindings and assignments\<close>

text \<open>A new slot for a name, and the name in scope.\<close>

definition add_local :: "string \<Rightarrow> lowering \<Rightarrow> lowering" where
  "add_local name s = s\<lparr>lw_locals := (case lw_locals s of [] \<Rightarrow> [] | l # ls \<Rightarrow> (l @ [name]) # ls)\<rparr>"

definition bind_slot :: "string \<Rightarrow> ty \<Rightarrow> string \<Rightarrow> src_range \<Rightarrow> lowering \<Rightarrow> string lowered" where
  "bind_slot name t v r s =
     (case slot name s of (sl, s) \<Rightarrow>
       (sl, emit (instr_of OpStore [] t [v, sl] [] False r)
              (emit (instr_of OpAlloca sl t [] [] False r)
                (add_local name
                  (s\<lparr>lw_slots := (lw_slots s)(name \<mapsto> sl), lw_types := (lw_types s)(name \<mapsto> t)\<rparr>)))))"

definition declared_type :: "(nat \<rightharpoonup> ty) \<Rightarrow> nat \<Rightarrow> ty \<Rightarrow> lowering \<Rightarrow> ty" where
  "declared_type types i t s = (case types i of None \<Rightarrow> t | Some d \<Rightarrow> subst_type d s)"

definition lower_binding ::
  "sem_model \<Rightarrow> (nat \<rightharpoonup> ty) \<Rightarrow> nat \<Rightarrow> string \<Rightarrow> expr \<Rightarrow> src_range \<Rightarrow> lowering \<Rightarrow> lowering" where
  "lower_binding M types i name init r s =
     (case lower_expr M init s of ((v, it), s) \<Rightarrow>
       (case (declared_type types i it s, s) of (t, s) \<Rightarrow>
         (case coerce_value v it t r s of (v, s) \<Rightarrow> snd (bind_slot name t v r s))))"

definition lower_assign :: "sem_model \<Rightarrow> src_range \<Rightarrow> expr \<Rightarrow> string \<Rightarrow> expr \<Rightarrow> lowering \<Rightarrow> lowering" where
  "lower_assign M r target op value s =
     (case lower_place M target s of (addr, s) \<Rightarrow>
       (let t = expr_type M target s in
        case lower_expr M value s of ((v, vt), s) \<Rightarrow>
          (case coerce_value v vt t r s of (v, s) \<Rightarrow>
            (let atomic = place_is_atomic M target s; bop = butlast op in
             if atomic \<and> op \<noteq> ''='' then
               (if bop \<in> {''+'', ''-'', ''&'', ''|'', ''^''}
                then emit (instr_of OpAtomicRmw [] t [addr, v, rmw_order s] bop True r) s
                else report_lowering r ''E0509'' (''atomic compound assignment '' @ [CHR 0x27] @ op @ [CHR 0x27] @
                       '' is not supported; use an explicit compare/exchange loop'') s)
             else
               (case (if op = ''='' then (v, s)
                      else (case emit_value OpLoad t [addr] [] r s of (old, s) \<Rightarrow>
                        emit_value OpBinary t [old, v] bop r s)) of
                 (v, s) \<Rightarrow>
                   emit (instr_of OpStore [] t [v, addr] (if atomic then store_order s else []) atomic r) s)))))"

definition lower_return :: "sem_model \<Rightarrow> expr option \<Rightarrow> src_range \<Rightarrow> lowering \<Rightarrow> lowering" where
  "lower_return M w r s =
     (let s = emit_scope_drops M s in
      case w of
        None \<Rightarrow> emit_plain OpReturn unit_type [] [] r s
      | Some e \<Rightarrow>
          (case lower_expr M e s of ((v, t), s) \<Rightarrow>
            (let result = mf_result (lw_fn s) in
             case coerce_value v t result r s of (v, s) \<Rightarrow> emit_plain OpReturn result [v] [] r s)))"

definition jump_to :: "string \<Rightarrow> src_range \<Rightarrow> lowering \<Rightarrow> lowering" where
  "jump_to label r s = emit_plain OpJump unit_type [label] [] r s"

definition branch_to :: "string \<Rightarrow> string \<Rightarrow> string \<Rightarrow> src_range \<Rightarrow> lowering \<Rightarrow> lowering" where
  "branch_to c yes no r s = emit_plain OpCondJump (builtin_type ''bool'') [c, yes, no] [] r s"

definition jump_if_open :: "string \<Rightarrow> src_range \<Rightarrow> lowering \<Rightarrow> lowering" where
  "jump_if_open label r s = (if terminated s then s else jump_to label r s)"

definition at_block :: "nat \<Rightarrow> lowering \<Rightarrow> lowering" where
  "at_block i s = s\<lparr>lw_block := i\<rparr>"

definition leave_to :: "sem_model \<Rightarrow> (nat \<times> nat \<Rightarrow> nat) \<Rightarrow> src_range \<Rightarrow> lowering \<Rightarrow> lowering" where
  "leave_to M which r s =
     (case lw_loops s of
       [] \<Rightarrow> s
     | l # _ \<Rightarrow> (let s = emit_scope_drops M s in jump_to (block_label (which l) s) r s))"

definition push_loop :: "nat \<Rightarrow> nat \<Rightarrow> lowering \<Rightarrow> lowering" where
  "push_loop c b s = s\<lparr>lw_loops := (c, b) # lw_loops s\<rparr>"

definition pop_loop :: "lowering \<Rightarrow> lowering" where
  "pop_loop s = s\<lparr>lw_loops := tl (lw_loops s)\<rparr>"

definition open_scope :: "lowering \<Rightarrow> lowering" where
  "open_scope s = s\<lparr>lw_locals := [] # lw_locals s\<rparr>"

definition pop_scope_locals :: "lowering \<Rightarrow> lowering" where
  "pop_scope_locals s = s\<lparr>lw_locals := tl (lw_locals s)\<rparr>"

definition close_scope :: "sem_model \<Rightarrow> lowering \<Rightarrow> lowering" where
  "close_scope M s =
     pop_scope_locals (if terminated s then s else emit_scope_drops M s)"

text \<open>The head of a \<open>for\<close>: the slot of the variable, the test, and the step.\<close>

definition for_test :: "ty \<Rightarrow> string \<Rightarrow> string \<Rightarrow> bool \<Rightarrow> string \<Rightarrow> string \<Rightarrow> src_range \<Rightarrow> lowering \<Rightarrow> lowering" where
  "for_test t sl end_value inclusive body done r s =
     (case emit_value OpLoad t [sl] [] r s of (current, s) \<Rightarrow>
       (case emit_value OpCompare t [current, end_value] (if inclusive then ''<='' else ''<'') r s of (c, s) \<Rightarrow>
         branch_to c body done r s))"

definition for_step :: "ty \<Rightarrow> string \<Rightarrow> string \<Rightarrow> src_range \<Rightarrow> lowering \<Rightarrow> lowering" where
  "for_step t sl cond r s =
     (case emit_value OpLoad t [sl] [] r s of (old, s) \<Rightarrow>
       (case emit_value OpConstInt t [] ''1'' r s of (one, s) \<Rightarrow>
         (case emit_value OpBinary t [old, one] ''+'' r s of (next_value, s) \<Rightarrow>
           jump_to cond r (emit (instr_of OpStore [] t [next_value, sl] [] False r) s))))"

subsection \<open>Statements\<close>

function (sequential)
    lower_block :: "sem_model \<Rightarrow> block \<Rightarrow> lowering \<Rightarrow> lowering"
and lower_stmts :: "sem_model \<Rightarrow> stmt list \<Rightarrow> lowering \<Rightarrow> lowering"
and lower_stmt :: "sem_model \<Rightarrow> stmt \<Rightarrow> lowering \<Rightarrow> lowering" where
  "lower_block M b s = close_scope M (lower_stmts M (block_stmts b) (open_scope s))"
| "lower_stmts M [] s = s"
| "lower_stmts M (st # sts) s = (if terminated s then s else lower_stmts M sts (lower_stmt M st s))"
| "lower_stmt M (LetStmt i r name m t init) s =
     (case init of None \<Rightarrow> s | Some e \<Rightarrow> lower_binding M (sm_binding_types M) i name e r s)"
| "lower_stmt M (AssignStmt i r target op value) s =
     (case hm_assignment_bindings (sm_hir M) i of
       Some _ \<Rightarrow> lower_binding M (sm_assignment_binding_types M) i
           (case target of NameExpr _ _ name \<Rightarrow> name | _ \<Rightarrow> []) value r s
     | None \<Rightarrow> lower_assign M r target op value s)"
| "lower_stmt M (ExprStmt i r e) s = snd (lower_expr M e s)"
| "lower_stmt M (ReturnStmt i r w) s = lower_return M w r s"
| "lower_stmt M (FenceStmt i r order compiler_only) s =
     emit_plain (if compiler_only then OpCompilerFence else OpFence) unit_type [] order r s"
| "lower_stmt M (BlockStmt b) s = lower_block M b s"
| "lower_stmt M (UnsafeStmt i r b) s = lower_block M b s"
| "lower_stmt M (IfStmt i r c t e) s =
     (case lower_expr M c s of ((cv, _), s) \<Rightarrow>
       (case numbered_block ''if.then.'' s of (then_i, s) \<Rightarrow>
         (case numbered_block ''if.else.'' s of (else_i, s) \<Rightarrow>
           (case numbered_block ''if.end.'' s of (merge_i, s) \<Rightarrow>
             (case (e, at_block else_i (jump_if_open (block_label merge_i s) r
                  (lower_block M t (at_block then_i
                    (branch_to cv (block_label then_i s) (block_label else_i s) r s))))) of
               (None, s') \<Rightarrow> at_block merge_i (jump_if_open (block_label merge_i s) r s')
             | (Some b, s') \<Rightarrow> at_block merge_i (jump_if_open (block_label merge_i s) r (lower_block M b s')))))))"
| "lower_stmt M (WhileStmt i r c b) s =
     (case numbered_block ''while.cond.'' s of (cond_i, s) \<Rightarrow>
       (case numbered_block ''while.body.'' s of (body_i, s) \<Rightarrow>
         (case numbered_block ''while.end.'' s of (end_i, s) \<Rightarrow>
           (case lower_expr M c (at_block cond_i (jump_to (block_label cond_i s) r s)) of ((cv, _), s') \<Rightarrow>
             at_block end_i (jump_if_open (block_label cond_i s) r
               (pop_loop (lower_block M b (push_loop cond_i end_i
                 (at_block body_i (branch_to cv (block_label body_i s) (block_label end_i s) r s'))))))))))"
| "lower_stmt M (ForStmt i r name b e inclusive body) s =
     (case lower_expr M b s of ((begin_value, t), s) \<Rightarrow>
       (case lower_expr M e s of ((end_value, _), s) \<Rightarrow>
         (case bind_slot name t begin_value r s of (sl, s) \<Rightarrow>
           (case numbered_block ''for.cond.'' s of (cond_i, s) \<Rightarrow>
             (case numbered_block ''for.body.'' s of (body_i, s) \<Rightarrow>
               (case numbered_block ''for.step.'' s of (step_i, s) \<Rightarrow>
                 (case numbered_block ''for.end.'' s of (end_i, s) \<Rightarrow>
                   at_block end_i (for_step t sl (block_label cond_i s) r (at_block step_i
                     (jump_if_open (block_label step_i s) r (pop_loop (lower_block M body (push_loop step_i end_i
                       (at_block body_i (for_test t sl end_value inclusive (block_label body_i s) (block_label end_i s) r
                         (at_block cond_i (jump_to (block_label cond_i s) r s)))))))))))))))))"
| "lower_stmt M (LoopStmt i r b) s =
     (case numbered_block ''loop.body.'' s of (body_i, s) \<Rightarrow>
       (case numbered_block ''loop.end.'' s of (end_i, s) \<Rightarrow>
         at_block end_i (jump_if_open (block_label body_i s) r
           (pop_loop (lower_block M b (push_loop body_i end_i
             (at_block body_i (jump_to (block_label body_i s) r s))))))))"
| "lower_stmt M (BreakStmt i r) s = leave_to M snd r s"
| "lower_stmt M (ContinueStmt i r) s = leave_to M fst r s"
  by pat_completeness auto
termination
proof (relation "measure (case_sum (\<lambda>(M, b, s). size b)
    (case_sum (\<lambda>(M, sts, s). size_list size sts) (\<lambda>(M, st, s). size st)))")
  show "(Inr (Inl (M, block_stmts b, s')), Inl (M, b, s)) \<in> measure (case_sum (\<lambda>(M, b, s). size b)
    (case_sum (\<lambda>(M, sts, s). size_list size sts) (\<lambda>(M, st, s). size st)))"
    for M :: sem_model and b and s s' :: lowering
    by (cases b) simp
qed auto

subsection \<open>Functions and modules\<close>

definition empty_function :: "string \<Rightarrow> function_decl \<Rightarrow> mir_function" where
  "empty_function name d =
     \<lparr>mf_name = name, mf_source_name = fd_name d, mf_params = [], mf_result = error_type, mf_blocks = [],
      mf_is_extern = fd_is_extern d \<or> fd_body d = None, mf_is_unsafe = fd_is_unsafe d,
      mf_is_async = fd_is_async d, mf_abi = fd_abi d\<rparr>"

definition start_function :: "mir_function \<Rightarrow> (string \<rightharpoonup> ty) \<Rightarrow> lowering \<Rightarrow> lowering" where
  "start_function f sub s = s\<lparr>lw_fn := f, lw_block := 0, lw_temps := 0, lw_slot_count := 0,
     lw_slots := Map.empty, lw_types := Map.empty, lw_locals := [], lw_subst := sub, lw_loops := [],
     lw_smp := lo_smp s\<rparr>"

definition generic_names :: "function_decl \<Rightarrow> (string \<rightharpoonup> ty) \<Rightarrow> string set" where
  "generic_names d sub = set (map gp_name (fd_generics d)) \<union> (if sub ''Self'' \<noteq> None then {''Self''} else {})"

definition lowered_type :: "function_decl \<Rightarrow> (string \<rightharpoonup> ty) \<Rightarrow> type_ref \<Rightarrow> ty" where
  "lowered_type d sub tr = substitute_type (type_from_ast tr (generic_names d sub)) sub"

definition lowered_signature :: "string \<Rightarrow> function_decl \<Rightarrow> (string \<rightharpoonup> ty) \<Rightarrow> mir_function" where
  "lowered_signature name d sub = (empty_function name d)\<lparr>mf_result := lowered_type d sub (fd_return_type d),
     mf_params := map (\<lambda>p. \<lparr>mp_name = par_name p, mp_type = lowered_type d sub (par_type p)\<rparr>) (fd_params d)\<rparr>"

definition lower_param :: "src_range \<Rightarrow> mir_param \<Rightarrow> lowering \<Rightarrow> lowering" where
  "lower_param r p s =
     (case slot (mp_name p) s of (sl, s) \<Rightarrow>
       emit (instr_of OpStore [] (mp_type p) [''%arg.'' @ mp_name p, sl] [] False r)
         (emit (instr_of OpAlloca sl (mp_type p) [] [] False r) (s\<lparr>lw_slots := (lw_slots s)(mp_name p \<mapsto> sl)\<rparr>)))"

definition param_types :: "mir_param list \<Rightarrow> (string \<rightharpoonup> ty)" where
  "param_types ps = fold (\<lambda>p m. m(mp_name p \<mapsto> mp_type p)) ps Map.empty"

definition end_of_body :: "function_decl \<Rightarrow> lowering \<Rightarrow> lowering" where
  "end_of_body d s =
     (if is_unit (mf_result (lw_fn s)) then emit_plain OpReturn unit_type [] [] (fd_range d) s
      else report_lowering (fd_range d) ''E0501'' (''function '' @ [CHR 0x27] @ fd_name d @ [CHR 0x27] @
             '' may reach end without returning '' @ [CHR 0x27] @ type_str (mf_result (lw_fn s)) @ [CHR 0x27]) s)"

definition finish_function :: "sem_model \<Rightarrow> function_decl \<Rightarrow> lowering \<Rightarrow> lowering" where
  "finish_function M d s = (if terminated s then s else end_of_body d (emit_scope_drops M s))"

definition lower_body :: "sem_model \<Rightarrow> function_decl \<Rightarrow> block \<Rightarrow> lowering \<Rightarrow> lowering" where
  "lower_body M d body s =
     finish_function M d (lower_block M body
       (fold (lower_param (fd_range d)) (mf_params (lw_fn s)) (open_scope (snd (new_block ''entry'' s)))))"

definition enter_function ::
  "function_decl \<Rightarrow> string \<Rightarrow> (string \<rightharpoonup> ty) \<Rightarrow> lowering \<Rightarrow> lowering" where
  "enter_function d name sub s =
     (start_function (lowered_signature name d sub) sub (s\<lparr>lo_emitted := insert name (lo_emitted s)\<rparr>))
       \<lparr>lw_types := param_types (mf_params (lowered_signature name d sub))\<rparr>"

definition finished :: "lowering \<Rightarrow> lowering" where
  "finished s = add_function (lw_fn s) s"

definition lower_function ::
  "sem_model \<Rightarrow> function_decl \<Rightarrow> string \<Rightarrow> (string \<rightharpoonup> ty) \<Rightarrow> lowering \<Rightarrow> lowering" where
  "lower_function M d name sub s =
     (if name \<in> lo_emitted s then s
      else case fd_body d of
        None \<Rightarrow> finished (enter_function d name sub s)
      | Some body \<Rightarrow>
          if fd_is_extern d then finished (enter_function d name sub s)
          else finished (lower_body M d body (enter_function d name sub s)))"

definition global_initializer :: "global_decl \<Rightarrow> lowering \<Rightarrow> string lowered" where
  "global_initializer g s =
     (case gd_init g of
       None \<Rightarrow> (''0'', s)
     | Some (IntegerExpr _ _ v) \<Rightarrow> (v, s)
     | Some (FloatExpr _ _ v) \<Rightarrow> (v, s)
     | Some (BoolExpr _ _ v) \<Rightarrow> ((if v then ''1'' else ''0''), s)
     | Some (CharExpr _ _ v) \<Rightarrow> (nat_to_string (if v = [] then 0 else of_char (hd v)), s)
     | Some (StructLiteralExpr _ _ _ _ _) \<Rightarrow> (''zeroinitializer'', s)
     | Some _ \<Rightarrow> (''0'', report_lowering (gd_range g) ''E0508'' ''unsupported non-literal global initializer'' s))"

definition lower_global :: "global_decl \<Rightarrow> lowering \<Rightarrow> lowering" where
  "lower_global g s =
     (case global_initializer g s of (init, s) \<Rightarrow>
       s\<lparr>lo_out := (lo_out s)\<lparr>mm_globals := mm_globals (lo_out s) @
         [\<lparr>mg_name = gd_name g, mg_type = type_from_ast (gd_type g) {}, mg_init = init, mg_is_mut = gd_is_mut g,
           mg_is_shared = gd_is_shared g, mg_is_percpu = gd_is_percpu g\<rparr>]\<rparr>\<rparr>)"

definition lower_struct_item :: "item \<Rightarrow> lowering \<Rightarrow> lowering" where
  "lower_struct_item it s =
     (case it of StructItem d \<Rightarrow> s\<lparr>lo_out := (lo_out s)\<lparr>mm_structs := mm_structs (lo_out s) @ [d]\<rparr>\<rparr> | _ \<Rightarrow> s)"

definition lower_global_item :: "item \<Rightarrow> lowering \<Rightarrow> lowering" where
  "lower_global_item it s = (case it of GlobalItem g \<Rightarrow> lower_global g s | _ \<Rightarrow> s)"

definition lower_function_item :: "sem_model \<Rightarrow> item \<Rightarrow> lowering \<Rightarrow> lowering" where
  "lower_function_item M it s =
     (case it of
       FunctionItem d \<Rightarrow>
         if fd_is_extern d \<or> fd_generics d = [] then lower_function M d (fd_name d) Map.empty s else s
     | _ \<Rightarrow> s)"

definition lower_impl_item :: "sem_model \<Rightarrow> item \<Rightarrow> lowering \<Rightarrow> lowering" where
  "lower_impl_item M it s =
     (case it of
       ImplItem im \<Rightarrow>
         (let owner = type_from_ast (im_for_type im) {} in
          fold (\<lambda>d s. if fd_generics d = []
              then lower_function M d (ty_name owner @ ''__'' @ fd_name d) [''Self'' \<mapsto> owner] s else s)
            (im_methods im) s)
     | _ \<Rightarrow> s)"

fun drain_pending :: "nat \<Rightarrow> sem_model \<Rightarrow> lowering \<Rightarrow> lowering option" where
  "drain_pending 0 M s = (if lo_pending s = [] then Some s else None)"
| "drain_pending (Suc n) M s =
     (case lo_pending s of
       [] \<Rightarrow> Some s
     | sp # sps \<Rightarrow>
         (let s = s\<lparr>lo_pending := sps\<rparr> in
          drain_pending n M
            (if sp_name sp \<in> lo_emitted s then s else lower_function M (sp_decl sp) (sp_name sp) (sp_subst sp) s)))"

definition start_module :: "ast_module \<Rightarrow> diagnostics \<Rightarrow> lowering" where
  "start_module md ds =
     \<lparr>lo_diags = ds, lo_out = empty_mir, lo_pending = [], lo_emitted = {}, lo_smp = am_smp_mode md,
      lw_fn = \<lparr>mf_name = [], mf_source_name = [], mf_params = [], mf_result = error_type, mf_blocks = [],
        mf_is_extern = False, mf_is_unsafe = False, mf_is_async = False, mf_abi = ''Uinx''\<rparr>,
      lw_block = 0, lw_temps = 0, lw_slot_count = 0, lw_slots = Map.empty, lw_types = Map.empty,
      lw_locals = [], lw_subst = Map.empty, lw_loops = [], lw_smp = SmpAuto\<rparr>"

definition lower_items :: "sem_model \<Rightarrow> ast_module \<Rightarrow> diagnostics \<Rightarrow> lowering" where
  "lower_items M md ds =
     fold (lower_impl_item M) (am_items md)
       (fold (lower_function_item M) (am_items md)
         (fold lower_global_item (am_items md)
           (fold lower_struct_item (am_items md) (start_module md ds))))"

definition lower_module :: "nat \<Rightarrow> sem_model \<Rightarrow> ast_module \<Rightarrow> diagnostics \<Rightarrow> (mir_module \<times> diagnostics) option" where
  "lower_module fuel M md ds =
     map_option (\<lambda>s. (lo_out s, lo_diags s)) (drain_pending fuel M (lower_items M md ds))"

end
