(* ===== verification/MirEmit.thy ===== *)
theory MirEmit
  imports MirStmt
begin

text \<open>
  What lowering an expression may do to the state of the lowerer, as an interface: the locale
  \<open>emitter\<close> names a relation between states that every primitive of the expression lowering
  respects, and shows that the lowering of every expression and place does. Statements are built
  from the same primitives, terminators and destructor calls apart.
\<close>

definition value_op :: "mir_op \<Rightarrow> bool" where
  "value_op op \<longleftrightarrow> \<not> is_terminator op \<and> op \<noteq> OpDrop"

lemma value_ops [simp]:
  "value_op OpAlloca" "value_op OpConstInt" "value_op OpConstFloat" "value_op OpConstBool"
  "value_op OpConstChar" "value_op OpConstString" "value_op OpStructInit" "value_op OpLoad"
  "value_op OpStore" "value_op OpAtomicRmw" "value_op OpFence" "value_op OpCompilerFence"
  "value_op OpFieldAddr" "value_op OpIndexAddr" "value_op OpBinary" "value_op OpCompare"
  "value_op OpCall" "value_op OpCast" "value_op OpAddressOf" "value_op OpAwait" "value_op OpInlineAsm"
  by (simp_all add: value_op_def is_terminator_def)

lemma in_op_asm_instr [simp]: "in_op (asm_instr text mos volatile r) = OpInlineAsm"
  by (simp add: asm_instr_def)

lemma size_member: "x \<in> set xs \<Longrightarrow> size x \<le> size_list size xs"
  by (rule size_list_estimation' [OF _ order_refl])

locale emitter =
  fixes R :: "lowering \<Rightarrow> lowering \<Rightarrow> bool"
  assumes refl [simp, intro]: "R s s"
    and trans: "R s s1 \<Longrightarrow> R s1 s2 \<Longrightarrow> R s s2"
    and count: "R s (s\<lparr>lw_temps := n\<rparr>)"
    and emits: "value_op (in_op i) \<Longrightarrow> R s (emit i s)"
    and reports: "R s (report_lowering r c m s)"
    and interns: "R s (snd (intern_string v s))"
    and declares: "R s (declare_runtime_function f t ps s)"
    and queues: "R s (s\<lparr>lo_pending := sps\<rparr>)"
    and retypes: "R s (s\<lparr>lw_types := types\<rparr>)"
begin

lemma step_temp: "R z s \<Longrightarrow> R z (snd (temp s))"
  using trans count by (fastforce simp: temp_def)

lemma step_emit: "value_op (in_op i) \<Longrightarrow> R z s \<Longrightarrow> R z (emit i s)"
  using trans emits by blast

lemma step_report: "R z s \<Longrightarrow> R z (report_lowering r c m s)"
  using trans reports by blast

lemma step_intern: "R z s \<Longrightarrow> R z (snd (intern_string v s))"
  using trans interns by blast

lemma step_declare: "R z s \<Longrightarrow> R z (declare_runtime_function f t ps s)"
  using trans declares by blast

lemmas primitive_steps = step_temp step_emit step_report step_intern step_declare

lemma step_value: "value_op op \<Longrightarrow> R z s \<Longrightarrow> R z (snd (emit_value op t args text r s))"
  by (simp add: emit_value_def split_beta primitive_steps)

lemma step_address: "value_op op \<Longrightarrow> R z s \<Longrightarrow> R z (snd (emit_address op t args text aux r s))"
  by (simp add: emit_address_def split_beta primitive_steps)

lemma step_load: "R z s \<Longrightarrow> R z (snd (emit_load t addr atomic r s))"
  by (simp add: emit_load_def split_beta primitive_steps)

lemma step_coerce: "R z s \<Longrightarrow> R z (snd (coerce_value v from to r s))"
  by (simp add: coerce_value_def step_value)

lemma step_cast: "R z s \<Longrightarrow> R z (snd (cast_value v from to r s))"
  by (simp add: cast_value_def step_value)

lemma step_cast_operand: "R z s \<Longrightarrow> R z (snd (cast_operand v from to r s))"
  by (simp add: cast_operand_def step_value)

lemma step_runtime: "R z s \<Longrightarrow> R z (snd (runtime_call name result ptys args r s))"
  by (simp add: runtime_call_def Let_def primitive_steps step_value)

lemmas value_steps = primitive_steps step_value step_address step_load step_coerce step_cast step_cast_operand
  step_runtime

lemma step_print: "R z s \<Longrightarrow> R z (print_value fd v t r s)"
  by (simp add: print_value_def Let_def split_beta value_steps)

lemma step_number: "R z s \<Longrightarrow> R z (snd (lower_number name v t r s))"
  by (simp add: lower_number_def Let_def split_beta value_steps)

lemma step_bool: "R z s \<Longrightarrow> R z (snd (lower_bool v t r s))"
  by (simp add: lower_bool_def Let_def split_beta value_steps)

lemma step_str: "lower_str v t r s = Some x \<Longrightarrow> R z s \<Longrightarrow> R z (snd x)"
  by (auto simp: lower_str_def Let_def split_beta value_steps split: if_splits)

lemma step_conversion: "R z s \<Longrightarrow> R z (snd (lower_conversion name result v t r s))"
  by (simp add: lower_conversion_def unsupported_builtin_def split_beta value_steps step_number step_bool step_str
      split: option.split)

lemma step_name: "R z s \<Longrightarrow> R z (snd (name_address M name r s))"
  by (auto simp: name_address_def value_steps split: option.split)

lemma step_field: "R z s \<Longrightarrow> R z (snd (field_address M base bt ft member r s))"
  by (auto simp: field_address_def Let_def value_steps split: option.split)

lemma step_slice: "R z s \<Longrightarrow> R z (snd (slice_parts c ct r s))"
  by (simp add: slice_parts_def Let_def split_beta value_steps)

lemma step_operator: "R z s \<Longrightarrow> R z (snd (lower_operator op v from t r s))"
  by (simp add: lower_operator_def Let_def split_beta value_steps)

lemma step_binary: "R z s \<Longrightarrow> R z (snd (lower_binary op left lr right rr t r s))"
  by (simp add: lower_binary_def Let_def split_beta value_steps)

lemma step_call: "R z s \<Longrightarrow> R z (snd (emit_call callee args t r s))"
  by (simp add: emit_call_def split_beta value_steps)

lemma step_specialize: "R z s \<Longrightarrow> R z (snd (specialize_call M gargs args sig s))"
  by (auto simp: specialize_call_def Let_def split: option.split intro: trans queues)

lemma step_asm_output: "R z s \<Longrightarrow> R z (snd (asm_output p a s))"
  by (auto simp: asm_output_def split: option.split intro: trans retypes)

lemmas expression_steps = value_steps step_print step_conversion step_name step_field step_slice step_operator
  step_binary step_call step_specialize step_asm_output

definition lowers :: "sem_model \<Rightarrow> expr \<Rightarrow> bool" where
  "lowers M e \<longleftrightarrow> (\<forall>z s. R z s \<longrightarrow> R z (snd (lower_expr M e s)) \<and> R z (snd (lower_place M e s)))"

lemma lowersD:
  assumes "lowers M e" "R z s"
  shows "R z (snd (lower_expr M e s))" "R z (snd (lower_place M e s))"
  using assms by (auto simp: lowers_def)

lemma step_args: "list_all (lowers M) as \<Longrightarrow> R z s \<Longrightarrow> R z (snd (lower_args M as i expected s))"
  by (induction as arbitrary: i s)
    (auto simp: split_beta lowersD expression_steps split: option.split)

lemma step_fields:
  "(\<And>n e. field_value n fs = Some e \<Longrightarrow> lowers M e) \<Longrightarrow> R z s \<Longrightarrow> R z (snd (lower_fields M fs ds si t s))"
  by (induction ds arbitrary: s)
    (auto simp: split_beta lowersD expression_steps split: option.split)

lemma step_operands:
  "list_all (\<lambda>p. case ao_value p of None \<Rightarrow> True | Some e \<Rightarrow> lowers M e) ps \<Longrightarrow> R z s \<Longrightarrow> R z (snd (lower_operands M ps s))"
  by (induction ps arbitrary: s)
    (auto simp: split_beta Let_def lowersD expression_steps split: option.split)

lemma step_prints: "list_all (lowers M) as \<Longrightarrow> R z s \<Longrightarrow> R z (lower_prints M as first fd r s)"
  by (induction as arbitrary: first s) (auto simp: split_beta Let_def lowersD expression_steps)

lemma step_builtin: "list_all (lowers M) as \<Longrightarrow> R z s \<Longrightarrow> R z (snd (lower_builtin M name as result r s))"
  by (auto simp: lower_builtin.simps unsupported_builtin_def split_beta Let_def lowersD expression_steps step_prints
      split: list.split)

lemmas nested_steps = expression_steps lowersD step_args step_fields step_operands step_builtin

lemma lowers_all: "lowers M e"
proof (induction "size e" arbitrary: e rule: less_induct)
  case less
  have smaller: "lowers M a" if "size a < size e" for a
    using less that by blast
  have list: "list_all (lowers M) as" if "size_list size as < size e" for as
    unfolding list_all_iff using that
    by (auto intro!: smaller intro: le_less_trans [OF size_member])
  have operands: "list_all (\<lambda>p. case ao_value p of None \<Rightarrow> True | Some a \<Rightarrow> lowers M a) ps"
    if "size_list size ps < size e" for ps
    unfolding list_all_iff using that
    by (auto intro!: smaller split: option.split
        intro: less_trans [OF less_le_trans [OF size_ao_value size_member]])
  have fields: "R z (snd (lower_fields M fs ds si t s))" if "size_list size fs < size e" "R z s" for z fs ds si t s
    using that(2) by (rule step_fields [rotated]) (use that(1) smaller field_value_size in fastforce)
  have place: "R z (snd (lower_place M e s))" if "R z s" for z s
    unfolding lower_place.simps [of M e s] using that smaller
    by (cases e) (simp_all add: split_beta Let_def nested_steps split: option.split bool.split)
  have expr: "R z (snd (lower_expr M e s))" if "R z s" for z s
    unfolding lower_expr.simps [of M e s] using that smaller list operands fields place
    by (cases e) (simp_all add: split_beta Let_def nested_steps split: option.split expr.split)
  show ?case
    unfolding lowers_def using place expr by blast
qed

end

end
