(* ===== verification/MirWf.thy ===== *)
theory MirWf
  imports MirEmit
begin

text \<open>
  Every function the lowering produces is a well-formed control flow graph: labels are distinct,
  control is transferred at the end of a block only and to blocks that exist, and when no error was
  reported every block ends by transferring control. The proof follows the set of blocks that are
  still open besides the current one.
\<close>

subsection \<open>Well-formed states\<close>

definition labels :: "lowering \<Rightarrow> string list" where
  "labels s = map bb_label (lw_blocks s)"

definition targets_ok :: "string set \<Rightarrow> instr \<Rightarrow> bool" where
  "targets_ok L i \<longleftrightarrow> in_op i \<noteq> OpDrop \<and>
     (in_op i = OpJump \<longrightarrow> length (in_args i) = 1) \<and> (in_op i = OpCondJump \<longrightarrow> length (in_args i) = 3) \<and>
     set (jump_targets i) \<subseteq> L"

definition block_ok :: "string set \<Rightarrow> basic_block \<Rightarrow> bool" where
  "block_ok L b \<longleftrightarrow> list_all (targets_ok L) (bb_instrs b) \<and>
     list_all (\<lambda>i. \<not> is_terminator (in_op i)) (butlast (bb_instrs b)) \<and>
     (bb_terminated b \<longleftrightarrow> bb_instrs b \<noteq> [] \<and> is_terminator (in_op (last (bb_instrs b))))"

text \<open>A label is \<open>entry\<close> or ends in its number.\<close>

definition label_numbered :: "nat \<Rightarrow> string \<Rightarrow> bool" where
  "label_numbered i l \<longleftrightarrow> (if i = 0 then l = ''entry'' else (\<exists>h. l = h @ CHR ''.'' # nat_to_string i))"

definition wf :: "lowering \<Rightarrow> bool" where
  "wf s \<longleftrightarrow> lw_block s < length (lw_blocks s) \<and>
     (\<forall>i < length (labels s). label_numbered i (labels s ! i)) \<and>
     (\<forall>b \<in> set (lw_blocks s). block_ok (set (labels s)) b) \<and>
     (\<forall>(c, e) \<in> set (lw_loops s). c < length (lw_blocks s) \<and> e < length (lw_blocks s))"

definition opens :: "lowering \<Rightarrow> nat set" where
  "opens s = {i. i < length (lw_blocks s) \<and> i \<noteq> lw_block s \<and> \<not> bb_terminated (lw_blocks s ! i)}"

definition new_functions :: "lowering \<Rightarrow> lowering \<Rightarrow> bool" where
  "new_functions z s \<longleftrightarrow> (\<forall>f \<in> set (mm_functions (lo_out s)). f \<in> set (mm_functions (lo_out z)) \<or>
     mf_is_extern f \<and> mf_blocks f = [])"

text \<open>
  From the state \<open>z\<close> the lowering went on to \<open>s\<close>: it is well formed, kept the labels and the loops,
  and the blocks left open are those open before and the ones in \<open>P\<close>.
\<close>

definition goes_on :: "lowering \<Rightarrow> nat set \<Rightarrow> (nat \<times> nat) list \<Rightarrow> lowering \<Rightarrow> bool" where
  "goes_on z P loops s \<longleftrightarrow> wf s \<and> prefix (labels z) (labels s) \<and> lw_loops s = loops \<and>
     diag_le (lo_diags z) (lo_diags s) \<and> new_functions z s \<and> opens s \<subseteq> opens z \<union> P"

lemma numbers_distinct:
  assumes "\<And>i. i < length ls \<Longrightarrow> label_numbered i (ls ! i)"
  shows "distinct ls"
proof -
  have no_dot: "CHR ''.'' \<notin> set (nat_to_string n)" for n
    by (auto dest!: nat_to_string_digits simp: char_isdigit_def)
  have tail: "takeWhile (\<lambda>c. c \<noteq> CHR ''.'') (rev (h @ CHR ''.'' # nat_to_string n)) = rev (nat_to_string n)" for h n
    using no_dot by (subst rev_append) (auto simp: takeWhile_append)
  have "ls ! i \<noteq> ls ! j" if ij: "i < j" "j < length ls" for i j
  proof (cases "i = 0")
    case True
    then have "ls ! i = ''entry''" "CHR ''.'' \<in> set (ls ! j)"
      using assms [OF less_trans [OF ij]] assms [OF ij(2)] ij(1) by (auto simp: label_numbered_def)
    then have "CHR ''.'' \<notin> set (ls ! i)" "CHR ''.'' \<in> set (ls ! j)"
      by simp_all
    then show ?thesis
      by metis
  next
    case False
    then obtain h k where "ls ! i = h @ CHR ''.'' # nat_to_string i" "ls ! j = k @ CHR ''.'' # nat_to_string j"
      using assms [OF less_trans [OF ij]] assms [OF ij(2)] ij(1) by (auto simp: label_numbered_def)
    then show ?thesis
      using ij tail nat_to_string_inject by (metis nat_neq_iff rev_rev_ident)
  qed
  then show ?thesis
    by (auto simp: distinct_conv_nth) (metis nat_neq_iff)
qed

subsection \<open>The primitives\<close>

lemma lw_blocks_set_blocks [simp]: "lw_blocks (set_blocks bs s) = bs"
  by (simp add: lw_blocks_def set_blocks_def)

lemma lw_blocks_frame [simp]:
  "lw_blocks (s\<lparr>lo_diags := d\<rparr>) = lw_blocks s" "lw_blocks (s\<lparr>lo_out := m\<rparr>) = lw_blocks s"
  "lw_blocks (s\<lparr>lo_pending := sps\<rparr>) = lw_blocks s" "lw_blocks (s\<lparr>lw_temps := n\<rparr>) = lw_blocks s"
  "lw_blocks (s\<lparr>lw_slot_count := n\<rparr>) = lw_blocks s" "lw_blocks (s\<lparr>lw_slots := sl\<rparr>) = lw_blocks s"
  "lw_blocks (s\<lparr>lw_types := ts\<rparr>) = lw_blocks s" "lw_blocks (s\<lparr>lw_locals := ls\<rparr>) = lw_blocks s"
  "lw_blocks (s\<lparr>lw_loops := lps\<rparr>) = lw_blocks s" "lw_blocks (s\<lparr>lw_block := k\<rparr>) = lw_blocks s"
  by (simp_all add: lw_blocks_def)

lemma set_blocks_frame [simp]:
  "lw_block (set_blocks bs s) = lw_block s" "lw_loops (set_blocks bs s) = lw_loops s"
  "lo_diags (set_blocks bs s) = lo_diags s" "lo_out (set_blocks bs s) = lo_out s"
  by (simp_all add: set_blocks_def)

lemma add_instr_simps [simp]:
  "bb_label (add_instr i b) = bb_label b" "bb_instrs (add_instr i b) = bb_instrs b @ [i]"
  "bb_terminated (add_instr i b) \<longleftrightarrow> bb_terminated b \<or> is_terminator (in_op i)"
  by (simp_all add: add_instr_def)

lemma block_ok_mono: "block_ok L b \<Longrightarrow> L \<subseteq> K \<Longrightarrow> block_ok K b"
  by (auto simp: block_ok_def targets_ok_def list_all_iff)

lemma block_ok_add:
  "block_ok L b \<Longrightarrow> \<not> bb_terminated b \<Longrightarrow> targets_ok L i \<Longrightarrow> block_ok L (add_instr i b)"
  by (cases "bb_instrs b" rule: rev_cases) (auto simp: block_ok_def butlast_append)

lemma diag_le_warning [simp]: "diag_le ds (diag_warning r c m ds)"
  by (simp add: diag_le_def diag_warning_def report_level_def report_def)

lemma new_functions_refl [simp]: "new_functions s s"
  by (simp add: new_functions_def)

lemma labels_update: "k < length (lw_blocks s) \<Longrightarrow>
    labels (set_blocks ((lw_blocks s)[k := add_instr i (lw_blocks s ! k)]) s) = labels s"
  by (simp add: labels_def map_update list_update_same_conv)

lemma emit_frame [simp]:
  "lw_block (emit i s) = lw_block s" "lw_loops (emit i s) = lw_loops s" "lo_out (emit i s) = lo_out s"
  "length (lw_blocks (emit i s)) = length (lw_blocks s)" "diag_le (lo_diags s) (lo_diags (emit i s))"
  by (simp_all add: emit_def)

lemma labels_emit [simp]: "lw_block s < length (lw_blocks s) \<Longrightarrow> labels (emit i s) = labels s"
  by (simp add: emit_def labels_update) (simp add: labels_def)

lemma terminated_emit:
  "lw_block s < length (lw_blocks s) \<Longrightarrow> terminated (emit i s) \<longleftrightarrow> terminated s \<or> is_terminator (in_op i)"
  by (auto simp: emit_def terminated_def)

lemma opens_emit [simp]: "lw_block s < length (lw_blocks s) \<Longrightarrow> opens (emit i s) = opens s"
  by (auto simp: emit_def opens_def nth_list_update)

lemma wf_emit:
  assumes "wf s" "targets_ok (set (labels s)) i"
  shows "wf (emit i s)"
proof (cases "terminated s")
  case True
  then show ?thesis
    using assms(1) by (simp add: emit_def wf_def labels_def)
next
  case False
  have cur: "lw_block s < length (lw_blocks s)"
    using assms(1) by (simp add: wf_def)
  then have "block_ok (set (labels s)) (add_instr i (lw_blocks s ! lw_block s))"
    using assms False by (intro block_ok_add) (auto simp: wf_def terminated_def)
  then have "\<forall>b \<in> set (lw_blocks (emit i s)). block_ok (set (labels s)) b"
    using assms(1) False by (auto simp: emit_def wf_def dest!: set_update_subset_insert [THEN subsetD])
  then show ?thesis
    using assms(1) labels_emit [OF cur] cur by (simp add: wf_def)
qed

lemma wf_current: "wf s \<Longrightarrow> lw_block s < length (lw_blocks s)"
  by (simp add: wf_def)

lemma goes_on_refl [intro]: "wf s \<Longrightarrow> goes_on s {} (lw_loops s) s"
  by (simp add: goes_on_def)

lemma goes_on_emit:
  assumes "goes_on z P l s" "targets_ok (set (labels s)) i"
  shows "goes_on z P l (emit i s)"
  using assms wf_current [of s] wf_emit [of s i] unfolding goes_on_def new_functions_def
  by (auto intro: diag_le_trans)

text \<open>What lowering an expression does.\<close>

definition within_block :: "lowering \<Rightarrow> lowering \<Rightarrow> bool" where
  "within_block z s \<longleftrightarrow> (wf z \<longrightarrow> goes_on z {} (lw_loops z) s \<and> lw_block s = lw_block z \<and>
     labels s = labels z \<and> (terminated s \<longleftrightarrow> terminated z))"

lemma new_functions_trans: "new_functions a b \<Longrightarrow> new_functions b c \<Longrightarrow> new_functions a c"
  by (fastforce simp: new_functions_def)

lemma goes_on_trans:
  "goes_on z P l s \<Longrightarrow> goes_on s Q k t \<Longrightarrow> goes_on z (P \<union> Q) k t"
  unfolding goes_on_def by (auto intro: diag_le_trans new_functions_trans prefix_order.trans)

lemma within_block_frame:
  assumes "lw_blocks s = lw_blocks z" "lw_block s = lw_block z" "lw_loops s = lw_loops z"
    "diag_le (lo_diags z) (lo_diags s)" "new_functions z s"
  shows "within_block z s"
proof -
  have "labels s = labels z" "opens s = opens z" "terminated s \<longleftrightarrow> terminated z" "wf s \<longleftrightarrow> wf z"
    using assms by (simp_all add: labels_def opens_def terminated_def wf_def)
  then show ?thesis
    using assms by (simp add: within_block_def goes_on_def)
qed

interpretation lw: emitter within_block
proof
  show "within_block s s" for s
    by (rule within_block_frame) simp_all
  show "within_block s u" if "within_block s t" "within_block t u" for s t u
  proof (cases "wf s")
    case True
    then have "goes_on s {} (lw_loops s) t"
      using that by (simp add: within_block_def)
    moreover from this have "wf t" "lw_loops t = lw_loops s"
      by (simp_all add: goes_on_def)
    ultimately show ?thesis
      using that goes_on_trans [of s "{}" _ t "{}"] by (auto simp: within_block_def)
  qed (simp add: within_block_def)
  show "within_block s (emit i s)" if "value_op (in_op i)" for i s
  proof -
    have "targets_ok L i" for L
      using that by (cases "in_op i") (auto simp: targets_ok_def value_op_def is_terminator_def jump_targets_def)
    then show ?thesis
      using that goes_on_emit [OF goes_on_refl, of s i]
      by (auto simp: within_block_def terminated_emit wf_current value_op_def)
  qed
  show "within_block s (s\<lparr>lw_temps := n\<rparr>)" "within_block s (s\<lparr>lo_pending := sps\<rparr>)"
    "within_block s (s\<lparr>lw_types := types\<rparr>)" "within_block s (report_lowering r c m s)" for s n sps types r c m
    by (rule within_block_frame; simp add: report_lowering_def new_functions_def)+
  show "within_block s (snd (intern_string v s))" for v s
    by (rule within_block_frame) (auto simp: intern_string_def Let_def new_functions_def split: option.split)
  show "within_block s (declare_runtime_function f t ps s)" for f t ps s
    by (rule within_block_frame)
      (auto simp: declare_runtime_function_def add_function_def new_functions_def)
qed

lemma expr_within: "within_block z s \<Longrightarrow> within_block z (snd (lower_expr M e s))"
  by (rule lw.lowersD(1) [OF lw.lowers_all])

lemma place_within: "within_block z s \<Longrightarrow> within_block z (snd (lower_place M e s))"
  by (rule lw.lowersD(2) [OF lw.lowers_all])

lemma goes_on_within:
  assumes "goes_on z P l s" "within_block s t"
  shows "goes_on z P l t"
proof -
  have "wf s" "lw_loops s = l"
    using assms(1) by (auto simp: goes_on_def)
  then show ?thesis
    using goes_on_trans [OF assms(1), of "{}" l t] assms(2) by (simp add: within_block_def)
qed

subsection \<open>Blocks and jumps\<close>

lemma labels_frame [simp]:
  "labels (s\<lparr>lw_block := k\<rparr>) = labels s" "labels (s\<lparr>lw_loops := lps\<rparr>) = labels s"
  "labels (s\<lparr>lw_locals := ls\<rparr>) = labels s"
  by (simp_all add: labels_def)

lemma length_labels [simp]: "length (labels s) = length (lw_blocks s)"
  by (simp add: labels_def)

lemma prefix_labels:
  assumes "prefix (labels s) (labels t)"
  shows "k < length (lw_blocks s) \<Longrightarrow> k < length (lw_blocks t)"
    and "k < length (lw_blocks s) \<Longrightarrow> block_label k s \<in> set (labels t)"
proof -
  show "k < length (lw_blocks t)" if "k < length (lw_blocks s)"
    using that prefix_length_le [OF assms] by simp
  show "block_label k s \<in> set (labels t)" if "k < length (lw_blocks s)"
    using that set_mono_prefix [OF assms] by (force simp: block_label_def labels_def)
qed

lemma goes_onD:
  assumes "goes_on z P l s"
  shows "wf s" "prefix (labels z) (labels s)" "lw_loops s = l"
  using assms by (simp_all add: goes_on_def)

lemma goes_on_weaken: "goes_on z P l s \<Longrightarrow> P \<subseteq> Q \<Longrightarrow> goes_on z Q l s"
  by (auto simp: goes_on_def)

lemma goes_on_step: "goes_on z P l s \<Longrightarrow> goes_on s {} (lw_loops s) t \<Longrightarrow> goes_on z P l t"
  using goes_on_trans [of z P l s "{}" l t] by (auto dest: goes_onD)

lemma numbered_block_goes:
  assumes "wf s" "numbered_block h s = (k, t)" "h = g @ ''.''"
  shows "goes_on s {k} (lw_loops s) t" "k < length (lw_blocks t)" "lw_block t = lw_block s"
    "terminated t = terminated s" "k \<noteq> lw_block s"
proof -
  let ?b = "\<lparr>bb_label = h @ nat_to_string (length (lw_blocks s)), bb_instrs = [], bb_terminated = False\<rparr>"
  have t: "k = length (lw_blocks s)" "t = set_blocks (lw_blocks s @ [?b]) s"
    using assms(2) by (auto simp: numbered_block_def new_block_def)
  have cur: "lw_block s < length (lw_blocks s)"
    by (rule wf_current [OF assms(1)])
  have lt: "labels t = labels s @ [bb_label ?b]"
    by (simp add: t labels_def)
  have bt: "lw_blocks t = lw_blocks s @ [?b]" "lw_loops t = lw_loops s" "lw_block t = lw_block s"
    "lo_diags t = lo_diags s" "lo_out t = lo_out s"
    by (simp_all add: t)
  have "label_numbered i (labels t ! i)" if "i < length (labels t)" for i
    using that assms(1) cur by (cases "i = length (lw_blocks s)") (auto simp: lt wf_def nth_append label_numbered_def assms(3))
  moreover have "block_ok (set (labels t)) b" if "b \<in> set (lw_blocks t)" for b
    using that assms(1) by (auto simp: bt lt wf_def block_ok_def [of _ ?b] intro: block_ok_mono)
  ultimately have "wf t"
    using assms(1) cur unfolding wf_def by (fastforce simp: bt)
  then show "goes_on s {k} (lw_loops s) t"
    using cur by (auto simp: goes_on_def lt bt t(1) new_functions_def opens_def nth_append split: if_splits)
  show "k < length (lw_blocks t)" "lw_block t = lw_block s" "k \<noteq> lw_block s"
    using cur by (simp_all add: t)
  show "terminated t = terminated s"
    using cur by (simp add: t terminated_def nth_append)
qed

lemma goes_on_block:
  assumes "goes_on z P l s" "numbered_block h s = (k, t)" "h = g @ ''.''"
  shows "goes_on z (insert k P) l t"
  using goes_on_trans [OF assms(1) numbered_block_goes(1) [OF goes_onD(1) [OF assms(1)] assms(2,3)]]
    goes_onD(3) [OF assms(1)] by simp

lemma jump_goes:
  assumes "wf s" "lbl \<in> set (labels s)"
  shows "goes_on s {} (lw_loops s) (jump_to lbl r s)" "terminated (jump_to lbl r s)"
    "labels (jump_to lbl r s) = labels s"
  using goes_on_emit [OF goes_on_refl [OF assms(1)]] assms wf_current [OF assms(1)]
  by (simp_all add: jump_to_def emit_plain_def targets_ok_def jump_targets_def terminated_emit is_terminator_def)

lemma branch_goes:
  assumes "wf s" "yes \<in> set (labels s)" "no \<in> set (labels s)"
  shows "goes_on s {} (lw_loops s) (branch_to c yes no r s)" "terminated (branch_to c yes no r s)"
    "labels (branch_to c yes no r s) = labels s"
  using goes_on_emit [OF goes_on_refl [OF assms(1)]] assms wf_current [OF assms(1)]
  by (simp_all add: branch_to_def emit_plain_def targets_ok_def jump_targets_def terminated_emit is_terminator_def)

lemma jump_if_open_goes:
  assumes "wf s" "lbl \<in> set (labels s)"
  shows "goes_on s {} (lw_loops s) (jump_if_open lbl r s)" "terminated (jump_if_open lbl r s)"
    "labels (jump_if_open lbl r s) = labels s"
  using jump_goes [OF assms] goes_on_refl [OF assms(1)] by (simp_all add: jump_if_open_def)

lemma at_block_goes:
  assumes "goes_on z P l s" "terminated s" "k < length (lw_blocks s)" "P \<subseteq> insert k Q" "k \<notin> opens z"
  shows "goes_on z Q l (at_block k s)"
proof -
  have "opens (at_block k s) \<subseteq> opens s - {k}"
    using assms(2) by (auto simp: opens_def at_block_def terminated_def)
  moreover have "wf (at_block k s)"
    using goes_onD(1) [OF assms(1)] assms(3) by (simp add: wf_def at_block_def)
  ultimately show ?thesis
    using assms(1,4,5) unfolding goes_on_def by (auto simp: at_block_def new_functions_def)
qed

text \<open>A body run in a block of its own that then jumps on.\<close>

lemma body_goes:
  assumes "goes_on z P l s" "terminated s" "k < length (lw_blocks s)" "P \<subseteq> insert k Q" "k \<notin> opens z"
    and "lbl \<in> set (labels s)"
    and body: "\<And>t. wf t \<Longrightarrow> prefix (labels s) (labels t) \<Longrightarrow> goes_on t {} (lw_loops t) (f t)"
  shows "goes_on z Q l (jump_if_open lbl r (f (at_block k s)))" (is "goes_on _ _ _ ?t")
    and "terminated (jump_if_open lbl r (f (at_block k s)))"
    and "prefix (labels s) (labels (jump_if_open lbl r (f (at_block k s))))"
proof -
  have at: "goes_on z Q l (at_block k s)"
    by (rule at_block_goes [OF assms(1-5)])
  have "labels (at_block k s) = labels s"
    by (simp add: at_block_def)
  then have f: "goes_on (at_block k s) {} (lw_loops (at_block k s)) (f (at_block k s))"
    using body [OF goes_onD(1) [OF at]] by simp
  have pre: "prefix (labels s) (labels (f (at_block k s)))"
    using goes_onD(2) [OF f] \<open>labels (at_block k s) = labels s\<close> by simp
  then have lbl: "lbl \<in> set (labels (f (at_block k s)))"
    using assms(6) set_mono_prefix by blast
  note jump = jump_if_open_goes [OF goes_onD(1) [OF f] lbl]
  show "goes_on z Q l ?t"
    by (rule goes_on_step [OF goes_on_step [OF at f] jump(1)])
  show "terminated ?t" "prefix (labels s) (labels ?t)"
    using jump(2,3) pre by simp_all
qed

subsection \<open>Statements\<close>

lemma no_drops [simp]: "emit_scope_drops M s = s"
proof -
  have "emit_drop M n = id" for n
    by (auto simp: emit_drop_def satisfies_def satisfies_bounds_def fun_eq_iff split: option.split)
  then have "fold (emit_drop M) ns s = s" for ns
    by (induction ns) simp_all
  then show ?thesis
    by (simp add: emit_scope_drops_def split: list.split)
qed

lemma bind_within:
  assumes "within_block z s"
  shows "within_block z (snd (bind_slot name t v r s))"
proof -
  have "within_block s (add_local name (s\<lparr>lw_slot_count := n, lw_slots := m, lw_types := ts\<rparr>))" for n m ts
    by (rule within_block_frame) (simp_all add: add_local_def new_functions_def)
  then have "within_block z (add_local name (s\<lparr>lw_slot_count := n, lw_slots := m, lw_types := ts\<rparr>))" for n m ts
    using lw.trans [OF assms] by blast
  then show ?thesis
    by (simp add: bind_slot_def slot_def lw.step_emit)
qed

lemma lower_binding_within: "within_block s (lower_binding M types i name e r s)"
  by (simp add: lower_binding_def split_beta Let_def bind_within lw.expression_steps expr_within)

lemma lower_assign_within: "within_block s (lower_assign M r target op value s)"
  by (simp add: lower_assign_def split_beta Let_def lw.expression_steps expr_within place_within)

lemma within_goes_on: "wf s \<Longrightarrow> within_block s t \<Longrightarrow> goes_on s {} (lw_loops s) t"
  by (simp add: within_block_def)

lemma expr_goes:
  assumes "goes_on z P l s" "lower_expr M e s = (x, t)"
  shows "goes_on z P l t" "prefix (labels s) (labels t)"
proof -
  have "within_block s t"
    using expr_within [OF lw.refl, of s M e] assms(2) by simp
  then show "goes_on z P l t" "prefix (labels s) (labels t)"
    using goes_on_within [OF assms(1)] goes_onD [OF assms(1)] by (auto simp: within_block_def)
qed

lemma lower_return_goes:
  assumes "wf s"
  shows "goes_on s {} (lw_loops s) (lower_return M w r s)"
proof -
  have ret: "goes_on s {} (lw_loops s) (emit_plain OpReturn t args [] r u)" if "within_block s u" for t args u
    using goes_on_emit [OF within_goes_on [OF assms that]]
    by (simp add: emit_plain_def targets_ok_def jump_targets_def)
  show ?thesis
    by (auto simp: lower_return_def Let_def split_beta split: option.split
        intro!: ret lw.step_coerce expr_within)
qed

lemma leave_goes:
  assumes "wf s" "which = fst \<or> which = snd"
  shows "goes_on s {} (lw_loops s) (leave_to M which r s)"
proof (cases "lw_loops s")
  case (Cons l ls)
  then have "which l < length (lw_blocks s)"
    using assms by (cases l) (auto simp: wf_def)
  then have "block_label (which l) s \<in> set (labels s)"
    by (simp add: block_label_def labels_def)
  then show ?thesis
    using jump_goes [OF assms(1)] by (simp add: leave_to_def Cons)
qed (use goes_on_refl [OF assms(1)] in \<open>simp add: leave_to_def\<close>)

lemma with_loop:
  assumes "\<And>t. wf t \<Longrightarrow> goes_on t {} (lw_loops t) (f t)" "wf t" "c < length (lw_blocks t)" "e < length (lw_blocks t)"
  shows "goes_on t {} (lw_loops t) (pop_loop (f (push_loop c e t)))"
proof -
  let ?t = "push_loop c e t"
  have t: "wf ?t" "labels ?t = labels t" "lw_loops ?t = (c, e) # lw_loops t" "lo_diags ?t = lo_diags t"
    "lo_out ?t = lo_out t" "opens ?t = opens t"
    using assms(2-4) by (simp_all add: push_loop_def wf_def opens_def)
  have "goes_on ?t {} (lw_loops ?t) (f ?t)"
    by (rule assms(1) [OF t(1)])
  then show ?thesis
    unfolding goes_on_def new_functions_def t
    by (auto simp: pop_loop_def wf_def opens_def)
qed

lemma scope_goes:
  assumes "\<And>t. wf t \<Longrightarrow> goes_on t {} (lw_loops t) (f t)" "wf t"
  shows "goes_on t {} (lw_loops t) (close_scope M (f (open_scope t)))"
proof -
  let ?t = "open_scope t"
  have t: "wf ?t" "labels ?t = labels t" "lw_loops ?t = lw_loops t" "lo_diags ?t = lo_diags t"
    "lo_out ?t = lo_out t" "opens ?t = opens t"
    using assms(2) by (simp_all add: open_scope_def wf_def opens_def)
  have "goes_on ?t {} (lw_loops ?t) (f ?t)"
    by (rule assms(1) [OF t(1)])
  then show ?thesis
    unfolding goes_on_def new_functions_def t
    by (auto simp: close_scope_def pop_scope_locals_def wf_def opens_def)
qed

definition goes :: "(lowering \<Rightarrow> lowering) \<Rightarrow> bool" where
  "goes f \<longleftrightarrow> (\<forall>s. wf s \<longrightarrow> goes_on s {} (lw_loops s) (f s))"

lemma goesD: "goes f \<Longrightarrow> wf s \<Longrightarrow> goes_on s {} (lw_loops s) (f s)"
  by (simp add: goes_def)

lemma not_open_new: "numbered_block h s = (k, t) \<Longrightarrow> k \<notin> opens s"
  by (auto simp: numbered_block_def new_block_def opens_def)

lemma not_open_later:
  assumes "goes_on z P l s" "numbered_block h s = (k, t)"
  shows "k \<notin> opens z"
proof -
  have "k = length (lw_blocks s)"
    using assms(2) by (auto simp: numbered_block_def new_block_def)
  then show ?thesis
    using prefix_length_le [OF goes_onD(2) [OF assms(1)]] by (simp add: opens_def)
qed

lemma add_block:
  assumes "goes_on z P l s" "numbered_block h s = (k, t)" "h = g @ ''.''"
  shows "goes_on z (insert k P) l t" "k \<notin> opens z" "k < length (lw_blocks t)" "prefix (labels s) (labels t)"
  using goes_on_block [OF assms] not_open_later [OF assms(1,2)]
    numbered_block_goes(1,2) [OF goes_onD(1) [OF assms(1)] assms(2,3)] goes_onD(2) by blast+

lemma if_goes:
  assumes body: "goes (lower_block M b)" "\<And>b. e = Some b \<Longrightarrow> goes (lower_block M b)"
  shows "goes (lower_stmt M (IfStmt i r c b e))"
  unfolding goes_def
proof (intro allI impI)
  fix s assume "wf s"
  obtain v t s0 where c: "lower_expr M c s = ((v, t), s0)"
    by (metis surj_pair)
  obtain k1 s1 k2 s2 k3 s3 where b: "numbered_block ''if.then.'' s0 = (k1, s1)"
      "numbered_block ''if.else.'' s1 = (k2, s2)" "numbered_block ''if.end.'' s2 = (k3, s3)"
    by (metis surj_pair)
  note g0 = expr_goes(1) [OF goes_on_refl [OF \<open>wf s\<close>] c]
  note g1 = add_block [OF g0 b(1), of "''if.then''", simplified]
  note g2 = add_block [OF g1(1) b(2), of "''if.else''", simplified]
  note g3 = add_block [OF g2(1) b(3), of "''if.end''", simplified]
  note new = g1(2) g2(2) g3(2)
  note k = prefix_labels(1) [OF g3(4) prefix_labels(1) [OF g2(4) g1(3)]] prefix_labels(1) [OF g3(4) g2(3)] g3(3)
  define s4 where "s4 = branch_to v (block_label k1 s3) (block_label k2 s3) r s3"
  have s4: "goes_on s3 {} (lw_loops s3) s4" "terminated s4" "labels s4 = labels s3"
    unfolding s4_def
    by (intro branch_goes goes_onD(1) [OF g3(1)] prefix_labels(2) [OF prefix_order.refl] k)+
  have k4: "j < length (lw_blocks s4)" if "j < length (lw_blocks s3)" for j
    using that s4(3) length_labels by metis
  have merge: "block_label k3 s3 \<in> set (labels s4)"
    using prefix_labels(2) [OF prefix_order.refl k(3)] s4(3) by simp
  define s5 where "s5 = jump_if_open (block_label k3 s3) r (lower_block M b (at_block k1 s4))"
  have s5: "goes_on s {k3, k2} (lw_loops s) s5" "terminated s5" "prefix (labels s4) (labels s5)"
    unfolding s5_def
    using body_goes [OF goes_on_step [OF g3(1) s4(1)] s4(2) k4 [OF k(1)] _ new(1) merge goesD [OF body(1)],
        of "{k3, k2}"] by auto
  define s6 where "s6 = jump_if_open (block_label k3 s3) r
      (case e of None \<Rightarrow> at_block k2 s5 | Some b \<Rightarrow> lower_block M b (at_block k2 s5))"
  have other: "goes_on t {} (lw_loops t) (case e of None \<Rightarrow> t | Some b \<Rightarrow> lower_block M b t)" if "wf t" for t
    using goes_on_refl [OF that] goesD [OF body(2) that] by (auto split: option.split)
  have s6: "goes_on s {k3} (lw_loops s) s6" "terminated s6" "prefix (labels s5) (labels s6)"
    unfolding s6_def
    using body_goes [where f = "\<lambda>s. case e of None \<Rightarrow> s | Some b \<Rightarrow> lower_block M b s",
        OF s5(1,2) prefix_labels(1) [OF s5(3) k4 [OF k(2)]] _ new(2)
          set_mono_prefix [OF s5(3), THEN subsetD, OF merge] other, of "{k3}"] by auto
  have "goes_on s {} (lw_loops s) (at_block k3 s6)"
    using at_block_goes [OF s6(1,2) prefix_labels(1) [OF s6(3) prefix_labels(1) [OF s5(3) k4 [OF k(3)]]] _ new(3)]
    by blast
  then show "goes_on s {} (lw_loops s) (lower_stmt M (IfStmt i r c b e) s)"
    unfolding s6_def s5_def s4_def by (cases e) (simp_all add: c b del: lower_block.simps)
qed

text \<open>A loop body run between the push and the pop of its targets.\<close>

lemma loop_body_goes:
  assumes "goes_on z P l s" "terminated s" "k < length (lw_blocks s)" "P \<subseteq> insert k Q" "k \<notin> opens z"
    and "lbl \<in> set (labels s)" "goes f" "c < length (lw_blocks s)" "e < length (lw_blocks s)"
  shows "goes_on z Q l (jump_if_open lbl r (pop_loop (f (push_loop c e (at_block k s)))))"
    and "terminated (jump_if_open lbl r (pop_loop (f (push_loop c e (at_block k s)))))"
    and "prefix (labels s) (labels (jump_if_open lbl r (pop_loop (f (push_loop c e (at_block k s))))))"
proof -
  have "goes_on t {} (lw_loops t) (pop_loop (f (push_loop c e t)))" if "wf t" "prefix (labels s) (labels t)" for t
    using with_loop [of f t c e] goesD [OF assms(7)] that prefix_labels(1) [OF that(2)] assms(8,9) by blast
  from body_goes [OF assms(1-6) this, of r]
  show "goes_on z Q l (jump_if_open lbl r (pop_loop (f (push_loop c e (at_block k s)))))"
    "terminated (jump_if_open lbl r (pop_loop (f (push_loop c e (at_block k s)))))"
    "prefix (labels s) (labels (jump_if_open lbl r (pop_loop (f (push_loop c e (at_block k s))))))"
    by simp_all
qed

lemma loop_goes:
  assumes body: "goes (lower_block M b)"
  shows "goes (lower_stmt M (LoopStmt i r b))"
  unfolding goes_def
proof (intro allI impI)
  fix s assume "wf s"
  obtain k1 s1 k2 s2 where b: "numbered_block ''loop.body.'' s = (k1, s1)" "numbered_block ''loop.end.'' s1 = (k2, s2)"
    by (metis surj_pair)
  note g1 = add_block [OF goes_on_refl [OF \<open>wf s\<close>] b(1), of "''loop.body''", simplified]
  note g2 = add_block [OF g1(1) b(2), of "''loop.end''", simplified]
  note k1 = prefix_labels(1) [OF g2(4) g1(3)]
  define s3 where "s3 = jump_to (block_label k1 s2) r s2"
  note lbl = prefix_labels(2) [OF prefix_order.refl k1]
  have s3: "goes_on s2 {} (lw_loops s2) s3" "terminated s3" "labels s3 = labels s2"
    unfolding s3_def by (intro jump_goes goes_onD(1) [OF g2(1)] lbl)+
  have len: "length (lw_blocks s3) = length (lw_blocks s2)"
    using s3(3) length_labels by metis
  define s4 where "s4 = jump_if_open (block_label k1 s2) r (pop_loop (lower_block M b (push_loop k1 k2 (at_block k1 s3))))"
  have p: "k1 < length (lw_blocks s3)" "{k2, k1} \<subseteq> insert k1 {k2}" "block_label k1 s2 \<in> set (labels s3)"
    "k2 < length (lw_blocks s3)"
    using k1 g2(3) lbl by (auto simp: len s3(3))
  note s4 = loop_body_goes [OF goes_on_step [OF g2(1) s3(1)] s3(2) p(1,2) g1(2) p(3) body p(1,4), of r, folded s4_def]
  have "goes_on s {} (lw_loops s) (at_block k2 s4)"
    using at_block_goes [OF s4(1,2) prefix_labels(1) [OF s4(3)] _ g2(2), of "{}"] g2(3) len by simp
  then show "goes_on s {} (lw_loops s) (lower_stmt M (LoopStmt i r b) s)"
    by (simp add: b Let_def s3_def s4_def del: lower_block.simps)
qed

lemma while_goes:
  assumes body: "goes (lower_block M b)"
  shows "goes (lower_stmt M (WhileStmt i r c b))"
  unfolding goes_def
proof (intro allI impI)
  fix s assume "wf s"
  obtain k1 s1 k2 s2 k3 s3 where b: "numbered_block ''while.cond.'' s = (k1, s1)"
      "numbered_block ''while.body.'' s1 = (k2, s2)" "numbered_block ''while.end.'' s2 = (k3, s3)"
    by (metis surj_pair)
  note g1 = add_block [OF goes_on_refl [OF \<open>wf s\<close>] b(1), of "''while.cond''", simplified]
  note g2 = add_block [OF g1(1) b(2), of "''while.body''", simplified]
  note g3 = add_block [OF g2(1) b(3), of "''while.end''", simplified]
  note k = prefix_labels(1) [OF g3(4) prefix_labels(1) [OF g2(4) g1(3)]] prefix_labels(1) [OF g3(4) g2(3)] g3(3)
  note lbl = k [THEN prefix_labels(2) [OF prefix_order.refl]]
  define s4 where "s4 = jump_to (block_label k1 s3) r s3"
  have s4: "goes_on s3 {} (lw_loops s3) s4" "terminated s4" "labels s4 = labels s3"
    unfolding s4_def by (intro jump_goes goes_onD(1) [OF g3(1)] lbl)+
  note len4 = arg_cong [OF s4(3), of length, unfolded length_labels]
  have at: "goes_on s {k3, k2} (lw_loops s) (at_block k1 s4)"
    using at_block_goes [OF goes_on_step [OF g3(1) s4(1)] s4(2) k(1) [folded len4] _ g1(2)] by simp
  obtain v t s5 where c: "lower_expr M c (at_block k1 s4) = ((v, t), s5)"
    by (metis surj_pair)
  note s5 = expr_goes [OF at c]
  have sub: "set (labels s3) \<subseteq> set (labels s5)"
    using set_mono_prefix [OF s5(2)] s4(3) by (simp add: at_block_def)
  define s6 where "s6 = branch_to v (block_label k2 s3) (block_label k3 s3) r s5"
  have s6: "goes_on s5 {} (lw_loops s5) s6" "terminated s6" "labels s6 = labels s5"
    unfolding s6_def using sub lbl by (intro branch_goes goes_onD(1) [OF s5(1)]; blast)+
  have le: "length (lw_blocks s3) \<le> length (lw_blocks s6)"
    using prefix_length_le [OF s5(2)] arg_cong [OF s6(3), of length] len4 by (simp add: at_block_def)
  define s7 where "s7 = jump_if_open (block_label k1 s3) r (pop_loop (lower_block M b (push_loop k1 k3 (at_block k2 s6))))"
  have p: "k1 < length (lw_blocks s6)" "k2 < length (lw_blocks s6)" "k3 < length (lw_blocks s6)"
    "{k3, k2} \<subseteq> insert k2 {k3}" "block_label k1 s3 \<in> set (labels s6)"
    using k le sub lbl by (auto simp: s6(3))
  note s7 = loop_body_goes [OF goes_on_step [OF s5(1) s6(1)] s6(2) p(2,4) g2(2) p(5) body p(1,3), of r, folded s7_def]
  have "goes_on s {} (lw_loops s) (at_block k3 s7)"
    using at_block_goes [OF s7(1,2) prefix_labels(1) [OF s7(3) p(3)] _ g3(2), of "{}"] by simp
  then show "goes_on s {} (lw_loops s) (lower_stmt M (WhileStmt i r c b) s)"
    by (simp add: b c Let_def s4_def [symmetric] s6_def s7_def del: lower_block.simps)
qed

lemma within_plain: "value_op op \<Longrightarrow> within_block z s \<Longrightarrow> within_block z (emit_plain op t args text r s)"
  by (simp add: emit_plain_def lw.step_emit)

lemma for_test_goes:
  assumes "goes_on z P l s" "body \<in> set (labels s)" "done \<in> set (labels s)"
  shows "goes_on z P l (for_test t sl v inclusive body done r s)"
    and "terminated (for_test t sl v inclusive body done r s)"
    and "labels (for_test t sl v inclusive body done r s) = labels s"
proof -
  define u where "u = snd (emit_value OpCompare t
    [fst (emit_value OpLoad t [sl] [] r s), v] (if inclusive then ''<='' else ''<'') r (snd (emit_value OpLoad t [sl] [] r s)))"
  have w: "within_block s u"
    unfolding u_def by (intro lw.step_value) simp_all
  then have u: "goes_on z P l u" "labels u = labels s"
    using goes_on_within [OF assms(1)] goes_onD(1) [OF assms(1)] by (auto simp: within_block_def)
  obtain c where eq: "for_test t sl v inclusive body done r s = branch_to c body done r u"
    by (simp add: for_test_def split_beta u_def)
  have lbl: "body \<in> set (labels u)" "done \<in> set (labels u)"
    using assms u(2) by simp_all
  show "goes_on z P l (for_test t sl v inclusive body done r s)"
    "terminated (for_test t sl v inclusive body done r s)"
    "labels (for_test t sl v inclusive body done r s) = labels s"
    unfolding eq using branch_goes [OF goes_onD(1) [OF u(1)] lbl] goes_on_step [OF u(1)] u(2) by simp_all
qed

lemma for_step_goes:
  assumes "goes_on z P l s" "cond \<in> set (labels s)"
  shows "goes_on z P l (for_step t sl cond r s)" "terminated (for_step t sl cond r s)"
    "prefix (labels s) (labels (for_step t sl cond r s))"
proof -
  have "\<exists>u. within_block s u \<and> for_step t sl cond r s = jump_to cond r u"
    unfolding for_step_def split_beta
    by (rule exI, rule conjI [OF _ refl]) (intro lw.step_emit lw.step_value lw.refl; simp)
  then obtain u where w: "within_block s u" and eq: "for_step t sl cond r s = jump_to cond r u"
    by blast
  then have u: "goes_on z P l u" "labels u = labels s"
    using goes_on_within [OF assms(1)] goes_onD(1) [OF assms(1)] by (auto simp: within_block_def)
  have lbl: "cond \<in> set (labels u)"
    using assms u(2) by simp
  show "goes_on z P l (for_step t sl cond r s)" "terminated (for_step t sl cond r s)"
    "prefix (labels s) (labels (for_step t sl cond r s))"
    unfolding eq using jump_goes [OF goes_onD(1) [OF u(1)] lbl] goes_on_step [OF u(1)] u(2) by simp_all
qed

lemma for_goes:
  assumes body: "goes (lower_block M blk)"
  shows "goes (lower_stmt M (ForStmt i r name b e inclusive blk))"
  unfolding goes_def
proof (intro allI impI)
  fix s assume "wf s"
  obtain bv t sa ev t' sb where e: "lower_expr M b s = ((bv, t), sa)" "lower_expr M e sa = ((ev, t'), sb)"
    by (metis surj_pair)
  obtain sl s0 where bind: "bind_slot name t bv r sb = (sl, s0)"
    by (metis surj_pair)
  note gb = expr_goes(1) [OF expr_goes(1) [OF goes_on_refl [OF \<open>wf s\<close>] e(1)] e(2)]
  have g0: "goes_on s {} (lw_loops s) s0"
    using goes_on_within [OF gb bind_within [OF lw.refl]] bind by (metis snd_conv)
  obtain k1 s1 k2 s2 k3 s3 k4 s4 where bl: "numbered_block ''for.cond.'' s0 = (k1, s1)"
      "numbered_block ''for.body.'' s1 = (k2, s2)" "numbered_block ''for.step.'' s2 = (k3, s3)"
      "numbered_block ''for.end.'' s3 = (k4, s4)"
    by (metis surj_pair)
  note g1 = add_block [OF g0 bl(1), of "''for.cond''", simplified]
  note g2 = add_block [OF g1(1) bl(2), of "''for.body''", simplified]
  note g3 = add_block [OF g2(1) bl(3), of "''for.step''", simplified]
  note g4 = add_block [OF g3(1) bl(4), of "''for.end''", simplified]
  note k = prefix_labels(1) [OF g4(4) prefix_labels(1) [OF g3(4) prefix_labels(1) [OF g2(4) g1(3)]]]
    prefix_labels(1) [OF g4(4) prefix_labels(1) [OF g3(4) g2(3)]] prefix_labels(1) [OF g4(4) g3(3)] g4(3)
  note lbl = k [THEN prefix_labels(2) [OF prefix_order.refl]]
  define s5 where "s5 = jump_to (block_label k1 s4) r s4"
  have s5: "goes_on s4 {} (lw_loops s4) s5" "terminated s5" "labels s5 = labels s4"
    unfolding s5_def by (intro jump_goes goes_onD(1) [OF g4(1)] lbl)+
  note len5 = arg_cong [OF s5(3), of length, unfolded length_labels]
  have at: "goes_on s {k4, k3, k2} (lw_loops s) (at_block k1 s5)"
    using at_block_goes [OF goes_on_step [OF g4(1) s5(1)] s5(2) k(1) [folded len5] _ g1(2)] by simp
  define s6 where "s6 = for_test t sl ev inclusive (block_label k2 s4) (block_label k4 s4) r (at_block k1 s5)"
  have at_labels: "labels (at_block k1 s5) = labels s4"
    by (simp add: at_block_def s5(3))
  have s6: "goes_on s {k4, k3, k2} (lw_loops s) s6" "terminated s6" "labels s6 = labels s4"
    using for_test_goes [OF at, of "block_label k2 s4" "block_label k4 s4" t sl ev inclusive r] lbl
    by (simp_all add: s6_def at_labels)
  note len6 = arg_cong [OF s6(3), of length, unfolded length_labels]
  define s7 where "s7 = jump_if_open (block_label k3 s4) r (pop_loop (lower_block M blk (push_loop k3 k4 (at_block k2 s6))))"
  have p: "k2 < length (lw_blocks s6)" "k3 < length (lw_blocks s6)" "k4 < length (lw_blocks s6)"
    "{k4, k3, k2} \<subseteq> insert k2 {k4, k3}" "block_label k3 s4 \<in> set (labels s6)" "block_label k1 s4 \<in> set (labels s6)"
    using k lbl len6 by (auto simp: s6(3))
  note s7 = loop_body_goes [OF s6(1,2) p(1,4) g2(2) p(5) body p(2,3), of r, folded s7_def]
  have at7: "goes_on s {k4} (lw_loops s) (at_block k3 s7)"
    using at_block_goes [OF s7(1,2) prefix_labels(1) [OF s7(3) p(2)] _ g3(2)] by auto
  define s8 where "s8 = for_step t sl (block_label k1 s4) r (at_block k3 s7)"
  have "block_label k1 s4 \<in> set (labels (at_block k3 s7))"
    using set_mono_prefix [OF s7(3)] p(6) by (auto simp: at_block_def)
  note s8 = for_step_goes [OF at7 this, of t sl r, folded s8_def]
  have "k4 < length (lw_blocks s8)"
    using prefix_labels(1) [OF s8(3)] prefix_labels(1) [OF s7(3) p(3)] by (simp add: at_block_def)
  then have "goes_on s {} (lw_loops s) (at_block k4 s8)"
    using at_block_goes [OF s8(1,2) _ _ g4(2), of "{}"] by simp
  then show "goes_on s {} (lw_loops s) (lower_stmt M (ForStmt i r name b e inclusive blk) s)"
    by (simp add: e bind bl Let_def s5_def [symmetric] s6_def [symmetric] s7_def [symmetric] s8_def [symmetric]
        del: lower_block.simps)
qed

lemma goes_stmts: "list_all (\<lambda>st. goes (lower_stmt M st)) sts \<Longrightarrow> goes (lower_stmts M sts)"
proof (induction sts)
  case (Cons st sts)
  show ?case
    unfolding goes_def
  proof (intro allI impI)
    fix s assume "wf s"
    have st: "goes_on s {} (lw_loops s) (lower_stmt M st s)"
      using Cons.prems \<open>wf s\<close> by (simp add: goesD)
    then have "goes_on (lower_stmt M st s) {} (lw_loops (lower_stmt M st s)) (lower_stmts M sts (lower_stmt M st s))"
      using Cons by (simp add: goesD goes_onD(1) [OF st])
    then have "goes_on s {} (lw_loops s) (lower_stmts M sts (lower_stmt M st s))"
      by (rule goes_on_step [OF st])
    then show "goes_on s {} (lw_loops s) (lower_stmts M (st # sts) s)"
      using goes_on_refl [OF \<open>wf s\<close>] by simp
  qed
qed (simp add: goes_def goes_on_refl)

lemma goes_stmt: "goes (lower_stmt M st)"
proof (induction "size st" arbitrary: st rule: less_induct)
  case less
  have block: "goes (lower_block M b)" if "size b < size st" for b
  proof -
    have "size_list size (block_stmts b) < size b"
      by (cases b) simp
    then have "list_all (\<lambda>st. goes (lower_stmt M st)) (block_stmts b)"
      unfolding list_all_iff 
      by (auto intro: less le_less_trans [OF size_member] less_trans [OF _ that])
    then show ?thesis
      using goesD [OF goes_stmts] scope_goes [of "lower_stmts M (block_stmts b)" _ M] unfolding goes_def by simp
  qed
  show ?case
  proof (cases st)
    case (IfStmt i r c b e)
    then show ?thesis
      using if_goes block by simp
  next
    case (WhileStmt i r c b)
    then show ?thesis
      using while_goes block by simp
  next
    case (ForStmt i r n b e inc blk)
    then show ?thesis
      using for_goes block by simp
  next
    case (LoopStmt i r b)
    then show ?thesis
      using loop_goes block by simp
  next
    case (BlockStmt b)
    then show ?thesis
      using block by (simp add: goes_def)
  next
    case (UnsafeStmt i r b)
    then show ?thesis
      using block by (simp add: goes_def)
  qed (auto simp: goes_def lower_return_goes leave_goes expr_within within_plain lower_binding_within
      lower_assign_within goes_on_refl intro!: within_goes_on split: option.split)
qed

subsection \<open>Functions and modules\<close>

definition graph_ok :: "mir_function \<Rightarrow> bool" where
  "graph_ok f \<longleftrightarrow> mf_blocks f \<noteq> [] \<and> bb_label (hd (mf_blocks f)) = ''entry'' \<and>
     distinct (map bb_label (mf_blocks f)) \<and>
     list_all (block_ok (set (map bb_label (mf_blocks f)))) (mf_blocks f)"

definition closed_graph :: "mir_function \<Rightarrow> bool" where
  "closed_graph f \<longleftrightarrow> list_all (\<lambda>b. bb_instrs b \<noteq> [] \<and> is_terminator (in_op (last (bb_instrs b)))) (mf_blocks f)"

definition function_ok :: "bool \<Rightarrow> mir_function \<Rightarrow> bool" where
  "function_ok err f \<longleftrightarrow> mf_is_extern f \<and> mf_blocks f = [] \<or> graph_ok f \<and> (err \<or> closed_graph f)"

definition module_ok :: "lowering \<Rightarrow> bool" where
  "module_ok s \<longleftrightarrow> (\<forall>f \<in> set (mm_functions (lo_out s)). function_ok (has_errors (lo_diags s)) f)"

lemma graph_of_state:
  assumes "wf s" "opens s = {}" "terminated s \<or> err"
  shows "function_ok err (lw_fn s)"
proof -
  have ne: "lw_blocks s \<noteq> []"
    using wf_current [OF assms(1)] by auto
  then have "bb_label (hd (lw_blocks s)) = ''entry''"
    using assms(1) wf_current [OF assms(1)]
    by (auto simp: wf_def label_numbered_def labels_def hd_conv_nth dest: spec [of _ 0])
  moreover have "distinct (labels s)"
    by (rule numbers_distinct) (use assms(1) in \<open>simp add: wf_def\<close>)
  ultimately have "graph_ok (lw_fn s)"
    using ne assms(1) by (simp add: graph_ok_def wf_def lw_blocks_def labels_def list_all_iff)
  moreover have "closed_graph (lw_fn s)" if "terminated s"
  proof -
    have "bb_terminated (lw_blocks s ! i)" if "i < length (lw_blocks s)" for i
      using that assms(2) \<open>terminated s\<close> by (cases "i = lw_block s") (auto simp: opens_def terminated_def)
    then have "bb_terminated b \<and> block_ok (set (labels s)) b" if "b \<in> set (lw_blocks s)" for b
      using that assms(1) by (auto simp: in_set_conv_nth wf_def)
    then show ?thesis
      by (auto simp: closed_graph_def list_all_iff block_ok_def lw_blocks_def)
  qed
  ultimately show ?thesis
    using assms(3) by (auto simp: function_ok_def)
qed

lemma lower_params_within: "within_block z s \<Longrightarrow> within_block z (fold (lower_param r) ps s)"
proof (induction ps arbitrary: s)
  case (Cons p ps)
  have "within_block s (s\<lparr>lw_slot_count := n, lw_slots := m\<rparr>)" for n m
    by (rule within_block_frame) (simp_all add: new_functions_def)
  then have "within_block z (s\<lparr>lw_slot_count := n, lw_slots := m\<rparr>)" for n m
    using lw.trans [OF Cons.prems] by blast
  then show ?case
    using Cons.IH by (simp add: lower_param_def slot_def Let_def lw.step_emit)
qed simp

lemma lower_body_ok:
  fixes M :: sem_model and d :: function_decl and body :: block
  assumes "lw_blocks s = []" "lw_block s = 0" "lw_loops s = []"
  defines "t \<equiv> lower_body M d body s"
  shows "function_ok (has_errors (lo_diags t)) (lw_fn t)" "new_functions s t" "diag_le (lo_diags s) (lo_diags t)"
proof -
  define a where "a = open_scope (snd (new_block ''entry'' s))"
  have a: "lw_blocks a = [\<lparr>bb_label = ''entry'', bb_instrs = [], bb_terminated = False\<rparr>]"
    "lw_block a = 0" "lw_loops a = []" "lo_diags a = lo_diags s" "lo_out a = lo_out s"
    using assms(1-3) by (simp_all add: a_def open_scope_def new_block_def)
  then have "wf a" "opens a = {}"
    by (auto simp: wf_def labels_def label_numbered_def block_ok_def opens_def)
  have params: "mf_params (lw_fn a) = mf_params (lw_fn s)"
    by (simp add: a_def open_scope_def new_block_def set_blocks_def)
  define b where "b = lower_block M body (fold (lower_param (fd_range d)) (mf_params (lw_fn a)) a)"
  have "goes_on a {} [] (fold (lower_param (fd_range d)) (mf_params (lw_fn a)) a)"
    using within_goes_on [OF \<open>wf a\<close> lower_params_within [OF lw.refl]] a(3) by metis
  moreover have "goes (lower_block M body)"
    using goes_stmt [of M "BlockStmt body"] by (simp add: goes_def)
  ultimately have b: "goes_on a {} [] b"
    unfolding b_def using goes_on_step goesD goes_onD by metis
  have t: "t = finish_function M d b"
    by (simp add: t_def lower_body_def b_def params [symmetric] del: lower_block.simps) (simp add: a_def)
  note frame = b [unfolded goes_on_def] and cur = wf_current [OF goes_onD(1) [OF b]]
  consider "terminated b" "t = b"
    | "\<not> terminated b" "t = emit_plain OpReturn unit_type [] [] (fd_range d) b"
    | c m where "\<not> terminated b" "t = report_lowering (fd_range d) c m b"
    by (cases "terminated b"; cases "is_unit (mf_result (lw_fn b))") (auto simp: t finish_function_def end_of_body_def)
  then have "wf t \<and> opens t = {} \<and> (terminated t \<or> has_errors (lo_diags t)) \<and> new_functions s t \<and>
      diag_le (lo_diags s) (lo_diags t)"
  proof cases
    case 1
    then show ?thesis
      using frame \<open>opens a = {}\<close> a by (auto simp: new_functions_def)
  next
    case 2
    have "wf t"
      unfolding 2 emit_plain_def by (rule wf_emit [OF goes_onD(1) [OF b]]) (simp add: targets_ok_def jump_targets_def)
    then show ?thesis
      using frame \<open>opens a = {}\<close> a cur
      by (auto simp: 2 emit_plain_def new_functions_def terminated_emit is_terminator_def intro: diag_le_trans)
  next
    case 3
    then show ?thesis
      using frame \<open>opens a = {}\<close> a
      by (auto simp: report_lowering_def wf_def opens_def labels_def new_functions_def intro: diag_le_trans)
  qed
  then show "function_ok (has_errors (lo_diags t)) (lw_fn t)" "new_functions s t" "diag_le (lo_diags s) (lo_diags t)"
    using graph_of_state by blast+
qed

lemma function_ok_mono: "function_ok err f \<Longrightarrow> (err \<Longrightarrow> err') \<Longrightarrow> function_ok err' f"
  by (auto simp: function_ok_def)

lemma lower_function_ok:
  assumes "module_ok s"
  shows "module_ok (lower_function M d name sub s)"
proof -
  define a where "a = enter_function d name sub s"
  have a: "lw_blocks a = []" "lw_block a = 0" "lw_loops a = []" "lo_diags a = lo_diags s" "lo_out a = lo_out s"
    by (simp_all add: a_def enter_function_def start_function_def lowered_signature_def empty_function_def lw_blocks_def)
  have plain: "module_ok (finished a)" if "fd_is_extern d \<or> fd_body d = None"
    using that assms
    by (auto simp: module_ok_def finished_def add_function_def a function_ok_def)
      (simp_all add: a_def enter_function_def start_function_def lowered_signature_def empty_function_def)
  have body: "module_ok (finished (lower_body M d b a))" for b
  proof -
    note ok = lower_body_ok [OF a(1-3), of M d b]
    have "function_ok (has_errors (lo_diags (lower_body M d b a))) f"
      if "f \<in> set (mm_functions (lo_out (lower_body M d b a)))" for f
      using that ok(2,3) assms diag_le_has_errors function_ok_mono [of _ f]
      unfolding new_functions_def module_ok_def a by (metis function_ok_def)
    with ok(1) show ?thesis
      by (auto simp: module_ok_def finished_def add_function_def)
  qed
  show ?thesis
    using assms plain body by (auto simp: lower_function_def a_def [symmetric] split: option.split)
qed

lemma module_ok_frame: "lo_out t = lo_out s \<Longrightarrow> diag_le (lo_diags s) (lo_diags t) \<Longrightarrow> module_ok s \<Longrightarrow> module_ok t"
  by (auto simp: module_ok_def dest: diag_le_has_errors intro: function_ok_mono)

lemma module_ok_fold: "(\<And>x s. module_ok s \<Longrightarrow> module_ok (f x s)) \<Longrightarrow> module_ok s \<Longrightarrow> module_ok (fold f xs s)"
  by (induction xs arbitrary: s) auto

lemma lower_items_ok: "module_ok (lower_items M md ds)"
proof -
  have start: "module_ok (start_module md ds)"
    by (simp add: module_ok_def start_module_def empty_mir_def)
  have global: "module_ok (lower_global_item it s)" if "module_ok s" for it s
  proof -
    have "diag_le (lo_diags s) (lo_diags (snd (global_initializer g s)))"
      "lo_out (snd (global_initializer g s)) = lo_out s" for g
      by (auto simp: global_initializer_def report_lowering_def split: option.split expr.split)
    then show ?thesis
      using that by (auto simp: lower_global_item_def lower_global_def split_beta module_ok_def split: item.split
          dest: diag_le_has_errors intro: function_ok_mono)
  qed
  have struct: "module_ok (lower_struct_item it s)" if "module_ok s" for it s
    using that by (auto simp: lower_struct_item_def module_ok_def split: item.split)
  have func: "module_ok (lower_function_item M it s)" if "module_ok s" for it s
    using that lower_function_ok by (auto simp: lower_function_item_def split: item.split)
  have impl: "module_ok (lower_impl_item M it s)" if "module_ok s" for it s
    using that lower_function_ok by (auto simp: lower_impl_item_def Let_def split: item.split intro!: module_ok_fold)
  show ?thesis
    unfolding lower_items_def
    by (intro module_ok_fold start global struct func impl)
qed

lemma drain_ok: "drain_pending n M s = Some t \<Longrightarrow> module_ok s \<Longrightarrow> module_ok t"
proof (induction n M s rule: drain_pending.induct)
  case (2 n M s)
  show ?case
  proof (cases "lo_pending s")
    case (Cons sp sps)
    let ?s = "s\<lparr>lo_pending := sps\<rparr>"
    have "module_ok ?s"
      using "2.prems"(2) by (simp add: module_ok_def)
    then have "module_ok (if sp_name sp \<in> lo_emitted ?s then ?s else lower_function M (sp_decl sp) (sp_name sp) (sp_subst sp) ?s)"
      using lower_function_ok by simp
    then show ?thesis
      using "2.IH" [OF Cons refl] "2.prems"(1) Cons by (simp add: Let_def)
  qed (use "2.prems" in simp)
qed (simp split: if_splits)

lemma lower_module_ok:
  assumes "lower_module fuel M md ds = Some (m, ds')" "f \<in> set (mm_functions m)"
  shows "function_ok (has_errors ds') f"
  using assms drain_ok [OF _ lower_items_ok] by (auto simp: lower_module_def module_ok_def)

text \<open>
  C11: every function of a lowered module is a declaration without blocks or a well-formed control flow
  graph: it starts with the block entry, labels are distinct, control is transferred only by the last
  instruction of a block and only to blocks of the function, and the mark of a terminated block is
  right; if lowering reported no error, every block ends by transferring control, so control never
  runs off a block.
\<close>

theorem lowered_graphs:
  assumes "lower_module fuel M md ds = Some (m, ds')" "f \<in> set (mm_functions m)"
  shows "mf_is_extern f \<and> mf_blocks f = [] \<or> graph_ok f \<and> (has_errors ds' \<or> closed_graph f)"
  using lower_module_ok [OF assms] by (simp add: function_ok_def)

text \<open>
  C35: no lowered function calls a destructor: the trait solver denies Drop for every type, so the
  instruction for leaving a scope is never emitted, whatever the program declares.
\<close>

theorem lowered_without_drops:
  assumes "lower_module fuel M md ds = Some (m, ds')" "f \<in> set (mm_functions m)"
  shows "list_all (\<lambda>b. list_all (\<lambda>i. in_op i \<noteq> OpDrop) (bb_instrs b)) (mf_blocks f)"
  using lower_module_ok [OF assms]
  by (auto simp: function_ok_def graph_ok_def block_ok_def targets_ok_def list_all_iff)

end
