(* ===== verification/MirRun.thy ===== *)
theory MirRun
  imports MirWf MirOpt
begin

text \<open>
  Lowering evaluated on small programs: the witnesses of the theorems on control flow graphs, and
  the function a counted loop is lowered to, whose bound the optimiser loses.
\<close>

text \<open>A function that loops for ever.\<close>

definition unit_ref :: type_ref where
  "unit_ref = TypeRef initial_range ''unit'' [] [] False False False False False"

definition plain_function :: "string \<Rightarrow> stmt list \<Rightarrow> function_decl" where
  "plain_function name sts = \<lparr>fd_id = 100, fd_range = initial_range, fd_name = name, fd_generics = [], fd_params = [],
     fd_return_type = unit_ref, fd_body = Some (Block 101 initial_range sts), fd_is_pub = False, fd_is_unsafe = False,
     fd_is_async = False, fd_is_extern = False, fd_is_concurrent = False, fd_abi = ''Uinx''\<rparr>"

definition module_of :: "item list \<Rightarrow> ast_module" where
  "module_of items = \<lparr>am_file = [], am_no_std = False, am_smp_mode = SmpAuto, am_needs = [], am_dontneeds = [],
     am_items = items\<rparr>"

definition looping :: ast_module where
  "looping = module_of [FunctionItem (plain_function ''f'' [LoopStmt 1 initial_range (Block 3 initial_range [])])]"

text \<open>Evaluation by rewriting, with \<open>let_weak_cong\<close> so that a state is computed before it is used.\<close>

lemmas lower_eval = lower_module_def lower_items_def start_module_def lower_struct_item_def
  lower_global_item_def lower_impl_item_def lower_function_item_def lower_function_def lower_body_def
  finish_function_def new_block_def set_blocks_def lw_blocks_def open_scope_def close_scope_def terminated_def
  lowered_signature_def empty_function_def start_function_def Let_def empty_mir_def
  enter_function_def finished_def end_of_body_def pop_scope_locals_def add_function_def
  no_diagnostics_def has_errors_def emit_plain_def emit_def lowered_type_def param_types_def add_instr_def
  numbered_block_def jump_to_def jump_if_open_def at_block_def push_loop_def pop_loop_def block_label_def
  branch_to_def leave_to_def lower_return_def emit_value_def emit_load_def temp_def slot_def bind_slot_def add_local_def
  lower_binding_def declared_type_def for_test_def for_step_def lower_assign_def coerce_value_def
  nat_to_string.simps digit_chars is_terminator_def report_lowering_def needs_cast_def
  name_address_def expr_type_def module_of_def plain_function_def
  place_is_atomic_def empty_model_def generic_names_def

lemma unit_ref_type [simp]: "''unit'' \<notin> gs \<Longrightarrow> type_from_ast unit_ref gs = unit_type" "is_unit unit_type"
  by (simp_all add: unit_ref_def unit_type_def builtin_type_def builtin_kinds_def is_unit_def)

lemma looping_lowered:
  "map_option (\<lambda>(m, ds). (map (\<lambda>f. (mf_is_extern f, map bb_label (mf_blocks f))) (mm_functions m), has_errors ds))
     (lower_module 0 empty_model looping no_diagnostics) =
   Some ([(False, [''entry'', ''loop.body.1'', ''loop.end.2''])], False)"
  by (simp add: looping_def lower_eval cong: let_weak_cong)

text \<open>Witness of C11: an endless loop and the block behind it, which returns.\<close>

lemma lowered_graphs_witness:
  "\<exists>m ds f. lower_module 0 empty_model looping no_diagnostics = Some (m, ds) \<and> f \<in> set (mm_functions m) \<and>
     length (mf_blocks f) = 3 \<and> graph_ok f \<and> closed_graph f"
proof -
  obtain m ds where m: "lower_module 0 empty_model looping no_diagnostics = Some (m, ds)" "\<not> has_errors ds"
      "map (\<lambda>f. (mf_is_extern f, map bb_label (mf_blocks f))) (mm_functions m) =
        [(False, [''entry'', ''loop.body.1'', ''loop.end.2''])]"
    using looping_lowered by auto
  then obtain f where f: "mm_functions m = [f]" "\<not> mf_is_extern f" "length (map bb_label (mf_blocks f)) = 3"
    by auto
  then show ?thesis
    using m lowered_graphs [OF m(1), of f] by auto
qed

text \<open>Witness of C35: the same function.\<close>

lemma lowered_without_drops_witness:
  "\<exists>m ds f. lower_module 0 empty_model looping no_diagnostics = Some (m, ds) \<and> f \<in> set (mm_functions m) \<and>
     list_all (\<lambda>b. list_all (\<lambda>i. in_op i \<noteq> OpDrop) (bb_instrs b)) (mf_blocks f)"
proof -
  obtain m ds where m: "lower_module 0 empty_model looping no_diagnostics = Some (m, ds)" "mm_functions m \<noteq> []"
    using looping_lowered by auto
  then show ?thesis
    using lowered_without_drops [OF m(1), of "hd (mm_functions m)"] hd_in_set by fastforce
qed

subsection \<open>A counted loop under the optimiser\<close>






end
