(* ===== verification/ResolverRun.thy ===== *)
theory ResolverRun
  imports ResolverSound MirRun
begin

text \<open>
  Name resolution evaluated on a small module, and what becomes of a binding that hides another when
  the function is lowered.
\<close>

text \<open>\<open>fn f() { x = 1  { let x = 2  print x }  x }\<close>\<close>

definition name_at :: "nat \<Rightarrow> string \<Rightarrow> expr" where
  "name_at i n = NameExpr i initial_range n"

definition number_at :: "nat \<Rightarrow> string \<Rightarrow> expr" where
  "number_at i n = IntegerExpr i initial_range n"

definition hiding :: ast_module where
  "hiding = module_of [FunctionItem (plain_function ''f''
     [AssignStmt 1 initial_range (name_at 2 ''x'') ''='' (number_at 3 ''1''),
      BlockStmt (Block 4 initial_range
        [LetStmt 5 initial_range ''x'' False None (Some (number_at 6 ''2'')),
         ExprStmt 7 initial_range (CallExpr 8 initial_range (name_at 9 ''print'') [] [name_at 10 ''x''])]),
      ExprStmt 11 initial_range (name_at 12 ''x'')])]"

lemmas resolve_eval = hiding_def module_of_def plain_function_def resolve_module_def Let_def declare_item_def
  declare_global_def add_symbol_def resolve_item_def resolve_function_def empty_hir_def no_diagnostics_def
  name_at_def number_at_def resolve_assign_def is_new_name_def bind_top_def resolve_node_def resolve_let_def
  in_top_def resolve_option_def resolve_name_def builtin_function_def module_nodes_def item_nodes_def
  function_nodes_def option_nodes_def expr_range_def

lemma hiding_resolved:
  "map_prod (\<lambda>h. (map sym_name (hm_symbols h), map (hm_expr_resolution h) [2, 9, 10, 12])) has_errors
     (resolve_module hiding no_diagnostics) = (([''f'', ''x'', ''x''], [Some 1, None, Some 2, Some 1]), False)"
  by (simp add: resolve_eval has_errors_def)


text \<open>Witness of C12.\<close>

lemma resolution_named_witness:
  "\<exists>hm ds names k. resolve_module hiding no_diagnostics = (hm, ds) \<and> agrees names (module_nodes hiding) \<and>
     hm_expr_resolution hm 10 = Some k \<and> sym_name (hm_symbols hm ! unat k) = ''x''"
proof -
  obtain hm ds where m: "resolve_module hiding no_diagnostics = (hm, ds)"
    by fastforce
  define names where "names = (\<lambda>i. if i = 9 then ''print'' else if i \<in> {2, 10, 12 :: nat} then ''x'' else ''f'')"
  have a: "agrees names (module_nodes hiding)"
    by (simp add: resolve_eval agrees_def names_def)
  have r: "hm_expr_resolution hm 10 = Some 2" "length (hm_symbols hm) \<le> 2 ^ 32"
    using hiding_resolved m by (auto dest: arg_cong [of _ _ length])
  show ?thesis
    using resolution_named [OF m a r(2) r(1)] m a r by (auto simp: names_def)
qed

text \<open>Witness of C13.\<close>

lemma resolution_complete_witness:
  "\<exists>hm ds. resolve_module hiding no_diagnostics = (hm, ds) \<and> \<not> has_errors ds \<and> builtin_function ''print'' \<and>
     (\<exists>k. hm_expr_resolution hm 12 = Some k)"
proof -
  obtain hm ds where m: "resolve_module hiding no_diagnostics = (hm, ds)" "\<not> has_errors ds"
    using hiding_resolved by (cases "resolve_module hiding no_diagnostics") simp
  have "(12, ''x'') \<in> set (module_nodes hiding)"
    by (simp add: resolve_eval)
  then show ?thesis
    using resolution_complete [OF m] m by (auto simp: builtin_function_def)
qed

subsection \<open>A binding that hides another\<close>

text \<open>Emitting instructions leaves the slots as they are.\<close>

lemma slots_emit [simp]: "lw_slots (emit i s) = lw_slots s" "lw_slot_count (emit i s) = lw_slot_count s"
  by (simp_all add: emit_def set_blocks_def)

lemma slots_emit_value:
  "emit_value op t as x r s = (v, s') \<Longrightarrow> lw_slots s' = lw_slots s \<and> lw_slot_count s' = lw_slot_count s"
  by (auto simp: emit_value_def temp_def)

lemma slots_coerce:
  "coerce_value v t t' r s = (w, s') \<Longrightarrow> lw_slots s' = lw_slots s \<and> lw_slot_count s' = lw_slot_count s"
  by (auto simp: coerce_value_def slots_emit_value split: if_splits)

lemma slots_drops [simp]: "lw_slots (emit_scope_drops M s) = lw_slots s"
proof -
  have "lw_slots (emit_drop M n s) = lw_slots s" for n s
    by (simp add: emit_drop_def split: option.split)
  then have "lw_slots (fold (emit_drop M) ns s) = lw_slots s" for ns s
    by (induction ns arbitrary: s) simp_all
  then show ?thesis
    by (simp add: emit_scope_drops_def split: list.split)
qed

lemma slots_scopes [simp]:
  "lw_slots (open_scope s) = lw_slots s" "lw_slot_count (open_scope s) = lw_slot_count s"
  "terminated (open_scope s) = terminated s" "lw_slots (close_scope M s) = lw_slots s"
  by (simp_all add: open_scope_def close_scope_def pop_scope_locals_def terminated_def lw_blocks_def)

lemma slots_binding:
  "lw_slots (lower_binding M types i x (BoolExpr k r b) r' s) =
     (lw_slots s)(x \<mapsto> ''%'' @ x @ ''.slot.'' @ nat_to_string (lw_slot_count s))"
proof -
  obtain v t s1 where e: "lower_expr M (BoolExpr k r b) s = ((v, t), s1)"
    by (metis surj_pair)
  have s1: "lw_slots s1 = lw_slots s \<and> lw_slot_count s1 = lw_slot_count s"
    using e by (auto simp: lower_expr.simps [of M "BoolExpr k r b"] slots_emit_value Let_def split: prod.splits)
  obtain w s2 where c: "coerce_value v t (declared_type types i t s1) r' s1 = (w, s2)"
    by (metis surj_pair)
  show ?thesis
    using s1 slots_coerce [OF c] by (simp add: lower_binding_def e c bind_slot_def slot_def add_local_def)
qed

text \<open>
  C37: an inner binding outlives its block. Name resolution drops what a block declares at its end, and a
  name behind the block stands for the outer binding again; but the slots of the lowering are not
  restored, so that from then on the name is lowered to the slot of the inner binding.
\<close>

theorem inner_binding_leaks:
  assumes "\<not> terminated s" "st = BlockStmt (Block i r [LetStmt j r' x m t (Some (BoolExpr k r'' b))])"
  shows "find_scopes x (fst (resolve_stmt st owner scs rs)) = find_scopes x scs \<and>
    lw_slots (lower_stmt M st s) x = Some (''%'' @ x @ ''.slot.'' @ nat_to_string (lw_slot_count s))"
  using assms by (simp add: slots_binding)


text \<open>Witness of C37.\<close>

lemma inner_binding_leaks_witness:
  "\<exists>s st. \<not> terminated s \<and> find_scopes ''x'' (fst (resolve_stmt st None [[''x'' \<mapsto> 7]] \<lparr>rs_hir = empty_hir, rs_diags = no_diagnostics\<rparr>)) = Some 7 \<and>
     lw_slots s ''x'' = Some ''%x.slot.0'' \<and> lw_slots (lower_stmt empty_model st s) ''x'' = Some ''%x.slot.1''"
proof -
  define s where "s = (snd (new_block ''entry'' (start_module looping no_diagnostics)))
    \<lparr>lw_slot_count := 1, lw_slots := [''x'' \<mapsto> ''%x.slot.0'']\<rparr>"
  define st where "st = BlockStmt (Block 0 initial_range
    [LetStmt 1 initial_range ''x'' False None (Some (BoolExpr 2 initial_range True))])"
  have open_block: "\<not> terminated s"
    by (simp add: s_def new_block_def start_module_def terminated_def lw_blocks_def set_blocks_def empty_mir_def)
  have "lw_slots s ''x'' = Some ''%x.slot.0''" "lw_slot_count s = 1"
    by (simp_all add: s_def)
  then show ?thesis
    using inner_binding_leaks [OF open_block st_def, of None "[[''x'' \<mapsto> 7]]"
        "\<lparr>rs_hir = empty_hir, rs_diags = no_diagnostics\<rparr>" empty_model]
    by (intro exI [of _ s] exI [of _ st])
      (auto simp: open_block nat_to_string.simps digit_chars)
qed

end
