(* ===== verification/TypeState.thy ===== *)
theory TypeState
  imports Resolver Traits "HOL-Library.AList"
begin

text \<open>
  The state of the type checker, the helpers of src/sema_internal.hpp, and what src/sema.cpp does
  before the bodies are checked: the tables of a module's items and the special traits.

  A table the code iterates is an association list in the order of insertion; an assignment to a key
  that is there replaces the value in place. Two things can keep a run from having a result: a trait
  query that is not answered within the fuel \<open>tc_fuel\<close>, and a read behind the end of a vector. Either
  sets \<open>tc_stuck\<close>, and what is computed from then on is of no account.
\<close>

record type_checker =
  tc_model :: sem_model
  tc_diags :: diagnostics
  tc_fuel :: nat
  tc_stuck :: bool

type_synonym 'a checked = "'a \<times> type_checker"
type_synonym type_subst = "string \<rightharpoonup> ty"

definition tc_error :: "src_range \<Rightarrow> string \<Rightarrow> string \<Rightarrow> type_checker \<Rightarrow> type_checker" where
  "tc_error r code message s = s\<lparr>tc_diags := diag_error r code message (tc_diags s)\<rparr>"

definition tc_require :: "bool \<Rightarrow> src_range \<Rightarrow> string \<Rightarrow> string \<Rightarrow> type_checker \<Rightarrow> type_checker" where
  "tc_require ok r code message s = (if ok then s else tc_error r code message s)"

definition tc_warning :: "src_range \<Rightarrow> string \<Rightarrow> string \<Rightarrow> type_checker \<Rightarrow> type_checker" where
  "tc_warning r code message s = s\<lparr>tc_diags := diag_warning r code message (tc_diags s)\<rparr>"

definition set_stuck :: "type_checker \<Rightarrow> type_checker" where
  "set_stuck s = s\<lparr>tc_stuck := True\<rparr>"

definition tc_satisfies :: "ty \<Rightarrow> string \<Rightarrow> bounds \<Rightarrow> type_checker \<Rightarrow> bool checked" where
  "tc_satisfies t tr gb s =
     (case satisfies_bounds (tc_fuel s) (tc_model s) t tr gb of
       None \<Rightarrow> (True, set_stuck s)
     | Some b \<Rightarrow> (b, s))"

abbreviation functions_of :: "type_checker \<Rightarrow> (string \<times> function_sig) list" where
  "functions_of s \<equiv> sm_functions (tc_model s)"
abbreviation structs_of :: "type_checker \<Rightarrow> (string \<times> struct_info) list" where
  "structs_of s \<equiv> sm_structs (tc_model s)"
abbreviation globals_of :: "type_checker \<Rightarrow> (string \<times> global_info) list" where
  "globals_of s \<equiv> sm_globals (tc_model s)"

subsection \<open>Helpers\<close>

fun replace_self :: "ty \<Rightarrow> ty \<Rightarrow> ty" where
  "replace_self (Ty k n as p m nl) owner =
     (if k = KNamed \<and> n = ''Self'' then owner
      else Ty k n (map (\<lambda>a. replace_self a owner) as) (map_option (\<lambda>q. replace_self q owner) p) m nl)"

definition integer_literal :: "expr \<Rightarrow> bool" where
  "integer_literal e \<longleftrightarrow> (case e of
     IntegerExpr _ _ _ \<Rightarrow> True
   | UnaryExpr _ _ op (IntegerExpr _ _ _) \<Rightarrow> op = ''-''
   | _ \<Rightarrow> False)"

definition points_to_str :: "ty \<Rightarrow> bool" where
  "points_to_str t \<longleftrightarrow> ty_kind t = KRef \<and>
     (case ty_pointee t of None \<Rightarrow> False | Some q \<Rightarrow> ty_kind q = KStr)"

definition can_coerce_expr :: "expr option \<Rightarrow> ty \<Rightarrow> ty \<Rightarrow> bool" where
  "can_coerce_expr e from to \<longleftrightarrow>
     can_coerce from to \<or>
     (case e of Some (StringExpr _ _ _) \<Rightarrow> points_to_str from \<and> ty_kind to = KStr | _ \<Rightarrow> False) \<or>
     (case e of None \<Rightarrow> False | Some x \<Rightarrow> integer_literal x) \<and> is_integer from \<and> is_integer to"

definition static_initializer_expr :: "expr \<Rightarrow> bool" where
  "static_initializer_expr e \<longleftrightarrow> (case e of
     IntegerExpr _ _ _ \<Rightarrow> True | FloatExpr _ _ _ \<Rightarrow> True | BoolExpr _ _ _ \<Rightarrow> True | CharExpr _ _ _ \<Rightarrow> True
   | StructLiteralExpr _ _ _ _ fs \<Rightarrow> list_all (\<lambda>f. case fi_value f of
         IntegerExpr _ _ v \<Rightarrow> v = ''0'' | BoolExpr _ _ b \<Rightarrow> \<not> b | _ \<Rightarrow> False) fs
   | _ \<Rightarrow> False)"

text \<open>The direct subexpressions of an expression; of a call the receiver and the arguments.\<close>

definition child_exprs :: "expr \<Rightarrow> expr list" where
  "child_exprs e = (case e of
     UnaryExpr _ _ _ x \<Rightarrow> [x]
   | BinaryExpr _ _ _ a b \<Rightarrow> [a, b]
   | BorrowExpr _ _ x _ \<Rightarrow> [x]
   | CallExpr _ _ f _ as \<Rightarrow> (case f of MemberExpr _ _ b _ \<Rightarrow> [b] | _ \<Rightarrow> []) @ as
   | MemberExpr _ _ x _ \<Rightarrow> [x]
   | IndexExpr _ _ a b \<Rightarrow> [a, b]
   | AwaitExpr _ _ x \<Rightarrow> [x]
   | CastExpr _ _ x _ \<Rightarrow> [x]
   | StructLiteralExpr _ _ _ _ fs \<Rightarrow> map fi_value fs
   | AsmExpr _ _ _ ps _ \<Rightarrow> List.map_filter ao_value ps
   | _ \<Rightarrow> [])"

text \<open>The expressions directly in a statement and the statements below it.\<close>

fun block_exprs :: "block \<Rightarrow> expr list"
and stmts_exprs :: "stmt list \<Rightarrow> expr list"
and stmt_exprs :: "stmt \<Rightarrow> expr list" where
  "block_exprs (Block _ _ sts) = stmts_exprs sts"
| "stmts_exprs [] = []"
| "stmts_exprs (st # sts) = stmt_exprs st @ stmts_exprs sts"
| "stmt_exprs (LetStmt _ _ _ _ _ init) = (case init of None \<Rightarrow> [] | Some e \<Rightarrow> [e])"
| "stmt_exprs (AssignStmt _ _ target _ v) = [target, v]"
| "stmt_exprs (ExprStmt _ _ e) = [e]"
| "stmt_exprs (ReturnStmt _ _ w) = (case w of None \<Rightarrow> [] | Some e \<Rightarrow> [e])"
| "stmt_exprs (IfStmt _ _ c t e) = c # block_exprs t @ (case e of None \<Rightarrow> [] | Some b \<Rightarrow> block_exprs b)"
| "stmt_exprs (WhileStmt _ _ c b) = c # block_exprs b"
| "stmt_exprs (ForStmt _ _ _ b e _ body) = b # e # block_exprs body"
| "stmt_exprs (LoopStmt _ _ b) = block_exprs b"
| "stmt_exprs (BlockStmt b) = block_exprs b"
| "stmt_exprs (UnsafeStmt _ _ b) = block_exprs b"
| "stmt_exprs (BreakStmt _ _) = []"
| "stmt_exprs (ContinueStmt _ _) = []"
| "stmt_exprs (FenceStmt _ _ _ _) = []"

subsection \<open>The items of a module\<close>

definition collect_bounds :: "generic_param list \<Rightarrow> bounds" where
  "collect_bounds gs = fold (\<lambda>g. AList.update (gp_name g) (gp_bounds g)) gs []"

definition collect_sig :: "string \<Rightarrow> (ty \<Rightarrow> ty) \<Rightarrow> function_decl \<Rightarrow> function_sig" where
  "collect_sig name self d =
     (let gs = set (map gp_name (fd_generics d)) in
      \<lparr>fs_name = name, fs_generic_names = map gp_name (fd_generics d), fs_bounds = collect_bounds (fd_generics d),
       fs_params = map (\<lambda>p. self (type_from_ast (par_type p) gs)) (fd_params d),
       fs_result = self (type_from_ast (fd_return_type d) gs),
       fs_is_unsafe = fd_is_unsafe d, fs_is_async = fd_is_async d, fs_is_extern = False,
       fs_is_concurrent = fd_is_concurrent d, fs_abi = [], fs_decl = Some d\<rparr>)"

definition add_function_sig :: "string \<Rightarrow> function_sig \<Rightarrow> type_checker \<Rightarrow> type_checker" where
  "add_function_sig key sig s =
     s\<lparr>tc_model := (tc_model s)\<lparr>sm_functions := AList.update key sig (functions_of s)\<rparr>\<rparr>"

definition collect_function :: "function_decl \<Rightarrow> type_checker \<Rightarrow> type_checker" where
  "collect_function d s =
     (let sig = (collect_sig (fd_name d) id d)\<lparr>fs_is_extern := fd_is_extern d, fs_abi := fd_abi d\<rparr> in
      case map_of (functions_of s) (fd_name d) of
        Some old \<Rightarrow>
          tc_require (fs_is_extern old \<and> fs_is_extern sig \<and> fs_abi old = fs_abi sig \<and>
              types_eq (fs_params old) (fs_params sig) \<and> type_eq (fs_result old) (fs_result sig))
            (fd_range d) ''E0344'' (''conflicting declarations for function '' @ quoted (fd_name d)) s
      | None \<Rightarrow> add_function_sig (fd_name d) sig s)"

definition check_shared_field :: "struct_decl \<Rightarrow> field_decl \<Rightarrow> ty \<Rightarrow> type_checker \<Rightarrow> type_checker" where
  "check_shared_field d f t s =
     (let s = tc_require (is_integer t \<or> ty_kind t = KRawPtr \<or> ty_kind t = KGeneric) (fld_range f) ''E0358''
            (''shared fields require integer, raw pointer, or '' @
             ''atomic-compatible generic type (bool uses AtomicBool)'') s
      in if ty_kind t = KGeneric then
           tc_require (case find (\<lambda>g. gp_name g = ty_name t) (sd_generics d) of
               None \<Rightarrow> False
             | Some g \<Rightarrow> ''Send'' \<in> set (gp_bounds g) \<and> ''Sync'' \<in> set (gp_bounds g))
             (fld_range f) ''E0366'' ''a shared generic field requires both Send and Sync bounds'' s
         else s)"

definition collect_field ::
  "struct_decl \<Rightarrow> string set \<Rightarrow> field_decl \<Rightarrow> struct_info checked \<Rightarrow> struct_info checked" where
  "collect_field d gs f = (\<lambda>(info, s).
     let t = type_from_ast (fld_type f) gs;
         info = info\<lparr>si_fields := AList.update (fld_name f) t (si_fields info)\<rparr>
     in if fld_is_shared f then
          (info\<lparr>si_shared_fields := insert (fld_name f) (si_shared_fields info)\<rparr>, check_shared_field d f t s)
        else (info, s))"

definition collect_struct :: "struct_decl \<Rightarrow> type_checker \<Rightarrow> type_checker" where
  "collect_struct d s =
     (case fold (collect_field d (set (map gp_name (sd_generics d)))) (sd_fields d)
         (\<lparr>si_name = sd_name d, si_generic_names = map gp_name (sd_generics d),
           si_bounds = collect_bounds (sd_generics d), si_fields = [], si_shared_fields = {}, si_decl = Some d\<rparr>, s) of
       (info, s) \<Rightarrow>
         s\<lparr>tc_model := (tc_model s)\<lparr>sm_structs := AList.update (sd_name d) info (structs_of s)\<rparr>\<rparr>)"

definition collect_global :: "global_decl \<Rightarrow> type_checker \<Rightarrow> type_checker" where
  "collect_global d s =
     (let t = type_from_ast (gd_type d) {};
          s = tc_require (\<not> (gd_is_shared d \<and> gd_is_percpu d)) (gd_range d) ''E0351''
            ''a global cannot be both shared and percpu'' s;
          s = tc_require (gd_is_shared d \<longrightarrow> is_integer t \<or> ty_kind t = KRawPtr) (gd_range d) ''E0352''
            ''shared globals require integer or raw pointer type (bool uses AtomicBool)'' s
      in s\<lparr>tc_model := (tc_model s)\<lparr>sm_globals := AList.update (gd_name d)
        \<lparr>gi_name = gd_name d, gi_type = t, gi_is_mut = gd_is_mut d, gi_is_const = gd_is_const d,
         gi_is_shared = gd_is_shared d, gi_is_percpu = gd_is_percpu d, gi_decl = Some d\<rparr> (globals_of s)\<rparr>\<rparr>)"

definition collect_trait :: "trait_decl \<Rightarrow> type_checker \<Rightarrow> type_checker" where
  "collect_trait d s = s\<lparr>tc_model := (tc_model s)\<lparr>sm_traits :=
     AList.update (td_name d) \<lparr>ti_name = td_name d, ti_decl = Some d\<rparr> (sm_traits (tc_model s))\<rparr>\<rparr>"

definition collect_marker :: "marker_decl \<Rightarrow> type_checker \<Rightarrow> type_checker" where
  "collect_marker d s = s\<lparr>tc_model := (tc_model s)\<lparr>sm_markers := sm_markers (tc_model s) @
     [\<lparr>mi_trait = (if mk_kind d = MarkerSend then ''Send'' else ''Sync''),
       mi_type = type_from_ast (mk_type d) (set (map gp_name (mk_generics d))),
       mi_generic_names = map gp_name (mk_generics d), mi_bounds = collect_bounds (mk_generics d),
       mi_decl = Some d\<rparr>]\<rparr>\<rparr>"

definition collect_item :: "item \<Rightarrow> type_checker \<Rightarrow> type_checker" where
  "collect_item it s =
     (case it of
       FunctionItem d \<Rightarrow> collect_function d s
     | StructItem d \<Rightarrow> collect_struct d s
     | GlobalItem d \<Rightarrow> collect_global d s
     | TraitItem d \<Rightarrow> collect_trait d s
     | MarkerItem d \<Rightarrow> collect_marker d s
     | ImplItem _ \<Rightarrow> s)"

subsection \<open>Implementations\<close>

definition collect_method :: "ty \<Rightarrow> function_decl \<Rightarrow> type_checker \<Rightarrow> type_checker" where
  "collect_method owner m s =
     (let key = ty_name owner @ ''::'' @ fd_name m in
      if map_of (functions_of s) key \<noteq> None then
        tc_error (fd_range m) ''E0350''
          (''duplicate method '' @ quoted (fd_name m) @ '' for type '' @ quoted (type_str owner)) s
      else add_function_sig key
        (collect_sig (ty_name owner @ ''__'' @ fd_name m) (\<lambda>t. replace_self t owner) m) s)"

definition check_required :: "impl_decl \<Rightarrow> ty \<Rightarrow> trait_method \<Rightarrow> type_checker \<Rightarrow> type_checker" where
  "check_required im owner required s =
     (let as_type = (\<lambda>r. replace_self (type_from_ast r {}) owner);
          as_params = map (\<lambda>p. as_type (par_type p))
      in case find (\<lambda>m. fd_name m = tm_name required) (im_methods im) of
           None \<Rightarrow> tc_error (im_range im) ''E0347''
             (''trait impl for '' @ quoted (type_str owner) @ '' is missing method '' @ quoted (tm_name required)) s
         | Some m \<Rightarrow>
             tc_require (types_eq (as_params (tm_params required)) (as_params (fd_params m)) \<and>
                 type_eq (as_type (tm_return_type required)) (as_type (fd_return_type m)) \<and>
                 tm_is_unsafe required = fd_is_unsafe m)
               (fd_range m) ''E0348'' (''method '' @ quoted (tm_name required) @ '' does not match trait declaration'') s)"

definition check_duplicate_impl :: "impl_decl \<Rightarrow> string \<Rightarrow> ty \<Rightarrow> impl_info \<Rightarrow> type_checker \<Rightarrow> type_checker" where
  "check_duplicate_impl im trait owner old s =
     tc_require (\<not> (ii_trait old = trait \<and> type_eq (ii_for_type old) owner)) (im_range im) ''E0349''
       (''duplicate impl for '' @ quoted (type_str owner) @ '' and trait '' @
        quoted (if trait = [] then ''<inherent>'' else trait)) s"

definition trait_required :: "string option \<Rightarrow> type_checker \<Rightarrow> trait_method list" where
  "trait_required trait s =
     (case trait of
       None \<Rightarrow> []
     | Some n \<Rightarrow> (case map_of (sm_traits (tc_model s)) n of
         None \<Rightarrow> []
       | Some ti \<Rightarrow> (case ti_decl ti of None \<Rightarrow> [] | Some d \<Rightarrow> td_methods d)))"

definition collect_impl :: "item \<Rightarrow> type_checker \<Rightarrow> type_checker" where
  "collect_impl it s =
     (case it of
       ImplItem im \<Rightarrow>
         (let owner = type_from_ast (im_for_type im) {};
              trait = (case im_trait_name im of None \<Rightarrow> [] | Some n \<Rightarrow> n);
              s = (case im_trait_name im of
                  None \<Rightarrow> s
                | Some n \<Rightarrow> tc_require (map_of (sm_traits (tc_model s)) n \<noteq> None) (im_range im) ''E0300''
                    (''impl references unknown trait '' @ quoted n) s);
              s = fold (check_duplicate_impl im trait owner) (sm_impls (tc_model s)) s;
              s = s\<lparr>tc_model := (tc_model s)\<lparr>sm_impls := sm_impls (tc_model s) @
                    [\<lparr>ii_trait = trait, ii_for_type = owner, ii_decl = Some im\<rparr>]\<rparr>\<rparr>;
              s = fold (collect_method owner) (im_methods im) s
          in fold (check_required im owner) (trait_required (im_trait_name im) s) s)
     | _ \<Rightarrow> s)"

definition collect_items :: "ast_module \<Rightarrow> type_checker \<Rightarrow> type_checker" where
  "collect_items md s = fold collect_impl (am_items md) (fold collect_item (am_items md) s)"

subsection \<open>Types that may be Copy\<close>

definition has_impl :: "sem_model \<Rightarrow> string \<Rightarrow> ty \<Rightarrow> bool" where
  "has_impl M trait t \<longleftrightarrow> list_ex (\<lambda>im. ii_trait im = trait \<and> type_eq (ii_for_type im) t) (sm_impls M)"

definition copy_keys :: "sem_model \<Rightarrow> string set" where
  "copy_keys M = (\<lambda>im. type_str (ii_for_type im)) ` {im \<in> set (sm_impls M). ii_trait im = ''Copy''}"

function copy_eligible :: "sem_model \<Rightarrow> string set \<Rightarrow> bool \<Rightarrow> ty \<Rightarrow> bool" where
  "copy_eligible M visiting explicit t =
     (if is_copy t then True
      else if ty_kind t = KRef then \<not> ty_mut t
      else if ty_kind t \<noteq> KNamed then False
      else if type_str t \<in> visiting then False
      else if has_impl M ''Drop'' t then False
      else if explicit \<and> \<not> has_impl M ''Copy'' t then False
      else (case map_of (sm_structs M) (ty_name t) of
          None \<Rightarrow> False
        | Some si \<Rightarrow>
            length (ty_args t) = length (si_generic_names si) \<and>
            list_all (\<lambda>(n, ft). copy_eligible M (insert (type_str t) visiting) True
                (substitute_type ft (struct_subst si t))) (si_fields si)))"
  by pat_completeness auto
termination
proof (relation "measure (\<lambda>(M, visiting, explicit, t). 2 * card (copy_keys M - visiting) + (if explicit then 0 else 1))")
  fix M visiting explicit t si and z :: "string \<times> ty" and n ft
  assume new: "type_str t \<notin> visiting" and ok: "\<not> (explicit \<and> \<not> has_impl M ''Copy'' t)"
  have fin: "finite (copy_keys M)"
    by (simp add: copy_keys_def)
  have "card (copy_keys M - insert (type_str t) visiting) \<le> card (copy_keys M - visiting)"
    using fin by (intro card_mono) auto
  moreover have "card (copy_keys M - insert (type_str t) visiting) < card (copy_keys M - visiting)" if "explicit"
  proof (rule psubset_card_mono)
    have "type_str t \<in> copy_keys M"
      using ok that by (auto simp: has_impl_def copy_keys_def list_ex_iff type_eq_iff)
    with new show "copy_keys M - insert (type_str t) visiting \<subset> copy_keys M - visiting"
      by blast
  qed (use fin in simp)
  ultimately show "((M, insert (type_str t) visiting, True, substitute_type ft (struct_subst si t)), M, visiting, explicit, t)
      \<in> measure (\<lambda>(M, visiting, explicit, t). 2 * card (copy_keys M - visiting) + (if explicit then 0 else 1))"
    by (cases explicit) auto
qed simp

declare copy_eligible.simps [simp del]

definition impl_range :: "impl_info \<Rightarrow> src_range" where
  "impl_range im = (case ii_decl im of None \<Rightarrow> initial_range | Some d \<Rightarrow> im_range d)"

definition validate_impl :: "impl_info \<Rightarrow> type_checker \<Rightarrow> type_checker" where
  "validate_impl im s =
     (if ii_trait im = ''Send'' \<or> ii_trait im = ''Sync'' then
        tc_error (impl_range im) ''E0365'' (''use the simpler unsafe '' @ ii_trait im @
          '' declaration for an explicit thread-safety marker'') s
      else if ii_trait im \<noteq> ''Copy'' then s
      else tc_require (copy_eligible (tc_model s) {} False (ii_for_type im)) (impl_range im) ''E0361''
        (''type '' @ quoted (type_str (ii_for_type im)) @ '' cannot implement Copy: every field must be Copy '' @
         ''and Copy is incompatible with mutable references or Drop'') s)"

definition validate_special_traits :: "type_checker \<Rightarrow> type_checker" where
  "validate_special_traits s = fold validate_impl (sm_impls (tc_model s)) s"

end
