(* ===== verification/TypeExpr.thy ===== *)
theory TypeExpr
  imports TypeState
begin

text \<open>
  Expressions in the type checker (src/sema_expr.cpp and the lookups of src/sema_stmt.cpp). An
  expression reads its context and writes the types of its nodes. The vectors of scopes have their
  innermost first.
\<close>

record fn_context =
  fc_sig :: function_sig
  fc_scopes :: "(string \<rightharpoonup> ty) list"
  fc_mutable :: "string set list"
  fc_unsafe :: bool
  fc_loops :: nat

definition record_type :: "nat \<Rightarrow> ty checked \<Rightarrow> ty checked" where
  "record_type i = (\<lambda>(t, s). (t, s\<lparr>tc_model := (tc_model s)\<lparr>sm_expr_types := (sm_expr_types (tc_model s))(i \<mapsto> t)\<rparr>\<rparr>))"

definition type_of_node :: "type_checker \<Rightarrow> expr \<Rightarrow> ty" where
  "type_of_node s e = (case sm_expr_types (tc_model s) (expr_id e) of None \<Rightarrow> error_type | Some t \<Rightarrow> t)"

fun find_local :: "string \<Rightarrow> (string \<rightharpoonup> ty) list \<Rightarrow> ty option" where
  "find_local n [] = None"
| "find_local n (sc # scs) = (case sc n of Some t \<Rightarrow> Some t | None \<Rightarrow> find_local n scs)"

definition lookup_local :: "string \<Rightarrow> fn_context \<Rightarrow> src_range \<Rightarrow> type_checker \<Rightarrow> ty checked" where
  "lookup_local n c r s =
     (case find_local n (fc_scopes c) of
       Some t \<Rightarrow> (t, s)
     | None \<Rightarrow>
         (case map_of (globals_of s) n of
           Some g \<Rightarrow> (gi_type g, s)
         | None \<Rightarrow> (error_type, tc_error r ''E0305'' (''name '' @ quoted n @ '' is not a value in this scope'') s)))"

definition is_mutable_binding :: "string \<Rightarrow> fn_context \<Rightarrow> type_checker \<Rightarrow> bool" where
  "is_mutable_binding n c s \<longleftrightarrow>
     list_ex (\<lambda>ms. n \<in> ms) (fc_mutable c) \<or>
     (case map_of (globals_of s) n of None \<Rightarrow> False | Some g \<Rightarrow> gi_is_mut g \<and> \<not> gi_is_const g)"

fun is_mutable_place :: "expr \<Rightarrow> fn_context \<Rightarrow> type_checker \<Rightarrow> bool" where
  "is_mutable_place (NameExpr _ _ n) c s = is_mutable_binding n c s"
| "is_mutable_place (MemberExpr _ _ b _) c s =
     (if ty_kind (type_of_node s b) = KRef then ty_mut (type_of_node s b) else is_mutable_place b c s)"
| "is_mutable_place (IndexExpr _ _ b _) c s =
     (if ty_kind (type_of_node s b) = KRef then ty_mut (type_of_node s b)
      else if ty_kind (type_of_node s b) = KNamed \<and> ty_name (type_of_node s b) = ''SliceMut''
      then is_mutable_place b c s else False)"
| "is_mutable_place (UnaryExpr _ _ op x) c s \<longleftrightarrow>
     op = ''*'' \<and> (ty_kind (type_of_node s x) = KRef \<or> ty_kind (type_of_node s x) = KRawPtr) \<and>
     ty_mut (type_of_node s x)"
| "is_mutable_place _ c s = False"

function (sequential)
    unify_generic :: "ty \<Rightarrow> ty \<Rightarrow> type_subst \<Rightarrow> bool \<times> type_subst"
and unify_generics :: "ty list \<Rightarrow> ty list \<Rightarrow> type_subst \<Rightarrow> bool \<times> type_subst" where
  "unify_generic (Ty k n as p m nl) a sub =
     (if k = KGeneric then
        (case sub n of None \<Rightarrow> (True, sub(n \<mapsto> a)) | Some t \<Rightarrow> (type_eq t a, sub))
      else if k \<noteq> ty_kind a then (False, sub)
      else (case (p, ty_pointee a) of
          (Some q, Some q') \<Rightarrow> if m = ty_mut a then unify_generic q q' sub else (False, sub)
        | _ \<Rightarrow>
            if length as \<noteq> length (ty_args a) then (False, sub)
            else (case unify_generics as (ty_args a) sub of
                (ok, sub) \<Rightarrow> (ok \<and> (n = ty_name a \<or> n = [] \<or> ty_name a = []), sub))))"
| "unify_generics (f # fs) (a # as) sub =
     (case unify_generic f a sub of (ok, sub) \<Rightarrow> if ok then unify_generics fs as sub else (False, sub))"
| "unify_generics _ _ sub = (True, sub)"
  by pat_completeness auto
termination
  by (relation "measure (case_sum (\<lambda>(f, a, sub). size f) (\<lambda>(fs, as, sub). size_list size fs))") auto

subsection \<open>Calls of builtin functions\<close>

definition string_like :: "ty \<Rightarrow> bool" where
  "string_like t \<longleftrightarrow> ty_kind t = KStr \<or> points_to_str t"

definition printable :: "ty \<Rightarrow> bool" where
  "printable t \<longleftrightarrow> is_integer t \<or> is_float t \<or> ty_kind t = KBool \<or> ty_kind t = KChar \<or> string_like t"

fun check_printed :: "expr list \<Rightarrow> ty list \<Rightarrow> type_checker \<Rightarrow> type_checker" where
  "check_printed (e # es) (t # ts) s =
     check_printed es ts (tc_require (printable t) (expr_range e) ''E0367''
       (''print argument has unsupported type '' @ quoted (type_str t)) s)"
| "check_printed _ _ s = s"

definition check_single ::
  "src_range \<Rightarrow> string \<Rightarrow> expr list \<Rightarrow> ty list \<Rightarrow> (ty \<Rightarrow> bool) \<Rightarrow> string \<Rightarrow> (ty \<Rightarrow> string) \<Rightarrow> type_checker \<Rightarrow> type_checker" where
  "check_single r name es ts ok code message s =
     (case (es, ts) of
       ([e], [t]) \<Rightarrow> tc_require (ok t) (expr_range e) code (message t) s
     | _ \<Rightarrow> tc_error r ''E0370'' (name @ '' expects exactly one argument'') s)"

definition check_builtin_call :: "string \<Rightarrow> src_range \<Rightarrow> expr list \<Rightarrow> ty list \<Rightarrow> type_checker \<Rightarrow> ty checked" where
  "check_builtin_call name r es ts s =
     (if name \<in> {''print'', ''println'', ''eprint'', ''eprintln''} then
        (builtin_type ''unit'', check_printed es ts s)
      else if name = ''input'' then
        (ref_type (builtin_type ''str'') False,
         (case (es, ts) of
            (e # _, t # _) \<Rightarrow> tc_require (string_like t) (expr_range e) ''E0369'' ''input prompt must be a string''
          | _ \<Rightarrow> id)
         (tc_require (length ts \<le> 1) r ''E0368'' ''input expects zero or one prompt argument'' s))
      else if name = ''str'' then
        (ref_type (builtin_type ''str'') False,
         check_single r name es ts printable ''E0371''
           (\<lambda>t. ''str argument has unsupported type '' @ quoted (type_str t)) s)
      else if name = ''int'' \<or> name = ''float'' then
        (builtin_type (if name = ''int'' then ''i64'' else ''f64''),
         check_single r name es ts (\<lambda>t. is_numeric t \<or> string_like t) ''E0372''
           (\<lambda>_. name @ '' argument must be numeric or string-like'') s)
      else if name = ''bool'' then
        (builtin_type ''bool'',
         check_single r name es ts (\<lambda>t. ty_kind t = KBool \<or> is_numeric t \<or> string_like t) ''E0373''
           (\<lambda>_. ''bool argument must be scalar or string-like'') s)
      else if name = ''len'' then
        (builtin_type ''usize'',
         check_single r name es ts string_like ''E0374''
           (\<lambda>t. ''len is not implemented for type '' @ quoted (type_str t)) s)
      else (error_type, s))"

subsection \<open>Calls of functions and methods\<close>

definition check_bound :: "src_range \<Rightarrow> string \<Rightarrow> (string \<Rightarrow> string) \<Rightarrow> ty \<Rightarrow> string \<Rightarrow> type_checker \<Rightarrow> type_checker" where
  "check_bound r code message t bound s =
     (case tc_satisfies t bound [] s of (ok, s) \<Rightarrow> tc_require ok r code (message bound) s)"

fun check_call_bounds :: "src_range \<Rightarrow> type_subst \<Rightarrow> bounds \<Rightarrow> type_checker \<Rightarrow> type_checker" where
  "check_call_bounds r sub [] s = s"
| "check_call_bounds r sub ((g, bs) # gbs) s =
     check_call_bounds r sub gbs
       (case sub g of
         None \<Rightarrow> tc_error r ''E0312'' (''cannot infer generic parameter '' @ quoted g) s
       | Some t \<Rightarrow> fold (check_bound r ''E0313''
           (\<lambda>b. ''type '' @ quoted (type_str t) @ '' does not satisfy trait '' @ quoted b) t) bs s)"

fun check_actuals :: "nat \<Rightarrow> (expr \<times> ty) list \<Rightarrow> ty list \<Rightarrow> type_subst \<Rightarrow> type_checker \<Rightarrow> type_subst checked" where
  "check_actuals i ((e, a) # as) (f # fs) sub s =
     (case unify_generic f a sub of
       (ok, sub') \<Rightarrow>
         check_actuals (Suc i) as fs sub'
           (tc_require (ok \<or> can_coerce_expr (Some e) a (substitute_type f sub)) (expr_range e) ''E0311''
             (''argument '' @ nat_to_string (Suc i) @ '' has type '' @ quoted (type_str a) @ '', expected '' @
              quoted (type_str (substitute_type f sub))) s))"
| "check_actuals i _ _ sub s = (sub, s)"

definition explicit_generics :: "src_range \<Rightarrow> type_ref list \<Rightarrow> string list \<Rightarrow> type_checker \<Rightarrow> type_subst checked" where
  "explicit_generics r gargs names s =
     (if gargs = [] then (Map.empty, s)
      else if length gargs \<noteq> length names then
        (Map.empty, tc_error r ''E0310'' ''wrong number of explicit generic arguments'' s)
      else (fold (\<lambda>(n, g) m. m(n \<mapsto> type_from_ast g {})) (zip names gargs) Map.empty, s))"

definition finish_call ::
  "src_range \<Rightarrow> type_ref list \<Rightarrow> bool \<Rightarrow> string \<Rightarrow> function_sig \<Rightarrow> (expr \<times> ty) list \<Rightarrow> fn_context \<Rightarrow> type_checker \<Rightarrow> ty checked" where
  "finish_call r gargs method name sig actuals c s =
     (let s = tc_require (\<not> (fs_is_unsafe sig \<and> \<not> fc_unsafe c)) r ''E0308''
            (''call to unsafe function/method '' @ quoted name @ '' requires unsafe context'') s
      in if length actuals \<noteq> length (fs_params sig) then
           (fs_result sig, tc_error r ''E0309''
             (''function/method '' @ quoted name @ '' expects '' @
              nat_to_string (length (fs_params sig) - (if method then 1 else 0)) @ '' arguments, got '' @
              nat_to_string (length actuals - (if method then 1 else 0))) s)
         else (case explicit_generics r gargs (fs_generic_names sig) s of
             (sub, s) \<Rightarrow>
               (case check_actuals 0 actuals (fs_params sig) sub s of
                 (sub, s) \<Rightarrow>
                   (let result = substitute_type (fs_result sig) sub
                    in (if fs_is_async sig then named_type ''Future'' [result] else result,
                        check_call_bounds r sub (fs_bounds sig) s)))))"

definition strip_ref :: "ty \<Rightarrow> ty" where
  "strip_ref t = (case (ty_kind t = KRef, ty_pointee t) of (True, Some q) \<Rightarrow> q | _ \<Rightarrow> t)"

text \<open>The method a receiver of a type has, and the type it is passed at.\<close>

definition find_method :: "src_range \<Rightarrow> string \<Rightarrow> ty \<Rightarrow> type_checker \<Rightarrow> function_sig option checked" where
  "find_method r member owner s =
     (if ty_kind owner \<noteq> KNamed then (None, tc_error r ''E0306'' ''method receiver must be a named type'' s)
      else (case map_of (functions_of s) (ty_name owner @ ''::'' @ member) of
          None \<Rightarrow> (None, tc_error r ''E0307''
            (''type '' @ quoted (type_str owner) @ '' has no method '' @ quoted member) s)
        | Some sig \<Rightarrow> (Some sig, s)))"

definition receiver_type :: "function_sig \<Rightarrow> ty \<Rightarrow> ty" where
  "receiver_type sig owner =
     (case fs_params sig of
       p # _ \<Rightarrow> if ty_kind p = KRef then ref_type owner (ty_mut p) else owner
     | [] \<Rightarrow> owner)"

definition check_receiver :: "expr \<Rightarrow> string \<Rightarrow> function_sig \<Rightarrow> ty \<Rightarrow> fn_context \<Rightarrow> type_checker \<Rightarrow> type_checker" where
  "check_receiver base name sig receiver c s =
     (case fs_params sig of
       p # _ \<Rightarrow>
         tc_require (ty_kind p = KRef \<and> ty_mut p \<longrightarrow>
             is_mutable_place base c s \<or> ty_kind receiver = KRef \<and> ty_mut receiver)
           (expr_range base) ''E0346'' (''method '' @ quoted name @ '' requires a mutable receiver'') s
     | [] \<Rightarrow> s)"

subsection \<open>Struct literals\<close>

fun check_literal_bounds :: "src_range \<Rightarrow> type_subst \<Rightarrow> bounds \<Rightarrow> type_checker \<Rightarrow> type_checker" where
  "check_literal_bounds r sub [] s = s"
| "check_literal_bounds r sub ((g, bs) # gbs) s =
     check_literal_bounds r sub gbs
       (case sub g of
         None \<Rightarrow> s
       | Some t \<Rightarrow> fold (check_bound r ''E0362''
           (\<lambda>b. ''type '' @ quoted (type_str t) @ '' does not satisfy struct bound '' @ quoted (g @ '': '' @ b)) t) bs s)"

definition start_literal ::
  "src_range \<Rightarrow> string \<Rightarrow> ty list \<Rightarrow> type_checker \<Rightarrow> (struct_info \<times> type_subst) option checked" where
  "start_literal r name targs s =
     (case map_of (structs_of s) name of
       None \<Rightarrow> (None, tc_error r ''E0337'' (''unknown struct '' @ quoted name) s)
     | Some si \<Rightarrow>
         if length targs \<noteq> length (si_generic_names si) then
           (None, tc_error r ''E0338'' (''struct '' @ quoted name @ '' expects '' @
             nat_to_string (length (si_generic_names si)) @ '' type arguments, got '' @ nat_to_string (length targs)) s)
         else (let sub = struct_subst si (named_type name targs)
               in (Some (si, sub), check_literal_bounds r sub (si_bounds si) s)))"

definition check_seen :: "string \<Rightarrow> src_range \<Rightarrow> string set \<Rightarrow> type_checker \<Rightarrow> type_checker" where
  "check_seen n r seen s =
     tc_require (n \<notin> seen) r ''E0339'' (''duplicate field '' @ quoted n @ '' in struct literal'') s"

definition check_field ::
  "string \<Rightarrow> struct_info \<Rightarrow> type_subst \<Rightarrow> string \<Rightarrow> expr \<Rightarrow> src_range \<Rightarrow> ty \<Rightarrow> type_checker \<Rightarrow> type_checker" where
  "check_field sname si sub n e r actual s =
     (case map_of (si_fields si) n of
       None \<Rightarrow> tc_error r ''E0340'' (''struct '' @ quoted sname @ '' has no field '' @ quoted n) s
     | Some ft \<Rightarrow>
         tc_require (can_coerce_expr (Some e) actual (substitute_type ft sub)) r ''E0341''
           (''field '' @ quoted n @ '' expects '' @ quoted (type_str (substitute_type ft sub)) @ '', found '' @
            quoted (type_str actual)) s)"

definition check_missing :: "src_range \<Rightarrow> string \<Rightarrow> struct_info \<Rightarrow> string set \<Rightarrow> type_checker \<Rightarrow> type_checker" where
  "check_missing r sname si seen s =
     fold (\<lambda>(n, _). tc_require (n \<in> seen) r ''E0342''
       (''missing field '' @ quoted n @ '' in struct literal '' @ quoted sname)) (si_fields si) s"

subsection \<open>Operators\<close>

definition unary_type :: "src_range \<Rightarrow> string \<Rightarrow> ty \<Rightarrow> fn_context \<Rightarrow> type_checker \<Rightarrow> ty checked" where
  "unary_type r op x c s =
     (if op = ''!'' then
        (x, tc_require (ty_kind x = KBool \<or> is_integer x) r ''E0318'' ''not/! requires bool or integer'' s)
      else if op = ''~'' then (x, tc_require (is_integer x) r ''E0318'' ''~ requires an integer operand'' s)
      else if op = ''-'' then (x, tc_require (is_numeric x) r ''E0319'' ''unary - requires numeric operand'' s)
      else if op = ''move'' then (x, s)
      else if op = ''*'' then
        (if ty_kind x \<noteq> KRef \<and> ty_kind x \<noteq> KRawPtr then
           (error_type, tc_error r ''E0320'' ''dereference requires reference or raw pointer'' s)
         else ((case ty_pointee x of None \<Rightarrow> error_type | Some q \<Rightarrow> q),
               tc_require (\<not> (ty_kind x = KRawPtr \<and> \<not> fc_unsafe c)) r ''E0321''
                 ''dereferencing a raw pointer requires unsafe context'' s))
      else (error_type, s))"

text \<open>A literal operand takes the type of the other one; the literal under a minus sign too.\<close>

definition retype_literal :: "expr \<Rightarrow> ty \<Rightarrow> type_checker \<Rightarrow> type_checker" where
  "retype_literal e t s =
     (case e of UnaryExpr _ _ _ x \<Rightarrow> snd (record_type (expr_id x) (t, snd (record_type (expr_id e) (t, s))))
      | _ \<Rightarrow> snd (record_type (expr_id e) (t, s)))"

definition adapt_operands :: "expr \<Rightarrow> expr \<Rightarrow> ty \<Rightarrow> ty \<Rightarrow> type_checker \<Rightarrow> (ty \<times> ty) checked" where
  "adapt_operands a b l q s =
     (if is_integer l \<and> is_integer q \<and> \<not> type_eq l q then
        (if integer_literal a \<and> can_coerce_expr (Some a) l q then ((q, q), retype_literal a q s)
         else if integer_literal b \<and> can_coerce_expr (Some b) q l then ((l, l), retype_literal b l s)
         else ((l, q), s))
      else ((l, q), s))"

definition binary_type :: "src_range \<Rightarrow> string \<Rightarrow> ty \<Rightarrow> ty \<Rightarrow> fn_context \<Rightarrow> type_checker \<Rightarrow> ty checked" where
  "binary_type r op l q c s =
     (let s = tc_require (\<not> ((ty_kind l = KRawPtr \<or> ty_kind q = KRawPtr) \<and> (op = ''+'' \<or> op = ''-'') \<and> \<not> fc_unsafe c))
            r ''E0322'' ''raw pointer arithmetic requires unsafe context'' s
      in if op \<in> {''=='', ''!='', ''<'', ''<='', ''>'', ''>=''} then
           (builtin_type ''bool'', tc_require (can_coerce l q \<or> can_coerce q l) r ''E0323''
             ''comparison operands have incompatible types'' s)
         else if op = ''&&'' \<or> op = ''||'' then
           (builtin_type ''bool'', tc_require (ty_kind l = KBool \<and> ty_kind q = KBool) r ''E0324''
             ''logical operators require bool operands'' s)
         else if op \<in> {''&'', ''|'', ''^'', ''<<'', ''>>''} then
           (l, tc_require (type_eq l q \<and> is_integer l) r ''E0325''
             ''bitwise/shift operators require matching integer operands'' s)
         else if ty_kind l = KRawPtr \<and> (op = ''+'' \<or> op = ''-'') \<and> is_integer q then (l, s)
         else if type_eq l q \<and> is_numeric l then (l, s)
         else (error_type, tc_error r ''E0325'' (''binary operator '' @ quoted op @ '' cannot combine '' @
           quoted (type_str l) @ '' and '' @ quoted (type_str q)) s))"

definition member_type :: "src_range \<Rightarrow> ty \<Rightarrow> string \<Rightarrow> type_checker \<Rightarrow> ty checked" where
  "member_type r base member s =
     (case (ty_kind base = KNamed, map_of (structs_of s) (ty_name base)) of
       (True, Some si) \<Rightarrow>
         (case map_of (si_fields si) member of
           None \<Rightarrow> (error_type, tc_error r ''E0327''
             (''struct '' @ quoted (ty_name base) @ '' has no field '' @ quoted member) s)
         | Some ft \<Rightarrow> (substitute_type ft (struct_subst si base), s))
     | _ \<Rightarrow> (error_type, tc_error r ''E0326'' ''member access requires struct type'' s))"

definition index_type :: "src_range \<Rightarrow> ty \<Rightarrow> type_checker \<Rightarrow> ty checked" where
  "index_type r b s =
     (let container = strip_ref b in
      case (ty_kind container = KNamed \<and> (ty_name container = ''Slice'' \<or> ty_name container = ''SliceMut''),
            ty_args container) of
        (True, t # _) \<Rightarrow> (t, s)
      | _ \<Rightarrow>
          if ty_kind container = KStr then (builtin_type ''u8'', s)
          else (error_type, tc_error r ''E0329'' (''type '' @ quoted (type_str b) @ '' is not safely indexable'') s))"

definition await_type :: "src_range \<Rightarrow> ty \<Rightarrow> type_checker \<Rightarrow> ty checked" where
  "await_type r f s =
     (case (ty_kind f = KNamed \<and> ty_name f = ''Future'', ty_args f) of
       (True, [t]) \<Rightarrow> (t, s)
     | _ \<Rightarrow> (error_type, tc_error r ''E0330'' ''await requires Future<T>'' s))"

definition ref_to_raw :: "ty \<Rightarrow> ty \<Rightarrow> bool" where
  "ref_to_raw from to \<longleftrightarrow> ty_kind from = KRef \<and> ty_kind to = KRawPtr \<and> ty_pointee from \<noteq> None \<and> ty_pointee to \<noteq> None"

definition str_to_raw :: "ty \<Rightarrow> ty \<Rightarrow> bool" where
  "str_to_raw from to \<longleftrightarrow> ty_kind from = KStr \<and> ty_kind to = KRawPtr \<and>
     (case ty_pointee to of None \<Rightarrow> False | Some q \<Rightarrow> ty_kind q = KU8)"

definition check_cast :: "src_range \<Rightarrow> ty \<Rightarrow> ty \<Rightarrow> fn_context \<Rightarrow> type_checker \<Rightarrow> type_checker" where
  "check_cast r from to c s =
     tc_require (is_numeric from \<and> is_numeric to \<or> ref_to_raw from to \<or> str_to_raw from to \<or>
         ty_kind from = KRawPtr \<or> ty_kind to = KRawPtr)
       r ''E0332'' (''unsupported cast from '' @ quoted (type_str from) @ '' to '' @ quoted (type_str to))
       (if ref_to_raw from to then
          tc_require (\<not> (ty_mut to \<and> \<not> ty_mut from)) r ''E0332''
            ''cannot create mutable raw pointer from shared reference''
            (tc_require (case (ty_pointee from, ty_pointee to) of (Some p, Some q) \<Rightarrow> can_coerce p q | _ \<Rightarrow> True)
              r ''E0332'' ''reference/raw-pointer pointee types are incompatible'' s)
        else
          tc_require (\<not> ((ty_kind from = KRawPtr \<or> ty_kind to = KRawPtr) \<and>
              \<not> (ty_kind from = KStr \<and> ty_kind to = KRawPtr) \<and> \<not> fc_unsafe c))
            r ''E0331'' ''this raw pointer cast requires unsafe context'' s)"

subsection \<open>Inline assembly\<close>

definition start_asm :: "src_range \<Rightarrow> string \<Rightarrow> fn_context \<Rightarrow> type_checker \<Rightarrow> type_checker" where
  "start_asm r assembly c s =
     (let s = tc_require (fc_unsafe c) r ''E0314'' ''asm() is only permitted inside unsafe code'' s
      in if assembly = [] then tc_warning r ''W0315'' ''empty asm template'' s else s)"

definition constraint_char :: "char \<Rightarrow> bool" where
  "constraint_char ch \<longleftrightarrow> char_isalnum ch \<or> ch \<in> set ''=+&{},~*''"

definition check_constraint :: "string \<Rightarrow> src_range \<Rightarrow> type_checker \<Rightarrow> type_checker" where
  "check_constraint k r s =
     fold (\<lambda>ch. tc_require (constraint_char ch) r ''E0317'' (''invalid character in asm constraint '' @ quoted k)) k
       (tc_require (k \<noteq> []) r ''E0316'' ''asm register/clobber constraint cannot be empty'' s)"

subsection \<open>Expressions\<close>

function (sequential)
    check_expr :: "expr \<Rightarrow> fn_context \<Rightarrow> type_checker \<Rightarrow> ty checked"
and check_exprs :: "expr list \<Rightarrow> fn_context \<Rightarrow> type_checker \<Rightarrow> ty list checked"
and check_fields ::
  "field_init list \<Rightarrow> string \<Rightarrow> struct_info \<Rightarrow> type_subst \<Rightarrow> string set \<Rightarrow> fn_context \<Rightarrow> type_checker \<Rightarrow> string set checked"
and check_operands :: "asm_operand list \<Rightarrow> fn_context \<Rightarrow> type_checker \<Rightarrow> type_checker" where
  "check_expr (IntegerExpr i r v) c s = record_type i (builtin_type ''i32'', s)"
| "check_expr (FloatExpr i r v) c s = record_type i (builtin_type ''f64'', s)"
| "check_expr (StringExpr i r v) c s = record_type i (ref_type (builtin_type ''str'') False, s)"
| "check_expr (CharExpr i r v) c s = record_type i (builtin_type ''char'', s)"
| "check_expr (BoolExpr i r v) c s = record_type i (builtin_type ''bool'', s)"
| "check_expr (NameExpr i r n) c s =
     record_type i
       (if map_of (functions_of s) n \<noteq> None then (named_type ''fn'' [], s) else lookup_local n c r s)"
| "check_expr (StructLiteralExpr i r n gs fs) c s =
     record_type i
       (case start_literal r n (map (\<lambda>g. type_from_ast g {}) gs) s of
         (None, s) \<Rightarrow> (error_type, s)
       | (Some (si, sub), s) \<Rightarrow>
           (case check_fields fs n si sub {} c s of
             (seen, s) \<Rightarrow> (named_type n (map (\<lambda>g. type_from_ast g {}) gs), check_missing r n si seen s)))"
| "check_expr (UnaryExpr i r op e) c s =
     record_type i (case check_expr e c s of (x, s) \<Rightarrow> unary_type r op x c s)"
| "check_expr (BinaryExpr i r op a b) c s =
     record_type i
       (case check_expr a c s of
         (l, s) \<Rightarrow> (case check_expr b c s of
           (q, s) \<Rightarrow> (case adapt_operands a b l q s of ((l, q), s) \<Rightarrow> binary_type r op l q c s)))"
| "check_expr (BorrowExpr i r e m) c s =
     record_type i
       (case check_expr e c s of
         (t, s) \<Rightarrow> (ref_type t m, tc_require (m \<longrightarrow> is_mutable_place e c s) r ''E0336''
           ''mutable borrow requires a mutable place'' s))"
| "check_expr (CallExpr i r f gs as) c s =
     record_type i
       (case f of
         NameExpr _ _ n \<Rightarrow>
           (if builtin_function n then (case check_exprs as c s of (ts, s) \<Rightarrow> check_builtin_call n r as ts s)
            else (case map_of (functions_of s) n of
                None \<Rightarrow> (error_type, tc_error r ''E0307'' (''unknown function '' @ quoted n) s)
              | Some sig \<Rightarrow> (case check_exprs as c s of
                  (ts, s) \<Rightarrow> finish_call r gs False n sig (zip as ts) c s)))
       | MemberExpr _ _ b m \<Rightarrow>
           (case check_expr b c s of
             (receiver, s) \<Rightarrow>
               (case find_method r m (strip_ref receiver) s of
                 (None, s) \<Rightarrow> (error_type, s)
               | (Some sig, s) \<Rightarrow>
                   (case (ty_name (strip_ref receiver) @ ''.'' @ m) of
                     name \<Rightarrow>
                       if fs_params sig = [] then
                         (fs_result sig, tc_error r ''E0345'' (''method '' @ quoted name @ '' has no self receiver'') s)
                       else (case check_exprs as c (check_receiver b name sig receiver c s) of
                           (ts, s) \<Rightarrow> finish_call r gs True name sig
                             ((b, receiver_type sig (strip_ref receiver)) # zip as ts) c s))))
       | _ \<Rightarrow> (error_type, tc_error r ''E0306'' ''call target must be a function or method'' s))"
| "check_expr (MemberExpr i r e m) c s =
     record_type i (case check_expr e c s of (t, s) \<Rightarrow> member_type r (strip_ref t) m s)"
| "check_expr (IndexExpr i r a b) c s =
     record_type i
       (case check_expr a c s of
         (t, s) \<Rightarrow> (case check_expr b c s of
           (x, s) \<Rightarrow> index_type r t (tc_require (is_integer x) (expr_range b) ''E0328'' ''index must be integer'' s)))"
| "check_expr (AwaitExpr i r e) c s =
     record_type i
       (case check_expr e c (tc_require (fs_is_async (fc_sig c)) r ''E0343''
           ''await is only valid inside an async function'' s) of
         (f, s) \<Rightarrow> await_type r f s)"
| "check_expr (CastExpr i r e tr) c s =
     record_type i
       (case check_expr e c s of
         (from, s) \<Rightarrow> (type_from_ast tr {}, check_cast r from (type_from_ast tr {}) c s))"
| "check_expr (AsmExpr i r t ps v) c s =
     record_type i (builtin_type ''unit'', check_operands ps c (start_asm r t c s))"
| "check_exprs [] c s = ([], s)"
| "check_exprs (e # es) c s =
     (case check_expr e c s of (t, s) \<Rightarrow> (case check_exprs es c s of (ts, s) \<Rightarrow> (t # ts, s)))"
| "check_fields [] sname si sub seen c s = (seen, s)"
| "check_fields (FieldInit n e r # fs) sname si sub seen c s =
     (case check_expr e c (check_seen n r seen s) of
       (actual, s) \<Rightarrow> check_fields fs sname si sub (insert n seen) c (check_field sname si sub n e r actual s))"
| "check_operands [] c s = s"
| "check_operands (AsmOperand _ k v _ r # ps) c s =
     check_operands ps c
       (case v of
         None \<Rightarrow> check_constraint k r s
       | Some e \<Rightarrow> snd (check_expr e c (check_constraint k r s)))"
  by pat_completeness auto
termination
  by (relation "measure (case_sum (case_sum (\<lambda>(e, c, s). size e) (\<lambda>(es, c, s). size_list size es))
      (case_sum (\<lambda>(fs, n, si, sub, seen, c, s). size_list size fs) (\<lambda>(ps, c, s). size_list size ps)))") auto

end
