(* ===== verification/TypeStmt.thy ===== *)
theory TypeStmt
  imports TypeExpr
begin

text \<open>
  Statements, functions and globals in the type checker (src/sema_stmt.cpp, \<open>TypeChecker::check\<close> of
  src/sema.cpp).
\<close>

subsection \<open>Scopes\<close>

definition open_types :: "fn_context \<Rightarrow> fn_context" where
  "open_types c = c\<lparr>fc_scopes := Map.empty # fc_scopes c, fc_mutable := {} # fc_mutable c\<rparr>"

definition bind_type :: "string \<Rightarrow> ty \<Rightarrow> bool \<Rightarrow> fn_context \<Rightarrow> fn_context" where
  "bind_type n t m c =
     c\<lparr>fc_scopes := (case fc_scopes c of [] \<Rightarrow> [] | sc # scs \<Rightarrow> sc(n \<mapsto> t) # scs),
       fc_mutable := (case fc_mutable c of [] \<Rightarrow> [] | ms # mss \<Rightarrow> (if m then insert n ms else ms) # mss)\<rparr>"

definition enter_loop :: "fn_context \<Rightarrow> fn_context" where
  "enter_loop c = c\<lparr>fc_loops := fc_loops c + 1\<rparr>"

subsection \<open>Statements\<close>

definition set_binding_type :: "nat \<Rightarrow> ty \<Rightarrow> type_checker \<Rightarrow> type_checker" where
  "set_binding_type i t s =
     s\<lparr>tc_model := (tc_model s)\<lparr>sm_binding_types := (sm_binding_types (tc_model s))(i \<mapsto> t)\<rparr>\<rparr>"

definition set_assignment_type :: "nat \<Rightarrow> ty \<Rightarrow> type_checker \<Rightarrow> type_checker" where
  "set_assignment_type i t s =
     s\<lparr>tc_model := (tc_model s)\<lparr>sm_assignment_binding_types := (sm_assignment_binding_types (tc_model s))(i \<mapsto> t)\<rparr>\<rparr>"

definition check_let_types ::
  "nat \<Rightarrow> src_range \<Rightarrow> string \<Rightarrow> bool \<Rightarrow> type_ref option \<Rightarrow> expr option \<Rightarrow> fn_context \<Rightarrow> type_checker \<Rightarrow> fn_context checked" where
  "check_let_types i r n m tr init c s =
     (case (case init of None \<Rightarrow> (error_type, s) | Some e \<Rightarrow> check_expr e c s) of
       (it, s) \<Rightarrow>
         (let t = (case tr of None \<Rightarrow> it | Some tr \<Rightarrow> type_from_ast tr (set (fs_generic_names (fc_sig c)))) in
          (bind_type n t m c,
           set_binding_type i t
             (tc_require (tr = None \<or> can_coerce_expr init it t) r ''E0301''
               (''initializer has type '' @ quoted (type_str it) @ '' but binding expects '' @ quoted (type_str t)) s))))"

definition is_bitwise_assign :: "string \<Rightarrow> bool" where
  "is_bitwise_assign op \<longleftrightarrow> op \<in> {''&='', ''|='', ''^='', ''<<='', ''>>='', ''%=''}"

definition check_assign_types ::
  "nat \<Rightarrow> src_range \<Rightarrow> expr \<Rightarrow> string \<Rightarrow> expr \<Rightarrow> fn_context \<Rightarrow> type_checker \<Rightarrow> fn_context checked" where
  "check_assign_types i r target op v c s =
     (case hm_assignment_bindings (sm_hir (tc_model s)) i of
       Some _ \<Rightarrow>
         (case check_expr v c s of
           (t, s) \<Rightarrow>
             (bind_type (case target of NameExpr _ _ n \<Rightarrow> n | _ \<Rightarrow> []) t True c,
              snd (record_type (expr_id target) (t, set_assignment_type i t s))))
     | None \<Rightarrow>
         (case check_expr target c s of
           (lt, s) \<Rightarrow>
             (case check_expr v c s of
               (vt, s) \<Rightarrow>
                 (c, tc_require (op = ''='' \<or>
                       (if is_bitwise_assign op then is_integer lt \<and> is_integer vt else is_numeric lt \<and> is_numeric vt))
                     r ''E0335'' (''compound assignment operator '' @ quoted op @ '' is not valid for these operands'')
                     (tc_require (can_coerce_expr (Some v) vt lt) r ''E0334''
                       (''cannot assign '' @ quoted (type_str vt) @ '' to '' @ quoted (type_str lt))
                       (tc_require (is_mutable_place target c s) (expr_range target) ''E0333''
                         ''assignment requires a mutable place'' s))))))"

definition check_return_types :: "src_range \<Rightarrow> expr option \<Rightarrow> fn_context \<Rightarrow> type_checker \<Rightarrow> type_checker" where
  "check_return_types r w c s =
     (case (case w of None \<Rightarrow> (builtin_type ''unit'', s) | Some e \<Rightarrow> check_expr e c s) of
       (t, s) \<Rightarrow>
         tc_require (can_coerce_expr w t (fs_result (fc_sig c))) r ''E0302''
           (''return type '' @ quoted (type_str t) @ '' does not match '' @ quoted (type_str (fs_result (fc_sig c)))) s)"

definition check_range_types ::
  "src_range \<Rightarrow> string \<Rightarrow> expr \<Rightarrow> expr \<Rightarrow> fn_context \<Rightarrow> type_checker \<Rightarrow> fn_context checked" where
  "check_range_types r n b e c s =
     (case check_expr b c s of
       (bt, s) \<Rightarrow>
         (case check_expr e c s of
           (et, s) \<Rightarrow>
             (bind_type n bt False (open_types c),
              tc_require (is_integer bt \<and> is_integer et \<and> type_eq bt et) r ''E0356''
                ''for ranges require matching integer endpoint types'' s)))"

definition check_condition :: "expr \<Rightarrow> string \<Rightarrow> (ty \<Rightarrow> string) \<Rightarrow> fn_context \<Rightarrow> type_checker \<Rightarrow> type_checker" where
  "check_condition e code message c s =
     (case check_expr e c s of
       (t, s) \<Rightarrow> tc_require (ty_kind t = KBool) (expr_range e) code (message t) s)"

definition check_jump :: "src_range \<Rightarrow> fn_context \<Rightarrow> type_checker \<Rightarrow> type_checker" where
  "check_jump r c s = tc_require (fc_loops c \<noteq> 0) r ''E0357'' ''break/continue is only valid inside a loop'' s"

text \<open>A block leaves the context as it found it, so only the state comes back.\<close>

fun check_block_types :: "block \<Rightarrow> fn_context \<Rightarrow> type_checker \<Rightarrow> type_checker"
and check_stmts_types :: "stmt list \<Rightarrow> fn_context \<Rightarrow> type_checker \<Rightarrow> fn_context checked"
and check_stmt_types :: "stmt \<Rightarrow> fn_context \<Rightarrow> type_checker \<Rightarrow> fn_context checked" where
  "check_block_types (Block _ _ sts) c s = snd (check_stmts_types sts (open_types c) s)"
| "check_stmts_types [] c s = (c, s)"
| "check_stmts_types (st # sts) c s =
     (case check_stmt_types st c s of (c, s) \<Rightarrow> check_stmts_types sts c s)"
| "check_stmt_types (LetStmt i r n m tr init) c s = check_let_types i r n m tr init c s"
| "check_stmt_types (AssignStmt i r target op v) c s = check_assign_types i r target op v c s"
| "check_stmt_types (ExprStmt _ _ e) c s = (c, snd (check_expr e c s))"
| "check_stmt_types (ReturnStmt _ r w) c s = (c, check_return_types r w c s)"
| "check_stmt_types (BlockStmt b) c s = (c, check_block_types b c s)"
| "check_stmt_types (IfStmt _ _ e t f) c s =
     (c, case (f, check_block_types t c (check_condition e ''E0303''
           (\<lambda>t. ''if condition must be bool, found '' @ quoted (type_str t)) c s)) of
        (None, s) \<Rightarrow> s
      | (Some b, s) \<Rightarrow> check_block_types b c s)"
| "check_stmt_types (WhileStmt _ _ e b) c s =
     (c, check_block_types b (enter_loop c)
       (check_condition e ''E0304'' (\<lambda>_. ''while condition must be bool'') c s))"
| "check_stmt_types (ForStmt _ r n b e _ body) c s =
     (case check_range_types r n b e c s of (inner, s) \<Rightarrow> (c, check_block_types body (enter_loop inner) s))"
| "check_stmt_types (LoopStmt _ _ b) c s = (c, check_block_types b (enter_loop c) s)"
| "check_stmt_types (BreakStmt _ r) c s = (c, check_jump r c s)"
| "check_stmt_types (ContinueStmt _ r) c s = (c, check_jump r c s)"
| "check_stmt_types (UnsafeStmt _ _ b) c s = (c, check_block_types b (c\<lparr>fc_unsafe := True\<rparr>) s)"
| "check_stmt_types (FenceStmt _ _ _ _) c s = (c, s)"

subsection \<open>Functions\<close>

text \<open>
  A parameter takes its type from the signature by position. The signature is the one found under the
  name, which a rejected second declaration leaves in place, so there may be fewer types than
  parameters; the read behind the end has no meaning.
\<close>

fun bind_params :: "param list \<Rightarrow> ty list \<Rightarrow> fn_context \<Rightarrow> type_checker \<Rightarrow> fn_context checked" where
  "bind_params [] ts c s = (c, s)"
| "bind_params (p # ps) [] c s = bind_params ps [] (bind_type (par_name p) error_type (par_mut p) c) (set_stuck s)"
| "bind_params (p # ps) (t # ts) c s = bind_params ps ts (bind_type (par_name p) t (par_mut p) c) s"

definition function_context :: "function_sig \<Rightarrow> bool \<Rightarrow> fn_context" where
  "function_context sig u =
     \<lparr>fc_sig = sig, fc_scopes = [Map.empty], fc_mutable = [{}], fc_unsafe = u, fc_loops = 0\<rparr>"

definition check_function_types :: "function_decl \<Rightarrow> function_sig \<Rightarrow> type_checker \<Rightarrow> type_checker" where
  "check_function_types d sig s =
     (case fd_body d of
       None \<Rightarrow> s
     | Some b \<Rightarrow>
         (case bind_params (fd_params d) (fs_params sig) (function_context sig (fd_is_unsafe d)) s of
           (c, s) \<Rightarrow> check_block_types b c s))"

definition check_named_function :: "string \<Rightarrow> function_decl \<Rightarrow> type_checker \<Rightarrow> type_checker" where
  "check_named_function key d s =
     (case map_of (functions_of s) key of None \<Rightarrow> s | Some sig \<Rightarrow> check_function_types d sig s)"

definition empty_sig :: function_sig where
  "empty_sig = \<lparr>fs_name = [], fs_generic_names = [], fs_bounds = [], fs_params = [],
     fs_result = builtin_type ''unit'', fs_is_unsafe = False, fs_is_async = False, fs_is_extern = False,
     fs_is_concurrent = False, fs_abi = [], fs_decl = None\<rparr>"

definition global_context :: "type_checker \<Rightarrow> fn_context" where
  "global_context s = fold (\<lambda>(n, g). bind_type n (gi_type g) (gi_is_mut g)) (globals_of s)
     (function_context empty_sig False)"

definition check_global_types :: "fn_context \<Rightarrow> global_decl \<Rightarrow> type_checker \<Rightarrow> type_checker" where
  "check_global_types c d s =
     (case gd_init d of
       None \<Rightarrow> tc_error (gd_range d) ''E0353'' ''global requires an initializer'' s
     | Some e \<Rightarrow>
         (case check_expr e c s of
           (it, s) \<Rightarrow>
             tc_require (static_initializer_expr e) (gd_range d) ''E0355''
               (''global initializer must be a compile-time scalar literal or a '' @ ''zero-initialized struct'')
               (tc_require (can_coerce_expr (Some e) it (type_from_ast (gd_type d) {})) (gd_range d) ''E0354''
                 (''global initializer has type '' @ quoted (type_str it) @ '', expected '' @
                  quoted (type_str (type_from_ast (gd_type d) {}))) s)))"

definition check_item_types :: "fn_context \<Rightarrow> item \<Rightarrow> type_checker \<Rightarrow> type_checker" where
  "check_item_types c it s =
     (case it of
       GlobalItem d \<Rightarrow> check_global_types c d s
     | FunctionItem d \<Rightarrow> check_named_function (fd_name d) d s
     | ImplItem im \<Rightarrow>
         fold (\<lambda>m. check_named_function (tr_name (im_for_type im) @ ''::'' @ fd_name m) m) (im_methods im) s
     | _ \<Rightarrow> s)"

end
