(* ===== verification/Smp.thy ===== *)
theory Smp
  imports TypeStmt
begin

text \<open>
  The checks on concurrent code (src/sema_smp.cpp): which functions run concurrently, what they may
  access, and what may be passed to them; and the type checker as a whole (\<open>TypeChecker::check\<close> of
  src/sema.cpp), which ends in them.
\<close>

subsection \<open>Concurrent functions\<close>

lemma child_exprs_smaller: "x \<in> set (child_exprs e) \<Longrightarrow> size x < size e"
proof (cases e)
  case (StructLiteralExpr i r n gs fs)
  assume "x \<in> set (child_exprs e)"
  then obtain f where "f \<in> set fs" "x = fi_value f"
    by (auto simp: StructLiteralExpr child_exprs_def)
  then show ?thesis
    using size_list_estimation' [of f fs "size f" size] size_fi_value [of f] by (simp add: StructLiteralExpr)
next
  case (AsmExpr i r t ps v)
  assume "x \<in> set (child_exprs e)"
  then obtain p where "p \<in> set ps" "ao_value p = Some x"
    by (auto simp: AsmExpr child_exprs_def List.map_filter_def)
  then show ?thesis
    using size_list_estimation' [of p ps "size p" size] size_ao_value [of p x] by (simp add: AsmExpr)
next
  case (CallExpr i r f gs as)
  assume "x \<in> set (child_exprs e)"
  then show ?thesis
    using size_list_estimation' [of x as "size x" size]
    by (auto simp: CallExpr child_exprs_def split: expr.splits)
qed (auto simp: child_exprs_def)

text \<open>The function a call names: by name, or by the type of the receiver.\<close>

definition direct_callee :: "sem_model \<Rightarrow> expr \<Rightarrow> string list" where
  "direct_callee M e =
     (case e of
       CallExpr _ _ (NameExpr _ _ n) _ _ \<Rightarrow> if map_of (sm_functions M) n \<noteq> None then [n] else []
     | CallExpr _ _ (MemberExpr _ _ b m) _ _ \<Rightarrow>
         (case sm_expr_types M (expr_id b) of
           None \<Rightarrow> []
         | Some t \<Rightarrow>
             (let key = ty_name (strip_ref t) @ ''::'' @ m
              in if map_of (sm_functions M) key \<noteq> None then [key] else []))
     | _ \<Rightarrow> [])"

function collect_callees :: "sem_model \<Rightarrow> expr \<Rightarrow> string list" where
  "collect_callees M e = direct_callee M e @ concat (map (collect_callees M) (child_exprs e))"
  by pat_completeness auto
termination
  by (relation "measure (\<lambda>(M, e). size e)") (auto simp: child_exprs_smaller)

declare collect_callees.simps [simp del]

definition body_exprs :: "function_sig \<Rightarrow> expr list option" where
  "body_exprs sig = (case fs_decl sig of None \<Rightarrow> None
     | Some d \<Rightarrow> map_option (\<lambda>b. concat (map stmt_exprs (block_stmts b))) (fd_body d))"

definition call_edges :: "sem_model \<Rightarrow> (string \<times> string list) list" where
  "call_edges M = List.map_filter (\<lambda>(key, sig).
     map_option (\<lambda>es. (key, remdups (concat (map (collect_callees M) es)))) (body_exprs sig)) (sm_functions M)"

text \<open>The work list is a vector used from its end, here from its head.\<close>

function spread_concurrency :: "(string \<times> string list) list \<Rightarrow> string list \<Rightarrow> string set \<Rightarrow> string set" where
  "spread_concurrency edges [] seen = seen"
| "spread_concurrency edges (k # work) seen =
     (if k \<in> seen then spread_concurrency edges work seen
      else spread_concurrency edges
        ((case map_of edges k of None \<Rightarrow> [] | Some cs \<Rightarrow> rev cs) @ work) (insert k seen))"
  by pat_completeness auto
termination
proof (relation "inv_image (less_than <*lex*> less_than)
    (\<lambda>(edges, work, seen). (length (filter (\<lambda>(k, _). k \<notin> seen) edges), length work))")
  fix edges :: "(string \<times> string list) list" and k work and seen :: "string set"
  assume new: "k \<notin> seen"
  let ?left = "\<lambda>seen. filter (\<lambda>(k, _ :: string list). k \<notin> seen) edges"
  let ?next = "(case map_of edges k of None \<Rightarrow> [] | Some cs \<Rightarrow> rev cs) @ work"
  have le: "length (?left (insert k seen)) \<le> length (?left seen)"
    by (induction edges) auto
  moreover have "length (?left (insert k seen)) < length (?left seen)" if "map_of edges k = Some cs" for cs
    using that
  proof (induction edges)
    case (Cons e es)
    have "length (filter (\<lambda>(k', _). k' \<notin> insert k seen) es) \<le> length (filter (\<lambda>(k', _). k' \<notin> seen) es)"
      by (induction es) auto
    with Cons new show ?case
      by (cases e) (auto split: if_splits)
  qed simp
  ultimately show "((edges, ?next, insert k seen), edges, k # work, seen) \<in> inv_image (less_than <*lex*> less_than)
      (\<lambda>(edges, work, seen). (length (filter (\<lambda>(k, _). k \<notin> seen) edges), length work))"
    by (cases "map_of edges k") auto
qed auto

definition concurrent_keys :: "sem_model \<Rightarrow> string set" where
  "concurrent_keys M = spread_concurrency (call_edges M)
     (rev (map fst (filter (fs_is_concurrent \<circ> snd) (sm_functions M)))) {}"

definition mark_concurrent :: "string set \<Rightarrow> sem_model \<Rightarrow> sem_model" where
  "mark_concurrent ks M = M\<lparr>sm_functions :=
     map (\<lambda>(k, sig). (k, if k \<in> ks then sig\<lparr>fs_is_concurrent := True\<rparr> else sig)) (sm_functions M)\<rparr>"

subsection \<open>Accesses to globals\<close>

definition is_local :: "sem_model \<Rightarrow> expr \<Rightarrow> bool" where
  "is_local M e =
     (case hm_expr_resolution (sm_hir M) (expr_id e) of
       None \<Rightarrow> False
     | Some k \<Rightarrow>
         unat k < length (hm_symbols (sm_hir M)) \<and>
         (sym_kind (hm_symbols (sm_hir M) ! unat k) = SymLocal \<or>
          sym_kind (hm_symbols (sm_hir M) ! unat k) = SymParameter))"

type_synonym reported = "string set \<times> type_checker"

definition access_key :: "src_range \<Rightarrow> string \<Rightarrow> string" where
  "access_key r n = u32_to_string (loc_line (range_begin r)) @ '':'' @ u32_to_string (loc_column (range_begin r)) @ '':'' @ n"

definition report_access :: "src_range \<Rightarrow> string \<Rightarrow> string \<Rightarrow> reported \<Rightarrow> reported" where
  "report_access r n message = (\<lambda>(seen, s).
     if access_key r n \<in> seen then (seen, s)
     else (insert (access_key r n) seen, tc_error r ''E0363'' message s))"

definition scalar_message :: "string \<Rightarrow> string" where
  "scalar_message n = ''concurrent access to mutable global '' @ quoted n @
     '' requires explicit `shared`, a lock, or `percpu` storage; smp auto no longer promotes implicitly '' @
     ''(Rust+C++20+LKMM explicit-shared model)''"

definition aggregate_message :: "string \<Rightarrow> string" where
  "aggregate_message n = ''concurrent access to aggregate global '' @ quoted n @
     '' cannot be strengthened as one atomic object; mark atomic fields shared, use a lock, or use percpu storage''"

definition field_message :: "string \<Rightarrow> string" where
  "field_message n = ''concurrent access to field '' @ quoted n @
     '' requires explicit `shared` field, a lock, or `percpu` storage; smp auto no longer promotes implicitly''"

definition name_access :: "sem_model \<Rightarrow> expr \<Rightarrow> src_range \<Rightarrow> string \<Rightarrow> reported \<Rightarrow> reported" where
  "name_access M e r n st =
     (if is_local M e then st
      else (case map_of (sm_globals M) n of
          None \<Rightarrow> st
        | Some g \<Rightarrow>
            if gi_is_mut g \<and> \<not> gi_is_percpu g \<and> \<not> gi_is_shared g then
              report_access r n
                (if is_integer (gi_type g) \<or> ty_kind (gi_type g) = KRawPtr then scalar_message n else aggregate_message n) st
            else st))"

text \<open>Whether a member access is decided by the field: the structure and the global it belongs to.\<close>

definition aggregate_global :: "sem_model \<Rightarrow> expr \<Rightarrow> (string \<times> global_info) option" where
  "aggregate_global M b =
     (case b of
       NameExpr _ _ n \<Rightarrow>
         if is_local M b then None
         else (case map_of (sm_globals M) n of
             None \<Rightarrow> None
           | Some g \<Rightarrow>
               if gi_is_mut g \<and> \<not> gi_is_percpu g \<and> ty_kind (gi_type g) = KNamed then Some (n, g) else None)
     | _ \<Rightarrow> None)"

definition member_access :: "sem_model \<Rightarrow> src_range \<Rightarrow> string \<Rightarrow> global_info \<Rightarrow> string \<Rightarrow> reported \<Rightarrow> reported" where
  "member_access M r n g m st =
     (case (case map_of (sm_structs M) (ty_name (gi_type g)) of
         None \<Rightarrow> None
       | Some si \<Rightarrow> if map_of (si_fields si) m = None then None else Some si) of
       Some si \<Rightarrow>
         if m \<in> si_shared_fields si then st
         else report_access r (n @ ''.'' @ m) (field_message (n @ ''.'' @ m)) st
     | None \<Rightarrow> report_access r n (aggregate_message n) st)"

function check_access :: "sem_model \<Rightarrow> expr \<Rightarrow> reported \<Rightarrow> reported" where
  "check_access M e st =
     (case e of
       NameExpr _ r n \<Rightarrow> name_access M e r n st
     | MemberExpr _ r b m \<Rightarrow>
         (case aggregate_global M b of
           Some (n, g) \<Rightarrow> member_access M r n g m st
         | None \<Rightarrow> check_access M b st)
     | _ \<Rightarrow> fold (check_access M) (child_exprs e) st)"
  by pat_completeness auto
termination
  by (relation "measure (\<lambda>(M, e, st). size e)") (auto dest: child_exprs_smaller)

declare check_access.simps [simp del]

definition check_accesses :: "string \<times> function_sig \<Rightarrow> reported \<Rightarrow> reported" where
  "check_accesses = (\<lambda>(_, sig) (seen, s).
     if \<not> fs_is_concurrent sig then (seen, s)
     else (case body_exprs sig of None \<Rightarrow> (seen, s) | Some es \<Rightarrow> fold (check_access (tc_model s)) es (seen, s)))"

definition propagate_concurrency :: "type_checker \<Rightarrow> type_checker" where
  "propagate_concurrency s =
     (let M = mark_concurrent (concurrent_keys (tc_model s)) (tc_model s)
      in snd (fold check_accesses (sm_functions M) ({}, s\<lparr>tc_model := M\<rparr>)))"

subsection \<open>Parameters of concurrent functions\<close>

definition send_message :: "nat \<Rightarrow> ty \<Rightarrow> string" where
  "send_message i t = ''concurrent function parameter '' @ nat_to_string (i + 1) @ '' of type '' @ quoted (type_str t) @
     '' is not Send; use an owning Send type, a shared reference whose pointee is Sync, or add the required generic bound''"

definition check_parameter :: "function_sig \<Rightarrow> function_decl \<Rightarrow> nat \<times> ty \<Rightarrow> type_checker \<Rightarrow> type_checker" where
  "check_parameter sig d = (\<lambda>(i, t) s.
     case tc_satisfies t ''Send'' (fs_bounds sig) s of
       (ok, s) \<Rightarrow> tc_require ok (if i < length (fd_params d) then par_range (fd_params d ! i) else fd_range d)
         ''E0362'' (send_message i t) s)"

definition check_boundary :: "string \<times> function_sig \<Rightarrow> type_checker \<Rightarrow> type_checker" where
  "check_boundary = (\<lambda>(_, sig) s.
     case (fs_is_concurrent sig \<and> \<not> fs_is_extern sig, fs_decl sig) of
       (True, Some d) \<Rightarrow> fold (check_parameter sig d) (List.enumerate 0 (fs_params sig)) s
     | _ \<Rightarrow> s)"

definition validate_concurrency_boundaries :: "type_checker \<Rightarrow> type_checker" where
  "validate_concurrency_boundaries s = fold check_boundary (functions_of s) s"

subsection \<open>A module\<close>

definition check_module :: "nat \<Rightarrow> hir_module \<Rightarrow> ast_module \<Rightarrow> diagnostics \<Rightarrow> (sem_model \<times> diagnostics) option" where
  "check_module fuel hm md ds =
     (let s = validate_special_traits (collect_items md
            \<lparr>tc_model = empty_model\<lparr>sm_hir := hm\<rparr>, tc_diags = ds, tc_fuel = fuel, tc_stuck = False\<rparr>);
          s = fold (check_item_types (global_context s)) (am_items md) s;
          s = validate_concurrency_boundaries (propagate_concurrency s)
      in if tc_stuck s then None else Some (tc_model s, tc_diags s))"

end
