(* ===== verification/TypeRules.thy ===== *)
theory TypeRules
  imports Smp
begin

text \<open>
  The typing rules the type checker implements, and that a run without a report follows them.
\<close>

subsection \<open>Runs without a report\<close>

text \<open>What an expression leaves alone: everything but the types of nodes; reports only grow.\<close>

definition core :: "sem_model \<Rightarrow> sem_model" where
  "core M = M\<lparr>sm_expr_types := Map.empty, sm_binding_types := Map.empty, sm_assignment_binding_types := Map.empty\<rparr>"

definition tc_le :: "type_checker \<Rightarrow> type_checker \<Rightarrow> bool" where
  "tc_le s t \<longleftrightarrow> core (tc_model s) = core (tc_model t) \<and> diag_le (tc_diags s) (tc_diags t) \<and>
     tc_fuel t = tc_fuel s \<and> (tc_stuck s \<longrightarrow> tc_stuck t) \<and>
     dom (sm_expr_types (tc_model s)) \<subseteq> dom (sm_expr_types (tc_model t))"

definition tc_clean :: "type_checker \<Rightarrow> bool" where
  "tc_clean s \<longleftrightarrow> \<not> has_errors (tc_diags s) \<and> \<not> tc_stuck s"

lemma core_simps [simp]:
  "sm_functions (core M) = sm_functions M" "sm_structs (core M) = sm_structs M" "sm_globals (core M) = sm_globals M"
  "sm_impls (core M) = sm_impls M" "sm_markers (core M) = sm_markers M" "sm_hir (core M) = sm_hir M"
  "core (M\<lparr>sm_expr_types := T\<rparr>) = core M" "core (M\<lparr>sm_binding_types := T\<rparr>) = core M"
  "core (M\<lparr>sm_assignment_binding_types := T\<rparr>) = core M"
  by (simp_all add: core_def)

lemma tc_le_refl [simp, intro]: "tc_le s s"
  by (auto simp: tc_le_def)

lemma tc_le_trans [trans]: "tc_le s t \<Longrightarrow> tc_le t u \<Longrightarrow> tc_le s u"
  unfolding tc_le_def by (auto intro: diag_le_trans)

lemma tc_le_clean: "tc_le s t \<Longrightarrow> tc_clean t \<Longrightarrow> tc_clean s"
  unfolding tc_le_def tc_clean_def by (auto dest: diag_le_has_errors)

lemma tc_le_error [simp, intro]: "tc_le s (tc_error r c m s)"
  by (simp add: tc_le_def tc_error_def)

lemma clean_error [simp]: "\<not> tc_clean (tc_error r c m s)"
  by (simp add: tc_clean_def tc_error_def)

lemma tc_le_require [simp, intro]: "tc_le s (tc_require ok r c m s)"
  by (simp add: tc_require_def)

lemma clean_require [simp]: "tc_clean (tc_require ok r c m s) \<longleftrightarrow> ok \<and> tc_clean s"
  by (simp add: tc_require_def)

lemma require_clean: "ok \<Longrightarrow> tc_require ok r c m s = s"
  by (simp add: tc_require_def)

lemma tc_le_record: "record_type i (t, s) = (u, s') \<Longrightarrow> u = t \<and> tc_le s s' \<and> tc_clean s' = tc_clean s"
  by (auto simp: record_type_def tc_le_def tc_clean_def)

lemma tc_le_snd_record [simp, intro]: "tc_le s (snd (record_type i (t, s)))"
  by (auto simp: record_type_def tc_le_def)

lemma tc_le_warning [simp, intro]: "tc_le s (tc_warning r c m s)"
  by (auto simp: tc_le_def tc_warning_def diag_le_def diag_warning_def report_level_def report_def)

lemmas tc_le_requireI [simp, intro] = tc_le_trans [OF _ tc_le_require]

lemma tc_le_fold: "(\<And>x s. tc_le s (f x s)) \<Longrightarrow> tc_le s (fold f xs s)"
  by (induction xs arbitrary: s) (auto intro: tc_le_trans)

lemma tc_le_satisfies [simp, intro]: "tc_le s (snd (tc_satisfies t tr gb s))"
  by (auto simp: tc_satisfies_def tc_le_def set_stuck_def split: option.split)

lemma tc_le_bound [simp, intro]: "tc_le s (check_bound r code m t b s)"
  by (simp add: check_bound_def split_beta)

lemma tc_le_call_bounds [simp, intro]: "tc_le s (check_call_bounds r sub gbs s)"
proof (induction gbs arbitrary: s)
  case (Cons gb gbs)
  obtain g bs where gb: "gb = (g, bs)"
    by fastforce
  show ?case
    by (cases "sub g") (auto simp: gb intro: tc_le_trans [OF tc_le_fold Cons.IH] tc_le_trans [OF tc_le_error Cons.IH])
qed simp

lemma tc_le_literal_bounds [simp, intro]: "tc_le s (check_literal_bounds r sub gbs s)"
proof (induction gbs arbitrary: s)
  case (Cons gb gbs)
  obtain g bs where gb: "gb = (g, bs)"
    by fastforce
  show ?case
    by (cases "sub g") (auto simp: gb Cons.IH intro: tc_le_trans [OF tc_le_fold Cons.IH])
qed simp

lemma tc_le_actuals [simp, intro]: "tc_le s (snd (check_actuals i as fs sub s))"
proof (induction as arbitrary: i fs sub s)
  case (Cons ea as)
  obtain e a where ea: "ea = (e, a)"
    by fastforce
  show ?case
    by (cases fs) (auto simp: ea split_beta intro: tc_le_trans [OF tc_le_require Cons.IH])
qed simp

lemma tc_le_generics [simp, intro]: "tc_le s (snd (explicit_generics r gs ns s))"
  by (simp add: explicit_generics_def)

lemma tc_le_finish [simp, intro]: "tc_le s (snd (finish_call r gs method name sig as c s))"
proof -
  have "tc_le u (check_call_bounds r (fst (check_actuals 0 as ps sub v)) gbs (snd (check_actuals 0 as ps sub v)))"
    if "tc_le u v" for u v ps sub gbs
    by (rule tc_le_trans [OF tc_le_trans [OF that tc_le_actuals] tc_le_call_bounds])
  moreover have "tc_le s (snd (explicit_generics r gs ns (tc_require ok r code m s)))" for ns ok code m
    by (rule tc_le_trans [OF tc_le_require tc_le_generics])
  moreover have "tc_le s (tc_error r code m (tc_require ok r code' m' s))" for code m ok code' m'
    by (rule tc_le_trans [OF tc_le_require tc_le_error])
  ultimately show ?thesis
    by (simp add: finish_call_def Let_def split_beta)
qed

lemma tc_le_printed [simp, intro]: "tc_le s (check_printed es ts s)"
proof (induction es arbitrary: ts s)
  case (Cons e es)
  show ?case
    by (cases ts) (auto intro: tc_le_trans [OF tc_le_require Cons.IH])
qed simp

lemma tc_le_single [simp, intro]: "tc_le s (check_single r n es ts ok code m s)"
  by (simp add: check_single_def split: list.split)

lemma tc_le_builtin [simp, intro]: "tc_le s (snd (check_builtin_call n r es ts s))"
  by (simp add: check_builtin_call_def split: list.split)

lemma tc_le_lookup [simp, intro]: "tc_le s (snd (lookup_local n c r s))"
  by (simp add: lookup_local_def split: option.split)

lemma tc_le_method [simp, intro]: "tc_le s (snd (find_method r m t s))"
  by (simp add: find_method_def split: option.split)

lemma tc_le_receiver [simp, intro]: "tc_le s (check_receiver b n sig t c s)"
  by (simp add: check_receiver_def split: list.split)

lemma tc_le_start_literal [simp, intro]: "tc_le s (snd (start_literal r n ts s))"
  by (simp add: start_literal_def Let_def split: option.split)

lemma tc_le_field [simp, intro]:
  "tc_le s (check_seen n r seen s)" "tc_le s (check_field sn si sub n e r a s)"
  by (simp_all add: check_seen_def check_field_def split: option.split)

lemma tc_le_missing [simp, intro]: "tc_le s (check_missing r sn si seen s)"
  unfolding check_missing_def by (rule tc_le_fold) (simp add: split_beta)

lemma tc_le_unary [simp, intro]: "tc_le s (snd (unary_type r op x c s))"
  by (simp add: unary_type_def)

lemma tc_le_retype [simp, intro]: "tc_le s (retype_literal e t s)"
  by (auto simp: retype_literal_def split: expr.split intro: tc_le_trans [OF tc_le_snd_record])

lemma tc_le_adapt [simp, intro]: "tc_le s (snd (adapt_operands a b l q s))"
  by (simp add: adapt_operands_def)

lemma tc_le_binary [simp, intro]: "tc_le s (snd (binary_type r op l q c s))"
proof -
  have "tc_le s (tc_error r code m (tc_require ok r code' m' s))" for code m ok code' m'
    by (rule tc_le_trans [OF tc_le_require tc_le_error])
  then show ?thesis
    by (simp add: binary_type_def Let_def)
qed

lemma tc_le_member [simp, intro]: "tc_le s (snd (member_type r b m s))"
  by (simp add: member_type_def split: option.split bool.split)

lemma tc_le_index [simp, intro]: "tc_le s (snd (index_type r b s))"
  by (simp add: index_type_def Let_def split: list.split bool.split)

lemma tc_le_await [simp, intro]: "tc_le s (snd (await_type r b s))"
  by (simp add: await_type_def split: list.split bool.split)

lemma tc_le_cast [simp, intro]: "tc_le s (check_cast r from to c s)"
  unfolding check_cast_def by (intro tc_le_requireI) (simp split del: option.split)

lemma tc_le_asm [simp, intro]: "tc_le s (start_asm r t c s)" "tc_le s (check_constraint k r s)"
proof -
  show "tc_le s (start_asm r t c s)"
    using tc_le_trans [OF tc_le_require tc_le_warning] by (simp add: start_asm_def Let_def)
  show "tc_le s (check_constraint k r s)"
    unfolding check_constraint_def by (rule tc_le_trans [OF tc_le_require tc_le_fold]) simp
qed

subsection \<open>Expressions\<close>

lemma snd_record: "tc_le s (snd p) \<Longrightarrow> tc_le s (snd (record_type i p))"
  by (metis tc_le_trans tc_le_snd_record prod.collapse)

text \<open>The checker recurs into the child expressions.\<close>

lemma child_induct: "(\<And>e. (\<And>x. x \<in> set (child_exprs e) \<Longrightarrow> P x) \<Longrightarrow> P e) \<Longrightarrow> P e"
  by (induction "size e" arbitrary: e rule: less_induct) (metis child_exprs_smaller)

lemma child_exprs_simps [simp]:
  "child_exprs (UnaryExpr i r op x) = [x]" "child_exprs (BinaryExpr i r op a b) = [a, b]"
  "child_exprs (BorrowExpr i r x m) = [x]" "child_exprs (MemberExpr i r x n) = [x]"
  "child_exprs (IndexExpr i r a b) = [a, b]" "child_exprs (AwaitExpr i r x) = [x]"
  "child_exprs (CastExpr i r x t) = [x]" "child_exprs (StructLiteralExpr i r n gs fs) = map fi_value fs"
  "child_exprs (AsmExpr i r template ps vol) = List.map_filter ao_value ps"
  "child_exprs (CallExpr i r f gs as) = (case f of MemberExpr _ _ b _ \<Rightarrow> [b] | _ \<Rightarrow> []) @ as"
  "child_exprs (NameExpr i r n) = []" "child_exprs (IntegerExpr i r v) = []" "child_exprs (FloatExpr i r v) = []"
  "child_exprs (StringExpr i r v) = []" "child_exprs (CharExpr i r v) = []" "child_exprs (BoolExpr i r bv) = []"
  by (simp_all add: child_exprs_def)

lemma check_exprs_le:
  "(\<And>e s. e \<in> set es \<Longrightarrow> tc_le s (snd (check_expr e c s))) \<Longrightarrow> tc_le s (snd (check_exprs es c s))"
  by (induction es arbitrary: s) (auto simp: split_beta intro: tc_le_trans)

lemma check_fields_le:
  "(\<And>e s. e \<in> set (map fi_value fs) \<Longrightarrow> tc_le s (snd (check_expr e c s))) \<Longrightarrow>
     tc_le s (snd (check_fields fs sn si sub seen c s))"
proof (induction fs arbitrary: seen s)
  case (Cons f fs)
  obtain n e r where f: "f = FieldInit n e r"
    by (cases f)
  have "tc_le s (snd (check_expr e c (check_seen n r seen s)))"
    by (rule tc_le_trans [OF tc_le_field(1)], rule Cons.prems) (simp add: f)
  then have step: "tc_le s (check_field sn si sub n e r a (snd (check_expr e c (check_seen n r seen s))))" for a
    by (rule tc_le_trans [OF _ tc_le_field(2)])
  have rest: "tc_le u (snd (check_fields fs sn si sub seen' c u))" for seen' u
    by (rule Cons.IH) (simp add: Cons.prems)
  show ?case
    by (simp add: f split_beta) (rule tc_le_trans [OF step rest])
qed simp

lemma check_operands_le:
  "(\<And>e s. e \<in> set (List.map_filter ao_value ps) \<Longrightarrow> tc_le s (snd (check_expr e c s))) \<Longrightarrow>
     tc_le s (check_operands ps c s)"
proof (induction ps arbitrary: s)
  case (Cons p ps)
  obtain k q v n r where p: "p = AsmOperand k q v n r"
    by (cases p)
  have rest: "tc_le u (check_operands ps c u)" for u
    using Cons by (auto simp: List.map_filter_simps split: option.splits)
  show ?case
  proof (cases v)
    case None
    then show ?thesis
      using tc_le_trans [OF tc_le_asm(2) rest] by (simp add: p)
  next
    case (Some e)
    then have "tc_le u (snd (check_expr e c u))" for u
      using Cons.prems by (simp add: p List.map_filter_simps)
    then show ?thesis
      by (simp add: p Some) (rule tc_le_trans [OF tc_le_trans [OF tc_le_asm(2)] rest])
  qed
qed simp

lemma check_expr_le [simp, intro]: "tc_le s (snd (check_expr e c s))"
proof (induction e arbitrary: s rule: child_induct)
  case (1 e)
  note le = tc_le_trans [OF 1]
  show ?case
  proof (cases e)
    case (StructLiteralExpr i r n gs fs)
    obtain w t where w: "start_literal r n (map (\<lambda>g. type_from_ast g {}) gs) s = (w, t)"
      by fastforce
    have st: "tc_le s t"
      using tc_le_start_literal [of s r n "map (\<lambda>g. type_from_ast g {}) gs"] by (simp only: w snd_conv)
    have "tc_le s (check_missing r n si seen (snd (check_fields fs n si sub {} c t)))" for si sub seen
      by (intro tc_le_trans [OF st] tc_le_trans [OF _ tc_le_missing] check_fields_le)
        (use 1 StructLiteralExpr in simp)
    then show ?thesis
      using st by (auto simp: StructLiteralExpr w split_beta intro!: snd_record split: option.split)
  next
    case (CallExpr i r f gs as)
    have args: "tc_le u (snd (check_exprs as c u))" for u
      by (rule check_exprs_le) (use 1 CallExpr in auto)
    have fin: "tc_le u (snd (finish_call r gs m n sig ps c (snd (check_exprs as c u))))" for u m n sig ps
      by (rule tc_le_trans [OF args tc_le_finish])
    have bin: "tc_le u (snd (check_builtin_call n r as ts (snd (check_exprs as c u))))" for u n ts
      by (rule tc_le_trans [OF args tc_le_builtin])
    show ?thesis
    proof (cases f)
      case (NameExpr j q n)
      then show ?thesis
        using fin bin by (auto simp: CallExpr split_beta intro!: snd_record split: option.split)
    next
      case (MemberExpr j q b m)
      obtain t s1 where b: "check_expr b c s = (t, s1)"
        by fastforce
      obtain w s2 where w: "find_method r m (strip_ref t) s1 = (w, s2)"
        by fastforce
      have s1: "tc_le s s1"
        using 1 [of b s] b by (simp add: CallExpr MemberExpr)
      have s2: "tc_le s s2"
        using tc_le_trans [OF s1 tc_le_method [of s1 r m "strip_ref t"]] by (simp add: w)
      have "tc_le s (snd (finish_call r gs True n sig ps c (snd (check_exprs as c (check_receiver b n sig t c s2)))))" for n sig ps
        by (rule tc_le_trans [OF tc_le_trans [OF s2 tc_le_receiver] fin])
      then show ?thesis
        using s2 tc_le_trans [OF s2 tc_le_error] unfolding CallExpr MemberExpr check_expr.simps expr.simps b
        by (cases w) (simp_all add: w snd_record split_beta)
    qed (auto simp: CallExpr intro!: snd_record)
  next
    case (AsmExpr i r t ps v)
    have "tc_le s (check_operands ps c (start_asm r t c s))"
      by (rule tc_le_trans [OF tc_le_asm(1) check_operands_le]) (use 1 AsmExpr in simp)
    then show ?thesis
      by (auto simp: AsmExpr intro!: snd_record)
  next
    case (BinaryExpr i r op a b)
    have "tc_le s (snd (adapt_operands a b l q (snd (check_expr b c (snd (check_expr a c s))))))" for l q
      by (rule tc_le_trans [OF le [OF _ 1] tc_le_adapt]) (simp_all add: BinaryExpr)
    then show ?thesis
      by (auto simp: BinaryExpr split_beta intro!: snd_record tc_le_trans [OF _ tc_le_binary])
  next
    case (IndexExpr i r a b)
    have "tc_le s (snd (check_expr b c (snd (check_expr a c s))))"
      by (rule le [OF _ 1]) (simp_all add: IndexExpr)
    then show ?thesis
      by (auto simp: IndexExpr split_beta intro!: snd_record tc_le_trans [OF _ tc_le_index])
  next
    case (AwaitExpr i r x)
    have "tc_le s (snd (check_expr x c (tc_require ok r k m s)))" for ok k m
      by (rule tc_le_trans [OF tc_le_require 1]) (simp add: AwaitExpr)
    then show ?thesis
      by (auto simp: AwaitExpr split_beta intro!: snd_record tc_le_trans [OF _ tc_le_await])
  next
    case (UnaryExpr i r op x)
    then show ?thesis
      using 1 by (auto simp: split_beta intro!: snd_record tc_le_trans [OF _ tc_le_unary])
  next
    case (BorrowExpr i r x m)
    then show ?thesis
      using 1 by (auto simp: split_beta intro!: snd_record)
  next
    case (MemberExpr i r x m)
    then show ?thesis
      using 1 by (auto simp: split_beta intro!: snd_record tc_le_trans [OF _ tc_le_member])
  next
    case (CastExpr i r x t)
    then show ?thesis
      using 1 by (auto simp: split_beta intro!: snd_record tc_le_trans [OF _ tc_le_cast])
  qed (auto intro!: snd_record)
qed

subsection \<open>Bounds\<close>

text \<open>The trait solver reads the tables of items only.\<close>

lemma auto_trait_core:
  "auto_trait f (core M) = auto_trait f M \<and> auto_trait_fields f (core M) = auto_trait_fields f M"
proof (induction f)
  case 0
  have "auto_trait_fields 0 (core M) ts = auto_trait_fields 0 M ts" for ts
    by (cases ts) (simp_all add: fun_eq_iff)
  then show ?case
    by (simp add: fun_eq_iff)
next
  case (Suc f)
  have head: "auto_trait (Suc f) (core M) t = auto_trait (Suc f) M t" for t
    unfolding fun_eq_iff auto_trait.simps core_simps conjunct1 [OF Suc] conjunct2 [OF Suc] by simp
  have "auto_trait_fields (Suc f) (core M) ts = auto_trait_fields (Suc f) M ts" for ts
  proof (cases ts)
    case (Cons u us)
    show ?thesis
      unfolding Cons fun_eq_iff auto_trait_fields.simps conjunct1 [OF Suc] conjunct2 [OF Suc] by simp
  qed (simp add: fun_eq_iff)
  with head show ?case
    by auto
qed

lemma solve_core:
  "solve f (core M) gb q r t tr = solve f M gb q r t tr"
  "solve_markers f (core M) gb q r ms t tr = solve_markers f M gb q r ms t tr"
  "solve_bounds f (core M) gb q r bs sub = solve_bounds f M gb q r bs sub"
  "solve_all f (core M) gb q r us t = solve_all f M gb q r us t"
proof (induction f M gb q r t tr and f M gb q r ms t tr and f M gb q r bs sub and f M gb q r us t
    rule: solve_solve_markers_solve_bounds_solve_all.induct)
  case (2 f M gb q r t tr)
  then show ?case
    using auto_trait_core [of f M]
    by (cases "list_ex (\<lambda>im. ii_trait im = tr \<and> type_eq (ii_for_type im) t) (sm_impls M)")
      (simp_all cong: option.case_cong bool.case_cong)
next
  case (4 f M gb q r m ms t tr)
  obtain ok s where u: "unify_pattern (mi_type m) t Map.empty = (ok, s)"
    by fastforce
  show ?case
  proof (cases "mi_trait m \<noteq> tr \<or> \<not> ok")
    case True
    then show ?thesis
      using 4 u by (cases ok) auto
  next
    case False
    then have 1: "solve_bounds f (core M) gb q r (mi_bounds m) s = solve_bounds f M gb q r (mi_bounds m) s"
      using 4 u by auto
    show ?thesis
    proof (cases "solve_bounds f M gb q r (mi_bounds m) s")
      case (Some w)
      then show ?thesis
        using False 1 4 u by (cases w) auto
    qed (use False 1 u in simp)
  qed
next
  case (6 f M gb q r g bounds bs s)
  show ?case
  proof (cases "s g")
    case (Some actual)
    then have 1: "solve_all f (core M) gb q r bounds actual = solve_all f M gb q r bounds actual"
      using 6 by simp
    show ?thesis
    proof (cases "solve_all f M gb q r bounds actual")
      case (Some w)
      then show ?thesis
        using \<open>s g = Some actual\<close> 1 6 by (cases w) simp_all
    qed (use Some 1 in simp)
  qed simp
next
  case (8 f M gb q r b bs t)
  show ?case
  proof (cases "solve f M gb q r t b")
    case (Some w)
    then show ?thesis
      using 8 by (cases w) simp_all
  qed (use 8 in simp)
qed simp_all

lemma satisfies_core: "satisfies_bounds f (core M) t tr gb = satisfies_bounds f M t tr gb"
  by (simp add: satisfies_bounds_def solve_core)

definition holds_bound :: "sem_model \<Rightarrow> ty \<Rightarrow> string \<Rightarrow> bool" where
  "holds_bound M t b \<longleftrightarrow> (\<exists>f. satisfies_bounds f M t b [] = Some True)"

lemma check_bound_clean:
  assumes "tc_clean (check_bound r code m t b s)"
  shows "tc_clean s" "holds_bound (core (tc_model s)) t b"
proof -
  show "tc_clean s"
    by (rule tc_le_clean [OF tc_le_bound assms])
  show "holds_bound (core (tc_model s)) t b"
    using assms
    by (auto simp: check_bound_def tc_satisfies_def holds_bound_def satisfies_core tc_clean_def set_stuck_def
        tc_require_def tc_error_def split: option.splits if_splits)
qed

lemma fold_bound_clean:
  assumes "tc_clean (fold (check_bound r code m t) bs s)" "b \<in> set bs"
  shows "holds_bound (core (tc_model s)) t b"
  using assms
proof (induction bs arbitrary: s)
  case (Cons c bs)
  let ?s = "check_bound r code m t c s"
  have rest: "tc_clean (fold (check_bound r code m t) bs ?s)" and clean: "tc_clean ?s"
    using Cons.prems(1) tc_le_clean [OF tc_le_fold [OF tc_le_bound]] by auto
  have core: "core (tc_model ?s) = core (tc_model s)"
    using tc_le_bound [of s r code m t c] by (simp add: tc_le_def)
  show ?case
    using Cons.IH [OF rest] Cons.prems(2) check_bound_clean(2) [OF clean] core by auto
qed simp

text \<open>The bounds of a declaration, for the types its parameters stand for.\<close>

definition bounds_hold :: "sem_model \<Rightarrow> type_subst \<Rightarrow> bounds \<Rightarrow> bool" where
  "bounds_hold M sub gbs \<longleftrightarrow> (\<forall>(g, bs) \<in> set gbs. \<forall>t. sub g = Some t \<longrightarrow> (\<forall>b \<in> set bs. holds_bound M t b))"

lemma call_bounds_clean:
  "tc_clean (check_call_bounds r sub gbs s) \<Longrightarrow>
     bounds_hold (core (tc_model s)) sub gbs \<and> fst ` set gbs \<subseteq> dom sub"
proof (induction gbs arbitrary: s)
  case (Cons gb gbs)
  obtain g bs where gb: "gb = (g, bs)"
    by fastforce
  show ?case
  proof (cases "sub g")
    case None
    then show ?thesis
      using Cons.prems tc_le_clean [OF tc_le_call_bounds] by (fastforce simp: gb)
  next
    case (Some t)
    define u where "u = fold (check_bound r ''E0313''
      (\<lambda>b. ''type '' @ quoted (type_str t) @ '' does not satisfy trait '' @ quoted b) t) bs s"
    have clean: "tc_clean (check_call_bounds r sub gbs u)"
      using Cons.prems by (simp add: gb Some u_def)
    have u: "tc_clean u"
      by (rule tc_le_clean [OF tc_le_call_bounds clean])
    have "tc_le s u"
      unfolding u_def by (rule tc_le_fold) simp
    then have core: "core (tc_model u) = core (tc_model s)"
      by (simp add: tc_le_def)
    show ?thesis
      using Cons.IH [OF clean] fold_bound_clean [OF u [unfolded u_def]] core
      by (auto simp: bounds_hold_def gb Some)
  qed
qed (simp add: bounds_hold_def)

lemma literal_bounds_clean:
  "tc_clean (check_literal_bounds r sub gbs s) \<Longrightarrow> bounds_hold (core (tc_model s)) sub gbs"
proof (induction gbs arbitrary: s)
  case (Cons gb gbs)
  obtain g bs where gb: "gb = (g, bs)"
    by fastforce
  show ?case
  proof (cases "sub g")
    case None
    then show ?thesis
      using Cons by (auto simp: gb bounds_hold_def)
  next
    case (Some t)
    define u where "u = fold (check_bound r ''E0362''
      (\<lambda>b. ''type '' @ quoted (type_str t) @ '' does not satisfy struct bound '' @ quoted (g @ '': '' @ b)) t) bs s"
    have clean: "tc_clean (check_literal_bounds r sub gbs u)"
      using Cons.prems by (simp add: gb Some u_def)
    have u: "tc_clean u"
      by (rule tc_le_clean [OF tc_le_literal_bounds clean])
    have "tc_le s u"
      unfolding u_def by (rule tc_le_fold) simp
    then have core: "core (tc_model u) = core (tc_model s)"
      by (simp add: tc_le_def)
    show ?thesis
      using Cons.IH [OF clean] fold_bound_clean [OF u [unfolded u_def]] core
      by (auto simp: bounds_hold_def gb Some)
  qed
qed (simp add: bounds_hold_def)

subsection \<open>Inference of type arguments\<close>

text \<open>
  A formal type matches an actual one under a substitution: at a parameter the actual is what the
  parameter stands for; elsewhere the constructors agree. Whether a type is nullable plays no part.
\<close>

fun matches :: "type_subst \<Rightarrow> ty \<Rightarrow> ty \<Rightarrow> bool" and matches_all :: "type_subst \<Rightarrow> ty list \<Rightarrow> ty list \<Rightarrow> bool" where
  "matches sub (Ty k n as p m nl) (Ty k' n' as' p' m' nl') =
     (if k = KGeneric then sub n = Some (Ty k' n' as' p' m' nl')
      else k = k' \<and>
        (case (p, p') of
          (Some q, Some q') \<Rightarrow> m = m' \<and> matches sub q q'
        | _ \<Rightarrow> matches_all sub as as' \<and> (n = n' \<or> n = [] \<or> n' = [])))"
| "matches_all sub [] [] = True"
| "matches_all sub (f # fs) (a # as) = (matches sub f a \<and> matches_all sub fs as)"
| "matches_all sub _ _ = False"

lemma unify_sound:
  "unify_generic f a sub = (ok, sub') \<Longrightarrow> sub \<subseteq>\<^sub>m sub' \<and> (ok \<longrightarrow> (\<forall>sub''. sub' \<subseteq>\<^sub>m sub'' \<longrightarrow> matches sub'' f a))"
  "unify_generics fs as sub = (ok, sub') \<Longrightarrow>
     sub \<subseteq>\<^sub>m sub' \<and> (ok \<and> length fs = length as \<longrightarrow> (\<forall>sub''. sub' \<subseteq>\<^sub>m sub'' \<longrightarrow> matches_all sub'' fs as))"
proof (induction f a sub and fs as sub arbitrary: ok sub' and ok sub' rule: unify_generic_unify_generics.induct)
  case (1 k n as p m nl a sub)
  obtain k' n' as' p' m' nl' where a: "a = Ty k' n' as' p' m' nl'"
    by (cases a)
  show ?case
  proof (cases "k = KGeneric")
    case True
    then show ?thesis
      using "1.prems" by (auto simp: a type_eq_iff map_le_def split: option.splits) (metis domI)
  next
    case False
    then show ?thesis
      using 1 by (auto simp: a split: option.splits if_splits prod.splits)
  qed
next
  case (2 f fs a as sub)
  obtain ok1 sub1 where u: "unify_generic f a sub = (ok1, sub1)"
    by fastforce
  note head = "2.IH"(1) [OF u]
  show ?case
  proof (cases ok1)
    case True
    then have rest: "unify_generics fs as sub1 = (ok, sub')"
      using "2.prems" u by simp
    note tail = "2.IH"(2) [OF u [symmetric] True rest]
    show ?thesis
      using head tail True map_le_trans by auto
  next
    case False
    then show ?thesis
      using "2.prems" u head by simp
  qed
qed auto

end
