(* ===== verification/TypeJudge.thy ===== *)
theory TypeJudge
  imports TypeRules
begin

text \<open>
  The typing rules of expressions as a relation, and that the type checker follows them: where it
  reports nothing, the type it gives to an expression is one the rules give. A rule that needs unsafe
  code has \<open>fc_unsafe\<close> as a premise, one that needs an asynchronous function the flag of the signature.
\<close>

subsection \<open>Operators\<close>

definition comparisons :: "string set" where
  "comparisons = {''=='', ''!='', ''<'', ''<='', ''>'', ''>=''}"

definition logical_ops :: "string set" where
  "logical_ops = {''&&'', ''||''}"

definition bit_ops :: "string set" where
  "bit_ops = {''&'', ''|'', ''^'', ''<<'', ''>>''}"

text \<open>A literal may be read at another integer type.\<close>

definition fits :: "expr \<Rightarrow> ty \<Rightarrow> ty \<Rightarrow> bool" where
  "fits e t u \<longleftrightarrow> u = t \<or> integer_literal e \<and> is_integer t \<and> is_integer u"

inductive binary_rule :: "bool \<Rightarrow> string \<Rightarrow> ty \<Rightarrow> ty \<Rightarrow> ty \<Rightarrow> bool" for u where
  compare_rule: "op \<in> comparisons \<Longrightarrow> can_coerce l q \<or> can_coerce q l \<Longrightarrow> binary_rule u op l q (builtin_type ''bool'')"
| logic_rule: "op \<in> logical_ops \<Longrightarrow> ty_kind l = KBool \<Longrightarrow> ty_kind q = KBool \<Longrightarrow>
    binary_rule u op l q (builtin_type ''bool'')"
| bits_rule: "op \<in> bit_ops \<Longrightarrow> is_integer l \<Longrightarrow> binary_rule u op l l l"
| pointer_rule: "op = ''+'' \<or> op = ''-'' \<Longrightarrow> ty_kind l = KRawPtr \<Longrightarrow> is_integer q \<Longrightarrow> u \<Longrightarrow> binary_rule u op l q l"
| arith_rule: "op \<notin> comparisons \<union> logical_ops \<union> bit_ops \<Longrightarrow> is_numeric l \<Longrightarrow> binary_rule u op l l l"

inductive unary_rule :: "bool \<Rightarrow> string \<Rightarrow> ty \<Rightarrow> ty \<Rightarrow> bool" for u where
  not_rule: "ty_kind x = KBool \<or> is_integer x \<Longrightarrow> unary_rule u ''!'' x x"
| complement_rule: "is_integer x \<Longrightarrow> unary_rule u ''~'' x x"
| minus_rule: "is_numeric x \<Longrightarrow> unary_rule u ''-'' x x"
| move_rule: "unary_rule u ''move'' x x"
| deref_rule: "ty_kind x = KRef \<or> ty_kind x = KRawPtr \<and> u \<Longrightarrow>
    unary_rule u ''*'' x (case ty_pointee x of None \<Rightarrow> error_type | Some q \<Rightarrow> q)"
| other_rule: "op \<notin> {''!'', ''~'', ''-'', ''move'', ''*''} \<Longrightarrow> unary_rule u op x error_type"

inductive builtin_rule :: "string \<Rightarrow> ty list \<Rightarrow> ty \<Rightarrow> bool" where
  print_rule: "n \<in> {''print'', ''println'', ''eprint'', ''eprintln''} \<Longrightarrow> list_all printable ts \<Longrightarrow>
    builtin_rule n ts (builtin_type ''unit'')"
| input_rule: "length ts \<le> 1 \<Longrightarrow> list_all string_like ts \<Longrightarrow>
    builtin_rule ''input'' ts (ref_type (builtin_type ''str'') False)"
| str_rule: "printable t \<Longrightarrow> builtin_rule ''str'' [t] (ref_type (builtin_type ''str'') False)"
| int_rule: "is_numeric t \<or> string_like t \<Longrightarrow> builtin_rule ''int'' [t] (builtin_type ''i64'')"
| float_rule: "is_numeric t \<or> string_like t \<Longrightarrow> builtin_rule ''float'' [t] (builtin_type ''f64'')"
| bool_rule: "ty_kind t = KBool \<or> is_numeric t \<or> string_like t \<Longrightarrow> builtin_rule ''bool'' [t] (builtin_type ''bool'')"
| len_rule: "string_like t \<Longrightarrow> builtin_rule ''len'' [t] (builtin_type ''usize'')"

definition cast_rule :: "bool \<Rightarrow> ty \<Rightarrow> ty \<Rightarrow> bool" where
  "cast_rule u from to \<longleftrightarrow>
     is_numeric from \<and> is_numeric to \<or>
     ref_to_raw from to \<and> (ty_mut to \<longrightarrow> ty_mut from) \<and> can_coerce (the (ty_pointee from)) (the (ty_pointee to)) \<or>
     str_to_raw from to \<or> (ty_kind from = KRawPtr \<or> ty_kind to = KRawPtr) \<and> (u \<or> ty_kind from = KStr)"

subsection \<open>Calls\<close>

definition generics_map :: "string list \<Rightarrow> type_ref list \<Rightarrow> type_subst" where
  "generics_map names gs = fold (\<lambda>(n, g) m. m(n \<mapsto> type_from_ast g {})) (zip names gs) Map.empty"

text \<open>
  An argument fits its parameter when the types match under the inferred type arguments, or when it
  coerces to the parameter's type under those inferred so far.
\<close>

definition argument_rule :: "type_subst \<Rightarrow> expr \<times> ty \<Rightarrow> ty \<Rightarrow> bool" where
  "argument_rule sub = (\<lambda>(e, a) f.
     matches sub f a \<or> (\<exists>sub'. sub' \<subseteq>\<^sub>m sub \<and> can_coerce_expr (Some e) a (substitute_type f sub')))"

definition call_rule ::
  "sem_model \<Rightarrow> bool \<Rightarrow> function_sig \<Rightarrow> type_ref list \<Rightarrow> (expr \<times> ty) list \<Rightarrow> ty \<Rightarrow> bool" where
  "call_rule M u sig gs actuals t \<longleftrightarrow>
     (fs_is_unsafe sig \<longrightarrow> u) \<and>
     (\<exists>sub. (gs \<noteq> [] \<longrightarrow> length gs = length (fs_generic_names sig) \<and> generics_map (fs_generic_names sig) gs \<subseteq>\<^sub>m sub) \<and>
        list_all2 (argument_rule sub) actuals (fs_params sig) \<and>
        bounds_hold M sub (fs_bounds sig) \<and> fst ` set (fs_bounds sig) \<subseteq> dom sub \<and>
        t = (let r = substitute_type (fs_result sig) sub in if fs_is_async sig then named_type ''Future'' [r] else r))"

subsection \<open>Expressions\<close>

inductive has_type :: "sem_model \<Rightarrow> fn_context \<Rightarrow> expr \<Rightarrow> ty \<Rightarrow> bool" for M c where
  integer_type: "has_type M c (IntegerExpr i r v) (builtin_type ''i32'')"
| float_type: "has_type M c (FloatExpr i r v) (builtin_type ''f64'')"
| string_type: "has_type M c (StringExpr i r v) (ref_type (builtin_type ''str'') False)"
| char_type: "has_type M c (CharExpr i r v) (builtin_type ''char'')"
| bool_type: "has_type M c (BoolExpr i r b) (builtin_type ''bool'')"
| function_type: "map_of (sm_functions M) n \<noteq> None \<Longrightarrow> has_type M c (NameExpr i r n) (named_type ''fn'' [])"
| local_type: "map_of (sm_functions M) n = None \<Longrightarrow> find_local n (fc_scopes c) = Some t \<Longrightarrow> has_type M c (NameExpr i r n) t"
| global_type: "map_of (sm_functions M) n = None \<Longrightarrow> find_local n (fc_scopes c) = None \<Longrightarrow>
    map_of (sm_globals M) n = Some g \<Longrightarrow> has_type M c (NameExpr i r n) (gi_type g)"
| struct_type: "map_of (sm_structs M) n = Some si \<Longrightarrow> targs = map (\<lambda>g. type_from_ast g {}) gs \<Longrightarrow>
    length targs = length (si_generic_names si) \<Longrightarrow> sub = struct_subst si (named_type n targs) \<Longrightarrow>
    bounds_hold M sub (si_bounds si) \<Longrightarrow>
    distinct (map fi_name fs) \<Longrightarrow> fst ` set (si_fields si) \<subseteq> fi_name ` set fs \<Longrightarrow>
    (\<And>f. f \<in> set fs \<Longrightarrow> \<exists>ft a. map_of (si_fields si) (fi_name f) = Some ft \<and> has_type M c (fi_value f) a \<and>
       can_coerce_expr (Some (fi_value f)) a (substitute_type ft sub)) \<Longrightarrow>
    has_type M c (StructLiteralExpr i r n gs fs) (named_type n targs)"
| unary_expr: "has_type M c e x \<Longrightarrow> unary_rule (fc_unsafe c) op x t \<Longrightarrow> has_type M c (UnaryExpr i r op e) t"
| binary_expr: "has_type M c a l \<Longrightarrow> has_type M c b q \<Longrightarrow> fits a l l' \<Longrightarrow> fits b q q' \<Longrightarrow>
    binary_rule (fc_unsafe c) op l' q' t \<Longrightarrow> has_type M c (BinaryExpr i r op a b) t"
| borrow_expr: "has_type M c e t \<Longrightarrow> has_type M c (BorrowExpr i r e m) (ref_type t m)"
| builtin_call: "builtin_function n \<Longrightarrow> list_all2 (has_type M c) as ts \<Longrightarrow> builtin_rule n ts t \<Longrightarrow>
    has_type M c (CallExpr i r (NameExpr j q n) gs as) t"
| function_call: "\<not> builtin_function n \<Longrightarrow> map_of (sm_functions M) n = Some sig \<Longrightarrow> list_all2 (has_type M c) as ts \<Longrightarrow>
    call_rule M (fc_unsafe c) sig gs (zip as ts) t \<Longrightarrow> has_type M c (CallExpr i r (NameExpr j q n) gs as) t"
| method_call: "has_type M c b bt \<Longrightarrow> ty_kind (strip_ref bt) = KNamed \<Longrightarrow>
    map_of (sm_functions M) (ty_name (strip_ref bt) @ ''::'' @ m) = Some sig \<Longrightarrow> list_all2 (has_type M c) as ts \<Longrightarrow>
    call_rule M (fc_unsafe c) sig gs ((b, receiver_type sig (strip_ref bt)) # zip as ts) t \<Longrightarrow>
    has_type M c (CallExpr i r (MemberExpr j q b m) gs as) t"
| member_expr: "has_type M c e t \<Longrightarrow> ty_kind (strip_ref t) = KNamed \<Longrightarrow> map_of (sm_structs M) (ty_name (strip_ref t)) = Some si \<Longrightarrow>
    map_of (si_fields si) m = Some ft \<Longrightarrow>
    has_type M c (MemberExpr i r e m) (substitute_type ft (struct_subst si (strip_ref t)))"
| slice_element: "has_type M c a t \<Longrightarrow> has_type M c b x \<Longrightarrow> is_integer x \<Longrightarrow> ty_kind (strip_ref t) = KNamed \<Longrightarrow>
    ty_name (strip_ref t) \<in> {''Slice'', ''SliceMut''} \<Longrightarrow> ty_args (strip_ref t) = u # us \<Longrightarrow>
    has_type M c (IndexExpr i r a b) u"
| string_element: "has_type M c a t \<Longrightarrow> has_type M c b x \<Longrightarrow> is_integer x \<Longrightarrow> ty_kind (strip_ref t) = KStr \<Longrightarrow>
    has_type M c (IndexExpr i r a b) (builtin_type ''u8'')"
| await_expr: "fs_is_async (fc_sig c) \<Longrightarrow> has_type M c e (Ty KNamed ''Future'' [t] p m nl) \<Longrightarrow>
    has_type M c (AwaitExpr i r e) t"
| cast_expr: "has_type M c e from \<Longrightarrow> cast_rule (fc_unsafe c) from (type_from_ast tr {}) \<Longrightarrow>
    has_type M c (CastExpr i r e tr) (type_from_ast tr {})"
| asm_expr: "fc_unsafe c \<Longrightarrow>
    (\<And>p. p \<in> set ps \<Longrightarrow> ao_constraint p \<noteq> [] \<and> list_all constraint_char (ao_constraint p) \<and>
       (\<forall>e. ao_value p = Some e \<longrightarrow> (\<exists>t. has_type M c e t))) \<Longrightarrow>
    has_type M c (AsmExpr i r template ps vol) (builtin_type ''unit'')"

subsection \<open>The checker follows the rules\<close>

lemma record_clean [simp]: "tc_clean (snd (record_type i p)) = tc_clean (snd p)" "fst (record_type i p) = fst p"
  by (auto simp: record_type_def split_beta tc_clean_def)

lemma unary_sound: "tc_clean (snd (unary_type r op x c s)) \<Longrightarrow> unary_rule (fc_unsafe c) op x (fst (unary_type r op x c s))"
  by (auto simp: unary_type_def split: if_splits intro: unary_rule.intros)

lemma binary_type_ops:
  "binary_type r op l q c s =
     (let s = tc_require (\<not> ((ty_kind l = KRawPtr \<or> ty_kind q = KRawPtr) \<and> (op = ''+'' \<or> op = ''-'') \<and> \<not> fc_unsafe c))
            r ''E0322'' ''raw pointer arithmetic requires unsafe context'' s
      in if op \<in> comparisons then
           (builtin_type ''bool'', tc_require (can_coerce l q \<or> can_coerce q l) r ''E0323''
             ''comparison operands have incompatible types'' s)
         else if op \<in> logical_ops then
           (builtin_type ''bool'', tc_require (ty_kind l = KBool \<and> ty_kind q = KBool) r ''E0324''
             ''logical operators require bool operands'' s)
         else if op \<in> bit_ops then
           (l, tc_require (type_eq l q \<and> is_integer l) r ''E0325''
             ''bitwise/shift operators require matching integer operands'' s)
         else if ty_kind l = KRawPtr \<and> (op = ''+'' \<or> op = ''-'') \<and> is_integer q then (l, s)
         else if type_eq l q \<and> is_numeric l then (l, s)
         else (error_type, tc_error r ''E0325'' (''binary operator '' @ quoted op @ '' cannot combine '' @
           quoted (type_str l) @ '' and '' @ quoted (type_str q)) s))"
  unfolding binary_type_def comparisons_def logical_ops_def bit_ops_def insert_iff empty_iff simp_thms ..

lemma binary_sound:
  assumes "tc_clean (snd (binary_type r op l q c s))"
  shows "binary_rule (fc_unsafe c) op l q (fst (binary_type r op l q c s))"
proof -
  define plus where "plus \<longleftrightarrow> op = ''+'' \<or> op = ''-''"
  have pointer: "plus \<Longrightarrow> ty_kind l = KRawPtr \<Longrightarrow> is_integer q \<Longrightarrow> binary_rule True op l q l"
    unfolding plus_def by (rule pointer_rule) simp_all
  show ?thesis
    using assms unfolding binary_type_ops plus_def [symmetric] Let_def
    by (auto simp: type_eq_iff intro: compare_rule logic_rule bits_rule arith_rule pointer split: if_splits)
qed

lemma adapt_fits:
  assumes "adapt_operands a b l q s = ((l', q'), s')"
  shows "fits a l l'" "fits b q q'"
  using assms by (auto simp: adapt_operands_def fits_def split: if_splits)

lemma printed_sound: "length es = length ts \<Longrightarrow> tc_clean (check_printed es ts s) \<Longrightarrow> list_all printable ts"
proof (induction es ts arbitrary: s rule: list_induct2)
  case (Cons e es t ts)
  then show ?case
    using tc_le_clean [OF tc_le_printed] by fastforce
qed simp

lemma single_sound:
  "length es = length ts \<Longrightarrow> tc_clean (check_single r n es ts ok code m s) \<Longrightarrow> \<exists>t. ts = [t] \<and> ok t"
  by (auto simp: check_single_def split: list.splits)

lemma builtin_call_simps:
  "n \<in> {''print'', ''println'', ''eprint'', ''eprintln''} \<Longrightarrow>
     check_builtin_call n r es ts s = (builtin_type ''unit'', check_printed es ts s)"
  "check_builtin_call ''str'' r es ts s = (ref_type (builtin_type ''str'') False,
     check_single r ''str'' es ts printable ''E0371'' (\<lambda>t. ''str argument has unsupported type '' @ quoted (type_str t)) s)"
  "check_builtin_call ''int'' r es ts s = (builtin_type ''i64'',
     check_single r ''int'' es ts (\<lambda>t. is_numeric t \<or> string_like t) ''E0372''
       (\<lambda>_. ''int'' @ '' argument must be numeric or string-like'') s)"
  "check_builtin_call ''float'' r es ts s = (builtin_type ''f64'',
     check_single r ''float'' es ts (\<lambda>t. is_numeric t \<or> string_like t) ''E0372''
       (\<lambda>_. ''float'' @ '' argument must be numeric or string-like'') s)"
  "check_builtin_call ''bool'' r es ts s = (builtin_type ''bool'',
     check_single r ''bool'' es ts (\<lambda>t. ty_kind t = KBool \<or> is_numeric t \<or> string_like t) ''E0373''
       (\<lambda>_. ''bool argument must be scalar or string-like'') s)"
  "check_builtin_call ''len'' r es ts s = (builtin_type ''usize'',
     check_single r ''len'' es ts string_like ''E0374'' (\<lambda>t. ''len is not implemented for type '' @ quoted (type_str t)) s)"
  by (simp_all add: check_builtin_call_def)

lemma builtin_sound:
  assumes "length es = length ts" "builtin_function n" "tc_clean (snd (check_builtin_call n r es ts s))"
  shows "builtin_rule n ts (fst (check_builtin_call n r es ts s))"
proof -
  consider "n \<in> {''print'', ''println'', ''eprint'', ''eprintln''}" | "n = ''input''" | "n = ''str''" | "n = ''int''"
    | "n = ''float''" | "n = ''bool''" | "n = ''len''"
    using assms(2) unfolding builtin_function_def by (elim insertE emptyE) simp_all
  then show ?thesis
  proof cases
    case 1
    then show ?thesis
      using print_rule [OF 1] printed_sound [OF assms(1)] assms(3) unfolding builtin_call_simps(1) [OF 1] by simp
  next
    case 2
    have "length ts \<le> 1 \<and> list_all string_like ts"
      using assms(1,3) unfolding 2 check_builtin_call_def by (cases es; cases ts) auto
    then show ?thesis
      unfolding 2 by (simp add: check_builtin_call_def input_rule)
  next
    case 3
    show ?thesis
      using single_sound [OF assms(1)] assms(3) str_rule unfolding 3 builtin_call_simps fst_conv snd_conv by blast
  next
    case 4
    show ?thesis
      using single_sound [OF assms(1)] assms(3) int_rule unfolding 4 builtin_call_simps fst_conv snd_conv by blast
  next
    case 5
    show ?thesis
      using single_sound [OF assms(1)] assms(3) float_rule unfolding 5 builtin_call_simps fst_conv snd_conv by blast
  next
    case 6
    show ?thesis
      using single_sound [OF assms(1)] assms(3) bool_rule unfolding 6 builtin_call_simps fst_conv snd_conv by blast
  next
    case 7
    show ?thesis
      using single_sound [OF assms(1)] assms(3) len_rule unfolding 7 builtin_call_simps fst_conv snd_conv by blast
  qed
qed

lemma cast_sound: "tc_clean (check_cast r from to c s) \<Longrightarrow> cast_rule (fc_unsafe c) from to"
  unfolding check_cast_def cast_rule_def ref_to_raw_def str_to_raw_def
  by (auto split: if_splits option.splits)

lemma constraint_sound: "tc_clean (check_constraint k r s) \<Longrightarrow> k \<noteq> [] \<and> list_all constraint_char k \<and> tc_clean s"
proof -
  have all: "tc_clean (fold (\<lambda>ch. tc_require (constraint_char ch) r code m) cs s) \<Longrightarrow> list_all constraint_char cs \<and> tc_clean s"
    for cs code m s
  proof (induction cs arbitrary: s)
    case (Cons ch cs)
    show ?case
      using Cons.IH [of "tc_require (constraint_char ch) r code m s"] Cons.prems by simp
  qed simp
  show "tc_clean (check_constraint k r s) \<Longrightarrow> k \<noteq> [] \<and> list_all constraint_char k \<and> tc_clean s"
    unfolding check_constraint_def by (drule all) simp
qed

lemma core_of_le: "tc_le s t \<Longrightarrow> core (tc_model t) = core (tc_model s)"
  by (simp add: tc_le_def)

lemma actuals_sound:
  assumes "length as = length fs" "tc_clean (snd (check_actuals i as fs sub s))"
  shows "sub \<subseteq>\<^sub>m fst (check_actuals i as fs sub s) \<and>
    (\<forall>sub''. fst (check_actuals i as fs sub s) \<subseteq>\<^sub>m sub'' \<longrightarrow> list_all2 (argument_rule sub'') as fs)"
  using assms
proof (induction as fs arbitrary: i sub s rule: list_induct2)
  case (Cons ea as f fs)
  obtain e a where ea: "ea = (e, a)"
    by fastforce
  obtain ok sub1 where u: "unify_generic f a sub = (ok, sub1)"
    by fastforce
  define t where "t = tc_require (ok \<or> can_coerce_expr (Some e) a (substitute_type f sub)) (expr_range e) ''E0311''
    (''argument '' @ nat_to_string (Suc i) @ '' has type '' @ quoted (type_str a) @ '', expected '' @
     quoted (type_str (substitute_type f sub))) s"
  have eq: "check_actuals i (ea # as) (f # fs) sub s = check_actuals (Suc i) as fs sub1 t"
    by (simp add: ea u t_def)
  have clean: "tc_clean (snd (check_actuals (Suc i) as fs sub1 t))"
    using Cons.prems by (simp only: eq)
  note rest = Cons.IH [OF clean]
  have head: "ok \<or> can_coerce_expr (Some e) a (substitute_type f sub)"
    using tc_le_clean [OF tc_le_actuals clean] by (simp add: t_def)
  note uni = unify_sound(1) [OF u]
  have "argument_rule sub'' (e, a) f" if "fst (check_actuals (Suc i) as fs sub1 t) \<subseteq>\<^sub>m sub''" for sub''
  proof -
    have "sub1 \<subseteq>\<^sub>m sub''" "sub \<subseteq>\<^sub>m sub''"
      using that rest uni map_le_trans by blast+
    then show ?thesis
      using head uni by (auto simp: argument_rule_def)
  qed
  then show ?case
    unfolding eq using rest uni map_le_trans by (auto simp: ea)
qed simp

lemma generics_sound:
  assumes "tc_clean (snd (explicit_generics r gs ns s))"
  shows "gs \<noteq> [] \<longrightarrow> length gs = length ns \<and> fst (explicit_generics r gs ns s) = generics_map ns gs"
  using assms by (auto simp: explicit_generics_def generics_map_def split: if_splits)

lemma call_sound:
  assumes "tc_clean (snd (finish_call r gs method name sig actuals c s))"
  shows "call_rule (core (tc_model s)) (fc_unsafe c) sig gs actuals (fst (finish_call r gs method name sig actuals c s))"
proof -
  define s1 where "s1 = tc_require (\<not> (fs_is_unsafe sig \<and> \<not> fc_unsafe c)) r ''E0308''
    (''call to unsafe function/method '' @ quoted name @ '' requires unsafe context'') s"
  define p where "p = explicit_generics r gs (fs_generic_names sig) s1"
  define q where "q = check_actuals 0 actuals (fs_params sig) (fst p) (snd p)"
  have len: "length actuals = length (fs_params sig)"
    using assms by (simp add: finish_call_def Let_def split: if_splits)
  have eq: "finish_call r gs method name sig actuals c s =
      (let t = substitute_type (fs_result sig) (fst q)
       in (if fs_is_async sig then named_type ''Future'' [t] else t, check_call_bounds r (fst q) (fs_bounds sig) (snd q)))"
    using len by (simp add: finish_call_def s1_def p_def q_def split_beta Let_def)
  have bounds: "tc_clean (check_call_bounds r (fst q) (fs_bounds sig) (snd q))"
    using assms by (simp add: eq Let_def)
  have q: "tc_clean (snd q)"
    by (rule tc_le_clean [OF tc_le_call_bounds bounds])
  have p: "tc_clean (snd p)"
    using tc_le_clean [OF tc_le_actuals] q by (simp add: q_def)
  have s1: "tc_clean s1"
    using tc_le_clean [OF tc_le_generics] p by (simp add: p_def)
  have core: "core (tc_model (snd q)) = core (tc_model s)"
    using core_of_le [OF tc_le_trans [OF tc_le_trans [OF tc_le_require tc_le_generics] tc_le_actuals]]
    by (simp add: q_def p_def s1_def)
  have args: "fst p \<subseteq>\<^sub>m fst q" "list_all2 (argument_rule (fst q)) actuals (fs_params sig)"
    using actuals_sound [OF len q [unfolded q_def]] by (auto simp: q_def)
  have gens: "gs \<noteq> [] \<longrightarrow> length gs = length (fs_generic_names sig) \<and> fst p = generics_map (fs_generic_names sig) gs"
    using generics_sound [OF p [unfolded p_def]] by (simp add: p_def)
  show ?thesis
    unfolding call_rule_def eq
    using s1 args gens call_bounds_clean [OF bounds] core
    by (auto simp: s1_def Let_def intro!: exI [of _ "fst q"])
qed

subsection \<open>Soundness\<close>

lemma exprs_sound:
  assumes "\<And>e s. e \<in> set es \<Longrightarrow> tc_clean (snd (check_expr e c s)) \<Longrightarrow> has_type (core (tc_model s)) c e (fst (check_expr e c s))"
    and "tc_clean (snd (check_exprs es c s))"
  shows "list_all2 (has_type (core (tc_model s)) c) es (fst (check_exprs es c s))"
  using assms
proof (induction es arbitrary: s)
  case (Cons e es)
  let ?p = "check_expr e c s"
  have rest: "tc_clean (snd (check_exprs es c (snd ?p)))"
    using Cons.prems(2) by (simp add: split_beta)
  have le: "tc_le (snd ?p) (snd (check_exprs es c (snd ?p)))"
    by (rule check_exprs_le) simp
  have "list_all2 (has_type (core (tc_model (snd ?p))) c) es (fst (check_exprs es c (snd ?p)))"
    by (rule Cons.IH) (use Cons.prems rest in auto)
  then show ?case
    using Cons.prems(1) [of e s] tc_le_clean [OF le rest] core_of_le [OF check_expr_le] by (simp add: split_beta)
qed simp

lemma fields_sound:
  assumes "\<And>f s. f \<in> set fs \<Longrightarrow> tc_clean (snd (check_expr (fi_value f) c s)) \<Longrightarrow>
      has_type (core (tc_model s)) c (fi_value f) (fst (check_expr (fi_value f) c s))"
    and "tc_clean (snd (check_fields fs sn si sub seen c s))"
  shows "fst (check_fields fs sn si sub seen c s) = seen \<union> fi_name ` set fs \<and>
    distinct (map fi_name fs) \<and> seen \<inter> fi_name ` set fs = {} \<and>
    (\<forall>f \<in> set fs. \<exists>ft a. map_of (si_fields si) (fi_name f) = Some ft \<and>
       has_type (core (tc_model s)) c (fi_value f) a \<and> can_coerce_expr (Some (fi_value f)) a (substitute_type ft sub))"
  using assms
proof (induction fs arbitrary: seen s)
  case (Cons f fs)
  obtain n e r where f: "f = FieldInit n e r"
    by (cases f)
  define s1 where "s1 = check_seen n r seen s"
  define p where "p = check_expr e c s1"
  define s2 where "s2 = check_field sn si sub n e r (fst p) (snd p)"
  have eq: "check_fields (f # fs) sn si sub seen c s = check_fields fs sn si sub (insert n seen) c s2"
    by (simp add: f split_beta s1_def p_def s2_def)
  have rest: "tc_clean (snd (check_fields fs sn si sub (insert n seen) c s2))"
    using Cons.prems(2) by (simp only: eq)
  have s2: "tc_clean s2"
    using tc_le_clean [OF check_fields_le rest] by simp
  have p: "tc_clean (snd p)"
    using tc_le_clean [OF tc_le_field(2)] s2 by (simp add: s2_def)
  have s1: "tc_clean s1"
    using tc_le_clean [OF check_expr_le] p by (simp add: p_def)
  have new: "n \<notin> seen"
    using s1 by (simp add: s1_def check_seen_def)
  have core1: "core (tc_model s1) = core (tc_model s)"
    unfolding s1_def by (rule core_of_le) simp
  have core2: "core (tc_model s2) = core (tc_model s)"
    using core_of_le [OF tc_le_trans [OF check_expr_le tc_le_field(2)]] core1 by (simp add: s2_def p_def)
  have head: "has_type (core (tc_model s)) c e (fst p)"
    using Cons.prems(1) [of f s1] p core1 by (simp add: f p_def)
  have field: "\<exists>ft. map_of (si_fields si) n = Some ft \<and> can_coerce_expr (Some e) (fst p) (substitute_type ft sub)"
    using s2 by (auto simp: s2_def check_field_def split: option.splits)
  have tail: "fst (check_fields fs sn si sub (insert n seen) c s2) = insert n seen \<union> fi_name ` set fs \<and>
    distinct (map fi_name fs) \<and> insert n seen \<inter> fi_name ` set fs = {} \<and>
    (\<forall>f \<in> set fs. \<exists>ft a. map_of (si_fields si) (fi_name f) = Some ft \<and>
       has_type (core (tc_model s2)) c (fi_value f) a \<and> can_coerce_expr (Some (fi_value f)) a (substitute_type ft sub))"
    by (rule Cons.IH) (use Cons.prems(1) rest in auto)
  show ?case
    unfolding eq using tail head field new core2 by (auto simp: f)
qed simp

lemma operands_sound:
  assumes "\<And>p e s. p \<in> set ps \<Longrightarrow> ao_value p = Some e \<Longrightarrow> tc_clean (snd (check_expr e c s)) \<Longrightarrow>
      has_type (core (tc_model s)) c e (fst (check_expr e c s))"
    and "tc_clean (check_operands ps c s)" "p \<in> set ps"
  shows "ao_constraint p \<noteq> [] \<and> list_all constraint_char (ao_constraint p) \<and>
    (\<forall>e. ao_value p = Some e \<longrightarrow> (\<exists>t. has_type (core (tc_model s)) c e t))"
  using assms
proof (induction ps arbitrary: s)
  case (Cons q ps)
  obtain k con v out r where q: "q = AsmOperand k con v out r"
    by (cases q)
  define s1 where "s1 = check_constraint con r s"
  define s2 where "s2 = (case v of None \<Rightarrow> s1 | Some e \<Rightarrow> snd (check_expr e c s1))"
  have eq: "check_operands (q # ps) c s = check_operands ps c s2"
    by (simp add: q s1_def s2_def split: option.split)
  have rest: "tc_clean (check_operands ps c s2)"
    using Cons.prems(2) by (simp only: eq)
  have s2: "tc_clean s2"
    using tc_le_clean [OF check_operands_le rest] by simp
  have le: "tc_le s1 s2"
    by (simp add: s2_def split: option.split)
  have core1: "core (tc_model s1) = core (tc_model s)"
    unfolding s1_def by (rule core_of_le) simp
  have con: "con \<noteq> [] \<and> list_all constraint_char con"
    using constraint_sound tc_le_clean [OF le s2] by (simp add: s1_def)
  have val: "has_type (core (tc_model s)) c e (fst (check_expr e c s1))" if "v = Some e" for e
    using Cons.prems(1) [of q e s1] that s2 core1 by (simp add: q s2_def)
  show ?case
  proof (cases "p = q")
    case True
    then show ?thesis
      using con val by (auto simp: q)
  next
    case False
    then show ?thesis
      using Cons.IH [of s2] Cons.prems rest core_of_le [OF le] core1 by auto
  qed
qed simp

lemma member_sound:
  assumes "tc_clean (snd (member_type r t m s))"
  shows "\<exists>si ft. ty_kind t = KNamed \<and> map_of (structs_of s) (ty_name t) = Some si \<and> map_of (si_fields si) m = Some ft \<and>
    fst (member_type r t m s) = substitute_type ft (struct_subst si t)"
  using assms by (auto simp: member_type_def split: option.splits bool.splits)

lemma index_sound:
  assumes "tc_clean (snd (index_type r t s))"
  shows "ty_kind (strip_ref t) = KNamed \<and> ty_name (strip_ref t) \<in> {''Slice'', ''SliceMut''} \<and>
      (\<exists>us. ty_args (strip_ref t) = fst (index_type r t s) # us) \<or>
    ty_kind (strip_ref t) = KStr \<and> fst (index_type r t s) = builtin_type ''u8''"
  using assms by (auto simp: index_type_def Let_def split: list.splits bool.splits if_splits)

lemma await_sound:
  assumes "tc_clean (snd (await_type r t s))"
  shows "\<exists>p m nl. t = Ty KNamed ''Future'' [fst (await_type r t s)] p m nl"
  using assms by (cases t) (auto simp: await_type_def split: list.splits bool.splits)

lemma missing_sound:
  "tc_clean (check_missing r sn si seen s) \<Longrightarrow> fst ` set (si_fields si) \<subseteq> seen \<and> tc_clean s"
proof -
  have "tc_clean (fold (\<lambda>(n, _). tc_require (n \<in> seen) r code (m n)) fs s) \<Longrightarrow> fst ` set fs \<subseteq> seen \<and> tc_clean s"
    for fs :: "(string \<times> ty) list" and code m s
  proof (induction fs arbitrary: s)
    case (Cons f fs)
    show ?case
      using Cons.IH [of "tc_require (fst f \<in> seen) r code (m (fst f)) s"] Cons.prems by (simp add: split_beta)
  qed simp
  then show "tc_clean (check_missing r sn si seen s) \<Longrightarrow> fst ` set (si_fields si) \<subseteq> seen \<and> tc_clean s"
    unfolding check_missing_def .
qed

lemma start_literal_sound:
  assumes "tc_clean (snd (start_literal r n targs s))"
  shows "\<exists>si. map_of (structs_of s) n = Some si \<and> length targs = length (si_generic_names si) \<and>
    fst (start_literal r n targs s) = Some (si, struct_subst si (named_type n targs)) \<and>
    bounds_hold (core (tc_model s)) (struct_subst si (named_type n targs)) (si_bounds si)"
  using assms literal_bounds_clean by (auto simp: start_literal_def Let_def split: option.splits if_splits)

lemma method_sound:
  assumes "tc_clean (snd (find_method r m t s))"
  shows "\<exists>sig. ty_kind t = KNamed \<and> map_of (functions_of s) (ty_name t @ ''::'' @ m) = Some sig \<and>
    find_method r m t s = (Some sig, s)"
  using assms by (auto simp: find_method_def split: option.splits if_splits)

lemma lookup_sound:
  assumes "tc_clean (snd (lookup_local n c r s))"
  shows "find_local n (fc_scopes c) = Some (fst (lookup_local n c r s)) \<or>
    find_local n (fc_scopes c) = None \<and> (\<exists>g. map_of (globals_of s) n = Some g \<and> fst (lookup_local n c r s) = gi_type g)"
  using assms by (auto simp: lookup_local_def split: option.splits)

lemma tables_of_core: "core M = core N \<Longrightarrow>
    sm_functions M = sm_functions N \<and> sm_structs M = sm_structs N \<and> sm_globals M = sm_globals N"
  by (metis core_simps(1-3))

lemma expr_sound:
  "tc_clean (snd (check_expr e c s)) \<Longrightarrow> has_type (core (tc_model s)) c e (fst (check_expr e c s))"
proof (induction e arbitrary: s rule: child_induct)
  case (1 e)
  note sub = 1(1)
  have core_expr: "core (tc_model (snd (check_expr x c s))) = core (tc_model s)" for x s
    by (rule core_of_le) simp
  show ?case
  proof (cases e)
    case (NameExpr i r n)
    show ?thesis
    proof (cases "map_of (functions_of s) n")
      case None
      then have "tc_clean (snd (lookup_local n c r s))" "fst (check_expr e c s) = fst (lookup_local n c r s)"
        using 1(2) by (simp_all add: NameExpr)
      then show ?thesis
        using lookup_sound None global_type [of "core (tc_model s)" n c] local_type [of "core (tc_model s)" n c]
        by (fastforce simp: NameExpr)
    next
      case (Some sig)
      then show ?thesis
        by (simp add: NameExpr function_type)
    qed
  next
    case (StructLiteralExpr i r n gs fs)
    define targs where "targs = map (\<lambda>g. type_from_ast g {}) gs"
    define p where "p = start_literal r n targs s"
    have p: "tc_clean (snd p)"
    proof (rule tc_le_clean [OF _ 1(2)])
      have "tc_le (snd p) (check_missing r n si seen (snd (check_fields fs n si sub {} c (snd p))))" for si sub seen
        by (rule tc_le_trans [OF check_fields_le tc_le_missing]) simp
      then show "tc_le (snd p) (snd (check_expr e c s))"
        by (auto simp: StructLiteralExpr targs_def [symmetric] p_def [symmetric] split_beta intro!: snd_record split: option.split)
    qed
    obtain si where si: "map_of (structs_of s) n = Some si" "length targs = length (si_generic_names si)"
        "fst p = Some (si, struct_subst si (named_type n targs))"
        "bounds_hold (core (tc_model s)) (struct_subst si (named_type n targs)) (si_bounds si)"
      using start_literal_sound [OF p [unfolded p_def]] by (auto simp: p_def)
    define q where "q = check_fields fs n si (struct_subst si (named_type n targs)) {} c (snd p)"
    have eq: "check_expr e c s = record_type i (named_type n targs, check_missing r n si (fst q) (snd q))"
      unfolding StructLiteralExpr check_expr.simps targs_def [symmetric] p_def [symmetric]
      using si(3) by (cases p) (simp add: q_def split_beta)
    have miss: "fst ` set (si_fields si) \<subseteq> fst q" "tc_clean (snd q)"
      using missing_sound [of r n si "fst q" "snd q"] 1(2) by (simp_all add: eq)
    have core: "core (tc_model (snd p)) = core (tc_model s)"
      unfolding p_def by (rule core_of_le) simp
    have "fst q = {} \<union> fi_name ` set fs \<and> distinct (map fi_name fs) \<and> {} \<inter> fi_name ` set fs = {} \<and>
      (\<forall>f \<in> set fs. \<exists>ft a. map_of (si_fields si) (fi_name f) = Some ft \<and>
       has_type (core (tc_model (snd p))) c (fi_value f) a \<and>
       can_coerce_expr (Some (fi_value f)) a (substitute_type ft (struct_subst si (named_type n targs))))"
      unfolding q_def by (rule fields_sound) (use sub miss(2) StructLiteralExpr in \<open>auto simp: q_def\<close>)
    then have "has_type (core (tc_model s)) c e (named_type n targs)"
      unfolding StructLiteralExpr using si miss core by (intro struct_type) (auto simp: targs_def)
    then show ?thesis
      by (simp add: eq)
  next
    case (UnaryExpr i r op x)
    define p where "p = check_expr x c s"
    have eq: "check_expr e c s = record_type i (unary_type r op (fst p) c (snd p))"
      by (simp add: UnaryExpr p_def split_beta)
    have clean: "tc_clean (snd (unary_type r op (fst p) c (snd p)))"
      using 1(2) by (simp add: eq)
    then have "tc_clean (snd p)"
      by (rule tc_le_clean [OF tc_le_unary])
    then show ?thesis
      using sub [of x s] unary_sound [OF clean] unfolding eq by (auto simp: UnaryExpr p_def intro: unary_expr)
  next
    case (BinaryExpr i r op a b)
    define p where "p = check_expr a c s"
    define q where "q = check_expr b c (snd p)"
    obtain l' q' s3 where d: "adapt_operands a b (fst p) (fst q) (snd q) = ((l', q'), s3)"
      by (metis surj_pair)
    have eq: "check_expr e c s = record_type i (binary_type r op l' q' c s3)"
      by (simp add: BinaryExpr p_def [symmetric] q_def [symmetric] d split_beta)
    have clean: "tc_clean (snd (binary_type r op l' q' c s3))"
      using 1(2) by (simp add: eq)
    have le: "tc_le (snd q) s3"
      using tc_le_adapt [of "snd q" a b "fst p" "fst q"] by (simp add: d)
    have q: "tc_clean (snd q)"
      by (rule tc_le_clean [OF le tc_le_clean [OF tc_le_binary clean]])
    have p: "tc_clean (snd p)"
      using tc_le_clean [OF check_expr_le] q by (simp add: q_def)
    have "has_type (core (tc_model s)) c a (fst p)" "has_type (core (tc_model s)) c b (fst q)"
      using sub [of a s] sub [of b "snd p"] p q core_expr by (auto simp: BinaryExpr p_def q_def)
    then show ?thesis
      unfolding eq using binary_sound [OF clean] adapt_fits [OF d] by (auto simp: BinaryExpr intro: binary_expr)
  next
    case (BorrowExpr i r x m)
    have clean: "tc_clean (snd (check_expr x c s))"
      using 1(2) by (simp add: BorrowExpr split_beta)
    then show ?thesis
      using sub [of x s] by (auto simp: BorrowExpr split_beta intro: borrow_expr)
  next
    case (CallExpr i r f gs as)
    have args: "list_all2 (has_type (core (tc_model u)) c) as (fst (check_exprs as c u))"
      if "tc_clean (snd (check_exprs as c u))" for u
      by (rule exprs_sound [OF _ that]) (use sub CallExpr in auto)
    have core_args: "core (tc_model (snd (check_exprs as c u))) = core (tc_model u)" for u
      by (rule core_of_le) (simp add: check_exprs_le)
    show ?thesis
    proof (cases f)
      case (NameExpr j q n)
      define p where "p = check_exprs as c s"
      show ?thesis
      proof (cases "builtin_function n")
        case True
        have eq: "check_expr e c s = record_type i (check_builtin_call n r as (fst p) (snd p))"
          using True by (simp add: CallExpr NameExpr p_def split_beta)
        have clean: "tc_clean (snd (check_builtin_call n r as (fst p) (snd p)))"
          using 1(2) by (simp add: eq)
        have ts: "list_all2 (has_type (core (tc_model s)) c) as (fst p)"
          using args tc_le_clean [OF tc_le_builtin clean] by (simp add: p_def)
        then show ?thesis
          unfolding eq using builtin_sound [OF list_all2_lengthD [OF ts] True clean] True
          by (auto simp: CallExpr NameExpr intro: builtin_call)
      next
        case False
        then obtain sig where sig: "map_of (functions_of s) n = Some sig"
          using 1(2) by (cases "map_of (functions_of s) n") (auto simp: CallExpr NameExpr)
        have eq: "check_expr e c s = record_type i (finish_call r gs False n sig (zip as (fst p)) c (snd p))"
          using False sig by (simp add: CallExpr NameExpr p_def split_beta)
        have clean: "tc_clean (snd (finish_call r gs False n sig (zip as (fst p)) c (snd p)))"
          using 1(2) by (simp add: eq)
        have ts: "list_all2 (has_type (core (tc_model s)) c) as (fst p)"
          using args tc_le_clean [OF tc_le_finish clean] by (simp add: p_def)
        show ?thesis
          unfolding eq using ts call_sound [OF clean] False sig core_args
          by (auto simp: CallExpr NameExpr p_def intro!: function_call)
      qed
    next
      case (MemberExpr j q b m)
      define p where "p = check_expr b c s"
      have "tc_clean (snd (find_method r m (strip_ref (fst p)) (snd p)))"
      proof (rule ccontr)
        assume no: "\<not> tc_clean (snd (find_method r m (strip_ref (fst p)) (snd p)))"
        obtain w t where w: "find_method r m (strip_ref (fst p)) (snd p) = (w, t)"
          by fastforce
        have "tc_le t (snd (finish_call r gs True n sig ps c (snd (check_exprs as c (check_receiver b n sig u c t)))))"
          for n sig ps u
          by (rule tc_le_trans [OF tc_le_trans [OF tc_le_receiver check_exprs_le] tc_le_finish]) simp
        then have "tc_le t (snd (check_expr e c s))"
          by (auto simp: CallExpr MemberExpr p_def [symmetric] split_beta w intro!: snd_record split: option.split)
        with no 1(2) w show False
          using tc_le_clean by simp
      qed
      then obtain sig where sig: "ty_kind (strip_ref (fst p)) = KNamed"
          "map_of (functions_of (snd p)) (ty_name (strip_ref (fst p)) @ ''::'' @ m) = Some sig"
          "find_method r m (strip_ref (fst p)) (snd p) = (Some sig, snd p)"
        using method_sound by blast
      define name where "name = ty_name (strip_ref (fst p)) @ ''.'' @ m"
      define s1 where "s1 = check_receiver b name sig (fst p) c (snd p)"
      define w where "w = check_exprs as c s1"
      define actuals where "actuals = (b, receiver_type sig (strip_ref (fst p))) # zip as (fst w)"
      have ne: "fs_params sig \<noteq> []"
        using 1(2) sig(3) by (auto simp: CallExpr MemberExpr p_def [symmetric] split_beta)
      have eq: "check_expr e c s = record_type i (finish_call r gs True name sig actuals c (snd w))"
        using ne sig(3) by (simp add: CallExpr MemberExpr p_def [symmetric] name_def s1_def w_def actuals_def split_beta)
      have clean: "tc_clean (snd (finish_call r gs True name sig actuals c (snd w)))"
        using 1(2) by (simp add: eq)
      have w: "tc_clean (snd w)"
        by (rule tc_le_clean [OF tc_le_finish clean])
      have s1: "tc_clean s1"
        using tc_le_clean [OF check_exprs_le] w by (simp add: w_def)
      have p: "tc_clean (snd p)"
        using tc_le_clean [OF tc_le_receiver] s1 by (simp add: s1_def)
      have cores: "core (tc_model (snd p)) = core (tc_model s)" "core (tc_model s1) = core (tc_model s)"
          "core (tc_model (snd w)) = core (tc_model s)"
        using core_expr core_of_le [OF tc_le_receiver] core_args by (simp_all add: p_def s1_def w_def)
      have base: "has_type (core (tc_model s)) c b (fst p)"
        using sub [of b s] p by (simp add: CallExpr MemberExpr p_def)
      have ts: "list_all2 (has_type (core (tc_model s)) c) as (fst w)"
        using args [of s1] w cores by (simp add: w_def)
      have "map_of (functions_of s) (ty_name (strip_ref (fst p)) @ ''::'' @ m) = Some sig"
        using sig(2) tables_of_core [OF cores(1)] by simp
      then have "has_type (core (tc_model s)) c (CallExpr i r (MemberExpr j q b m) gs as)
          (fst (finish_call r gs True name sig actuals c (snd w)))"
        using base sig(1) ts call_sound [OF clean] cores(3) by (intro method_call) (auto simp: actuals_def)
      then show ?thesis
        unfolding eq by (simp add: CallExpr MemberExpr)
    qed (use 1(2) in \<open>auto simp: CallExpr\<close>)
  next
    case (MemberExpr i r x m)
    define p where "p = check_expr x c s"
    have eq: "check_expr e c s = record_type i (member_type r (strip_ref (fst p)) m (snd p))"
      by (simp add: MemberExpr p_def split_beta)
    have clean: "tc_clean (snd (member_type r (strip_ref (fst p)) m (snd p)))"
      using 1(2) by (simp add: eq)
    have p: "tc_clean (snd p)"
      by (rule tc_le_clean [OF tc_le_member clean])
    have structs: "structs_of (snd p) = structs_of s"
      using tables_of_core [OF core_expr] by (simp add: p_def)
    show ?thesis
      unfolding eq using sub [of x s] p member_sound [OF clean] structs
      by (auto simp: MemberExpr p_def intro!: member_expr)
  next
    case (IndexExpr i r a b)
    define p where "p = check_expr a c s"
    define q where "q = check_expr b c (snd p)"
    define u where "u = tc_require (is_integer (fst q)) (expr_range b) ''E0328'' ''index must be integer'' (snd q)"
    have eq: "check_expr e c s = record_type i (index_type r (fst p) u)"
      by (simp add: IndexExpr p_def q_def u_def split_beta)
    have clean: "tc_clean (snd (index_type r (fst p) u))"
      using 1(2) by (simp add: eq)
    have u: "tc_clean u"
      by (rule tc_le_clean [OF tc_le_index clean])
    then have q: "tc_clean (snd q)" "is_integer (fst q)"
      by (simp_all add: u_def)
    have p: "tc_clean (snd p)"
      using tc_le_clean [OF check_expr_le] q(1) by (simp add: q_def)
    have "has_type (core (tc_model s)) c a (fst p)" "has_type (core (tc_model s)) c b (fst q)"
      using sub [of a s] sub [of b "snd p"] p q core_expr by (auto simp: IndexExpr p_def q_def)
    then show ?thesis
      unfolding eq using q(2) index_sound [OF clean] by (auto simp: IndexExpr intro: slice_element string_element)
  next
    case (AwaitExpr i r x)
    define s1 where "s1 = tc_require (fs_is_async (fc_sig c)) r ''E0343'' ''await is only valid inside an async function'' s"
    define p where "p = check_expr x c s1"
    have eq: "check_expr e c s = record_type i (await_type r (fst p) (snd p))"
      by (simp add: AwaitExpr p_def s1_def split_beta)
    have clean: "tc_clean (snd (await_type r (fst p) (snd p)))"
      using 1(2) by (simp add: eq)
    have p: "tc_clean (snd p)"
      by (rule tc_le_clean [OF tc_le_await clean])
    have s1: "tc_clean s1"
      using tc_le_clean [OF check_expr_le] p by (simp add: p_def)
    have "core (tc_model s1) = core (tc_model s)"
      unfolding s1_def by (rule core_of_le) simp
    then have x: "has_type (core (tc_model s)) c x (fst p)"
      using sub [of x s1] p by (simp add: AwaitExpr p_def)
    define u where "u = fst (await_type r (fst p) (snd p))"
    obtain q m nl where t: "fst p = Ty KNamed ''Future'' [u] q m nl"
      using await_sound [OF clean] by (auto simp: u_def)
    have "fs_is_async (fc_sig c)"
      using s1 by (simp add: s1_def)
    from await_expr [OF this x [unfolded t]] show ?thesis
      unfolding eq by (simp add: AwaitExpr u_def)
  next
    case (CastExpr i r x t)
    define p where "p = check_expr x c s"
    have eq: "check_expr e c s = record_type i (type_from_ast t {}, check_cast r (fst p) (type_from_ast t {}) c (snd p))"
      by (simp add: CastExpr p_def split_beta)
    have clean: "tc_clean (check_cast r (fst p) (type_from_ast t {}) c (snd p))"
      using 1(2) by (simp add: eq)
    have p: "tc_clean (snd p)"
      by (rule tc_le_clean [OF tc_le_cast clean])
    then show ?thesis
      unfolding eq using sub [of x s] cast_sound [OF clean] by (auto simp: CastExpr p_def intro: cast_expr)
  next
    case (AsmExpr i r t ps v)
    define s1 where "s1 = start_asm r t c s"
    have clean: "tc_clean (check_operands ps c s1)"
      using 1(2) by (simp add: AsmExpr s1_def)
    have s1: "tc_clean s1"
      by (rule tc_le_clean [OF check_operands_le clean]) simp
    have u: "fc_unsafe c"
      using s1 by (auto simp: s1_def start_asm_def Let_def tc_clean_def tc_warning_def tc_require_def tc_error_def
          diag_warning_def report_level_def report_def has_errors_def split: if_splits)
    have core: "core (tc_model s1) = core (tc_model s)"
      unfolding s1_def by (rule core_of_le) simp
    have ops: "ao_constraint p \<noteq> [] \<and> list_all constraint_char (ao_constraint p) \<and>
        (\<forall>e. ao_value p = Some e \<longrightarrow> (\<exists>t. has_type (core (tc_model s)) c e t))" if "p \<in> set ps" for p
      unfolding core [symmetric]
    proof (rule operands_sound [OF _ clean that])
      fix p x s
      assume "p \<in> set ps" "ao_value p = Some x" "tc_clean (snd (check_expr x c s))"
      then show "has_type (core (tc_model s)) c x (fst (check_expr x c s))"
        using sub [of x s] by (force simp: AsmExpr List.map_filter_def)
    qed
    show ?thesis
      using asm_expr [OF u ops] by (simp add: AsmExpr)
  qed (auto intro: has_type.intros)
qed

end
