(* ===== verification/TypeSound.thy ===== *)
theory TypeSound
  imports TypeJudge
begin

text \<open>
  The typing rules of statements and functions, and that a module the type checker accepts is typed
  by them, as is every function and method in it.
\<close>

subsection \<open>Rules of statements\<close>

text \<open>A statement turns the context into the one of the statements behind it.\<close>

definition value_type :: "sem_model \<Rightarrow> fn_context \<Rightarrow> expr option \<Rightarrow> ty \<Rightarrow> ty \<Rightarrow> bool" where
  "value_type M c w none t \<longleftrightarrow> (case w of None \<Rightarrow> t = none | Some e \<Rightarrow> has_type M c e t)"

definition compound_ok :: "string \<Rightarrow> ty \<Rightarrow> ty \<Rightarrow> bool" where
  "compound_ok op l q \<longleftrightarrow> op = ''='' \<or>
     (if is_bitwise_assign op then is_integer l \<and> is_integer q else is_numeric l \<and> is_numeric q)"

inductive wt_block :: "sem_model \<Rightarrow> fn_context \<Rightarrow> block \<Rightarrow> bool"
and wt_stmts :: "sem_model \<Rightarrow> fn_context \<Rightarrow> stmt list \<Rightarrow> fn_context \<Rightarrow> bool"
and wt_stmt :: "sem_model \<Rightarrow> fn_context \<Rightarrow> stmt \<Rightarrow> fn_context \<Rightarrow> bool" for M where
  wt_blockI: "wt_stmts M (open_types c) sts c' \<Longrightarrow> wt_block M c (Block i r sts)"
| wt_Nil: "wt_stmts M c [] c"
| wt_Cons: "wt_stmt M c st c' \<Longrightarrow> wt_stmts M c' sts c'' \<Longrightarrow> wt_stmts M c (st # sts) c''"
| wt_let: "value_type M c init error_type it \<Longrightarrow>
    (case tr of None \<Rightarrow> t = it
     | Some tr \<Rightarrow> t = type_from_ast tr (set (fs_generic_names (fc_sig c))) \<and> can_coerce_expr init it t) \<Longrightarrow>
    wt_stmt M c (LetStmt i r n m tr init) (bind_type n t m c)"
| wt_assign_new: "hm_assignment_bindings (sm_hir M) i \<noteq> None \<Longrightarrow> has_type M c v t \<Longrightarrow>
    n = (case target of NameExpr _ _ n \<Rightarrow> n | _ \<Rightarrow> []) \<Longrightarrow>
    wt_stmt M c (AssignStmt i r target op v) (bind_type n t True c)"
| wt_assign: "hm_assignment_bindings (sm_hir M) i = None \<Longrightarrow> has_type M c target l \<Longrightarrow> has_type M c v q \<Longrightarrow>
    can_coerce_expr (Some v) q l \<Longrightarrow> compound_ok op l q \<Longrightarrow> wt_stmt M c (AssignStmt i r target op v) c"
| wt_expr: "has_type M c e t \<Longrightarrow> wt_stmt M c (ExprStmt i r e) c"
| wt_return: "value_type M c w (builtin_type ''unit'') t \<Longrightarrow> can_coerce_expr w t (fs_result (fc_sig c)) \<Longrightarrow>
    wt_stmt M c (ReturnStmt i r w) c"
| wt_inner: "wt_block M c b \<Longrightarrow> wt_stmt M c (BlockStmt b) c"
| wt_if: "has_type M c e t \<Longrightarrow> ty_kind t = KBool \<Longrightarrow> wt_block M c b \<Longrightarrow> wt_stmt M c (IfStmt i r e b None) c"
| wt_if_else: "has_type M c e t \<Longrightarrow> ty_kind t = KBool \<Longrightarrow> wt_block M c b \<Longrightarrow> wt_block M c b' \<Longrightarrow>
    wt_stmt M c (IfStmt i r e b (Some b')) c"
| wt_while: "has_type M c e t \<Longrightarrow> ty_kind t = KBool \<Longrightarrow> wt_block M (enter_loop c) b \<Longrightarrow> wt_stmt M c (WhileStmt i r e b) c"
| wt_for: "has_type M c b t \<Longrightarrow> has_type M c e t \<Longrightarrow> is_integer t \<Longrightarrow>
    wt_block M (enter_loop (bind_type n t False (open_types c))) body \<Longrightarrow> wt_stmt M c (ForStmt i r n b e inc body) c"
| wt_loop: "wt_block M (enter_loop c) b \<Longrightarrow> wt_stmt M c (LoopStmt i r b) c"
| wt_break: "fc_loops c \<noteq> 0 \<Longrightarrow> wt_stmt M c (BreakStmt i r) c"
| wt_continue: "fc_loops c \<noteq> 0 \<Longrightarrow> wt_stmt M c (ContinueStmt i r) c"
| wt_unsafe: "wt_block M (c\<lparr>fc_unsafe := True\<rparr>) b \<Longrightarrow> wt_stmt M c (UnsafeStmt i r b) c"
| wt_fence: "wt_stmt M c (FenceStmt i r o1 o2) c"

text \<open>A function has a type for each parameter and a typed body.\<close>

definition param_context :: "function_decl \<Rightarrow> function_sig \<Rightarrow> fn_context" where
  "param_context d sig = fold (\<lambda>(p, t). bind_type (par_name p) t (par_mut p)) (zip (fd_params d) (fs_params sig))
     (function_context sig (fd_is_unsafe d))"

definition wt_function :: "sem_model \<Rightarrow> function_decl \<Rightarrow> function_sig \<Rightarrow> bool" where
  "wt_function M d sig \<longleftrightarrow>
     (case fd_body d of
       None \<Rightarrow> True
     | Some b \<Rightarrow> length (fd_params d) \<le> length (fs_params sig) \<and> wt_block M (param_context d sig) b)"

subsection \<open>Statements only add reports\<close>

lemma tc_le_set_types [simp, intro]: "tc_le s (set_binding_type i t s)" "tc_le s (set_assignment_type i t s)"
  by (auto simp: set_binding_type_def set_assignment_type_def tc_le_def)

lemma clean_set_types [simp]: "tc_clean (set_binding_type i t s) = tc_clean s" "tc_clean (set_assignment_type i t s) = tc_clean s"
  by (auto simp: set_binding_type_def set_assignment_type_def tc_clean_def)

lemma tc_le_value: "tc_le s (snd (case w of None \<Rightarrow> (t, s) | Some e \<Rightarrow> check_expr e c s))"
  by (cases w) simp_all

lemma tc_le_let [simp, intro]: "tc_le s (snd (check_let_types i r n m tr init c s))"
  unfolding check_let_types_def split_beta Let_def snd_conv
  by (rule tc_le_trans [OF _ tc_le_set_types(1)], rule tc_le_requireI, rule tc_le_value)

lemma tc_le_assign [simp, intro]: "tc_le s (snd (check_assign_types i r target op v c s))"
proof -
  have 1: "tc_le s (snd (record_type j (t, set_assignment_type i t (snd (check_expr v c s)))))" for j t
    by (rule tc_le_trans [OF tc_le_trans [OF check_expr_le tc_le_set_types(2)] tc_le_snd_record])
  have 2: "tc_le s (snd (check_expr v c (snd (check_expr target c s))))"
    by (rule tc_le_trans [OF check_expr_le check_expr_le])
  show ?thesis
    using 1 2 by (simp add: check_assign_types_def split_beta split: option.split)
qed

lemma tc_le_return [simp, intro]: "tc_le s (check_return_types r w c s)"
  unfolding check_return_types_def split_beta by (rule tc_le_requireI, rule tc_le_value)

lemma tc_le_range [simp, intro]: "tc_le s (snd (check_range_types r n b e c s))"
  unfolding check_range_types_def split_beta snd_conv
  by (rule tc_le_requireI, rule tc_le_trans [OF check_expr_le check_expr_le])

lemma tc_le_condition [simp, intro]: "tc_le s (check_condition e code m c s)"
  unfolding check_condition_def split_beta by (rule tc_le_requireI) simp

lemma tc_le_jump [simp, intro]: "tc_le s (check_jump r c s)"
  by (simp add: check_jump_def)

lemma tc_le_block [simp, intro]:
  "tc_le s (check_block_types b c s)"
  "tc_le s (snd (check_stmts_types sts c s))"
  "tc_le s (snd (check_stmt_types st c s))"
proof (induction b c s and sts c s and st c s rule: check_block_types_check_stmts_types_check_stmt_types.induct)
  case (3 st sts c s)
  obtain c' t where t: "check_stmt_types st c s = (c', t)"
    by fastforce
  have "tc_le s t"
    using 3(1) by (simp add: t)
  from tc_le_trans [OF this 3(2) [OF t [symmetric]]] show ?case
    by (simp add: t)
next
  case (9 i r e t f c s)
  define u where "u = check_block_types t c (check_condition e ''E0303''
    (\<lambda>t. ''if condition must be bool, found '' @ quoted (type_str t)) c s)"
  have u: "tc_le s u"
    unfolding u_def by (rule tc_le_trans [OF tc_le_condition 9(1)])
  show ?case
  proof (cases f)
    case (Some b)
    have "tc_le u (check_block_types b c u)"
      using 9(2) Some by (simp add: u_def)
    then show ?thesis
      using tc_le_trans [OF u] by (simp add: Some u_def)
  qed (use u in \<open>simp add: u_def\<close>)
next
  case (10 i r e b c s)
  show ?case
    by (simp, rule tc_le_trans [OF tc_le_condition 10])
next
  case (11 i r n b e inc body c s)
  obtain inner t where t: "check_range_types r n b e c s = (inner, t)"
    by fastforce
  have "tc_le s t"
    using tc_le_range [of s r n b e c] by (simp add: t)
  then show ?case
    using tc_le_trans 11 [OF t [symmetric]] by (simp add: t)
qed auto

subsection \<open>Statements follow the rules\<close>

abbreviation core_of :: "type_checker \<Rightarrow> sem_model" where
  "core_of s \<equiv> core (tc_model s)"

lemma value_sound:
  assumes "tc_clean (snd (case w of None \<Rightarrow> (t, s) | Some e \<Rightarrow> check_expr e c s))"
  shows "value_type (core_of s) c w t (fst (case w of None \<Rightarrow> (t, s) | Some e \<Rightarrow> check_expr e c s))"
  using assms expr_sound by (auto simp: value_type_def split: option.splits)

lemma let_sound:
  assumes "tc_clean (snd (check_let_types i r n m tr init c s))"
  shows "wt_stmt (core_of s) c (LetStmt i r n m tr init) (fst (check_let_types i r n m tr init c s))"
proof -
  define p where "p = (case init of None \<Rightarrow> (error_type, s) | Some e \<Rightarrow> check_expr e c s)"
  define t where "t = (case tr of None \<Rightarrow> fst p | Some tr \<Rightarrow> type_from_ast tr (set (fs_generic_names (fc_sig c))))"
  have eq: "check_let_types i r n m tr init c s = (bind_type n t m c, set_binding_type i t
      (tc_require (tr = None \<or> can_coerce_expr init (fst p) t) r ''E0301''
        (''initializer has type '' @ quoted (type_str (fst p)) @ '' but binding expects '' @ quoted (type_str t)) (snd p)))"
    by (simp add: check_let_types_def p_def [symmetric] split_beta Let_def t_def)
  have clean: "tr = None \<or> can_coerce_expr init (fst p) t" "tc_clean (snd p)"
    using assms by (simp_all add: eq)
  have "value_type (core_of s) c init error_type (fst p)"
    using value_sound clean(2) by (simp add: p_def)
  moreover have "case tr of None \<Rightarrow> t = fst p
     | Some tr \<Rightarrow> t = type_from_ast tr (set (fs_generic_names (fc_sig c))) \<and> can_coerce_expr init (fst p) t"
    using clean(1) by (simp add: t_def split: option.splits)
  ultimately show ?thesis
    unfolding eq fst_conv by (rule wt_let)
qed

lemma assign_sound:
  assumes "tc_clean (snd (check_assign_types i r target op v c s))"
  shows "wt_stmt (core_of s) c (AssignStmt i r target op v) (fst (check_assign_types i r target op v c s))"
proof (cases "hm_assignment_bindings (sm_hir (tc_model s)) i")
  case None
  define p where "p = check_expr target c s"
  define q where "q = check_expr v c (snd p)"
  have eq: "fst (check_assign_types i r target op v c s) = c"
    using None by (simp add: check_assign_types_def split_beta)
  have clean: "compound_ok op (fst p) (fst q)" "can_coerce_expr (Some v) (fst q) (fst p)" "tc_clean (snd q)"
    using assms None
    by (simp_all add: check_assign_types_def split_beta p_def [symmetric] q_def compound_ok_def split: if_splits)
  have p: "tc_clean (snd p)"
    using tc_le_clean [OF check_expr_le] clean(3) by (simp add: q_def)
  have "has_type (core_of s) c target (fst p)" "has_type (core_of s) c v (fst q)"
    using expr_sound [of target c s] expr_sound [of v c "snd p"] p clean(3) core_of_le [OF check_expr_le]
    by (simp_all add: p_def q_def)
  then show ?thesis
    using None clean by (simp add: eq wt_assign)
next
  case (Some k)
  have clean: "tc_clean (snd (check_expr v c s))"
    using assms Some by (simp add: check_assign_types_def split_beta)
  have eq: "fst (check_assign_types i r target op v c s) =
      bind_type (case target of NameExpr _ _ n \<Rightarrow> n | _ \<Rightarrow> []) (fst (check_expr v c s)) True c"
    using Some by (simp add: check_assign_types_def split_beta)
  show ?thesis
    unfolding eq using Some expr_sound [OF clean] by (intro wt_assign_new) simp_all
qed

lemma return_sound:
  assumes "tc_clean (check_return_types r w c s)"
  shows "wt_stmt (core_of s) c (ReturnStmt i r w) c"
proof -
  define p where "p = (case w of None \<Rightarrow> (builtin_type ''unit'', s) | Some e \<Rightarrow> check_expr e c s)"
  have clean: "can_coerce_expr w (fst p) (fs_result (fc_sig c))" "tc_clean (snd p)"
    using assms by (simp_all add: check_return_types_def p_def [symmetric] split_beta)
  show ?thesis
    using wt_return [OF _ clean(1)] value_sound clean(2) by (simp add: p_def)
qed

lemma condition_sound:
  assumes "tc_clean (check_condition e code m c s)"
  shows "\<exists>t. has_type (core_of s) c e t \<and> ty_kind t = KBool"
  using assms expr_sound [of e c s] by (auto simp: check_condition_def split_beta)

lemma range_sound:
  assumes "tc_clean (snd (check_range_types r n b e c s))"
  shows "\<exists>t. has_type (core_of s) c b t \<and> has_type (core_of s) c e t \<and> is_integer t \<and>
    fst (check_range_types r n b e c s) = bind_type n t False (open_types c)"
proof -
  define p where "p = check_expr b c s"
  define q where "q = check_expr e c (snd p)"
  have clean: "is_integer (fst p)" "fst q = fst p" "tc_clean (snd q)"
    using assms by (simp_all add: check_range_types_def split_beta p_def [symmetric] q_def [symmetric] type_eq_iff)
  have p: "tc_clean (snd p)"
    using tc_le_clean [OF check_expr_le] clean(3) by (simp add: q_def)
  have "has_type (core_of s) c b (fst p)" "has_type (core_of s) c e (fst q)"
    using expr_sound [of b c s] expr_sound [of e c "snd p"] p clean(3) core_of_le [OF check_expr_le]
    by (simp_all add: p_def q_def)
  moreover have "fst (check_range_types r n b e c s) = bind_type n (fst p) False (open_types c)"
    by (simp add: check_range_types_def split_beta p_def)
  ultimately show ?thesis
    using clean by auto
qed

lemma block_sound:
  "tc_clean (check_block_types b c s) \<Longrightarrow> wt_block (core_of s) c b"
  "tc_clean (snd (check_stmts_types sts c s)) \<Longrightarrow> wt_stmts (core_of s) c sts (fst (check_stmts_types sts c s))"
  "tc_clean (snd (check_stmt_types st c s)) \<Longrightarrow> wt_stmt (core_of s) c st (fst (check_stmt_types st c s))"
proof (induction b c s and sts c s and st c s rule: check_block_types_check_stmts_types_check_stmt_types.induct)
  case (1 i r sts c s)
  then show ?case
    using wt_blockI by simp
next
  case (2 c s)
  then show ?case
    by (simp add: wt_Nil)
next
  case (3 st sts c s)
  obtain c' t where t: "check_stmt_types st c s = (c', t)"
    by fastforce
  have rest: "tc_clean (snd (check_stmts_types sts c' t))"
    using 3(3) by (simp add: t)
  have clean: "tc_clean t"
    by (rule tc_le_clean [OF tc_le_block(2) rest])
  have core: "core_of t = core_of s"
    using core_of_le [OF tc_le_block(3) [of s st c]] by (simp add: t)
  show ?case
    using wt_Cons [OF _ 3(2) [OF t [symmetric] rest, unfolded core]] 3(1) clean by (simp add: t)
next
  case (4 i r n m tr init c s)
  then show ?case
    using let_sound by simp
next
  case (5 i r target op v c s)
  then show ?case
    using assign_sound by simp
next
  case (6 i r e c s)
  then show ?case
    using expr_sound wt_expr by fastforce
next
  case (7 i r w c s)
  then show ?case
    using return_sound by simp
next
  case (8 b c s)
  then show ?case
    by (simp add: wt_inner)
next
  case (9 i r e t f c s)
  define cond where "cond = check_condition e ''E0303'' (\<lambda>t. ''if condition must be bool, found '' @ quoted (type_str t)) c s"
  define u where "u = check_block_types t c cond"
  have final: "tc_clean (case f of None \<Rightarrow> u | Some b \<Rightarrow> check_block_types b c u)"
    using 9(3) by (simp add: u_def cond_def split: option.splits)
  have u: "tc_clean u"
    using final tc_le_clean [OF tc_le_block(1)] by (auto split: option.splits)
  have cond: "tc_clean cond"
    using tc_le_clean [OF tc_le_block(1)] u by (simp add: u_def)
  have core1: "core_of cond = core_of s"
    unfolding cond_def by (rule core_of_le) simp
  have core2: "core_of u = core_of s"
    unfolding u_def core1 [symmetric] by (rule core_of_le) simp
  have yes: "wt_block (core_of s) c t"
    using 9(1) u core1 by (simp add: u_def cond_def)
  obtain ct where ct: "has_type (core_of s) c e ct" "ty_kind ct = KBool"
    using condition_sound [OF cond [unfolded cond_def]] by blast
  show ?case
  proof (cases f)
    case None
    then show ?thesis
      using wt_if [OF ct yes] by simp
  next
    case (Some b)
    have "wt_block (core_of u) c b"
      using 9(2) final Some by (simp add: u_def cond_def)
    then show ?thesis
      using wt_if_else [OF ct yes] core2 by (simp add: Some)
  qed
next
  case (10 i r e b c s)
  define cond where "cond = check_condition e ''E0304'' (\<lambda>_. ''while condition must be bool'') c s"
  have b: "tc_clean (check_block_types b (enter_loop c) cond)"
    using 10(2) by (simp add: cond_def)
  have cond: "tc_clean cond"
    by (rule tc_le_clean [OF tc_le_block(1) b])
  have core1: "core_of cond = core_of s"
    unfolding cond_def by (rule core_of_le) simp
  obtain ct where ct: "has_type (core_of s) c e ct" "ty_kind ct = KBool"
    using condition_sound [OF cond [unfolded cond_def]] by blast
  have "wt_block (core_of cond) (enter_loop c) b"
    using 10(1) b by (simp add: cond_def)
  then show ?case
    using wt_while [OF ct] core1 by simp
next
  case (11 i r n b e inc body c s)
  obtain inner t where t: "check_range_types r n b e c s = (inner, t)"
    by fastforce
  have body: "tc_clean (check_block_types body (enter_loop inner) t)"
    using 11(2) by (simp add: t)
  have clean: "tc_clean t"
    by (rule tc_le_clean [OF tc_le_block(1) body])
  have core: "core_of t = core_of s"
    using core_of_le [OF tc_le_range [of s r n b e c]] by (simp add: t)
  obtain u where u: "has_type (core_of s) c b u" "has_type (core_of s) c e u" "is_integer u"
      "inner = bind_type n u False (open_types c)"
    using range_sound [of r n b e c s] clean by (auto simp: t)
  show ?case
    using wt_for [OF u(1-3)] 11(1) [OF t [symmetric] body] core by (simp add: t u(4))
next
  case (12 i r b c s)
  then show ?case
    by (simp add: wt_loop)
next
  case (13 i r c s)
  then show ?case
    by (simp add: check_jump_def wt_break)
next
  case (14 i r c s)
  then show ?case
    by (simp add: check_jump_def wt_continue)
next
  case (15 i r b c s)
  then show ?case
    by (simp add: wt_unsafe)
next
  case (16 i r o1 o2 c s)
  then show ?case
    by (simp add: wt_fence)
qed

subsection \<open>Functions and items\<close>

lemma tc_le_stuck [simp, intro]: "tc_le s (set_stuck s)"
  by (simp add: set_stuck_def tc_le_def)

lemma tc_le_params [simp, intro]: "tc_le s (snd (bind_params ps ts c s))"
  by (induction ps ts c s rule: bind_params.induct) (auto intro: tc_le_trans [OF tc_le_stuck])

lemma params_sound:
  "tc_clean (snd (bind_params ps ts c s)) \<Longrightarrow>
     length ps \<le> length ts \<and>
     bind_params ps ts c s = (fold (\<lambda>(p, t). bind_type (par_name p) t (par_mut p)) (zip ps ts) c, s)"
proof (induction ps ts c s rule: bind_params.induct)
  case (2 p ps c s)
  have "tc_clean (set_stuck s)"
    using tc_le_clean [OF tc_le_params] 2(2) by simp
  then show ?case
    by (simp add: set_stuck_def tc_clean_def)
qed auto

lemma tc_le_function [simp, intro]: "tc_le s (check_function_types d sig s)"
  using tc_le_trans [OF tc_le_params tc_le_block(1)]
  by (simp add: check_function_types_def split_beta split: option.split)

lemma function_sound:
  assumes "tc_clean (check_function_types d sig s)"
  shows "wt_function (core_of s) d sig"
proof (cases "fd_body d")
  case (Some b)
  define p where "p = bind_params (fd_params d) (fs_params sig) (function_context sig (fd_is_unsafe d)) s"
  have b: "tc_clean (check_block_types b (fst p) (snd p))"
    using assms by (simp add: check_function_types_def Some split_beta p_def)
  have "tc_clean (snd p)"
    by (rule tc_le_clean [OF tc_le_block(1) b])
  then have "length (fd_params d) \<le> length (fs_params sig)" "p = (param_context d sig, s)"
    using params_sound [of "fd_params d" "fs_params sig" "function_context sig (fd_is_unsafe d)" s]
    by (simp_all add: p_def param_context_def)
  then show ?thesis
    using block_sound(1) [OF b] by (simp add: wt_function_def Some)
qed (simp add: wt_function_def)

lemma tc_le_named [simp, intro]: "tc_le s (check_named_function key d s)"
  by (simp add: check_named_function_def split: option.split)

lemma functions_of_le: "tc_le s t \<Longrightarrow> functions_of t = functions_of s"
  using tables_of_core core_of_le by blast

lemma named_sound:
  "tc_clean (check_named_function key d s) \<Longrightarrow> map_of (functions_of s) key = Some sig \<Longrightarrow> wt_function (core_of s) d sig"
  by (simp add: check_named_function_def function_sound)

lemma tc_le_item [simp, intro]: "tc_le s (check_item_types c it s)"
proof -
  have "tc_le s (check_global_types c d s)" for d
    by (simp add: check_global_types_def split_beta split: option.split)
  moreover have "tc_le s (fold (\<lambda>m. check_named_function (k m) m) ms s)" for k ms
    by (rule tc_le_fold) simp
  ultimately show ?thesis
    by (simp add: check_item_types_def split: item.split)
qed

text \<open>The functions and methods of an item, with the names their signatures are kept under.\<close>

definition item_functions :: "item \<Rightarrow> (string \<times> function_decl) list" where
  "item_functions it =
     (case it of
       FunctionItem d \<Rightarrow> [(fd_name d, d)]
     | ImplItem im \<Rightarrow> map (\<lambda>m. (tr_name (im_for_type im) @ ''::'' @ fd_name m, m)) (im_methods im)
     | _ \<Rightarrow> [])"

lemma fold_clean:
  assumes "tc_clean (fold f xs s)" "\<And>x s. tc_le s (f x s)"
  shows "tc_clean s"
  by (rule tc_le_clean [OF tc_le_fold assms(1)]) (rule assms(2))

lemma methods_sound:
  assumes "tc_clean (fold (\<lambda>m. check_named_function (k m) m) ms s)" "m \<in> set ms"
    "map_of (functions_of s) (k m) = Some sig"
  shows "wt_function (core_of s) m sig"
  using assms
proof (induction ms arbitrary: s)
  case (Cons n ms)
  let ?t = "check_named_function (k n) n s"
  have clean: "tc_clean (fold (\<lambda>m. check_named_function (k m) m) ms ?t)" "tc_clean ?t"
    using Cons.prems(1) fold_clean [OF Cons.prems(1) [unfolded fold_simps]] by simp_all
  have same: "core_of ?t = core_of s" "functions_of ?t = functions_of s"
    using core_of_le functions_of_le tc_le_named by blast+
  show ?case
    using Cons.IH [OF clean(1)] Cons.prems named_sound [OF clean(2)] same by auto
qed simp

lemma item_sound:
  assumes "tc_clean (check_item_types c it s)" "(key, d) \<in> set (item_functions it)" "map_of (functions_of s) key = Some sig"
  shows "wt_function (core_of s) d sig"
  using assms named_sound methods_sound [of "\<lambda>m. tr_name (im_for_type im) @ ''::'' @ fd_name m" for im]
  by (auto simp: check_item_types_def item_functions_def split: item.splits)

lemma items_sound:
  assumes "tc_clean (fold (check_item_types c) its s)" "it \<in> set its" "(key, d) \<in> set (item_functions it)"
    "map_of (functions_of s) key = Some sig"
  shows "wt_function (core_of s) d sig"
  using assms
proof (induction its arbitrary: s)
  case (Cons i its)
  let ?t = "check_item_types c i s"
  have clean: "tc_clean (fold (check_item_types c) its ?t)" "tc_clean ?t"
    using Cons.prems(1) fold_clean [OF Cons.prems(1) [unfolded fold_simps]] by simp_all
  have same: "core_of ?t = core_of s" "functions_of ?t = functions_of s"
    using core_of_le functions_of_le tc_le_item by blast+
  show ?case
    using Cons.IH [OF clean(1)] Cons.prems item_sound [OF clean(2)] same by auto
qed simp

subsection \<open>Concurrency checks\<close>

text \<open>They report, and leave the model alone.\<close>

definition only_reports :: "type_checker \<Rightarrow> type_checker \<Rightarrow> bool" where
  "only_reports s t \<longleftrightarrow> tc_le s t \<and> tc_model t = tc_model s"

lemma only_reports_refl [simp, intro]: "only_reports s s"
  by (simp add: only_reports_def)

lemma only_reports_trans: "only_reports s t \<Longrightarrow> only_reports t u \<Longrightarrow> only_reports s u"
  by (auto simp: only_reports_def intro: tc_le_trans)

lemma only_reports_error [simp]: "only_reports s (tc_error r c m s)" "only_reports s (tc_require ok r c m s)"
  by (simp_all add: only_reports_def tc_require_def tc_error_def tc_le_def)

lemma only_reports_satisfies: "only_reports s (snd (tc_satisfies t tr gb s))"
  using tc_le_satisfies [of s t tr gb]
  by (auto simp: only_reports_def tc_satisfies_def set_stuck_def split: option.splits)

lemma fold_snd_reports:
  "(\<And>x st. x \<in> set xs \<Longrightarrow> only_reports (snd st) (snd (f x st))) \<Longrightarrow> only_reports (snd st) (snd (fold f xs st))"
proof (induction xs arbitrary: st)
  case (Cons x xs)
  have "only_reports (snd (f x st)) (snd (fold f xs (f x st)))"
    by (rule Cons.IH) (simp add: Cons.prems)
  with Cons.prems [of x st] show ?case
    by (auto intro: only_reports_trans)
qed simp

lemma fold_reports: "(\<And>x s. only_reports s (f x s)) \<Longrightarrow> only_reports s (fold f xs s)"
  by (induction xs arbitrary: s) (auto intro: only_reports_trans)

lemma access_reports: "only_reports (snd st) (snd (check_access M e st))"
proof (induction M e st rule: check_access.induct)
  case (1 M e st)
  have rep: "only_reports (snd st) (snd (report_access r n m st))" for r n m st
    by (simp add: report_access_def split_beta)
  show ?case
    unfolding check_access.simps [of M e st]
    using 1 rep
    by (auto simp: name_access_def member_access_def simp del: child_exprs_simps
        split: expr.splits option.splits if_splits intro!: fold_snd_reports)
qed

lemma accesses_report: "only_reports (snd st) (snd (fold check_accesses fs st))"
proof -
  have "only_reports s (snd (fold (check_access M) es (seen, s)))" for M es seen s
    using fold_snd_reports [where f = "check_access M" and st = "(seen, s)", OF access_reports] by simp
  then have "only_reports (snd st) (snd (check_accesses f st))" for f st
    by (cases st) (auto simp: check_accesses_def split_beta split: option.split)
  then show ?thesis
    by (rule fold_snd_reports)
qed

lemma propagate_reports:
  "only_reports (s\<lparr>tc_model := mark_concurrent (concurrent_keys (tc_model s)) (tc_model s)\<rparr>) (propagate_concurrency s)"
  using accesses_report [where st = "({}, s\<lparr>tc_model := mark_concurrent (concurrent_keys (tc_model s)) (tc_model s)\<rparr>)"]
  by (simp add: propagate_concurrency_def Let_def)

lemma boundaries_report: "only_reports s (validate_concurrency_boundaries s)"
proof -
  have "only_reports s (check_parameter sig d it s)" for sig d it s
    unfolding check_parameter_def split_beta
    by (rule only_reports_trans [OF only_reports_satisfies only_reports_error(2)])
  then have "only_reports s (check_boundary f s)" for f s
    by (auto simp: check_boundary_def split_beta intro!: fold_reports split: bool.split option.split)
  then show ?thesis
    unfolding validate_concurrency_boundaries_def by (rule fold_reports)
qed

subsection \<open>Tables of items\<close>

text \<open>The signatures that are there stay.\<close>

definition keeps_functions :: "type_checker \<Rightarrow> type_checker \<Rightarrow> bool" where
  "keeps_functions s t \<longleftrightarrow> dom (map_of (functions_of s)) \<subseteq> dom (map_of (functions_of t))"

lemma keeps_refl [simp, intro]: "keeps_functions s s"
  by (simp add: keeps_functions_def)

lemma keeps_trans [trans]: "keeps_functions s t \<Longrightarrow> keeps_functions t u \<Longrightarrow> keeps_functions s u"
  by (auto simp: keeps_functions_def)

lemma keeps_fold: "(\<And>x s. keeps_functions s (f x s)) \<Longrightarrow> keeps_functions s (fold f xs s)"
  by (induction xs arbitrary: s) (auto intro: keeps_trans)

lemma keeps_le: "tc_le s t \<Longrightarrow> keeps_functions s t"
  by (simp add: keeps_functions_def functions_of_le)

lemma keeps_same: "functions_of t = functions_of s \<Longrightarrow> keeps_functions s t"
  by (simp add: keeps_functions_def)

lemma functions_require [simp]: "functions_of (tc_require ok r c m s) = functions_of s"
  by (simp add: tc_require_def tc_error_def)

lemma keeps_add: "keeps_functions s (add_function_sig k sig s)" "map_of (functions_of (add_function_sig k sig s)) k = Some sig"
  by (auto simp: keeps_functions_def add_function_sig_def update_conv')

lemma keeps_collect: "keeps_functions s (collect_item it s)" "keeps_functions s (collect_impl it s)"
proof -
  have "functions_of (snd (fold (collect_field d gs) fs (info, s))) = functions_of s" for d gs fs info s
  proof (induction fs arbitrary: info s)
    case (Cons f fs)
    have "functions_of (check_shared_field d f t s) = functions_of s" for t
      by (simp add: check_shared_field_def Let_def)
    with Cons.IH show ?case
      by (simp add: collect_field_def Let_def)
  qed simp
  then have "functions_of (collect_struct d s) = functions_of s" for d
    by (simp add: collect_struct_def split_beta)
  then show "keeps_functions s (collect_item it s)"
    using keeps_add
    by (auto simp: collect_item_def collect_function_def collect_global_def collect_trait_def collect_marker_def Let_def
        intro: keeps_same split: item.split option.split)
  have 1: "keeps_functions s (fold (check_duplicate_impl im tr owner) ims s)" for im tr owner ims s
    by (rule keeps_fold) (simp add: check_duplicate_impl_def keeps_le)
  have 2: "keeps_functions s (fold (collect_method owner) ms s)" for owner ms s
    by (rule keeps_fold) (simp add: collect_method_def Let_def keeps_le keeps_add)
  have 3: "keeps_functions s (fold (check_required im owner) rs s)" for im owner rs s
    by (rule keeps_fold) (simp add: check_required_def Let_def keeps_le split: option.split)
  show "keeps_functions s (collect_impl it s)"
  proof (cases it)
    case (ImplItem im)
    define owner where "owner = type_from_ast (im_for_type im) {}"
    define tr where "tr = (case im_trait_name im of None \<Rightarrow> [] | Some n \<Rightarrow> n)"
    define s1 where "s1 = (case im_trait_name im of None \<Rightarrow> s
      | Some n \<Rightarrow> tc_require (map_of (sm_traits (tc_model s)) n \<noteq> None) (im_range im) ''E0300''
          (''impl references unknown trait '' @ quoted n) s)"
    define s2 where "s2 = fold (check_duplicate_impl im tr owner) (sm_impls (tc_model s1)) s1"
    define s3 where "s3 = s2\<lparr>tc_model := (tc_model s2)\<lparr>sm_impls := sm_impls (tc_model s2) @
      [\<lparr>ii_trait = tr, ii_for_type = owner, ii_decl = Some im\<rparr>]\<rparr>\<rparr>"
    define s4 where "s4 = fold (collect_method owner) (im_methods im) s3"
    have "keeps_functions s s1"
      by (simp add: s1_def keeps_le split: option.split)
    also have "keeps_functions s1 s2"
      unfolding s2_def by (rule 1)
    also have "keeps_functions s2 s3"
      by (simp add: s3_def keeps_functions_def)
    also have "keeps_functions s3 s4"
      unfolding s4_def by (rule 2)
    also have "keeps_functions s4 (fold (check_required im owner) (trait_required (im_trait_name im) s4) s4)"
      by (rule 3)
    finally show ?thesis
      by (simp add: collect_impl_def ImplItem Let_def owner_def tr_def s1_def s2_def s3_def s4_def)
  qed (simp_all add: collect_impl_def)
qed

text \<open>Every function has a signature.\<close>

lemma fold_collected:
  assumes keep: "\<And>x s. keeps_functions s (f x s)"
    and new: "\<And>s. k \<in> dom (map_of (functions_of (f x s)))" and "x \<in> set xs"
  shows "k \<in> dom (map_of (functions_of (fold f xs s)))"
  using \<open>x \<in> set xs\<close>
proof (induction xs arbitrary: s)
  case (Cons y ys)
  show ?case
  proof (cases "x \<in> set ys")
    case False
    then have "k \<in> dom (map_of (functions_of (f y s)))"
      using Cons.prems new by auto
    then show ?thesis
      using keeps_fold [of f "f y s" ys] keep by (auto simp: keeps_functions_def)
  qed (use Cons.IH in simp)
qed simp

lemma function_collected: "fd_name d \<in> dom (map_of (functions_of (collect_item (FunctionItem d) s)))"
  using keeps_add(2) by (auto simp: collect_item_def collect_function_def Let_def split: option.split)

lemma collected_functions:
  assumes "FunctionItem d \<in> set (am_items md)"
  shows "fd_name d \<in> dom (map_of (functions_of (collect_items md s)))"
proof -
  have "fd_name d \<in> dom (map_of (functions_of (fold collect_item (am_items md) s)))"
    by (rule fold_collected [where x = "FunctionItem d"]) (rule keeps_collect(1) function_collected assms)+
  then show ?thesis
    using keeps_fold [where f = collect_impl, OF keeps_collect(2)]
    unfolding collect_items_def keeps_functions_def by blast
qed

subsection \<open>Modules\<close>

lemma validate_le: "tc_le s (validate_special_traits s)"
  unfolding validate_special_traits_def
  by (rule tc_le_fold) (simp add: validate_impl_def)

text \<open>
  C1: the type checker implements the typing rules. When it accepts a module, there are tables of items
  such that every function item has a signature in them and every function and method with a
  signature has a body typed by the rules under it; the model handed on has these tables, with
  the functions marked that concurrent ones call.
\<close>

theorem accepted_module_typed:
  assumes "check_module fuel hm md ds = Some (M, ds')" "\<not> has_errors ds'"
  shows "\<exists>N. M = mark_concurrent (concurrent_keys N) N \<and>
    (\<forall>d. FunctionItem d \<in> set (am_items md) \<longrightarrow> map_of (sm_functions N) (fd_name d) \<noteq> None) \<and>
    (\<forall>it key d sig. it \<in> set (am_items md) \<longrightarrow> (key, d) \<in> set (item_functions it) \<longrightarrow>
       map_of (sm_functions N) key = Some sig \<longrightarrow> wt_function (core N) d sig)"
proof -
  define s0 where "s0 = \<lparr>tc_model = empty_model\<lparr>sm_hir := hm\<rparr>, tc_diags = ds, tc_fuel = fuel, tc_stuck = False\<rparr>"
  define s1 where "s1 = validate_special_traits (collect_items md s0)"
  define s2 where "s2 = fold (check_item_types (global_context s1)) (am_items md) s1"
  define s3 where "s3 = propagate_concurrency s2"
  define s4 where "s4 = validate_concurrency_boundaries s3"
  have run: "\<not> tc_stuck s4" "M = tc_model s4" "ds' = tc_diags s4"
    using assms(1)
    by (simp_all add: check_module_def Let_def s0_def [symmetric] s1_def [symmetric] s2_def [symmetric]
        s3_def [symmetric] s4_def [symmetric] split: if_splits)
  have reports: "only_reports s3 s4"
      "only_reports (s2\<lparr>tc_model := mark_concurrent (concurrent_keys (tc_model s2)) (tc_model s2)\<rparr>) s3"
    unfolding s3_def s4_def by (rule boundaries_report propagate_reports)+
  have "tc_clean s4"
    using run assms(2) by (simp add: tc_clean_def)
  then have "tc_clean (s2\<lparr>tc_model := mark_concurrent (concurrent_keys (tc_model s2)) (tc_model s2)\<rparr>)"
    using reports tc_le_clean by (auto simp: only_reports_def)
  then have s2: "tc_clean s2"
    by (simp add: tc_clean_def)
  have "tc_le s1 s2"
    unfolding s2_def by (rule tc_le_fold) simp
  note same = core_of_le [OF this] functions_of_le [OF this]
  have typed: "wt_function (core_of s2) d sig"
    if "it \<in> set (am_items md)" "(key, d) \<in> set (item_functions it)" "map_of (functions_of s2) key = Some sig" for it key d sig
    using items_sound [OF s2 [unfolded s2_def] that(1,2)] that(3) same by simp
  have "fd_name d \<in> dom (map_of (functions_of s2))" if "FunctionItem d \<in> set (am_items md)" for d
    using collected_functions [OF that, of s0] same functions_of_le [OF validate_le, of "collect_items md s0"]
    by (simp add: s1_def)
  then have known: "map_of (functions_of s2) (fd_name d) \<noteq> None" if "FunctionItem d \<in> set (am_items md)" for d
    using that by blast
  have "tc_model s4 = mark_concurrent (concurrent_keys (tc_model s2)) (tc_model s2)"
    using reports by (simp add: only_reports_def)
  then show ?thesis
    using run typed known by blast
qed

end
