(* ===== verification/SmpSound.thy ===== *)
theory SmpSound
  imports TypeSound
begin

text \<open>
  What the checks on concurrent code promise: the functions treated as concurrent are those that
  concurrent ones reach by calls, and in an accepted module they access mutable globals only where the
  global or the field is shared or per CPU.
\<close>

subsection \<open>The call graph\<close>

definition calls :: "(string \<times> string list) list \<Rightarrow> (string \<times> string) set" where
  "calls edges = {(a, b). \<exists>cs. map_of edges a = Some cs \<and> b \<in> set cs}"

lemma spread_contains: "set work \<union> seen \<subseteq> spread_concurrency edges work seen"
  by (induction edges work seen rule: spread_concurrency.induct) auto

lemma spread_sound:
  "k \<in> spread_concurrency edges work seen \<Longrightarrow> k \<in> seen \<or> (\<exists>w \<in> set work. (w, k) \<in> (calls edges)\<^sup>*)"
proof (induction edges work seen rule: spread_concurrency.induct)
  case (2 edges w work seen)
  show ?case
  proof (cases "w \<in> seen")
    case False
    have "w = k \<or> (\<exists>v \<in> set ((case map_of edges w of None \<Rightarrow> [] | Some cs \<Rightarrow> rev cs) @ work). (v, k) \<in> (calls edges)\<^sup>*) \<or> k \<in> seen"
      using 2(2) [OF False] 2(3) False by auto
    moreover have "(w, v) \<in> calls edges" if "v \<in> set (case map_of edges w of None \<Rightarrow> [] | Some cs \<Rightarrow> rev cs)" for v
      using that by (cases "map_of edges w") (auto simp: calls_def)
    ultimately show ?thesis
      by (auto intro: converse_rtrancl_into_rtrancl)
  qed (use 2 in auto)
qed simp

lemma spread_closed:
  assumes "\<And>a b. a \<in> seen \<Longrightarrow> (a, b) \<in> calls edges \<Longrightarrow> b \<in> seen \<or> b \<in> set work"
    and "a \<in> spread_concurrency edges work seen" "(a, b) \<in> calls edges"
  shows "b \<in> spread_concurrency edges work seen"
  using assms
proof (induction edges work seen rule: spread_concurrency.induct)
  case (2 edges w work seen)
  show ?case
  proof (cases "w \<in> seen")
    case True
    then show ?thesis
      using 2(1) [OF True] 2(3-5) by fastforce
  next
    case False
    let ?next = "(case map_of edges w of None \<Rightarrow> [] | Some cs \<Rightarrow> rev cs) @ work"
    have "b \<in> insert w seen \<or> b \<in> set ?next" if "a \<in> insert w seen" "(a, b) \<in> calls edges" for a b
      using 2(3) [of a b] that by (auto simp: calls_def)
    then show ?thesis
      using 2(2) [OF False] 2(4,5) False by simp
  qed
qed simp

lemma spread_reachable: "spread_concurrency edges work {} = {k. \<exists>w \<in> set work. (w, k) \<in> (calls edges)\<^sup>*}"
proof (intro set_eqI iffI)
  fix k
  assume "k \<in> {k. \<exists>w \<in> set work. (w, k) \<in> (calls edges)\<^sup>*}"
  then obtain w where "w \<in> set work" "(w, k) \<in> (calls edges)\<^sup>*"
    by blast
  from this(2,1) show "k \<in> spread_concurrency edges work {}"
  proof (induction rule: rtrancl_induct)
    case base
    then show ?case
      using spread_contains by fastforce
  next
    case (step a b)
    then show ?case
      using spread_closed [of "{}" edges work a b] by auto
  qed
qed (use spread_sound in fastforce)

text \<open>
  C14: which functions count as concurrent. They are exactly those that a function declared concurrent
  reaches along the edges of the call graph, over any number of calls.
\<close>

theorem concurrent_keys_reachable:
  "concurrent_keys M = {k. \<exists>k0 sig. (k0, sig) \<in> set (sm_functions M) \<and> fs_is_concurrent sig \<and> (k0, k) \<in> (calls (call_edges M))\<^sup>*}"
  unfolding concurrent_keys_def spread_reachable by force

subsection \<open>Accesses\<close>

text \<open>A shared field of a mutable global structure.\<close>

definition shared_field :: "sem_model \<Rightarrow> expr \<Rightarrow> bool" where
  "shared_field M e \<longleftrightarrow>
     (case e of
       MemberExpr _ _ b m \<Rightarrow>
         (case aggregate_global M b of
           None \<Rightarrow> False
         | Some (_, g) \<Rightarrow>
             (case map_of (sm_structs M) (ty_name (gi_type g)) of
               None \<Rightarrow> False
             | Some si \<Rightarrow> map_of (si_fields si) m \<noteq> None \<and> m \<in> si_shared_fields si))
     | _ \<Rightarrow> False)"

text \<open>The subexpressions that are not below an access to a shared field.\<close>

inductive exposed :: "sem_model \<Rightarrow> expr \<Rightarrow> expr \<Rightarrow> bool" for M where
  exposed_self: "exposed M e e"
| exposed_child: "x \<in> set (child_exprs e) \<Longrightarrow> \<not> shared_field M e \<Longrightarrow> exposed M x y \<Longrightarrow> exposed M e y"

text \<open>A name that stands for a mutable global without protection.\<close>

definition racy_name :: "sem_model \<Rightarrow> expr \<Rightarrow> bool" where
  "racy_name M e \<longleftrightarrow>
     (case e of
       NameExpr _ _ n \<Rightarrow>
         \<not> is_local M e \<and>
         (case map_of (sm_globals M) n of
           None \<Rightarrow> False | Some g \<Rightarrow> gi_is_mut g \<and> \<not> gi_is_percpu g \<and> \<not> gi_is_shared g)
     | _ \<Rightarrow> False)"

lemma report_access_clean: "tc_clean (snd (report_access r n m ({}, s))) \<Longrightarrow> False"
  by (simp add: report_access_def)

lemma aggregate_child:
  "aggregate_global M b = Some (n, g) \<Longrightarrow> \<exists>i r. b = NameExpr i r n"
  by (auto simp: aggregate_global_def split: expr.splits if_splits option.splits)

lemma exposed_cases:
  "exposed M e x \<longleftrightarrow> x = e \<or> \<not> shared_field M e \<and> (\<exists>y \<in> set (child_exprs e). exposed M y x)"
  by (subst exposed.simps) blast

lemma fold_access_clean:
  assumes "\<And>y st. y \<in> set es \<Longrightarrow> fst st = {} \<Longrightarrow> tc_clean (snd (check_access M y st)) \<Longrightarrow>
         fst (check_access M y st) = {} \<and> (\<forall>x. exposed M y x \<longrightarrow> \<not> racy_name M x)"
    and "fst st = {}" "tc_clean (snd (fold (check_access M) es st))"
  shows "fst (fold (check_access M) es st) = {} \<and> (\<forall>y \<in> set es. \<forall>x. exposed M y x \<longrightarrow> \<not> racy_name M x)"
  using assms
proof (induction es arbitrary: st)
  case (Cons y ys)
  have "tc_clean (snd (check_access M y st))"
    using Cons.prems(3) fold_snd_reports [of ys "check_access M" "check_access M y st", OF access_reports]
      tc_le_clean by (auto simp: only_reports_def)
  then have y: "fst (check_access M y st) = {} \<and> (\<forall>x. exposed M y x \<longrightarrow> \<not> racy_name M x)"
    by (rule Cons.prems(1) [rotated -1]) (simp_all add: Cons.prems(2))
  have "fst (fold (check_access M) ys (check_access M y st)) = {} \<and>
      (\<forall>y \<in> set ys. \<forall>x. exposed M y x \<longrightarrow> \<not> racy_name M x)"
  proof (rule Cons.IH)
    show "fst (check_access M z u) = {} \<and> (\<forall>x. exposed M z x \<longrightarrow> \<not> racy_name M x)"
      if "z \<in> set ys" "fst u = {}" "tc_clean (snd (check_access M z u))" for z u
      by (rule Cons.prems(1) [OF _ that(2,3)]) (simp add: that(1))
  qed (use Cons.prems(3) y in simp_all)
  with y show ?case
    by simp
qed simp

lemma access_clean:
  "fst st = {} \<Longrightarrow> tc_clean (snd (check_access M e st)) \<Longrightarrow>
     fst (check_access M e st) = {} \<and> (\<forall>x. exposed M e x \<longrightarrow> \<not> racy_name M x)"
proof (induction e arbitrary: st rule: child_induct)
  case (1 e)
  obtain s where st: "st = ({}, s)"
    using 1(2) by (metis prod.collapse)
  have children: "fst (fold (check_access M) (child_exprs e) st) = {} \<and>
      (\<forall>y \<in> set (child_exprs e). \<forall>x. exposed M y x \<longrightarrow> \<not> racy_name M x)"
    if "tc_clean (snd (fold (check_access M) (child_exprs e) st))"
    by (rule fold_access_clean [OF 1(1) 1(2) that])
  show ?case
  proof (cases "(\<exists>i r n. e = NameExpr i r n) \<or> (\<exists>i r b m. e = MemberExpr i r b m)")
    case False
    then have eq: "check_access M e st = fold (check_access M) (child_exprs e) st" and "\<not> racy_name M e"
      by (auto simp: check_access.simps [of M e] racy_name_def split: expr.split)
    then show ?thesis
      using children 1(3) exposed_cases [of M e] by auto
  next
    case True
    then show ?thesis
    proof (elim disjE exE)
      fix i r n
      assume e: "e = NameExpr i r n"
      show ?thesis
        using 1(3) unfolding exposed_cases [of M e]
        by (auto simp: e check_access.simps [of M "NameExpr i r n"] name_access_def racy_name_def st
            dest: report_access_clean split: option.splits if_splits)
    next
      fix i r b m
      assume e: "e = MemberExpr i r b m"
      show ?thesis
      proof (cases "aggregate_global M b")
        case None
        then have "check_access M e st = check_access M b st" "\<not> racy_name M e"
          by (simp_all add: e check_access.simps [of M "MemberExpr i r b m"] racy_name_def)
        then show ?thesis
          using 1(1) [of b st] 1(2,3) exposed_cases [of M e] by (auto simp: e)
      next
        case (Some ng)
        then obtain n g where g: "aggregate_global M b = Some (n, g)"
          by (cases ng) simp
        have "tc_clean (snd (member_access M r n g m st))"
          using 1(3) by (simp add: e check_access.simps [of M "MemberExpr i r b m"] g)
        then have "shared_field M e" "member_access M r n g m st = st"
          by (auto simp: member_access_def shared_field_def e g st dest: report_access_clean split: option.splits if_splits)
        then show ?thesis
          using 1(2) exposed_cases [of M e] by (simp add: e check_access.simps [of M "MemberExpr i r b m"] g racy_name_def)
      qed
    qed
  qed
qed

lemma accesses_clean:
  assumes "fst st = {}" "tc_clean (snd (fold check_accesses fs st))" "(key, sig) \<in> set fs" "fs_is_concurrent sig"
    "body_exprs sig = Some es" "e \<in> set es" "exposed (tc_model (snd st)) e x"
  shows "\<not> racy_name (tc_model (snd st)) x"
  using assms
proof (induction fs arbitrary: st)
  case (Cons f fs)
  define t where "t = check_accesses f st"
  have t: "tc_clean (snd t)" "tc_model (snd t) = tc_model (snd st)"
    using Cons.prems(2) accesses_report [of t fs] accesses_report [of st "[f]"] tc_le_clean
    by (auto simp: only_reports_def t_def)
  have body: "fst (fold (check_access M) es' st) = {} \<and> (\<forall>y \<in> set es'. \<forall>x. exposed M y x \<longrightarrow> \<not> racy_name M x)"
    if "tc_clean (snd (fold (check_access M) es' st))" for es' M
    by (rule fold_access_clean [OF access_clean Cons.prems(1) that])
  obtain k sg where f: "f = (k, sg)"
    by fastforce
  have step: "t = (if fs_is_concurrent sg then (case body_exprs sg of None \<Rightarrow> st
      | Some es \<Rightarrow> fold (check_access (tc_model (snd st))) es st) else st)"
    by (cases st) (simp add: t_def check_accesses_def f split: option.split)
  have empty: "fst t = {}"
    using body t(1) Cons.prems(1) by (auto simp: step split: option.splits if_splits)
  show ?case
  proof (cases "(key, sig) = f")
    case True
    then have "t = fold (check_access (tc_model (snd st))) es st"
      using Cons.prems(4,5) by (auto simp: step f)
    then show ?thesis
      using body [of "tc_model (snd st)" es] t(1) Cons.prems(6,7) by auto
  next
    case False
    then show ?thesis
      using Cons.IH [OF empty] Cons.prems t(2) by (simp add: t_def)
  qed
qed simp

text \<open>
  C2: data races. When the check of concurrent code reports nothing, no function that counts as
  concurrent contains a name that stands for a mutable global which is neither shared nor per CPU,
  except below an access to a shared field of that global.
\<close>

theorem no_racy_access:
  assumes "\<not> has_errors (tc_diags (propagate_concurrency s))" "\<not> tc_stuck (propagate_concurrency s)"
    and "M = tc_model (propagate_concurrency s)" "(key, sig) \<in> set (sm_functions M)" "fs_is_concurrent sig"
    and "body_exprs sig = Some es" "e \<in> set es" "exposed M e x"
  shows "\<not> racy_name M x"
proof -
  define N where "N = mark_concurrent (concurrent_keys (tc_model s)) (tc_model s)"
  have eq: "propagate_concurrency s = snd (fold check_accesses (sm_functions N) ({}, s\<lparr>tc_model := N\<rparr>))"
    by (simp add: propagate_concurrency_def N_def Let_def)
  have M: "M = N"
    using propagate_reports [of s] assms(3) by (simp add: only_reports_def N_def)
  show ?thesis
    using accesses_clean [of "({}, s\<lparr>tc_model := N\<rparr>)" "sm_functions N" key sig es e x] assms
    by (simp add: M eq [symmetric] tc_clean_def)
qed

end
