(* ===== verification/CopySound.thy ===== *)
theory CopySound
  imports TypeJudge
begin

text \<open>
  What the checker's tests on single declarations and names promise, and where they fall short: types
  declared \<open>Copy\<close>, bounds, nullable arguments, and bindings that hide a mutable one.
\<close>

subsection \<open>Copy\<close>

text \<open>The types a value of a type is made of: its own, and those of its fields.\<close>

inductive component :: "sem_model \<Rightarrow> ty \<Rightarrow> ty \<Rightarrow> bool" for M where
  component_self: "component M t t"
| component_field: "ty_kind t = KNamed \<Longrightarrow> map_of (sm_structs M) (ty_name t) = Some si \<Longrightarrow> (n, ft) \<in> set (si_fields si) \<Longrightarrow>
    component M (substitute_type ft (struct_subst si t)) u \<Longrightarrow> component M t u"

text \<open>
  C15: Copy. A type for which Copy may be implemented owns nothing that must not be duplicated: no type
  it is made of is a mutable reference or implements Drop, and each structure below it implements
  Copy itself.
\<close>

theorem copy_eligible_sound:
  assumes "copy_eligible M visiting explicit t" "component M t u"
  shows "(ty_kind u = KRef \<longrightarrow> \<not> ty_mut u) \<and>
    (ty_kind u = KNamed \<longrightarrow> \<not> has_impl M ''Drop'' u \<and> (u = t \<or> has_impl M ''Copy'' u))"
  using assms(2,1)
proof (induction arbitrary: visiting explicit rule: component.induct)
  case (component_self t)
  then show ?case
    by (subst (asm) copy_eligible.simps) (auto simp: is_copy_kinds split: if_splits)
next
  case (component_field t si n ft u)
  let ?f = "substitute_type ft (struct_subst si t)"
  have "\<not> is_copy t"
    using component_field(1) by (simp add: is_copy_kinds)
  then have field: "copy_eligible M (insert (type_str t) visiting) True ?f"
    using component_field(1-3,6) by (subst (asm) copy_eligible.simps) (auto simp: list_all_iff split: if_splits)
  have "ty_kind ?f = KNamed \<longrightarrow> has_impl M ''Copy'' ?f"
    using field by (subst (asm) copy_eligible.simps) (auto simp: is_copy_kinds split: if_splits)
  with component_field(5) [OF field] show ?case
    by auto
qed

text \<open>A structure of two integers that implements Copy.\<close>

definition pair_model :: sem_model where
  "pair_model = empty_model\<lparr>
     sm_structs := [(''P'', \<lparr>si_name = ''P'', si_generic_names = [], si_bounds = [],
       si_fields = [(''a'', builtin_type ''i32''), (''b'', ref_type (builtin_type ''i32'') False)], si_shared_fields = {}, si_decl = None\<rparr>)],
     sm_impls := [\<lparr>ii_trait = ''Copy'', ii_for_type = named_type ''P'' [], ii_decl = None\<rparr>]\<rparr>"

lemma pair_model_simps:
  "sm_structs pair_model = [(''P'', \<lparr>si_name = ''P'', si_generic_names = [], si_bounds = [],
     si_fields = [(''a'', builtin_type ''i32''), (''b'', ref_type (builtin_type ''i32'') False)], si_shared_fields = {}, si_decl = None\<rparr>)]"
  "sm_impls pair_model = [\<lparr>ii_trait = ''Copy'', ii_for_type = named_type ''P'' [], ii_decl = None\<rparr>]"
  by (simp_all add: pair_model_def)

text \<open>Witness of C15.\<close>

lemma copy_eligible_sound_witness:
  "copy_eligible pair_model {} False (named_type ''P'' []) \<and>
   component pair_model (named_type ''P'' []) (ref_type (builtin_type ''i32'') False) \<and>
   \<not> ty_mut (ref_type (builtin_type ''i32'') False)"
proof -
  have kinds: "is_copy (builtin_type ''i32'')" "is_copy (ref_type (builtin_type ''i32'') False)"
    by (simp_all add: is_copy_kinds builtin_type_def builtin_kinds_def)
  have same: "substitute_type (builtin_type ''i32'') sub = builtin_type ''i32''"
      "substitute_type (ref_type (builtin_type ''i32'') False) sub = ref_type (builtin_type ''i32'') False" for sub
    by (simp_all add: builtin_type_def builtin_kinds_def ref_type_def)
  have leaf: "copy_eligible pair_model v True (builtin_type ''i32'')"
      "copy_eligible pair_model v True (ref_type (builtin_type ''i32'') False)" for v
    by (simp_all add: copy_eligible.simps kinds)
  have ok: "copy_eligible pair_model {} False (named_type ''P'' [])"
    by (subst copy_eligible.simps) (simp add: is_copy_kinds has_impl_def pair_model_simps leaf same)
  have part: "component pair_model (named_type ''P'' []) (ref_type (builtin_type ''i32'') False)"
    by (rule component_field [of _ _ _ "''b''" "ref_type (builtin_type ''i32'') False"],
        simp_all add: pair_model_simps same component_self) simp
  show ?thesis
    using copy_eligible_sound [OF ok part] ok part by simp
qed

subsection \<open>Bounds\<close>

text \<open>
  C38: bounds by declared traits. A call of a function or method one of whose parameters is bounded by
  a trait other than Copy, Send and Sync never goes through, whatever the type implements.
\<close>

theorem user_bound_rejected:
  assumes "(g, bs) \<in> set (fs_bounds sig)" "b \<in> set bs" "b \<notin> {''Copy'', ''Send'', ''Sync''}"
  shows "\<not> tc_clean (snd (finish_call r gs method name sig actuals c s))"
proof
  assume clean: "tc_clean (snd (finish_call r gs method name sig actuals c s))"
  obtain sub where sub: "bounds_hold (core (tc_model s)) sub (fs_bounds sig)" "fst ` set (fs_bounds sig) \<subseteq> dom sub"
    using call_sound [OF clean] unfolding call_rule_def by blast
  then obtain t where "sub g = Some t"
    using assms(1) by force
  then have "holds_bound (core (tc_model s)) t b"
    using sub(1) assms(1,2) by (auto simp: bounds_hold_def)
  then show False
    using assms(3) by (auto simp: holds_bound_def satisfies_bounds_def)
qed

definition shown_sig :: function_sig where
  "shown_sig = \<lparr>fs_name = ''show'', fs_generic_names = [''T''], fs_bounds = [(''T'', [''Show''])],
     fs_params = [generic_type ''T''], fs_result = builtin_type ''unit'', fs_is_unsafe = False, fs_is_async = False,
     fs_is_extern = False, fs_is_concurrent = False, fs_abi = [], fs_decl = None\<rparr>"

text \<open>Witness of C38: the type of the argument implements the trait.\<close>

lemma user_bound_rejected_witness:
  "\<exists>s c. has_impl (tc_model s) ''Show'' (named_type ''P'' []) \<and>
     \<not> tc_clean (snd (finish_call initial_range [] False ''show'' shown_sig
       [(NameExpr 1 initial_range ''p'', named_type ''P'' [])] c s))"
proof -
  define s where "s = \<lparr>tc_model = empty_model\<lparr>sm_impls := [\<lparr>ii_trait = ''Show'', ii_for_type = named_type ''P'' [], ii_decl = None\<rparr>]\<rparr>,
    tc_diags = no_diagnostics, tc_fuel = 9, tc_stuck = False\<rparr>"
  have "has_impl (tc_model s) ''Show'' (named_type ''P'' [])"
    by (simp add: s_def has_impl_def type_eq_iff)
  then show ?thesis
    using user_bound_rejected [of "''T''" "[''Show'']" shown_sig "''Show''"] by (auto simp: shown_sig_def)
qed

subsection \<open>Nullable types\<close>

text \<open>
  Nullable arguments. A nullable type does not coerce to the type itself, so a binding or an
  assignment of it is rejected; but an argument of it is accepted for a parameter of the type itself.
\<close>

theorem nullable_argument_accepted:
  "\<not> can_coerce_expr (Some (NameExpr i r x)) (set_nullable True (named_type n [])) (named_type n []) \<and>
   check_actuals 0 [(NameExpr i r x, set_nullable True (named_type n []))] [named_type n []] sub s = (sub, s)"
  by (simp add: named_type_def can_coerce_expr_def can_coerce.simps integer_literal_def tc_require_def)

subsection \<open>Mutability\<close>

text \<open>
  C39: hidden bindings. Mutability is looked up by name over all scopes, so an immutable binding that
  hides a mutable one can be assigned: with x mutable outside, the checker has nothing to report
  on a binding val x = true followed by the assignment x = false in an inner block.
\<close>

theorem immutable_shadow_assignable:
  assumes "list_ex (\<lambda>ms. x \<in> ms) (fc_mutable c)" "map_of (functions_of s) x = None"
    and "hm_assignment_bindings (sm_hir (tc_model s)) k = None"
  shows "tc_diags (check_block_types (Block b r
      [LetStmt i r x False None (Some (BoolExpr j r True)),
       AssignStmt k r (NameExpr l r x) ''='' (BoolExpr m r False)]) c s) = tc_diags s"
proof -
  have mutable: "is_mutable_binding x (bind_type x t False (open_types c)) s'" for t s'
    using assms(1) by (auto simp: is_mutable_binding_def bind_type_def open_types_def)
  have "find_local x (fc_scopes (bind_type x t False (open_types c))) = Some t" for t
    by (simp add: bind_type_def open_types_def)
  then show ?thesis
    using assms(2,3) mutable
    by (simp add: check_let_types_def check_assign_types_def record_type_def set_binding_type_def tc_require_def
        lookup_local_def can_coerce_expr_def can_coerce.simps builtin_type_def)
qed

text \<open>Witness of C39.\<close>

lemma immutable_shadow_assignable_witness:
  "\<exists>c s. list_ex (\<lambda>ms. ''x'' \<in> ms) (fc_mutable c) \<and>
     tc_diags (check_block_types (Block 0 initial_range
       [LetStmt 1 initial_range ''x'' False None (Some (BoolExpr 2 initial_range True)),
        AssignStmt 3 initial_range (NameExpr 4 initial_range ''x'') ''='' (BoolExpr 5 initial_range False)]) c s) = no_diagnostics"
proof -
  define s where "s = \<lparr>tc_model = empty_model, tc_diags = no_diagnostics, tc_fuel = 0, tc_stuck = False\<rparr>"
  define c where "c = bind_type ''x'' (builtin_type ''bool'') True (function_context empty_sig False)"
  have m: "list_ex (\<lambda>ms. ''x'' \<in> ms) (fc_mutable c)"
    by (simp add: c_def bind_type_def function_context_def)
  have "map_of (functions_of s) ''x'' = None" "hm_assignment_bindings (sm_hir (tc_model s)) 3 = None"
    by (simp_all add: s_def empty_model_def empty_hir_def)
  from immutable_shadow_assignable [OF m this, of 0 initial_range 1 2 4 5] m show ?thesis
    by (auto simp: s_def)
qed

end
