(* ===== verification/TypeRun.thy ===== *)
theory TypeRun
  imports ResolverRun SmpSound CopySound
begin

text \<open>The type checker evaluated on small modules: the witnesses of its theorems.\<close>

text \<open>\<open>fn f() { val x = true  while x { break } }\<close>\<close>

definition leaving :: function_decl where
  "leaving = plain_function ''f''
     [LetStmt 1 initial_range ''x'' False None (Some (BoolExpr 2 initial_range True)),
      WhileStmt 3 initial_range (NameExpr 4 initial_range ''x'') (Block 5 initial_range [BreakStmt 6 initial_range])]"

lemmas check_eval = check_module_def Let_def validate_special_traits_def collect_items_def collect_item_def
  collect_function_def collect_sig_def collect_bounds_def add_function_sig_def collect_impl_def global_context_def
  function_context_def check_item_types_def check_named_function_def check_function_types_def
  check_let_types_def check_condition_def check_jump_def bind_type_def open_types_def enter_loop_def record_type_def
  lookup_local_def set_binding_type_def tc_require_def propagate_concurrency_def concurrent_keys_def call_edges_def
  mark_concurrent_def check_accesses_def validate_concurrency_boundaries_def check_boundary_def

lemma leaving_checked:
  "map_option (\<lambda>(M, ds). has_errors ds)
     (check_module 9 empty_hir (module_of [FunctionItem leaving]) no_diagnostics) = Some False"
  by (simp add: check_eval leaving_def plain_function_def module_of_def empty_model_def builtin_type_def builtin_kinds_def
      no_diagnostics_def has_errors_def)

text \<open>Witness of C1.\<close>

lemma accepted_module_typed_witness:
  "\<exists>N sig. map_of (sm_functions N) ''f'' = Some sig \<and> wt_function (core N) leaving sig"
proof -
  obtain M ds where m: "check_module 9 empty_hir (module_of [FunctionItem leaving]) no_diagnostics = Some (M, ds)" "\<not> has_errors ds"
    using leaving_checked by (cases "check_module 9 empty_hir (module_of [FunctionItem leaving]) no_diagnostics") auto
  have f: "fd_name leaving = ''f''" "FunctionItem leaving \<in> set (am_items (module_of [FunctionItem leaving]))"
      "(''f'', leaving) \<in> set (item_functions (FunctionItem leaving))"
    by (simp_all add: leaving_def plain_function_def module_of_def item_functions_def)
  then show ?thesis
    using accepted_module_typed [OF m] by (metis not_Some_eq)
qed

subsection \<open>Concurrent code\<close>

text \<open>A concurrent function that reads a shared global.\<close>

definition counter :: expr where
  "counter = NameExpr 1 initial_range ''c''"

definition counting_sig :: function_sig where
  "counting_sig = empty_sig\<lparr>fs_name := ''f'', fs_is_concurrent := True,
     fs_decl := Some (plain_function ''f'' [ExprStmt 2 initial_range counter])\<rparr>"

definition counting :: type_checker where
  "counting = \<lparr>tc_model = empty_model\<lparr>sm_functions := [(''f'', counting_sig)],
       sm_globals := [(''c'', \<lparr>gi_name = ''c'', gi_type = builtin_type ''i32'', gi_is_mut = True, gi_is_const = False,
         gi_is_shared = True, gi_is_percpu = False, gi_decl = None\<rparr>)]\<rparr>,
     tc_diags = no_diagnostics, tc_fuel = 9, tc_stuck = False\<rparr>"

lemma counting_checked: "propagate_concurrency counting = counting"
  by (simp add: propagate_concurrency_def counting_def counting_sig_def empty_sig_def plain_function_def concurrent_keys_def
      call_edges_def List.map_filter_simps body_exprs_def counter_def collect_callees.simps direct_callee_def Let_def mark_concurrent_def
      check_accesses_def check_access.simps name_access_def is_local_def empty_model_def empty_hir_def)

text \<open>Witness of C2.\<close>

lemma no_racy_access_witness:
  "exposed (tc_model (propagate_concurrency counting)) counter counter \<and>
   \<not> racy_name (tc_model (propagate_concurrency counting)) counter"
proof -
  have clean: "\<not> has_errors (tc_diags (propagate_concurrency counting))" "\<not> tc_stuck (propagate_concurrency counting)"
    by (simp_all add: counting_checked) (simp_all add: counting_def no_diagnostics_def has_errors_def)
  have f: "(''f'', counting_sig) \<in> set (sm_functions (tc_model (propagate_concurrency counting)))"
      "fs_is_concurrent counting_sig" "body_exprs counting_sig = Some [counter]" "counter \<in> set [counter]"
    by (simp_all add: counting_checked) (simp_all add: counting_def counting_sig_def body_exprs_def plain_function_def)
  show ?thesis
    using no_racy_access [OF clean refl f exposed_self] exposed_self by blast
qed

end
