(* ===== verification/Parser.thy ===== *)
theory Parser
  imports Tokens Ast "HOL-Library.Monad_Syntax"
begin

text \<open>
  The state and the primitives of the parser (src/parser.cpp): the cursor into the tokens, layout,
  and the parsers of types, generic parameters and parameters.

  A loop or a recursive function takes fuel and returns None when it runs out; the code has no
  counterpart of that result, it goes on. The tokens are never empty: the lexer closes them with End.
\<close>

record parser =
  ps_toks :: "token list"
  ps_pos :: nat
  ps_diags :: diagnostics
  ps_next :: nat

definition new_parser :: "token list \<Rightarrow> diagnostics \<Rightarrow> parser" where
  "new_parser ts ds = \<lparr>ps_toks = ts, ps_pos = 0, ps_diags = ds, ps_next = 0\<rparr>"

subsection \<open>The cursor\<close>

definition peek_at :: "nat \<Rightarrow> parser \<Rightarrow> token" where
  "peek_at n s = ps_toks s ! min (ps_pos s + n) (length (ps_toks s) - 1)"

abbreviation peek :: "parser \<Rightarrow> token" where
  "peek s \<equiv> peek_at 0 s"

definition at_kind :: "token_kind \<Rightarrow> parser \<Rightarrow> bool" where
  "at_kind k s \<longleftrightarrow> tok_kind (peek s) = k"

abbreviation at_any :: "token_kind list \<Rightarrow> parser \<Rightarrow> bool" where
  "at_any ks s \<equiv> list_ex (\<lambda>k. at_kind k s) ks"

abbreviation at_op :: "punct \<Rightarrow> parser \<Rightarrow> bool" where
  "at_op p s \<equiv> at_kind (TkOp p) s"

abbreviation at_kw :: "keyword \<Rightarrow> parser \<Rightarrow> bool" where
  "at_kw k s \<equiv> at_kind (TkKw k) s"

definition bump :: "parser \<Rightarrow> parser" where
  "bump s = s\<lparr>ps_pos := Suc (ps_pos s)\<rparr>"

definition consume :: "token_kind \<Rightarrow> parser \<Rightarrow> bool \<times> parser" where
  "consume k s = (if at_kind k s then (True, bump s) else (False, s))"

definition advance :: "parser \<Rightarrow> token \<times> parser" where
  "advance s = (peek s, if ps_pos s < length (ps_toks s) - 1 then bump s else s)"

definition parse_error :: "src_range \<Rightarrow> string \<Rightarrow> string \<Rightarrow> parser \<Rightarrow> parser" where
  "parse_error r code msg s = s\<lparr>ps_diags := diag_error r code msg (ps_diags s)\<rparr>"

definition expected :: "string \<Rightarrow> parser \<Rightarrow> token \<times> parser" where
  "expected what s = (peek s, parse_error (tok_range (peek s)) ''E0100''
     (''expected '' @ what @ '', found '' @ token_name (tok_kind (peek s))) s)"

definition expect :: "token_kind \<Rightarrow> string \<Rightarrow> parser \<Rightarrow> token \<times> parser" where
  "expect k what s = (if at_kind k s then advance s else expected what s)"

definition expect_name :: "string \<Rightarrow> parser \<Rightarrow> token \<times> parser" where
  "expect_name what s = (if at_any [TkIdentifier, TkKw KwPtr] s then advance s else expected what s)"

definition ticked :: "string \<Rightarrow> string" where
  "ticked x = [CHR 0x27] @ x @ [CHR 0x27]"

text \<open>A node of the tree; its address in the code is a fresh number here.\<close>

definition node :: "(nat \<Rightarrow> 'a) \<Rightarrow> parser \<Rightarrow> ('a \<times> parser) option" where
  "node f s = Some (f (ps_next s), s\<lparr>ps_next := Suc (ps_next s)\<rparr>)"

text \<open>The range from the start of one token to the start of another.\<close>

definition span :: "parser \<Rightarrow> parser \<Rightarrow> src_range" where
  "span s t = \<lparr>range_begin = range_begin (tok_range (peek s)), range_end = range_begin (tok_range (peek t))\<rparr>"

subsection \<open>Layout\<close>

fun skip_newlines :: "nat \<Rightarrow> parser \<Rightarrow> parser option" where
  "skip_newlines 0 s = None"
| "skip_newlines (Suc n) s = (case consume TkNewline s of (True, s) \<Rightarrow> skip_newlines n s | (False, s) \<Rightarrow> Some s)"

definition finish_line :: "nat \<Rightarrow> parser \<Rightarrow> parser option" where
  "finish_line n s = (case consume (TkOp OpSemicolon) s of (True, s) \<Rightarrow> skip_newlines n s
     | (False, s) \<Rightarrow> (case consume TkNewline s of (True, s) \<Rightarrow> skip_newlines n s
     | (False, s) \<Rightarrow> if at_any [TkDedent, TkOp OpRBrace, TkEnd] s then Some s
         else Some (parse_error (tok_range (peek s)) ''E0111'' ''expected end of line'' s)))"

fun synchronize_item :: "nat \<Rightarrow> parser \<Rightarrow> parser option" where
  "synchronize_item 0 s = None"
| "synchronize_item (Suc n) s = (if at_kind TkEnd s then Some s
     else if at_any [TkNewline, TkOp OpSemicolon] s then Some (bump s)
     else if at_any [TkDedent, TkKw KwFn, TkKw KwStruct, TkKw KwTrait, TkKw KwImpl, TkKw KwPub, TkKw KwNeed,
       TkKw KwDontNeed] s then Some s
     else synchronize_item n (snd (advance s)))"

text \<open>A suite is in braces or an indented block: the result says which.\<close>

definition begin_suite :: "nat \<Rightarrow> parser \<Rightarrow> (bool \<times> parser) option" where
  "begin_suite n s = (case consume (TkOp OpLBrace) s of (True, s) \<Rightarrow> Some (True, s)
     | (False, s) \<Rightarrow> do {
         let s = snd (expect (TkOp OpColon) (ticked '':'' @ '' before an indented block'') s);
         let s = snd (expect TkNewline (''a newline after '' @ ticked '':'') s);
         s \<leftarrow> skip_newlines n s;
         let s = snd (expect TkIndent ''an indented block'' s);
         s \<leftarrow> skip_newlines n s;
         Some (False, s) })"

definition suite_done :: "nat \<Rightarrow> bool \<Rightarrow> parser \<Rightarrow> (bool \<times> parser) option" where
  "suite_done n braces s = do {
     s \<leftarrow> skip_newlines n s;
     Some (at_any [if braces then TkOp OpRBrace else TkDedent, TkEnd] s, s) }"

definition end_suite :: "nat \<Rightarrow> bool \<Rightarrow> parser \<Rightarrow> parser option" where
  "end_suite n braces s = skip_newlines n (snd (if braces then expect (TkOp OpRBrace) (ticked ''}'') s
     else expect TkDedent ''end of indented block'' s))"

subsection \<open>Loops over items\<close>

text \<open>What a suite contains, until it is done.\<close>

fun suite_items :: "nat \<Rightarrow> (parser \<Rightarrow> ('a \<times> parser) option) \<Rightarrow> bool \<Rightarrow> parser \<Rightarrow> ('a list \<times> parser) option" where
  "suite_items 0 p braces s = None"
| "suite_items (Suc n) p braces s = do {
     (done, s) \<leftarrow> suite_done n braces s;
     if done then Some ([], s) else do {
       (x, s) \<leftarrow> p s;
       (xs, s) \<leftarrow> suite_items n p braces s;
       Some (x # xs, s) } }"

text \<open>
  One item or more with a separator between them; the list may end behind a separator where \<open>stop\<close>
  holds. This is the loop of arguments, parameters, bounds and type arguments.
\<close>

fun separated :: "punct \<Rightarrow> (parser \<Rightarrow> bool) \<Rightarrow> nat \<Rightarrow> (parser \<Rightarrow> ('a \<times> parser) option) \<Rightarrow> parser \<Rightarrow> ('a list \<times> parser) option" where
  "separated sep stop 0 p s = None"
| "separated sep stop (Suc n) p s = do {
     (x, s) \<leftarrow> p s;
     case consume (TkOp sep) s of (False, s) \<Rightarrow> Some ([x], s)
     | (True, s) \<Rightarrow> if stop s then Some ([x], s) else do {
         (xs, s) \<leftarrow> separated sep stop n p s;
         Some (x # xs, s) } }"

abbreviation never :: "parser \<Rightarrow> bool" where
  "never \<equiv> \<lambda>_. False"

text \<open>Items up to a closing token or the end, or to the first one that no comma follows.\<close>

fun closed_list :: "token_kind \<Rightarrow> nat \<Rightarrow> (parser \<Rightarrow> ('a \<times> parser) option) \<Rightarrow> parser \<Rightarrow> ('a list \<times> parser) option" where
  "closed_list close 0 p s = None"
| "closed_list close (Suc n) p s = (if at_any [close, TkEnd] s then Some ([], s) else do {
     (x, s) \<leftarrow> p s;
     case consume (TkOp OpComma) s of (False, s) \<Rightarrow> Some ([x], s)
     | (True, s) \<Rightarrow> do {
         (xs, s) \<leftarrow> closed_list close n p s;
         Some (x # xs, s) } })"

text \<open>A parenthesised list that may be empty, with or without a comma behind the last item.\<close>

definition optional_list ::
  "token_kind \<Rightarrow> (parser \<Rightarrow> bool) \<Rightarrow> nat \<Rightarrow> (parser \<Rightarrow> ('a \<times> parser) option) \<Rightarrow> parser \<Rightarrow> ('a list \<times> parser) option" where
  "optional_list close stop n p s = (if at_kind close s then Some ([], s) else separated OpComma stop n p s)"

subsection \<open>Types\<close>

text \<open>One prefix of a type, and what it is called in the tree; None when there is none.\<close>

definition type_prefix :: "parser \<Rightarrow> (string \<times> parser) option" where
  "type_prefix s =
     (if at_kw KwRef s then Some (''&'', bump s)
      else if at_kw KwMutRef s then Some (''&mut'', bump s)
      else if at_kw KwPtr s then Some (''*const'', bump s)
      else if at_kw KwMutPtr s then Some (''*mut'', bump s)
      else if at_op OpAmpMut s then Some (''&mut'', bump s)
      else if at_op OpAmp s then (case consume (TkKw KwMut) (bump s) of (m, s) \<Rightarrow> Some (if m then ''&mut'' else ''&'', s))
      else if at_op OpStar s then
        (case consume (TkKw KwMut) (bump s) of (True, s) \<Rightarrow> Some (''*mut'', s)
         | (False, s) \<Rightarrow> Some (''*const'', snd (expect (TkKw KwConst) (''const or mut after '' @ ticked ''*'') s)))
      else None)"

fun type_prefixes :: "nat \<Rightarrow> parser \<Rightarrow> (string list \<times> parser) option" where
  "type_prefixes 0 s = None"
| "type_prefixes (Suc n) s = (case type_prefix s of None \<Rightarrow> Some ([], s)
     | Some (p, s) \<Rightarrow> do {
         (ps, s) \<leftarrow> type_prefixes n s;
         Some (p # ps, s) })"

definition type_name :: "parser \<Rightarrow> string \<times> parser" where
  "type_name s =
     (if at_any [TkIdentifier, TkKw KwSelfTy] s then (case advance s of (t, s) \<Rightarrow> (tok_text t, s))
      else case expect TkIdentifier ''type name'' s of (t, s) \<Rightarrow> (if tok_text t = [] then ''<error>'' else tok_text t, s))"

definition parse_type_arguments ::
  "nat \<Rightarrow> (parser \<Rightarrow> (type_ref \<times> parser) option) \<Rightarrow> punct \<Rightarrow> punct \<Rightarrow> parser \<Rightarrow> (type_ref list \<times> parser) option" where
  "parse_type_arguments n ty op cl s = do {
     let s = snd (expect (TkOp op) ''generic argument list'' s);
     (args, s) \<leftarrow> optional_list (TkOp cl) (at_op cl) n ty s;
     Some (args, snd (expect (TkOp cl) ''end of generic argument list'' s)) }"

text \<open>Type arguments in either spelling, where there are any.\<close>

definition optional_type_arguments ::
  "nat \<Rightarrow> (parser \<Rightarrow> (type_ref \<times> parser) option) \<Rightarrow> parser \<Rightarrow> (type_ref list \<times> parser) option" where
  "optional_type_arguments n ty s =
     (if at_op OpLBracket s then parse_type_arguments n ty OpLBracket OpRBracket s
      else if at_op OpLess s then parse_type_arguments n ty OpLess OpGreater s
      else Some ([], s))"

fun parse_type :: "nat \<Rightarrow> parser \<Rightarrow> (type_ref \<times> parser) option" where
  "parse_type 0 s = None"
| "parse_type (Suc n) s = do {
     (marks, t) \<leftarrow> type_prefixes n s;
     let (name, t) = type_name t;
     (args, t) \<leftarrow> optional_type_arguments n (parse_type n) t;
     let (nullable, t) = consume (TkOp OpQuestion) t;
     Some (TypeRef (span s t) name args marks False False False False nullable, t) }"

text \<open>A type the parser makes up: its name, with the prefixes given.\<close>

definition implied_type :: "string \<Rightarrow> string list \<Rightarrow> type_ref" where
  "implied_type name marks = TypeRef initial_range name [] marks False False False False False"

text \<open>How a type in the tree is shown.\<close>

definition prefix_str :: "string \<Rightarrow> string" where
  "prefix_str p = (if p = ''&'' then ''ref '' else if p = ''&mut'' then ''mutref '' else if p = ''*const'' then ''ptr ''
     else if p = ''*mut'' then ''mutptr '' else p @ '' '')"

fun separate :: "string list \<Rightarrow> string" where
  "separate [] = []"
| "separate [x] = x"
| "separate (x # xs) = x @ '', '' @ separate xs"

fun type_ref_str :: "type_ref \<Rightarrow> string" where
  "type_ref_str (TypeRef r name args marks is_ref is_mut_ref is_raw_ptr raw_mut nullable) =
     (if marks \<noteq> [] then concat (map prefix_str marks)
      else (if is_ref then (if is_mut_ref then ''mutref '' else ''ref '') else []) @
        (if is_raw_ptr then (if raw_mut then ''mutptr '' else ''ptr '') else [])) @
     name @ (if args = [] then [] else ''['' @ separate (map type_ref_str args) @ '']'') @ (if nullable then ''?'' else [])"

subsection \<open>Generic parameters\<close>

definition parse_bounds :: "nat \<Rightarrow> parser \<Rightarrow> (string list \<times> parser) option" where
  "parse_bounds n = separated OpPlus never n
     (\<lambda>s. case expect_name ''trait bound'' s of (t, s) \<Rightarrow> Some (tok_text t, s))"

definition parse_generic :: "nat \<Rightarrow> parser \<Rightarrow> (generic_param \<times> parser) option" where
  "parse_generic n s = do {
     let (name, t) = expect TkIdentifier ''generic parameter'' s;
     (bounds, t) \<leftarrow> (case consume (TkOp OpColon) t of (True, t) \<Rightarrow> parse_bounds n t | (False, t) \<Rightarrow> Some ([], t));
     Some (\<lparr>gp_name = tok_text name, gp_bounds = bounds, gp_range = span s t\<rparr>, t) }"

definition parse_generic_list :: "nat \<Rightarrow> punct \<Rightarrow> parser \<Rightarrow> (generic_param list \<times> parser) option" where
  "parse_generic_list n cl s = do {
     (params, s) \<leftarrow> closed_list (TkOp cl) n (parse_generic n) s;
     Some (params, snd (expect (TkOp cl) ''end of generic parameter list'' s)) }"

definition parse_generics :: "nat \<Rightarrow> parser \<Rightarrow> (generic_param list \<times> parser) option" where
  "parse_generics n s = (case consume (TkOp OpLBracket) s of (True, s) \<Rightarrow> parse_generic_list n OpRBracket s
     | (False, s) \<Rightarrow> (case consume (TkOp OpLess) s of (True, s) \<Rightarrow> parse_generic_list n OpGreater s
     | (False, s) \<Rightarrow> Some ([], s)))"

definition add_bound :: "string \<Rightarrow> string list \<Rightarrow> string list" where
  "add_bound b bs = (if b \<in> set bs then bs else bs @ [b])"

text \<open>The bounds of a where clause go to the first parameter of the name.\<close>

fun add_bounds :: "string \<Rightarrow> string list \<Rightarrow> generic_param list \<Rightarrow> generic_param list" where
  "add_bounds name bs [] = []"
| "add_bounds name bs (g # gs) = (if gp_name g = name then g\<lparr>gp_bounds := fold add_bound bs (gp_bounds g)\<rparr> # gs
     else g # add_bounds name bs gs)"

definition where_entry :: "nat \<Rightarrow> generic_param list \<Rightarrow> parser \<Rightarrow> (generic_param list \<times> parser) option" where
  "where_entry n params s = do {
     let (name, s) = expect TkIdentifier ''generic parameter in where clause'' s;
     let s = (if tok_text name \<in> gp_name ` set params then s
       else parse_error (tok_range name) ''E0115''
         (''where clause references unknown generic parameter '' @ ticked (tok_text name)) s);
     let s = snd (expect (TkOp OpColon) (ticked '':'' @ '' after generic parameter in where clause'') s);
     (bounds, s) \<leftarrow> parse_bounds n s;
     Some (add_bounds (tok_text name) bounds params, s) }"

fun where_entries :: "nat \<Rightarrow> generic_param list \<Rightarrow> parser \<Rightarrow> (generic_param list \<times> parser) option" where
  "where_entries 0 params s = None"
| "where_entries (Suc n) params s = do {
     (params, s) \<leftarrow> where_entry n params s;
     case consume (TkOp OpComma) s of (True, s) \<Rightarrow> where_entries n params s | (False, s) \<Rightarrow> Some (params, s) }"

definition parse_where_clause :: "nat \<Rightarrow> generic_param list \<Rightarrow> parser \<Rightarrow> (generic_param list \<times> parser) option" where
  "parse_where_clause n params s = (case consume (TkKw KwWhere) s of (True, s) \<Rightarrow> where_entries n params s
     | (False, s) \<Rightarrow> Some (params, s))"

subsection \<open>Parameters\<close>

definition reference_receiver :: "parser \<Rightarrow> (string \<times> type_ref \<times> bool) \<times> parser" where
  "reference_receiver s =
     (let mut_self = at_op OpAmpMut s; s = snd (advance s); s = (if mut_self then s else snd (consume (TkKw KwMut) s)) in
      case expect (TkKw KwSelf) ''self after reference receiver'' s of (self, s) \<Rightarrow>
        ((tok_text self, implied_type ''Self'' [if mut_self then ''&mut'' else ''&''], mut_self), s))"

definition plain_receiver :: "nat \<Rightarrow> parser \<Rightarrow> ((string \<times> type_ref \<times> bool) \<times> parser) option" where
  "plain_receiver n s = (case advance s of (self, s) \<Rightarrow>
     (case consume (TkOp OpColon) s of (False, s) \<Rightarrow> Some ((tok_text self, implied_type ''Self'' [], False), s)
      | (True, s) \<Rightarrow> do {
          (ty, s) \<leftarrow> parse_type n s;
          Some ((tok_text self, ty, tr_name ty = ''Self'' \<and> take 1 (tr_prefixes ty) = [''&mut'']), s) }))"

definition named_parameter :: "nat \<Rightarrow> parser \<Rightarrow> ((string \<times> type_ref \<times> bool) \<times> parser) option" where
  "named_parameter n s = do {
     let (m, s) = (case consume (TkKw KwMut) s of (True, s) \<Rightarrow> (True, s) | (False, s) \<Rightarrow> consume (TkKw KwVar) s);
     let (name, s) = expect_name ''parameter name'' s;
     let s = snd (expect (TkOp OpColon) (ticked '':'' @ '' after parameter name'') s);
     (ty, s) \<leftarrow> parse_type n s;
     Some ((tok_text name, ty, m), s) }"

definition parse_parameter :: "nat \<Rightarrow> parser \<Rightarrow> (param \<times> parser) option" where
  "parse_parameter n s = do {
     ((name, ty, m), t) \<leftarrow> (if at_any [TkOp OpAmp, TkOp OpAmpMut] s then Some (reference_receiver s)
       else if at_kw KwSelf s then plain_receiver n s
       else named_parameter n s);
     node (\<lambda>i. \<lparr>par_id = i, par_name = name, par_type = ty, par_mut = m, par_range = span s t\<rparr>) t }"

text \<open>The parameters of a function or method between their parentheses, and the type behind the arrow.\<close>

definition parse_signature :: "nat \<Rightarrow> parser \<Rightarrow> ((param list \<times> type_ref) \<times> parser) option" where
  "parse_signature n s = do {
     let s = snd (expect (TkOp OpLParen) (ticked ''('') s);
     (params, s) \<leftarrow> optional_list (TkOp OpRParen) never n (parse_parameter n) s;
     let s = snd (expect (TkOp OpRParen) (ticked '')'') s);
     case consume (TkOp OpArrow) s of (True, s) \<Rightarrow> do {
         (ty, s) \<leftarrow> parse_type n s;
         Some ((params, ty), s) }
     | (False, s) \<Rightarrow> Some ((params, implied_type ''unit'' []), s) }"

end
