(* ===== verification/ParseExpr.thy ===== *)
theory ParseExpr
  imports Parser
begin

text \<open>
  The parser of expressions (src/parser.cpp): literals, names, construction, prefix and postfix
  operators, calls, inline assembly, and binary operators by precedence. The forms that contain
  expressions take the parser of these as a parameter; the recursion is tied at the end.
\<close>

type_synonym expr_parser = "parser \<Rightarrow> (expr \<times> parser) option"

definition token_begin :: "token \<Rightarrow> src_loc" where
  "token_begin t = range_begin (tok_range t)"

definition token_end :: "token \<Rightarrow> src_loc" where
  "token_end t = range_end (tok_range t)"

definition expr_begin :: "expr \<Rightarrow> src_loc" where
  "expr_begin e = range_begin (expr_range e)"

definition expr_end :: "expr \<Rightarrow> src_loc" where
  "expr_end e = range_end (expr_range e)"

definition from_to :: "src_loc \<Rightarrow> src_loc \<Rightarrow> src_range" where
  "from_to b e = \<lparr>range_begin = b, range_end = e\<rparr>"

subsection \<open>Construction\<close>

text \<open>One field with its value; \<open>sep\<close> stands between them, an equals sign or a colon.\<close>

definition init_field :: "expr_parser \<Rightarrow> punct \<Rightarrow> string \<Rightarrow> parser \<Rightarrow> (field_init \<times> parser) option" where
  "init_field ex sep what s = do {
     let start = token_begin (peek s);
     let (name, s) = expect_name ''field name'' s;
     let s = snd (expect (TkOp sep) what s);
     (value, s) \<leftarrow> ex s;
     Some (FieldInit (tok_text name) value (from_to start (expr_end value)), s) }"

definition parse_new :: "nat \<Rightarrow> expr_parser \<Rightarrow> expr_parser" where
  "parse_new n ex s = do {
     let (keyword, s) = advance s;
     let (name, s) = expect TkIdentifier (''type name after '' @ ticked ''new'') s;
     (targs, s) \<leftarrow> optional_type_arguments n (parse_type n) s;
     let s = snd (expect (TkOp OpLParen) (ticked ''('' @ '' after struct type'') s);
     (fields, s) \<leftarrow> optional_list (TkOp OpRParen) (at_op OpRParen) n
       (init_field ex OpEq (ticked ''='' @ '' after field name'')) s;
     let (close, s) = expect (TkOp OpRParen) (ticked '')'') s;
     node (\<lambda>i. StructLiteralExpr i (from_to (token_begin keyword) (token_end close)) (tok_text name) targs fields) s }"

text \<open>A name in front of \<open><\<close> starts a structure literal when a brace follows the matching \<open>></\<close>.\<close>

fun literal_scan :: "int \<Rightarrow> token_kind list \<Rightarrow> bool" where
  "literal_scan depth [] = False"
| "literal_scan depth (k # ks) =
     (if k = TkOp OpLess then literal_scan (depth + 1) ks
      else if k = TkOp OpGreater then
        (if depth - 1 = 0 then (case ks of [] \<Rightarrow> False | k' # _ \<Rightarrow> k' = TkOp OpLBrace) else literal_scan (depth - 1) ks)
      else if depth = 0 then False
      else literal_scan depth ks)"

definition kinds_ahead :: "parser \<Rightarrow> token_kind list" where
  "kinds_ahead s = map tok_kind (drop (ps_pos s) (ps_toks s))"

definition struct_literal_ahead :: "parser \<Rightarrow> bool" where
  "struct_literal_ahead s \<longleftrightarrow> at_op OpLBrace s \<or> at_op OpLess s \<and> literal_scan 0 (kinds_ahead s)"

definition parse_struct_literal :: "nat \<Rightarrow> expr_parser \<Rightarrow> token \<Rightarrow> expr_parser" where
  "parse_struct_literal n ex name s = do {
     (targs, s) \<leftarrow> (if at_op OpLess s then parse_type_arguments n (parse_type n) OpLess OpGreater s else Some ([], s));
     let s = snd (expect (TkOp OpLBrace) (ticked ''{'') s);
     (fields, s) \<leftarrow> closed_list (TkOp OpRBrace) n (init_field ex OpColon (ticked '':'')) s;
     let (close, s) = expect (TkOp OpRBrace) (ticked ''}'') s;
     node (\<lambda>i. StructLiteralExpr i (from_to (token_begin name) (token_end close)) (tok_text name) targs fields) s }"

subsection \<open>Inline assembly\<close>

definition clobber_operand :: "token \<Rightarrow> parser \<Rightarrow> asm_operand \<times> parser" where
  "clobber_operand kind s =
     (let s = snd (expect (TkOp OpLParen) (ticked ''('') s); (register, s) = expect TkString ''clobber name'' s;
          (close, s) = expect (TkOp OpRParen) (ticked '')'') s in
      (AsmOperand AsmClobber (tok_text register) None [] (from_to (token_begin kind) (token_end close)), s))"

text \<open>The kind of an operand of an unknown word is left unset by the code, which has then reported it.\<close>

definition operand_content :: "expr_parser \<Rightarrow> token \<Rightarrow> parser \<Rightarrow> ((asm_kind \<times> expr option \<times> string) \<times> parser) option" where
  "operand_content ex kind s =
     (if tok_text kind = ''in'' then do {
        (value, s) \<leftarrow> ex s;
        Some ((AsmIn, Some value, []), s) }
      else if tok_text kind \<in> {''out'', ''inout''} then
        (case expect TkIdentifier ''output variable'' s of (name, s) \<Rightarrow>
          Some ((if tok_text kind = ''out'' then AsmOut else AsmInOut, None, tok_text name), s))
      else Some ((AsmIn, None, []),
        parse_error (tok_range kind) ''E0110'' ''asm operand must be in, out, inout, or clobber'' s))"

definition asm_operand :: "expr_parser \<Rightarrow> parser \<Rightarrow> (asm_operand \<times> parser) option" where
  "asm_operand ex s = do {
     let (kind, s) = (if at_kw KwIn s then advance s else expect TkIdentifier ''asm operand kind'' s);
     if tok_text kind = ''clobber'' then Some (clobber_operand kind s) else do {
       let s = snd (expect (TkOp OpLParen) (ticked ''('') s);
       let (register, s) = expect TkString ''register constraint'' s;
       let s = snd (expect (TkOp OpComma) (ticked '','') s);
       ((k, value, out), s) \<leftarrow> operand_content ex kind s;
       let (close, s) = expect (TkOp OpRParen) (ticked '')'') s;
       Some (AsmOperand k (tok_text register) value out (from_to (token_begin kind) (token_end close)), s) } }"

fun asm_operands :: "nat \<Rightarrow> expr_parser \<Rightarrow> parser \<Rightarrow> ((asm_operand list \<times> bool) \<times> parser) option" where
  "asm_operands 0 ex s = None"
| "asm_operands (Suc n) ex s = (case consume (TkOp OpComma) s of (False, s) \<Rightarrow> Some (([], False), s)
     | (True, s) \<Rightarrow>
         if at_kind TkIdentifier s \<and> tok_text (peek s) = ''volatile'' then do {
           ((ops, _), s) \<leftarrow> asm_operands n ex (snd (advance s));
           Some ((ops, True), s) }
         else do {
           (x, s) \<leftarrow> asm_operand ex s;
           ((ops, volatile), s) \<leftarrow> asm_operands n ex s;
           Some ((x # ops, volatile), s) })"

definition parse_asm :: "nat \<Rightarrow> expr_parser \<Rightarrow> expr_parser" where
  "parse_asm n ex s = do {
     let (keyword, s) = advance s;
     let s = snd (expect (TkOp OpLParen) (ticked ''('') s);
     let (text, s) = expect TkString ''assembly template'' s;
     ((ops, volatile), s) \<leftarrow> asm_operands n ex s;
     let (close, s) = expect (TkOp OpRParen) (ticked '')'') s;
     node (\<lambda>i. AsmExpr i (from_to (token_begin keyword) (token_end close)) (tok_text text) ops volatile) s }"

subsection \<open>Prefix forms\<close>

definition parse_name :: "nat \<Rightarrow> expr_parser \<Rightarrow> expr_parser" where
  "parse_name n ex s = (case advance s of (token, s) \<Rightarrow>
     if tok_kind token \<noteq> TkKw KwSelf \<and> struct_literal_ahead s then parse_struct_literal n ex token s
     else node (\<lambda>i. NameExpr i (tok_range token) (tok_text token)) s)"

text \<open>A prefix operator in front of an operand; the range starts at the operator.\<close>

definition prefixed :: "expr_parser \<Rightarrow> (nat \<Rightarrow> src_range \<Rightarrow> expr \<Rightarrow> expr) \<Rightarrow> src_loc \<Rightarrow> expr_parser" where
  "prefixed operand f start s = do {
     (x, s) \<leftarrow> operand s;
     node (\<lambda>i. f i (from_to start (expr_end x)) x) s }"

definition unary_operators :: "token_kind list" where
  "unary_operators = [TkOp OpMinus, TkOp OpBang, TkOp OpTilde, TkOp OpStar]"

definition prefix_expr :: "nat \<Rightarrow> expr_parser \<Rightarrow> expr_parser \<Rightarrow> expr_parser" where
  "prefix_expr n ex operand s = (let token = peek s; r = tok_range token; text = tok_text token; next = snd (advance s) in
     if at_kind TkInteger s then node (\<lambda>i. IntegerExpr i r text) next
     else if at_kind TkFloat s then node (\<lambda>i. FloatExpr i r text) next
     else if at_kind TkString s then node (\<lambda>i. StringExpr i r text) next
     else if at_kind TkChar s then node (\<lambda>i. CharExpr i r text) next
     else if at_any [TkKw KwTrue, TkKw KwFalse] s then node (\<lambda>i. BoolExpr i r (tok_kind token = TkKw KwTrue)) next
     else if at_kw KwNew s then parse_new n ex s
     else if at_any [TkIdentifier, TkKw KwSelf, TkKw KwPtr] s then parse_name n ex s
     else if at_kw KwAsm s then parse_asm n ex s
     else if at_op OpLParen s then do {
       (x, s) \<leftarrow> ex (bump s);
       Some (x, snd (expect (TkOp OpRParen) (ticked '')'') s)) }
     else if at_kw KwBorrow s then
       (case consume (TkKw KwMut) next of (m, s) \<Rightarrow> prefixed operand (\<lambda>i r x. BorrowExpr i r x m) (token_begin token) s)
     else if at_any [TkOp OpAmp, TkOp OpAmpMut] s then
       prefixed operand (\<lambda>i r x. BorrowExpr i r x (tok_kind token = TkOp OpAmpMut)) (token_begin token) next
     else if at_kw KwAwait s then prefixed operand AwaitExpr (token_begin token) next
     else if at_kw KwMove s then prefixed operand (\<lambda>i r x. UnaryExpr i r ''move'' x) (token_begin token) next
     else if at_kw KwDeref s then prefixed operand (\<lambda>i r x. UnaryExpr i r ''*'' x) (token_begin token) next
     else if at_any unary_operators s then prefixed operand (\<lambda>i r x. UnaryExpr i r text x) (token_begin token) next
     else node (\<lambda>i. IntegerExpr i r ''0'') (snd (advance (parse_error r ''E0105'' ''expected expression'' s))))"

subsection \<open>Postfix forms\<close>

text \<open>
  A name in front of an opening bracket is called with type arguments when a parenthesis follows the
  matching bracket. In front of \<open><\<close> the search ends with the line.
\<close>

fun call_scan :: "token_kind \<Rightarrow> token_kind \<Rightarrow> int \<Rightarrow> token_kind list \<Rightarrow> bool" where
  "call_scan op cl depth [] = False"
| "call_scan op cl depth (k # ks) =
     (if op = TkOp OpLess \<and> k \<in> {TkNewline, TkOp OpColon, TkDedent, TkEnd} then False
      else if k = op then call_scan op cl (depth + 1) ks
      else if k = cl then
        (if depth - 1 = 0 then (case ks of [] \<Rightarrow> False | k' # _ \<Rightarrow> k' = TkOp OpLParen) else call_scan op cl (depth - 1) ks)
      else call_scan op cl depth ks)"

definition closing :: "punct \<Rightarrow> punct" where
  "closing p = (if p = OpLess then OpGreater else OpRBracket)"

fun is_name :: "expr \<Rightarrow> bool" where
  "is_name (NameExpr _ _ _) = True"
| "is_name _ = False"

definition generic_call_ahead :: "punct \<Rightarrow> expr \<Rightarrow> parser \<Rightarrow> bool" where
  "generic_call_ahead p base s \<longleftrightarrow>
     is_name base \<and> at_op p s \<and> call_scan (TkOp p) (TkOp (closing p)) 0 (kinds_ahead s)"

text \<open>The arguments of a call behind its opening parenthesis.\<close>

definition call_arguments :: "nat \<Rightarrow> expr_parser \<Rightarrow> expr \<Rightarrow> type_ref list \<Rightarrow> expr_parser" where
  "call_arguments n ex callee targs s = do {
     (args, s) \<leftarrow> optional_list (TkOp OpRParen) (at_op OpRParen) n ex s;
     let (close, s) = expect (TkOp OpRParen) (ticked '')'') s;
     node (\<lambda>i. CallExpr i (from_to (expr_begin callee) (token_end close)) callee targs args) s }"

definition generic_call :: "nat \<Rightarrow> expr_parser \<Rightarrow> expr \<Rightarrow> punct \<Rightarrow> expr_parser" where
  "generic_call n ex callee p s = do {
     (targs, s) \<leftarrow> parse_type_arguments n (parse_type n) p (closing p) s;
     call_arguments n ex callee targs (snd (expect (TkOp OpLParen) (ticked ''('') s)) }"

definition member_access_expr :: "expr \<Rightarrow> expr_parser" where
  "member_access_expr base s = (case expect_name ''member name'' s of (name, s) \<Rightarrow>
     node (\<lambda>i. MemberExpr i (from_to (expr_begin base) (token_end name)) base (tok_text name)) s)"

definition index_access_expr :: "expr_parser \<Rightarrow> expr \<Rightarrow> expr_parser" where
  "index_access_expr ex base s = do {
     (index, s) \<leftarrow> ex s;
     let (close, s) = expect (TkOp OpRBracket) (ticked '']'') s;
     node (\<lambda>i. IndexExpr i (from_to (expr_begin base) (token_end close)) base index) s }"

text \<open>One round of the loop over postfix forms; None when there is no further one.\<close>

definition postfix_step :: "nat \<Rightarrow> expr_parser \<Rightarrow> expr \<Rightarrow> parser \<Rightarrow> (expr \<times> parser) option option" where
  "postfix_step n ex base s =
     (if generic_call_ahead OpLess base s then Some (generic_call n ex base OpLess s)
      else if generic_call_ahead OpLBracket base s then Some (generic_call n ex base OpLBracket s)
      else if at_op OpLParen s then Some (call_arguments n ex base [] (bump s))
      else if at_op OpDot s then Some (member_access_expr base (bump s))
      else if at_op OpLBracket s then Some (index_access_expr ex base (bump s))
      else None)"

subsection \<open>Binary operators\<close>

definition precedence_table :: "(punct \<times> int) list" where
  "precedence_table = [(OpOrOr, 1), (OpAndAnd, 2), (OpPipe, 3), (OpCaret, 4), (OpAmp, 5), (OpEqEq, 6), (OpBangEq, 6),
     (OpLess, 7), (OpLessEq, 7), (OpGreater, 7), (OpGreaterEq, 7), (OpShiftLeft, 8), (OpShiftRight, 8),
     (OpPlus, 9), (OpMinus, 9), (OpStar, 10), (OpSlash, 10), (OpPercent, 10)]"

fun precedence :: "token_kind \<Rightarrow> int" where
  "precedence (TkOp p) = (case map_of precedence_table p of Some i \<Rightarrow> i | None \<Rightarrow> -1)"
| "precedence _ = -1"

definition finish_cast :: "nat \<Rightarrow> expr \<Rightarrow> expr_parser" where
  "finish_cast n x s = (case consume (TkKw KwAs) s of (False, s) \<Rightarrow> Some (x, s)
     | (True, s) \<Rightarrow> do {
         (ty, s) \<leftarrow> parse_type n s;
         node (\<lambda>i. CastExpr i (from_to (expr_begin x) (token_begin (peek s))) x ty) s })"

definition combine :: "token \<Rightarrow> expr \<Rightarrow> expr \<Rightarrow> expr_parser" where
  "combine op lhs rhs = node (\<lambda>i. BinaryExpr i (from_to (expr_begin lhs) (expr_end rhs)) (tok_text op) lhs rhs)"

fun parse_expr :: "nat \<Rightarrow> int \<Rightarrow> expr_parser"
  and parse_binary :: "nat \<Rightarrow> int \<Rightarrow> expr \<Rightarrow> expr_parser"
  and parse_prefix :: "nat \<Rightarrow> expr_parser"
  and parse_postfix :: "nat \<Rightarrow> expr \<Rightarrow> expr_parser" where
  "parse_expr 0 p s = None"
| "parse_expr (Suc n) p s = do {
     (x, s) \<leftarrow> parse_prefix n s;
     (x, s) \<leftarrow> parse_postfix n x s;
     (x, s) \<leftarrow> parse_binary n p x s;
     finish_cast n x s }"
| "parse_binary 0 p lhs s = None"
| "parse_binary (Suc n) p lhs s = (let current = precedence (tok_kind (peek s)) in
     if current < p then Some (lhs, s) else do {
       let (op, s) = advance s;
       (rhs, s) \<leftarrow> parse_expr n (current + 1) s;
       (lhs, s) \<leftarrow> combine op lhs rhs s;
       parse_binary n p lhs s })"
| "parse_prefix 0 s = None"
| "parse_prefix (Suc n) s = prefix_expr n (parse_expr n 0)
     (\<lambda>s. do { (x, s) \<leftarrow> parse_prefix n s; parse_postfix n x s }) s"
| "parse_postfix 0 base s = None"
| "parse_postfix (Suc n) base s = (case postfix_step n (parse_expr n 0) base s of
     None \<Rightarrow> Some (base, s)
   | Some r \<Rightarrow> do { (x, s) \<leftarrow> r; parse_postfix n x s })"

end
