(* ===== verification/ParseStmt.thy ===== *)
theory ParseStmt
  imports ParseExpr
begin

text \<open>
  The parser of statements and blocks (src/parser.cpp). Statements that contain blocks take the parser
  of blocks as a parameter; the recursion is tied at the end.
\<close>

type_synonym stmt_parser = "parser \<Rightarrow> (stmt \<times> parser) option"
type_synonym block_parser = "parser \<Rightarrow> (block \<times> parser) option"

definition plain_expr :: "nat \<Rightarrow> expr_parser" where
  "plain_expr n = parse_expr n 0"

text \<open>A statement that ends with its line.\<close>

definition line_stmt :: "nat \<Rightarrow> (nat \<Rightarrow> stmt) \<Rightarrow> stmt_parser" where
  "line_stmt n f s = do {
     s \<leftarrow> finish_line n s;
     node f s }"

subsection \<open>Statements without blocks\<close>

definition let_mutability :: "token \<Rightarrow> parser \<Rightarrow> bool \<times> parser" where
  "let_mutability keyword s =
     (if tok_kind keyword = TkKw KwVar then (True, s)
      else if tok_text keyword = ''let'' then consume (TkKw KwMut) s
      else (False, s))"

definition optional_type :: "nat \<Rightarrow> parser \<Rightarrow> (type_ref option \<times> parser) option" where
  "optional_type n s = (case consume (TkOp OpColon) s of (False, s) \<Rightarrow> Some (None, s)
     | (True, s) \<Rightarrow> do { (ty, s) \<leftarrow> parse_type n s; Some (Some ty, s) })"

definition let_init :: "nat \<Rightarrow> parser \<Rightarrow> (expr option \<times> parser) option" where
  "let_init n s = (case consume (TkOp OpEq) s of (True, s) \<Rightarrow> do { (e, s) \<leftarrow> plain_expr n s; Some (Some e, s) }
     | (False, s) \<Rightarrow> Some (None, parse_error (tok_range (peek s)) ''E0103'' ''bindings require an initializer'' s))"

definition parse_let :: "nat \<Rightarrow> stmt_parser" where
  "parse_let n s = do {
     let (keyword, s) = advance s;
     let (m, s) = let_mutability keyword s;
     let (name, s) = expect TkIdentifier ''binding name'' s;
     (ty, s) \<leftarrow> optional_type n s;
     (init, s) \<leftarrow> let_init n s;
     line_stmt n (\<lambda>i. LetStmt i (from_to (token_begin keyword) (token_begin (peek s))) (tok_text name) m ty init) s }"

definition parse_return :: "nat \<Rightarrow> stmt_parser" where
  "parse_return n s = do {
     let (keyword, s) = advance s;
     (value, s) \<leftarrow> (if at_any [TkNewline, TkOp OpSemicolon, TkDedent, TkOp OpRBrace] s then Some (None, s)
       else do { (e, s) \<leftarrow> plain_expr n s; Some (Some e, s) });
     line_stmt n (\<lambda>i. ReturnStmt i (from_to (token_begin keyword) (token_begin (peek s))) value) s }"

definition fence_orders :: "string list" where
  "fence_orders = [''acquire'', ''release'', ''acq_rel'', ''seq_cst'']"

definition parse_fence :: "nat \<Rightarrow> stmt_parser" where
  "parse_fence n s = do {
     let (keyword, s) = advance s;
     let (order, s) = expect TkIdentifier ''memory order'' s;
     let s = (if tok_text order \<in> set fence_orders then s
       else parse_error (tok_range order) ''E0115'' ''fence order must be acquire, release, acq_rel, or seq_cst'' s);
     line_stmt n (\<lambda>i. FenceStmt i (from_to (token_begin keyword) (token_end order)) (tok_text order)
       (tok_kind keyword = TkKw KwCompilerFence)) s }"

definition assignment_operators :: "token_kind list" where
  "assignment_operators = [TkOp OpEq, TkOp OpPlusEq, TkOp OpMinusEq, TkOp OpStarEq, TkOp OpSlashEq, TkOp OpPercentEq,
     TkOp OpAmpEq, TkOp OpPipeEq, TkOp OpCaretEq, TkOp OpShiftLeftEq, TkOp OpShiftRightEq]"

definition parse_expr_stmt :: "nat \<Rightarrow> stmt_parser" where
  "parse_expr_stmt n s = do {
     (x, s) \<leftarrow> plain_expr n s;
     if at_any assignment_operators s then do {
       let (op, s) = advance s;
       (value, s) \<leftarrow> plain_expr n s;
       line_stmt n (\<lambda>i. AssignStmt i (from_to (expr_begin x) (expr_end value)) x (tok_text op) value) s }
     else line_stmt n (\<lambda>i. ExprStmt i (expr_range x) x) s }"

text \<open>Statements that are one keyword on a line.\<close>

definition keyword_stmt :: "nat \<Rightarrow> (nat \<Rightarrow> src_range \<Rightarrow> stmt) \<Rightarrow> stmt_parser" where
  "keyword_stmt n f s = (case advance s of (keyword, s) \<Rightarrow> line_stmt n (\<lambda>i. f i (tok_range keyword)) s)"

subsection \<open>Statements with blocks\<close>

definition parse_while :: "nat \<Rightarrow> block_parser \<Rightarrow> stmt_parser" where
  "parse_while n blk s = do {
     let (keyword, s) = advance s;
     (c, s) \<leftarrow> plain_expr n s;
     (body, s) \<leftarrow> blk s;
     node (\<lambda>i. WhileStmt i (from_to (token_begin keyword) (token_begin (peek s))) c body) s }"

definition parse_for :: "nat \<Rightarrow> block_parser \<Rightarrow> stmt_parser" where
  "parse_for n blk s = do {
     let (keyword, s) = advance s;
     let (name, s) = expect TkIdentifier ''loop variable'' s;
     let s = snd (expect (TkKw KwIn) ''in'' s);
     (lo, s) \<leftarrow> plain_expr n s;
     let (inclusive, s) = (case consume (TkOp OpDotDotEq) s of (True, s) \<Rightarrow> (True, s)
       | (False, s) \<Rightarrow> (False, snd (expect (TkOp OpDotDot) (ticked ''..'' @ '' or '' @ ticked ''..='' @ '' in for range'') s)));
     (hi, s) \<leftarrow> plain_expr n s;
     (body, s) \<leftarrow> blk s;
     node (\<lambda>i. ForStmt i (from_to (token_begin keyword) (range_end (block_range body))) (tok_text name) lo hi inclusive body) s }"

text \<open>A keyword in front of a block: loop and unsafe.\<close>

definition block_stmt :: "(nat \<Rightarrow> src_range \<Rightarrow> block \<Rightarrow> stmt) \<Rightarrow> block_parser \<Rightarrow> stmt_parser" where
  "block_stmt f blk s = do {
     let (keyword, s) = advance s;
     (body, s) \<leftarrow> blk s;
     node (\<lambda>i. f i (from_to (token_begin keyword) (range_end (block_range body))) body) s }"

definition nested_block :: "block_parser \<Rightarrow> stmt_parser" where
  "nested_block blk s = do { (b, s) \<leftarrow> blk s; Some (BlockStmt b, s) }"

text \<open>The else part: an elif, or an if behind the else, becomes a block that holds one statement.\<close>

definition parse_else :: "(token \<Rightarrow> stmt_parser) \<Rightarrow> block_parser \<Rightarrow> parser \<Rightarrow> (block option \<times> parser) option" where
  "parse_else nested blk s = (if \<not> at_kw KwElse s then Some (None, s) else do {
     let (keyword, s) = advance s;
     let (again, s) = (if tok_text keyword = ''elif'' then (True, s) else consume (TkKw KwIf) s);
     if again then do {
       (x, s) \<leftarrow> nested keyword s;
       (b, s) \<leftarrow> node (\<lambda>i. Block i (stmt_range x) [x]) s;
       Some (Some b, s) }
     else do { (b, s) \<leftarrow> blk s; Some (Some b, s) } })"

fun parse_if :: "nat \<Rightarrow> block_parser \<Rightarrow> token \<Rightarrow> stmt_parser" where
  "parse_if 0 blk keyword s = None"
| "parse_if (Suc n) blk keyword s = do {
     (c, s) \<leftarrow> plain_expr n s;
     (body, s) \<leftarrow> blk s;
     (otherwise, s) \<leftarrow> parse_else (parse_if n blk) blk s;
     node (\<lambda>i. IfStmt i (from_to (token_begin keyword) (token_begin (peek s))) c body otherwise) s }"

definition stmt_at :: "nat \<Rightarrow> block_parser \<Rightarrow> stmt_parser" where
  "stmt_at n blk s =
     (if at_any [TkKw KwLet, TkKw KwVar] s then parse_let n s
      else if at_kw KwReturn s then parse_return n s
      else if at_kw KwIf s then (case advance s of (keyword, s) \<Rightarrow> parse_if n blk keyword s)
      else if at_kw KwWhile s then parse_while n blk s
      else if at_kw KwFor s then parse_for n blk s
      else if at_kw KwLoop s then block_stmt LoopStmt blk s
      else if at_kw KwBreak s then keyword_stmt n BreakStmt s
      else if at_kw KwContinue s then keyword_stmt n ContinueStmt s
      else if at_any [TkKw KwFence, TkKw KwCompilerFence] s then parse_fence n s
      else if at_kw KwUnsafe s then block_stmt UnsafeStmt blk s
      else if at_op OpLBrace s then nested_block blk s
      else if at_kw KwScope s then nested_block blk (snd (advance s))
      else if at_kw KwPass s then keyword_stmt n (\<lambda>i r. BlockStmt (Block i r [])) s
      else parse_expr_stmt n s)"

definition block_of :: "nat \<Rightarrow> stmt_parser \<Rightarrow> block_parser" where
  "block_of n stmt s = do {
     (braces, t) \<leftarrow> begin_suite n s;
     (body, t) \<leftarrow> suite_items n stmt braces t;
     t \<leftarrow> end_suite n braces t;
     node (\<lambda>i. Block i (span s t) body) t }"

fun parse_block :: "nat \<Rightarrow> block_parser"
  and parse_stmt :: "nat \<Rightarrow> stmt_parser" where
  "parse_block 0 s = None"
| "parse_block (Suc n) s = block_of n (parse_stmt n) s"
| "parse_stmt 0 s = None"
| "parse_stmt (Suc n) s = do {
     s \<leftarrow> skip_newlines n s;
     stmt_at n (parse_block n) s }"

end
