(* ===== verification/ParseItem.thy ===== *)
theory ParseItem
  imports ParseStmt
begin

text \<open>The parser of items and modules (src/parser.cpp).\<close>

subsection \<open>Functions\<close>

text \<open>The words in front of an item.\<close>

record modifiers =
  md_pub :: bool
  md_unsafe :: bool
  md_async :: bool
  md_extern :: bool
  md_concurrent :: bool
  md_shared :: bool
  md_percpu :: bool
  md_abi :: string

definition no_modifiers :: modifiers where
  "no_modifiers = \<lparr>md_pub = False, md_unsafe = False, md_async = False, md_extern = False, md_concurrent = False,
     md_shared = False, md_percpu = False, md_abi = ''Uinx''\<rparr>"

definition function_body :: "nat \<Rightarrow> bool \<Rightarrow> parser \<Rightarrow> (block option \<times> parser) option" where
  "function_body n may_omit s =
     (if may_omit \<and> at_any [TkNewline, TkOp OpSemicolon, TkEnd] s then do {
        s \<leftarrow> finish_line n s;
        Some (None, s) }
      else do { (b, s) \<leftarrow> parse_block n s; Some (Some b, s) })"

definition parse_function :: "nat \<Rightarrow> modifiers \<Rightarrow> parser \<Rightarrow> (function_decl \<times> parser) option" where
  "parse_function n m s = do {
     let (keyword, t) = expect (TkKw KwFn) ''func'' s;
     let (name, t) = expect TkIdentifier ''function name'' t;
     (generics, t) \<leftarrow> parse_generics n t;
     ((params, result), t) \<leftarrow> parse_signature n t;
     (generics, t) \<leftarrow> parse_where_clause n generics t;
     (body, t) \<leftarrow> function_body n (md_extern m \<or> tok_text keyword = ''def'') t;
     node (\<lambda>i. \<lparr>fd_id = i, fd_range = span s t, fd_name = tok_text name, fd_generics = generics, fd_params = params,
       fd_return_type = result, fd_body = body, fd_is_pub = md_pub m, fd_is_unsafe = md_unsafe m,
       fd_is_async = md_async m, fd_is_extern = md_extern m, fd_is_concurrent = md_concurrent m, fd_abi = md_abi m\<rparr>) t }"

subsection \<open>Structures, traits and implementations\<close>

definition parse_field :: "nat \<Rightarrow> parser \<Rightarrow> (field_decl \<times> parser) option" where
  "parse_field n s = do {
     let (pub, t) = consume (TkKw KwPub) s;
     let (shared, t) = consume (TkKw KwShared) t;
     let (name, t) = expect_name ''field name'' t;
     let t = snd (expect (TkOp OpColon) (ticked '':'' @ '' after field name'') t);
     (ty, t) \<leftarrow> parse_type n t;
     Some (\<lparr>fld_name = tok_text name, fld_type = ty, fld_is_pub = pub, fld_is_shared = shared, fld_range = span s t\<rparr>, t) }"

definition struct_field :: "nat \<Rightarrow> bool \<Rightarrow> parser \<Rightarrow> (field_decl \<times> parser) option" where
  "struct_field n braces s = do {
     (field, s) \<leftarrow> parse_field n s;
     if braces then (case consume (TkOp OpComma) s of (True, s) \<Rightarrow> Some (field, s)
       | (False, s) \<Rightarrow> Some (field, snd (consume (TkOp OpSemicolon) s)))
     else do {
       s \<leftarrow> finish_line n s;
       Some (field, s) } }"

definition parse_struct :: "nat \<Rightarrow> bool \<Rightarrow> parser \<Rightarrow> (struct_decl \<times> parser) option" where
  "parse_struct n pub s = do {
     let t = snd (expect (TkKw KwStruct) ''struct'' s);
     let (name, t) = expect TkIdentifier ''struct name'' t;
     (generics, t) \<leftarrow> parse_generics n t;
     (generics, t) \<leftarrow> parse_where_clause n generics t;
     (braces, t) \<leftarrow> begin_suite n t;
     (fields, t) \<leftarrow> suite_items n (struct_field n braces) braces t;
     t \<leftarrow> end_suite n braces t;
     Some (\<lparr>sd_range = span s t, sd_name = tok_text name, sd_generics = generics, sd_fields = fields, sd_is_pub = pub\<rparr>, t) }"

definition parse_trait_method :: "nat \<Rightarrow> bool \<Rightarrow> parser \<Rightarrow> (trait_method \<times> parser) option" where
  "parse_trait_method n braces s = do {
     let (unsafe, t) = consume (TkKw KwUnsafe) s;
     let t = snd (expect (TkKw KwFn) ''func'' t);
     let (name, t) = expect TkIdentifier ''method name'' t;
     ((params, result), t) \<leftarrow> parse_signature n t;
     let m = \<lparr>tm_name = tok_text name, tm_params = params, tm_return_type = result, tm_is_unsafe = unsafe, tm_range = span s t\<rparr>;
     if braces then Some (m, snd (expect (TkOp OpSemicolon) (ticked '';'') t))
     else do {
       t \<leftarrow> finish_line n t;
       Some (m, t) } }"

definition parse_trait :: "nat \<Rightarrow> bool \<Rightarrow> parser \<Rightarrow> (trait_decl \<times> parser) option" where
  "parse_trait n pub s = do {
     let t = snd (expect (TkKw KwTrait) ''trait'' s);
     let (name, t) = expect TkIdentifier ''trait name'' t;
     (generics, t) \<leftarrow> parse_generics n t;
     (braces, t) \<leftarrow> begin_suite n t;
     (methods, t) \<leftarrow> suite_items n (parse_trait_method n braces) braces t;
     t \<leftarrow> end_suite n braces t;
     Some (\<lparr>td_range = span s t, td_name = tok_text name, td_generics = generics, td_methods = methods, td_is_pub = pub\<rparr>, t) }"

text \<open>The type and trait of an implementation, in the new spelling (extend) and in the old one (impl).\<close>

definition impl_head :: "nat \<Rightarrow> bool \<Rightarrow> parser \<Rightarrow> ((string option \<times> type_ref) \<times> parser) option" where
  "impl_head n new_style s = do {
     (ty, s) \<leftarrow> parse_type n s;
     if new_style then (case consume (TkKw KwWith) s of (False, s) \<Rightarrow> Some ((None, ty), s)
       | (True, s) \<Rightarrow> (case expect_name (''trait name after '' @ ticked ''with'') s of (name, s) \<Rightarrow> Some ((Some (tok_text name), ty), s)))
     else (case consume (TkKw KwFor) s of (False, s) \<Rightarrow> Some ((None, ty), s)
       | (True, s) \<Rightarrow> do {
           (target, s) \<leftarrow> parse_type n s;
           Some ((Some (tr_name ty), target), s) }) }"

fun method_modifiers :: "nat \<Rightarrow> modifiers \<Rightarrow> parser \<Rightarrow> (modifiers \<times> parser) option" where
  "method_modifiers 0 m s = None"
| "method_modifiers (Suc n) m s =
     (if at_kw KwPub s then method_modifiers n (m\<lparr>md_pub := True\<rparr>) (bump s)
      else if at_kw KwUnsafe s then method_modifiers n (m\<lparr>md_unsafe := True\<rparr>) (bump s)
      else if at_kw KwAsync s then method_modifiers n (m\<lparr>md_async := True\<rparr>) (bump s)
      else if at_kw KwConcurrent s then method_modifiers n (m\<lparr>md_concurrent := True\<rparr>) (bump s)
      else Some (m, s))"

text \<open>One entry of an implementation; \<open>pass\<close> adds no method.\<close>

definition impl_entry :: "nat \<Rightarrow> parser \<Rightarrow> (function_decl option \<times> parser) option" where
  "impl_entry n s = (case consume (TkKw KwPass) s of (True, s) \<Rightarrow> do {
       s \<leftarrow> finish_line n s;
       Some (None, s) }
     | (False, s) \<Rightarrow> do {
       (m, s) \<leftarrow> method_modifiers n no_modifiers s;
       (f, s) \<leftarrow> parse_function n m s;
       Some (Some f, s) })"

definition parse_impl :: "nat \<Rightarrow> parser \<Rightarrow> (impl_decl \<times> parser) option" where
  "parse_impl n s = do {
     let (keyword, t) = expect (TkKw KwImpl) ''extend'' s;
     ((trait, target), t) \<leftarrow> impl_head n (tok_text keyword = ''extend'') t;
     (braces, t) \<leftarrow> begin_suite n t;
     (methods, t) \<leftarrow> suite_items n (impl_entry n) braces t;
     t \<leftarrow> end_suite n braces t;
     Some (\<lparr>im_range = span s t, im_trait_name = trait, im_for_type = target,
       im_methods = List.map_filter id methods\<rparr>, t) }"

subsection \<open>Markers and globals\<close>

text \<open>The generic parameters of a marker: the names of one capital letter among the arguments of its type.\<close>

fun collect_generics :: "type_ref \<Rightarrow> generic_param list \<Rightarrow> generic_param list" where
  "collect_generics (TypeRef r name args ps b1 b2 b3 b4 b5) gs =
     fold collect_generics args
       (case name of [c] \<Rightarrow> if char_isupper c \<and> name \<notin> gp_name ` set gs
          then gs @ [\<lparr>gp_name = name, gp_bounds = [], gp_range = r\<rparr>] else gs
        | _ \<Rightarrow> gs)"

definition parse_marker :: "nat \<Rightarrow> parser \<Rightarrow> (marker_decl \<times> parser) option" where
  "parse_marker n s = do {
     let (keyword, t) = advance s;
     (ty, t) \<leftarrow> parse_type n t;
     (generics, t) \<leftarrow> parse_where_clause n (fold collect_generics (tr_args ty) []) t;
     let r = span s t;
     t \<leftarrow> finish_line n t;
     Some (\<lparr>mk_range = r, mk_kind = (if tok_text keyword = ''send'' then MarkerSend else MarkerSync), mk_type = ty,
       mk_generics = generics\<rparr>, t) }"

definition global_mutability :: "bool \<Rightarrow> bool \<Rightarrow> parser \<Rightarrow> bool \<times> parser" where
  "global_mutability is_const is_static s =
     (if is_const then (False, snd (expect (TkKw KwConst) ''const'' s))
      else let s = (if is_static then snd (expect (TkKw KwStatic) ''static'' s) else s) in
        case consume (TkKw KwVar) s of (True, s) \<Rightarrow> (True, s)
        | (False, s) \<Rightarrow> (case consume (TkKw KwLet) s of (True, s) \<Rightarrow> (False, s)
        | (False, s) \<Rightarrow> (True, parse_error (tok_range (peek s)) ''E0115'' ''global declaration requires var or val'' s)))"

definition parse_global :: "nat \<Rightarrow> modifiers \<Rightarrow> bool \<Rightarrow> bool \<Rightarrow> parser \<Rightarrow> (global_decl \<times> parser) option" where
  "parse_global n m is_const is_static s = do {
     let (mutable, t) = global_mutability is_const is_static s;
     let (name, t) = expect TkIdentifier ''global name'' t;
     let t = snd (expect (TkOp OpColon) (ticked '':'' @ '' after global name'') t);
     (ty, t) \<leftarrow> parse_type n t;
     let t = snd (expect (TkOp OpEq) (ticked ''='' @ '' in global declaration'') t);
     (e, t) \<leftarrow> plain_expr n t;
     let r = span s t;
     t \<leftarrow> finish_line n t;
     Some (\<lparr>gd_range = r, gd_name = tok_text name, gd_type = ty, gd_init = Some e, gd_is_pub = md_pub m, gd_is_mut = mutable,
       gd_is_const = is_const, gd_is_shared = md_shared m, gd_is_percpu = md_percpu m\<rparr>, t) }"

subsection \<open>Requirements\<close>

fun dotted_name :: "nat \<Rightarrow> string \<Rightarrow> parser \<Rightarrow> (string \<times> parser) option" where
  "dotted_name 0 name s = None"
| "dotted_name (Suc n) name s = (case consume (TkOp OpDot) s of (False, s) \<Rightarrow> Some (name, s)
     | (True, s) \<Rightarrow> (case expect TkIdentifier (''component name after '' @ ticked ''.'') s of (t, s) \<Rightarrow>
         dotted_name n (name @ ''.'' @ tok_text t) s))"

definition parse_requirement_name :: "nat \<Rightarrow> parser \<Rightarrow> (string \<times> parser) option" where
  "parse_requirement_name n s =
     (if at_kind TkIdentifier s then (case advance s of (t, s) \<Rightarrow> dotted_name n (tok_text t) s)
      else if at_kind TkString s then (case advance s of (t, s) \<Rightarrow> Some (tok_text t, s))
      else Some ([], parse_error (tok_range (peek s)) ''E0112'' ''need/dontneed requires a component name'' s))"

definition record_requirement :: "src_range \<Rightarrow> bool \<Rightarrow> string \<Rightarrow> ast_module \<Rightarrow> parser \<Rightarrow> ast_module \<times> parser" where
  "record_requirement r disabled name m s = (if name = [] then (m, s) else
     (let opposite = (if disabled then am_needs m else am_dontneeds m);
          s = (if name \<in> set opposite then parse_error r ''E0113''
            (''component '' @ ticked name @ '' cannot be both needed and disabled'') s else s);
          m = (if disabled then m\<lparr>am_dontneeds := add_bound name (am_dontneeds m)\<rparr>
               else m\<lparr>am_needs := add_bound name (am_needs m)\<rparr>);
          m = (if disabled \<and> name = ''std'' then m\<lparr>am_no_std := True\<rparr> else m) in (m, s)))"

definition parse_requirement :: "nat \<Rightarrow> bool \<Rightarrow> ast_module \<Rightarrow> parser \<Rightarrow> (ast_module \<times> parser) option" where
  "parse_requirement n disabled m s = do {
     let (directive, s) = advance s;
     (name, s) \<leftarrow> (if tok_text directive = ''no_std'' then Some (''std'', s) else parse_requirement_name n s);
     let (m, s) = record_requirement (tok_range directive) disabled name m s;
     s \<leftarrow> finish_line n s;
     Some (m, s) }"

definition parse_smp_mode :: "nat \<Rightarrow> ast_module \<Rightarrow> parser \<Rightarrow> (ast_module \<times> parser) option" where
  "parse_smp_mode n m s = do {
     let s = snd (advance s);
     let (m, s) = (if at_kw KwAuto s then (m\<lparr>am_smp_mode := SmpAuto\<rparr>, bump s)
       else if at_kw KwManual s then (m\<lparr>am_smp_mode := SmpManual\<rparr>, bump s)
       else if at_kw KwStrict s then (m\<lparr>am_smp_mode := SmpStrict\<rparr>, bump s)
       else (m, parse_error (tok_range (peek s)) ''E0114'' ''smp expects auto, manual, or strict'' s));
     s \<leftarrow> finish_line n s;
     Some (m, s) }"

subsection \<open>Modules\<close>

fun item_modifiers :: "nat \<Rightarrow> modifiers \<Rightarrow> parser \<Rightarrow> (modifiers \<times> parser) option" where
  "item_modifiers 0 m s = None"
| "item_modifiers (Suc n) m s =
     (if at_kw KwPub s then item_modifiers n (m\<lparr>md_pub := True\<rparr>) (bump s)
      else if at_kw KwUnsafe s then item_modifiers n (m\<lparr>md_unsafe := True\<rparr>) (bump s)
      else if at_kw KwAsync s then item_modifiers n (m\<lparr>md_async := True\<rparr>) (bump s)
      else if at_kw KwExtern s then
        (let s = bump s; (abi, s) = (if at_kind TkString s then (case advance s of (t, s) \<Rightarrow> (tok_text t, s)) else (''C'', s)) in
         item_modifiers n (m\<lparr>md_extern := True, md_abi := abi\<rparr>) s)
      else if at_kw KwConcurrent s then item_modifiers n (m\<lparr>md_concurrent := True\<rparr>) (bump s)
      else if at_kw KwShared s then item_modifiers n (m\<lparr>md_shared := True\<rparr>) (bump s)
      else if at_kw KwPerCpu s then item_modifiers n (m\<lparr>md_percpu := True\<rparr>) (bump s)
      else Some (m, s))"

definition as_item :: "('a \<Rightarrow> item) \<Rightarrow> ('a \<times> parser) option \<Rightarrow> (item option \<times> parser) option" where
  "as_item f r = map_option (\<lambda>(x, s). (Some (f x), s)) r"

definition bad_item :: "nat \<Rightarrow> string \<Rightarrow> string \<Rightarrow> parser \<Rightarrow> (item option \<times> parser) option" where
  "bad_item n code msg s = do {
     s \<leftarrow> synchronize_item n (parse_error (tok_range (peek s)) code msg s);
     Some (None, s) }"

definition at_marker :: "parser \<Rightarrow> bool" where
  "at_marker s \<longleftrightarrow> at_kind TkIdentifier s \<and> tok_text (peek s) \<in> {''send'', ''sync''}"

definition parse_item :: "nat \<Rightarrow> modifiers \<Rightarrow> parser \<Rightarrow> (item option \<times> parser) option" where
  "parse_item n m s =
     (if at_kw KwFn s then as_item FunctionItem (parse_function n m s)
      else if at_kw KwConst s then as_item GlobalItem (parse_global n m True False s)
      else if at_kw KwStatic s then as_item GlobalItem (parse_global n m False True s)
      else if (md_shared m \<or> md_percpu m) \<and> at_any [TkKw KwVar, TkKw KwLet] s then
        as_item GlobalItem (parse_global n m False False s)
      else if md_extern m then bad_item n ''E0101'' ''extern currently requires a function declaration'' s
      else if at_kw KwStruct s then as_item StructItem (parse_struct n (md_pub m) s)
      else if at_kw KwTrait s then as_item TraitItem (parse_trait n (md_pub m) s)
      else if at_kw KwImpl s then as_item ImplItem (parse_impl n s)
      else if md_unsafe m \<and> at_marker s then as_item MarkerItem (parse_marker n s)
      else if at_marker s then bad_item n ''E0116'' (''send/sync safety markers require '' @ ticked ''unsafe'') s
      else bad_item n ''E0102'' ''expected a top-level declaration'' s)"

definition add_item :: "item option \<Rightarrow> ast_module \<Rightarrow> ast_module" where
  "add_item it m = (case it of None \<Rightarrow> m | Some x \<Rightarrow> m\<lparr>am_items := am_items m @ [x]\<rparr>)"

text \<open>One round of the loop over the module.\<close>

definition module_step :: "nat \<Rightarrow> ast_module \<Rightarrow> parser \<Rightarrow> (ast_module \<times> parser) option" where
  "module_step n m s =
     (if at_kw KwNeed s then parse_requirement n False m s
      else if at_kw KwDontNeed s then parse_requirement n True m s
      else if at_kw KwSmp s then parse_smp_mode n m s
      else do {
        (ms, s) \<leftarrow> item_modifiers n no_modifiers s;
        (it, s) \<leftarrow> parse_item n ms s;
        s \<leftarrow> skip_newlines n s;
        Some (add_item it m, s) })"

fun module_loop :: "nat \<Rightarrow> ast_module \<Rightarrow> parser \<Rightarrow> (ast_module \<times> parser) option" where
  "module_loop 0 m s = None"
| "module_loop (Suc n) m s = (if at_kind TkEnd s then Some (m, s) else do {
     (m, s) \<leftarrow> module_step n m s;
     module_loop n m s })"

definition new_module :: "string \<Rightarrow> ast_module" where
  "new_module file = \<lparr>am_file = file, am_no_std = False, am_smp_mode = SmpAuto, am_needs = [], am_dontneeds = [], am_items = []\<rparr>"

definition parse_module :: "nat \<Rightarrow> string \<Rightarrow> token list \<Rightarrow> diagnostics \<Rightarrow> (ast_module \<times> diagnostics) option" where
  "parse_module n file ts ds = do {
     s \<leftarrow> skip_newlines n (new_parser ts ds);
     (m, s) \<leftarrow> module_loop n (new_module file) s;
     Some (m, ps_diags s) }"

end
