(* ===== verification/ParseRuns.thy ===== *)
theory ParseRuns
  imports ParseItem
begin

text \<open>
  Runs of the parser. Every operation stays inside the tokens, goes forward and only adds diagnostics,
  and the parsers of types, expressions, statements, blocks, functions and implementations return
  on all input when their fuel is a little more than twice the number of tokens left.
\<close>

subsection \<open>Results that may be missing\<close>

text \<open>\<open>ensures b Q r\<close>: there is a result if \<open>b\<close> holds, and a result satisfies \<open>Q\<close>.\<close>

definition ensures :: "bool \<Rightarrow> ('a \<Rightarrow> bool) \<Rightarrow> 'a option \<Rightarrow> bool" where
  "ensures b Q r \<longleftrightarrow> (case r of None \<Rightarrow> \<not> b | Some x \<Rightarrow> Q x)"

lemma ensures_Some [simp]: "ensures b Q (Some x) \<longleftrightarrow> Q x"
  by (simp add: ensures_def)

lemma ensures_None [simp]: "ensures b Q None \<longleftrightarrow> \<not> b"
  by (simp add: ensures_def)

lemma ensures_bind [simp]: "ensures b Q (Option.bind m f) \<longleftrightarrow> ensures b (\<lambda>x. ensures b Q (f x)) m"
  by (cases m) auto

lemma ensures_map [simp]: "ensures b Q (map_option f m) \<longleftrightarrow> ensures b (\<lambda>x. Q (f x)) m"
  by (cases m) auto

lemma ensures_mono: "ensures b P r \<Longrightarrow> (c \<Longrightarrow> b) \<Longrightarrow> (\<And>x. P x \<Longrightarrow> Q x) \<Longrightarrow> ensures c Q r"
  by (cases r) auto

lemma ensures_weaken: "ensures b P r \<Longrightarrow> (\<And>x. P x \<Longrightarrow> Q x) \<Longrightarrow> ensures b Q r"
  by (erule ensures_mono) auto

lemma ensuresD: "ensures b Q r \<Longrightarrow> b \<Longrightarrow> \<exists>x. r = Some x \<and> Q x"
  by (cases r) auto

subsection \<open>The cursor goes forward\<close>

text \<open>The tokens end with End and the cursor is on one of them.\<close>

definition ready :: "parser \<Rightarrow> bool" where
  "ready s \<longleftrightarrow> ps_pos s < length (ps_toks s) \<and> tok_kind (last (ps_toks s)) = TkEnd"

text \<open>How many tokens are left in front of the last.\<close>

definition left :: "parser \<Rightarrow> nat" where
  "left s = length (ps_toks s) - 1 - ps_pos s"

definition reaches :: "parser \<Rightarrow> parser \<Rightarrow> bool" where
  "reaches s t \<longleftrightarrow> ready t \<and> ps_toks t = ps_toks s \<and> ps_pos s \<le> ps_pos t \<and> diag_le (ps_diags s) (ps_diags t)"

definition past :: "parser \<Rightarrow> parser \<Rightarrow> bool" where
  "past s t \<longleftrightarrow> reaches s t \<and> (at_kind TkEnd s \<or> ps_pos s < ps_pos t)"

lemma reaches_refl [simp]: "reaches s s \<longleftrightarrow> ready s"
  by (simp add: reaches_def)

lemma reaches_trans: "reaches s t \<Longrightarrow> reaches t u \<Longrightarrow> reaches s u"
  by (auto simp: reaches_def intro: diag_le_trans)

lemma reaches_ready: "reaches s t \<Longrightarrow> ready t"
  by (simp add: reaches_def)

lemma reaches_self: "reaches s t \<Longrightarrow> reaches t t"
  by (simp add: reaches_def)

lemma ready_source: "reaches s t \<Longrightarrow> ready s"
  by (auto simp: reaches_def ready_def)

lemma left_reaches: "reaches s t \<Longrightarrow> left t \<le> left s"
  by (auto simp: reaches_def left_def)

lemma past_reaches: "past s t \<Longrightarrow> reaches s t"
  by (simp add: past_def)

lemma left_past: "past s t \<Longrightarrow> \<not> at_kind TkEnd s \<Longrightarrow> left t < left s"
  by (auto simp: past_def reaches_def left_def ready_def)

lemma past_then: "past s t \<Longrightarrow> reaches t u \<Longrightarrow> past s u"
  by (auto simp: past_def reaches_def intro: diag_le_trans)

lemma then_past: "reaches s t \<Longrightarrow> past t u \<Longrightarrow> past s u"
  by (cases "ps_pos s = ps_pos t")
    (auto simp: past_def reaches_def at_kind_def peek_at_def intro: diag_le_trans)

lemma bump_simps [simp]:
  "ps_toks (bump s) = ps_toks s" "ps_pos (bump s) = Suc (ps_pos s)" "ps_diags (bump s) = ps_diags s"
  by (simp_all add: bump_def)

lemma not_last: "ready s \<Longrightarrow> at_kind k s \<Longrightarrow> k \<noteq> TkEnd \<Longrightarrow> ps_pos s < length (ps_toks s) - 1"
  by (auto simp: ready_def at_kind_def peek_at_def last_conv_nth)
    (metis One_nat_def Suc_pred last_conv_nth length_greater_0_conv less_antisym list.size(3) not_less_zero)

lemma past_bump: "ready s \<Longrightarrow> at_kind k s \<Longrightarrow> k \<noteq> TkEnd \<Longrightarrow> past s (bump s)"
  using not_last [of s k] by (auto simp: past_def reaches_def ready_def)

lemma reaches_bump [intro]: "reaches s t \<Longrightarrow> at_kind k t \<Longrightarrow> k \<noteq> TkEnd \<Longrightarrow> reaches s (bump t)"
  using past_bump [of t k] past_reaches reaches_ready reaches_trans by metis

lemma advance_at: "ready s \<Longrightarrow> at_kind k s \<Longrightarrow> k \<noteq> TkEnd \<Longrightarrow> advance s = (peek s, bump s)"
  using not_last [of s k] by (simp add: advance_def)

lemma reaches_advance [simp, intro]: "reaches s t \<Longrightarrow> reaches s (snd (advance t))"
  by (auto simp: advance_def reaches_def ready_def)

lemma past_advance: "ready s \<Longrightarrow> past s (snd (advance s))"
  using not_last [of s "tok_kind (peek s)"]
  by (auto simp: past_def at_kind_def advance_def reaches_def ready_def)

lemma reaches_errorI [intro]: "reaches s t \<Longrightarrow> reaches s (parse_error r c m t)"
  by (auto simp: reaches_def ready_def parse_error_def intro: diag_le_trans)

lemma reaches_expected [intro]: "reaches s t \<Longrightarrow> reaches s (snd (expected w t))"
  by (auto simp: expected_def)

lemma reaches_expect [intro]: "reaches s t \<Longrightarrow> reaches s (snd (expect k w t))"
  by (auto simp: expect_def)

lemma reaches_expect_name [intro]: "reaches s t \<Longrightarrow> reaches s (snd (expect_name w t))"
  by (auto simp: expect_name_def)

lemma reaches_consume [intro]: "reaches s t \<Longrightarrow> k \<noteq> TkEnd \<Longrightarrow> reaches s (snd (consume k t))"
  by (auto simp: consume_def)

lemma past_expect: "ready s \<Longrightarrow> at_kind k s \<Longrightarrow> past s (snd (expect k w s))"
  by (simp add: expect_def past_advance)

lemma consume_at [simp]: "at_kind k s \<Longrightarrow> consume k s = (True, bump s)" "\<not> at_kind k s \<Longrightarrow> consume k s = (False, s)"
  by (simp_all add: consume_def)

lemma ensures_node [simp]: "ensures b Q (node f s) \<longleftrightarrow> Q (f (ps_next s), s\<lparr>ps_next := Suc (ps_next s)\<rparr>)"
  by (simp add: node_def)

lemma ps_next_simps [simp]:
  "reaches s (t\<lparr>ps_next := i\<rparr>) \<longleftrightarrow> reaches s t" "past s (t\<lparr>ps_next := i\<rparr>) \<longleftrightarrow> past s t" "ready (t\<lparr>ps_next := i\<rparr>) \<longleftrightarrow> ready t"
  by (auto simp: reaches_def past_def ready_def)

subsection \<open>Layout and loops\<close>

lemma bump_step:
  assumes "reaches s t" "at_kind k t" "k \<noteq> TkEnd"
  shows "reaches s (bump t)" "reaches t (bump t)" "left (bump t) < left t" "left (bump t) < left s"
proof -
  have "past t (bump t)" "\<not> at_kind TkEnd t"
    using assms past_bump reaches_ready by (blast, auto simp: at_kind_def)
  then show "reaches t (bump t)" "left (bump t) < left t"
    using past_reaches left_past by auto
  then show "reaches s (bump t)" "left (bump t) < left s"
    using assms(1) reaches_trans left_reaches [OF assms(1)] by (blast, simp)
qed

lemma skip_runs: "reaches s t \<Longrightarrow> b \<longrightarrow> left t < n \<Longrightarrow> ensures b (\<lambda>u. reaches s u \<and> reaches t u) (skip_newlines n t)"
proof (induction n arbitrary: t)
  case (Suc n)
  show ?case
  proof (cases "at_kind TkNewline t")
    case True
    note step = bump_step [OF Suc.prems(1) True]
    have "ensures b (\<lambda>u. reaches s u \<and> reaches (bump t) u) (skip_newlines n (bump t))"
      using step Suc.prems(2) by (intro Suc.IH) auto
    then show ?thesis
      using step True reaches_trans by (auto elim!: ensures_weaken)
  qed (use Suc.prems in \<open>auto dest: reaches_ready\<close>)
qed simp

text \<open>A parser that is run from a state or from any later one.\<close>

definition runs :: "bool \<Rightarrow> parser \<Rightarrow> (parser \<Rightarrow> ('a \<times> parser) option) \<Rightarrow> bool" where
  "runs b s p \<longleftrightarrow> (\<forall>t. reaches s t \<longrightarrow> ensures b (\<lambda>y. reaches t (snd y)) (p t))"

lemma runs_later: "runs b s p \<Longrightarrow> reaches s t \<Longrightarrow> runs b t p"
  by (auto simp: runs_def intro: reaches_trans)

lemma runsD: "runs b s p \<Longrightarrow> reaches s t \<Longrightarrow> ensures b (\<lambda>y. reaches t (snd y)) (p t)"
  by (simp add: runs_def)

lemma runs_call: "runs b s p \<Longrightarrow> reaches s t \<Longrightarrow> reaches r t \<Longrightarrow> ensures b (\<lambda>y. reaches r (snd y)) (p t)"
  using runsD [of b s p t] by (auto elim!: ensures_weaken intro: reaches_trans)

lemma separated_runs:
  "runs b s p \<Longrightarrow> reaches s t \<Longrightarrow> b \<longrightarrow> left t < n \<Longrightarrow>
   ensures b (\<lambda>y. reaches t (snd y)) (separated sep stop n p t)"
proof (induction n arbitrary: t)
  case (Suc n)
  have "ensures b (\<lambda>y. reaches t (snd y)) (separated sep stop n p (bump u))" if "reaches t u" "at_op sep u" for u
    using bump_step [OF that] Suc.prems reaches_trans
    by (intro ensures_weaken [OF Suc.IH [OF Suc.prems(1)]]) (blast, auto)
  then show ?case
    by (auto simp: consume_def case_prod_beta intro!: ensures_weaken [OF runsD [OF Suc.prems(1,2)]]) 
qed simp

lemma optional_list_runs:
  "runs b s p \<Longrightarrow> reaches s t \<Longrightarrow> b \<longrightarrow> left t < n \<Longrightarrow>
   ensures b (\<lambda>y. reaches t (snd y)) (optional_list close stop n p t)"
  using separated_runs [of b s p t n OpComma stop] by (auto simp: optional_list_def dest: reaches_ready)

lemma closed_list_runs:
  "runs b s p \<Longrightarrow> reaches s t \<Longrightarrow> b \<longrightarrow> left t < n \<Longrightarrow>
   ensures b (\<lambda>y. reaches t (snd y)) (closed_list close n p t)"
proof (induction n arbitrary: t)
  case (Suc n)
  have "ensures b (\<lambda>y. reaches t (snd y)) (closed_list close n p (bump u))" if "reaches t u" "at_op OpComma u" for u
    using bump_step [OF that] Suc.prems reaches_trans
    by (intro ensures_weaken [OF Suc.IH [OF Suc.prems(1)]]) (blast, auto)
  then show ?case
    using Suc.prems(2)
    by (auto simp: consume_def case_prod_beta intro!: ensures_weaken [OF runsD [OF Suc.prems(1,2)]] dest: reaches_ready)
qed simp

text \<open>In a suite every entry has to go past a token, or the loop over it may not end.\<close>

definition suite_end :: "bool \<Rightarrow> token_kind list" where
  "suite_end braces = [if braces then TkOp OpRBrace else TkDedent, TkEnd]"

lemma suite_items_runs:
  assumes "\<And>t. reaches s t \<Longrightarrow> \<not> at_kind TkEnd t \<Longrightarrow> ensures b (\<lambda>y. reaches t (snd y) \<and> (b \<longrightarrow> past t (snd y))) (p t)"
  shows "reaches s t \<Longrightarrow> b \<longrightarrow> Suc (left t) < n \<Longrightarrow>
    ensures b (\<lambda>y. reaches t (snd y) \<and> at_any (suite_end braces) (snd y)) (suite_items n p braces t)"
proof (induction n arbitrary: t)
  case (Suc n)
  have rest: "ensures b (\<lambda>y. reaches t (snd y) \<and> at_any (suite_end braces) (snd y)) (suite_items n p braces v)"
    if "reaches t u" "\<not> at_kind TkEnd u" "reaches u v" "b \<longrightarrow> past u v" for u v
  proof -
    have "reaches t v" "reaches s v"
      using that Suc.prems(1) reaches_trans by blast+
    moreover have "b \<longrightarrow> Suc (left v) < n"
      using that left_past left_reaches [OF that(1)] Suc.prems(2) by fastforce
    ultimately show ?thesis
      using reaches_trans by (intro ensures_weaken [OF Suc.IH]) auto
  qed
  have item: "ensures b (\<lambda>y. reaches u (snd y) \<and> (b \<longrightarrow> past u (snd y))) (p u)" if "reaches t u" "\<not> at_kind TkEnd u" for u
    using assms that Suc.prems(1) reaches_trans by blast
  have "ensures b (\<lambda>y. ensures b (\<lambda>y. reaches t (snd y) \<and> at_any (suite_end braces) (snd y)) 
      (suite_items n p braces (snd y) \<bind> (\<lambda>z. Some (fst y # fst z, snd z)))) (p u)"
    if "reaches t u" "\<not> at_kind TkEnd u" for u
    using rest [OF that] by (intro ensures_weaken [OF item [OF that]]) simp
  then show ?case
    using Suc.prems
    by (auto simp: suite_done_def suite_end_def case_prod_beta intro!: ensures_weaken [OF skip_runs [of t t]] dest: reaches_ready)
qed simp

subsection \<open>Types and parameters\<close>

text \<open>What the following parsers are shown to be: they run from every state at which the fuel is enough.\<close>

definition runs_within :: "nat \<Rightarrow> (nat \<Rightarrow> parser \<Rightarrow> ('a \<times> parser) option) \<Rightarrow> bool" where
  "runs_within k p \<longleftrightarrow> (\<forall>n s. ready s \<longrightarrow> ensures (2 * left s + k \<le> n) (\<lambda>y. reaches s (snd y)) (p n s))"

lemma runs_withinD: "runs_within k p \<Longrightarrow> reaches s t \<Longrightarrow> b \<longrightarrow> 2 * left t + k \<le> n \<Longrightarrow> ensures b (\<lambda>y. reaches s (snd y)) (p n t)"
  unfolding runs_within_def using reaches_ready reaches_trans by (blast intro: ensures_mono)

lemma runs_within_runs:
  assumes "runs_within k p" "b \<longrightarrow> 2 * left s + k \<le> n"
  shows "runs b s (p n)"
  unfolding runs_def
proof (intro allI impI)
  fix t
  assume "reaches s t"
  then show "ensures b (\<lambda>y. reaches t (snd y)) (p n t)"
    using assms left_reaches [of s t] reaches_ready by (intro runs_withinD [OF assms(1)]) fastforce+
qed

lemma type_prefix_reaches:
  assumes "reaches s t" "type_prefix t = Some (p, u)"
  shows "reaches s u" "left u < left t"
proof -
  obtain k where k: "at_kind k t" "k \<noteq> TkEnd" "reaches (bump t) u"
  proof -
    have "\<exists>k. at_kind k t \<and> k \<noteq> TkEnd \<and> (reaches (bump t) (bump t) \<longrightarrow> reaches (bump t) u)"
      using assms(2) unfolding type_prefix_def
      by (auto simp: case_prod_beta split: if_splits bool.splits intro!: reaches_expect reaches_consume)
    then show ?thesis
      using that bump_step [OF assms(1)] reaches_ready reaches_refl by metis
  qed
  show "reaches s u" "left u < left t"
    using bump_step [OF assms(1) k(1,2)] k(3) reaches_trans left_reaches by (blast, fastforce)
qed

lemma type_prefixes_runs: "reaches s t \<Longrightarrow> b \<longrightarrow> left t < n \<Longrightarrow> ensures b (\<lambda>y. reaches s (snd y)) (type_prefixes n t)"
proof (induction n arbitrary: t)
  case (Suc n)
  have "ensures b (\<lambda>y. reaches s (snd y)) (type_prefixes n u)" if "type_prefix t = Some (p, u)" for p u
    using type_prefix_reaches [OF Suc.prems(1) that] Suc.prems(2) by (intro Suc.IH) auto
  then show ?case
    using Suc.prems(1) by (auto simp: case_prod_beta split: option.split)
qed simp

lemma type_name_reaches: "reaches s t \<Longrightarrow> reaches s (snd (type_name t))"
  by (auto simp: type_name_def case_prod_beta)

lemma type_arguments_runs:
  assumes "at_op op t" "reaches s t" "runs b (bump t) ty" "b \<longrightarrow> left t < n"
  shows "ensures b (\<lambda>y. reaches s (snd y)) (parse_type_arguments n ty op cl t)"
proof -
  have "expect (TkOp op) w t = (peek t, bump t)" for w
    using assms(1,2) reaches_ready by (auto simp: expect_def intro: advance_at)
  moreover note step = bump_step [OF assms(2,1)]
  moreover have "ensures b (\<lambda>y. reaches (bump t) (snd y)) (optional_list (TkOp cl) (at_op cl) n ty (bump t))"
    using step assms(3,4) reaches_ready by (intro optional_list_runs [of b "bump t"]) auto
  ultimately show ?thesis
    unfolding parse_type_arguments_def
    by (auto simp: case_prod_beta elim!: ensures_weaken intro!: reaches_expect intro: reaches_trans)
qed

lemma optional_type_arguments_runs:
  assumes "reaches s t" "\<And>p. at_op p t \<Longrightarrow> runs b (bump t) ty" "b \<longrightarrow> left t < n"
  shows "ensures b (\<lambda>y. reaches s (snd y)) (optional_type_arguments n ty t)"
  unfolding optional_type_arguments_def using assms by (auto intro!: type_arguments_runs)

lemma parse_type_runs: "runs_within 2 parse_type"
proof -
  have "ready s \<Longrightarrow> ensures (2 * left s + 2 \<le> n) (\<lambda>y. reaches s (snd y)) (parse_type n s)" for n s
  proof (induction n arbitrary: s)
    case (Suc n)
    define b where "b \<longleftrightarrow> 2 * left s + 2 \<le> Suc n"
    have args: "ensures b (\<lambda>y. reaches s (snd y)) (optional_type_arguments n (parse_type n) t)" if "reaches s t" for t
    proof (rule optional_type_arguments_runs [OF that])
      fix p
      assume "at_op p t"
      then have "left (bump t) < left s"
        using bump_step(4) [OF that] by blast
      moreover have "left u \<le> left (bump t)" "ready u" if "reaches (bump t) u" for u
        using that left_reaches reaches_ready by auto
      ultimately show "runs b (bump t) (parse_type n)"
        unfolding runs_def b_def by (intro allI impI ensures_mono [OF Suc.IH]) fastforce+
    qed (use left_reaches [OF that] in \<open>simp add: b_def\<close>)
    have rest: "ensures b (\<lambda>y. reaches s (snd (consume (TkOp OpQuestion) (snd y))))
        (optional_type_arguments n (parse_type n) (snd (type_name t)))" if "reaches s t" for t
      using that by (intro ensures_weaken [OF args] type_name_reaches) auto
    have "ensures b (\<lambda>y. reaches s (snd y)) (type_prefixes n s)"
      using Suc.prems by (intro type_prefixes_runs) (auto simp: b_def)
    then show ?case
      unfolding b_def [symmetric] by (auto simp: case_prod_beta intro!: rest elim!: ensures_weaken)
  qed simp
  then show ?thesis
    unfolding runs_within_def by blast
qed

lemma expect_name_runs: "reaches s t \<Longrightarrow> ensures b (\<lambda>y. reaches s (snd y)) (case expect_name w t of (x, u) \<Rightarrow> Some (f x, u))"
  by (auto simp: case_prod_beta)

lemma parse_bounds_runs: "reaches s t \<Longrightarrow> b \<longrightarrow> left t < n \<Longrightarrow> ensures b (\<lambda>y. reaches s (snd y)) (parse_bounds n t)"
  unfolding parse_bounds_def
  by (rule ensures_weaken [OF separated_runs [of b t]])
    (auto simp: runs_def dest: reaches_ready intro!: expect_name_runs intro: reaches_trans)

lemma parse_generic_runs: "reaches s t \<Longrightarrow> b \<longrightarrow> left t < n \<Longrightarrow> ensures b (\<lambda>y. reaches s (snd y)) (parse_generic n t)"
proof -
  assume t: "reaches s t" and b: "b \<longrightarrow> left t < n"
  define u where "u = snd (expect TkIdentifier ''generic parameter'' t)"
  have u: "reaches t u" "reaches s u"
    unfolding u_def using t reaches_self [OF t] by (auto intro: reaches_expect)
  have "ensures b (\<lambda>y. reaches s (snd y)) (parse_bounds n (bump u))" if "at_op OpColon u"
    using bump_step [OF u(2) that] left_reaches [OF u(1)] b by (intro parse_bounds_runs) auto
  then show ?thesis
    using u(2) unfolding parse_generic_def
    by (auto simp: case_prod_beta consume_def u_def [symmetric] elim!: ensures_weaken)
qed

lemma parse_generics_runs: "runs_within 2 parse_generics"
proof -
  have list: "ensures b (\<lambda>y. reaches s (snd y)) (parse_generic_list n cl t)" if t: "reaches s t" "b \<longrightarrow> left t < n" for b s n cl t
  proof -
    have "runs b t (parse_generic n)"
      unfolding runs_def using t(2) left_reaches reaches_self by (intro allI impI parse_generic_runs) fastforce+
    then have "ensures b (\<lambda>y. reaches t (snd y)) (closed_list (TkOp cl) n (parse_generic n) t)"
      using t reaches_self by (intro closed_list_runs [of b t]) auto
    then show ?thesis
      unfolding parse_generic_list_def using t(1) reaches_trans
      by (auto simp: case_prod_beta intro!: reaches_expect elim!: ensures_weaken)
  qed
  have "ensures (2 * left s + 2 \<le> n) (\<lambda>y. reaches s (snd y)) (parse_generic_list n cl (bump s))" if "ready s" "at_op p s" for s n cl p
    using bump_step [of s s "TkOp p"] that by (intro list) auto
  then show ?thesis
    unfolding runs_within_def parse_generics_def by (auto simp: consume_def)
qed

lemma where_entry_runs: "reaches s t \<Longrightarrow> b \<longrightarrow> left t < n \<Longrightarrow> ensures b (\<lambda>y. reaches s (snd y)) (where_entry n gs t)"
proof -
  assume t: "reaches s t" and b: "b \<longrightarrow> left t < n"
  have bounds: "ensures b (\<lambda>y. reaches s (snd y)) (parse_bounds n u)" if u: "reaches t u" for u
    using left_reaches [OF u] b reaches_trans [OF t u] by (intro parse_bounds_runs) auto
  then show ?thesis
    unfolding where_entry_def using reaches_self [OF t]
    by (auto simp: case_prod_beta Let_def intro!: ensures_weaken [OF bounds] reaches_expect reaches_errorI)
qed

lemma where_entries_runs: "reaches s t \<Longrightarrow> b \<longrightarrow> Suc (left t) < n \<Longrightarrow> ensures b (\<lambda>y. reaches s (snd y)) (where_entries n gs t)"
proof (induction n arbitrary: t gs)
  case (Suc n)
  have more: "ensures b (\<lambda>y. reaches s (snd y)) (where_entries n hs (bump u))" if "reaches t u" "at_op OpComma u" for hs u
    using bump_step [OF that] Suc.prems reaches_trans by (intro Suc.IH) (blast, auto)
  have "ensures b (\<lambda>y. reaches t (snd y)) (where_entry n gs t)"
    using Suc.prems reaches_self by (intro where_entry_runs) auto
  then show ?case
    using Suc.prems(1) reaches_trans
    by (auto simp: consume_def case_prod_beta intro!: more elim!: ensures_weaken)
qed simp

lemma where_clause_runs: "runs_within 2 (\<lambda>n. parse_where_clause n gs)"
proof -
  have "ensures (2 * left s + 2 \<le> n) (\<lambda>y. reaches s (snd y)) (where_entries n gs (bump s))" if "ready s" "at_kw KwWhere s" for s n
    using bump_step [of s s "TkKw KwWhere"] that by (intro where_entries_runs) auto
  then show ?thesis
    unfolding runs_within_def parse_where_clause_def by (auto simp: consume_def)
qed

lemma typed_runs: "reaches s t \<Longrightarrow> b \<longrightarrow> 2 * left t + 2 \<le> n \<Longrightarrow> ensures b (\<lambda>y. reaches s (snd y)) (parse_type n t)"
  by (rule runs_withinD [OF parse_type_runs])

lemma receiver_reaches: "reaches s t \<Longrightarrow> reaches s (snd (reference_receiver t))"
  by (auto simp: reference_receiver_def Let_def case_prod_beta)

lemma plain_receiver_runs: "reaches s t \<Longrightarrow> b \<longrightarrow> 2 * left t + 2 \<le> n \<Longrightarrow> ensures b (\<lambda>y. reaches s (snd y)) (plain_receiver n t)"
proof -
  assume t: "reaches s t" and b: "b \<longrightarrow> 2 * left t + 2 \<le> n"
  define u where "u = snd (advance t)"
  have u: "reaches t u" "reaches s u"
    unfolding u_def using t reaches_self [OF t] by (auto intro: reaches_advance)
  have "ensures b (\<lambda>y. reaches s (snd y)) (parse_type n (bump u))" if "at_op OpColon u"
    using bump_step [OF u(2) that] left_reaches [OF u(1)] b by (intro typed_runs) auto
  then show ?thesis
    using u(2) unfolding plain_receiver_def
    by (auto simp: case_prod_beta consume_def u_def [symmetric] elim!: ensures_weaken)
qed

lemma named_parameter_runs: "reaches s t \<Longrightarrow> b \<longrightarrow> 2 * left t + 2 \<le> n \<Longrightarrow> ensures b (\<lambda>y. reaches s (snd y)) (named_parameter n t)"
proof -
  assume t: "reaches s t" and b: "b \<longrightarrow> 2 * left t + 2 \<le> n"
  have type: "ensures b (\<lambda>y. reaches s (snd y)) (parse_type n u)" if u: "reaches t u" for u
    using left_reaches [OF u] b reaches_trans [OF t u] by (intro typed_runs) auto
  have "reaches t (snd (case consume (TkKw KwMut) t of (True, s) \<Rightarrow> (True, s) | (False, s) \<Rightarrow> consume (TkKw KwVar) s))"
    using reaches_self [OF t] by (auto simp: consume_def)
  then show ?thesis
    unfolding named_parameter_def
    by (auto simp: case_prod_beta Let_def intro!: ensures_weaken [OF type] reaches_expect reaches_expect_name)
qed

lemma parse_parameter_runs: "runs_within 2 parse_parameter"
  unfolding runs_within_def parse_parameter_def
  by (auto simp: case_prod_beta intro!: receiver_reaches ensures_weaken [OF plain_receiver_runs] ensures_weaken [OF named_parameter_runs])

lemma parse_signature_runs: "runs_within 3 parse_signature"
proof -
  have "ensures b (\<lambda>y. reaches s (snd y)) (parse_signature n s)" if s: "ready s" and b: "b \<longrightarrow> 2 * left s + 3 \<le> n" for b n s
  proof -
    have params: "ensures b (\<lambda>y. reaches s (snd y)) (optional_list (TkOp OpRParen) never n (parse_parameter n) t)" if t: "reaches s t" for t
    proof -
      have "runs b t (parse_parameter n)"
        using b left_reaches [OF t] by (intro runs_within_runs [OF parse_parameter_runs]) auto
      then show ?thesis
        using b left_reaches [OF t] t reaches_self [OF t] reaches_trans
        by (intro ensures_weaken [OF optional_list_runs [of b t]]) auto
    qed
    have type: "ensures b (\<lambda>y. reaches s (snd y)) (parse_type n (bump t))" if "reaches s t" "at_op OpArrow t" for t
      using bump_step [OF that] b by (intro typed_runs) auto
    show ?thesis
      unfolding parse_signature_def using s
      by (auto simp: case_prod_beta Let_def consume_def
          intro!: ensures_weaken [OF params] ensures_weaken [OF type] reaches_expect)
  qed
  then show ?thesis
    unfolding runs_within_def by blast
qed

end
