(* ===== verification/ParseTotal.thy ===== *)
theory ParseTotal
  imports ParseRuns
begin

text \<open>The parsers of expressions, statements, blocks and functions return on every input.\<close>

subsection \<open>Forms of expressions\<close>

lemma runs_from: "runs b s p \<Longrightarrow> reaches s t \<Longrightarrow> reaches t u \<Longrightarrow> ensures b (\<lambda>y. reaches t (snd y)) (p u)"
  using runs_call reaches_trans by blast

lemma init_field_runs: "runs b s ex \<Longrightarrow> runs b s (init_field ex sep w)"
proof -
  assume ex: "runs b s ex"
  have "ensures b (\<lambda>y. reaches t (snd y)) (init_field ex sep w t)" if t: "reaches s t" for t
    unfolding init_field_def using reaches_self [OF t]
    by (auto simp: case_prod_beta Let_def intro!: ensures_weaken [OF runs_from [OF ex t]] reaches_expect reaches_expect_name)
  then show ?thesis
    unfolding runs_def by blast
qed

lemma call_arguments_runs:
  assumes "runs b s ex" "reaches s t" "b \<longrightarrow> left t < n"
  shows "ensures b (\<lambda>y. reaches t (snd y)) (call_arguments n ex f targs t)"
  unfolding call_arguments_def
  by (auto simp: case_prod_beta Let_def intro!: ensures_weaken [OF optional_list_runs [OF assms]] reaches_expect)

lemma type_args_runs:
  assumes "reaches r t" "b \<longrightarrow> 2 * left r + 2 \<le> n"
  shows "ensures b (\<lambda>y. reaches r (snd y)) (optional_type_arguments n (parse_type n) t)"
proof (rule optional_type_arguments_runs [OF assms(1)])
  fix p
  assume "at_op p t"
  then show "runs b (bump t) (parse_type n)"
    using assms bump_step(4) [OF assms(1)] by (intro runs_within_runs [OF parse_type_runs]) fastforce
qed (use assms left_reaches [OF assms(1)] in auto)

lemma parse_new_runs:
  assumes "reaches r (snd (advance s))" "runs b r ex" "b \<longrightarrow> 2 * left r + 2 \<le> n"
  shows "ensures b (\<lambda>y. reaches r (snd y)) (parse_new n ex s)"
proof -
  have fields: "ensures b (\<lambda>y. reaches r (snd y)) (optional_list (TkOp OpRParen) stop n (init_field ex OpEq w) t)"
    if t: "reaches r t" for stop w t
    using assms left_reaches [OF t] reaches_trans [OF t] t
    by (intro ensures_weaken [OF optional_list_runs [OF init_field_runs]]) auto
  show ?thesis
    unfolding parse_new_def using assms(1)
    by (auto simp: case_prod_beta Let_def
        intro!: ensures_weaken [OF type_args_runs [OF _ assms(3)]] ensures_weaken [OF fields] reaches_expect)
qed

lemma parse_struct_literal_runs:
  assumes "reaches r s" "runs b r ex" "b \<longrightarrow> 2 * left r + 2 \<le> n"
  shows "ensures b (\<lambda>y. reaches r (snd y)) (parse_struct_literal n ex name s)"
proof -
  have fields: "ensures b (\<lambda>y. reaches r (snd y)) (closed_list cl n (init_field ex OpColon w) t)"
    if t: "reaches r t" for cl w t
    using assms left_reaches [OF t] reaches_trans [OF t] t
    by (intro ensures_weaken [OF closed_list_runs [OF init_field_runs]]) auto
  have targs: "ensures b (\<lambda>y. reaches r (snd y)) (parse_type_arguments n (parse_type n) OpLess OpGreater s)" if "at_op OpLess s"
    using that type_args_runs [OF assms(1,3)] by (auto simp: optional_type_arguments_def at_kind_def)
  show ?thesis
    unfolding parse_struct_literal_def using assms(1)
    by (auto simp: case_prod_beta Let_def intro!: ensures_weaken [OF targs] ensures_weaken [OF fields] reaches_expect)
qed

lemma parse_name_runs:
  assumes "reaches r (snd (advance s))" "runs b r ex" "b \<longrightarrow> 2 * left r + 2 \<le> n"
  shows "ensures b (\<lambda>y. reaches r (snd y)) (parse_name n ex s)"
  unfolding parse_name_def using assms
  by (auto simp: case_prod_beta intro!: parse_struct_literal_runs)

lemma asm_operand_runs: "runs b s ex \<Longrightarrow> runs b s (asm_operand ex)"
proof -
  assume ex: "runs b s ex"
  have content: "ensures b (\<lambda>y. reaches t (snd y)) (operand_content ex kind u)" if "reaches s t" "reaches t u" for kind t u
    unfolding operand_content_def using that
    by (auto simp: case_prod_beta intro!: ensures_weaken [OF runs_from [OF ex that]] reaches_expect reaches_errorI)
  have clobber: "reaches t (snd (clobber_operand kind u))" if "reaches t u" for kind t u
    unfolding clobber_operand_def using that by (auto simp: case_prod_beta Let_def intro!: reaches_expect)
  have "ensures b (\<lambda>y. reaches t (snd y)) (asm_operand ex t)" if t: "reaches s t" for t
    unfolding asm_operand_def using reaches_self [OF t]
    by (auto simp: case_prod_beta Let_def intro!: ensures_weaken [OF content [OF t]] clobber reaches_expect reaches_advance)
  then show ?thesis
    unfolding runs_def by blast
qed

lemma asm_operands_runs:
  "runs b s ex \<Longrightarrow> reaches s t \<Longrightarrow> b \<longrightarrow> left t < n \<Longrightarrow> ensures b (\<lambda>y. reaches t (snd y)) (asm_operands n ex t)"
proof (induction n arbitrary: t)
  case (Suc n)
  have more: "ensures b (\<lambda>y. reaches t (snd y)) (asm_operands n ex u)" if "reaches (bump t) u" "at_op OpComma t" for u
    using bump_step [OF Suc.prems(2) that(2)] left_reaches [OF that(1)] that(1) Suc.prems reaches_trans
    by (intro ensures_weaken [OF Suc.IH [OF Suc.prems(1)]]) (blast, auto)
  have operand: "ensures b (\<lambda>y. reaches (bump t) (snd y)) (asm_operand ex (bump t))" if "at_op OpComma t"
    using bump_step [OF Suc.prems(2) that] asm_operand_runs [OF Suc.prems(1)] by (auto simp: runs_def)
  have "reaches (bump t) (bump t)" if "at_op OpComma t"
    using bump_step [OF Suc.prems(2) that] reaches_self by auto
  then show ?case
    using Suc.prems(2) reaches_self
    by (auto simp: consume_def case_prod_beta intro!: ensures_weaken [OF operand] ensures_weaken [OF more])
qed simp

lemma parse_asm_runs:
  assumes "reaches r (snd (advance s))" "runs b r ex" "b \<longrightarrow> left r < n"
  shows "ensures b (\<lambda>y. reaches r (snd y)) (parse_asm n ex s)"
proof -
  have operands: "ensures b (\<lambda>y. reaches r (snd y)) (asm_operands n ex t)" if "reaches r t" for t
    using assms that left_reaches [OF that] reaches_trans [OF that]
    by (intro ensures_weaken [OF asm_operands_runs]) auto
  show ?thesis
    unfolding parse_asm_def using assms(1)
    by (auto simp: case_prod_beta Let_def intro!: ensures_weaken [OF operands] reaches_expect)
qed

lemma advance_error: "snd (advance (parse_error r c m s)) = parse_error r c m (snd (advance s))"
  by (simp add: advance_def parse_error_def bump_def)

lemma advance_not_end: "ready s \<Longrightarrow> \<not> at_kind TkEnd s \<Longrightarrow> advance s = (peek s, bump s)"
  by (rule advance_at [of s "tok_kind (peek s)"]) (auto simp: at_kind_def)

lemma ensures_if: "ensures b Q x \<Longrightarrow> ensures b Q y \<Longrightarrow> ensures b Q (if c then x else y)"
  by simp

lemma prefixed_runs:
  assumes "runs b r operand" "reaches r t"
  shows "ensures b (\<lambda>y. reaches r (snd y)) (prefixed operand f start t)"
  unfolding prefixed_def using assms(2)
  by (auto simp: case_prod_beta intro!: ensures_weaken [OF runs_call [OF assms assms(2)]])

lemma prefix_expr_runs:
  assumes s: "ready s" and ex: "\<not> at_kind TkEnd s \<Longrightarrow> runs b (bump s) ex" and operand: "\<not> at_kind TkEnd s \<Longrightarrow> runs b (bump s) operand"
    and n: "b \<longrightarrow> 2 * left s + 2 \<le> n"
  shows "ensures b (\<lambda>y. reaches (snd (advance s)) (snd y)) (prefix_expr n ex operand s)"
proof (cases "at_kind TkEnd s")
  case True
  have "reaches (snd (advance s)) (snd (advance s))"
    using reaches_self [OF reaches_advance [of s s]] s by simp
  then show ?thesis
    using True by (auto simp: prefix_expr_def Let_def at_kind_def unary_operators_def advance_error)
next
  case False
  note ex = ex [OF False] and operand = operand [OF False]
  have next_state: "advance s = (peek s, bump s)"
    by (rule advance_not_end [OF s False])
  then have r: "reaches (bump s) (bump s)" "reaches (bump s) (snd (advance s))"
    using reaches_self [OF reaches_advance [of s s]] s by auto
  have left: "b \<longrightarrow> 2 * left (bump s) + 2 \<le> n" "b \<longrightarrow> left (bump s) < n"
    using n by (auto simp: left_def)
  have m: "reaches (bump s) (snd (consume (TkKw KwMut) (bump s)))"
    using r by (intro reaches_consume) auto
  have paren: "ensures b (\<lambda>y. reaches (bump s) (snd y)) (ex (bump s) \<bind> (\<lambda>y. Some (fst y, snd (expect k w (snd y)))))" for k w
    by (auto simp: case_prod_beta intro!: ensures_weaken [OF runs_call [OF ex r(1) r(1)]] reaches_expect)
  show ?thesis
    unfolding prefix_expr_def Let_def next_state snd_conv case_prod_beta
    using r m by (intro ensures_if paren parse_new_runs [OF r(2) ex left(1)] parse_name_runs [OF r(2) ex left(1)]
        parse_asm_runs [OF r(2) ex left(2)] prefixed_runs [OF operand])
      (simp_all add: advance_error next_state reaches_errorI)
qed

lemma postfix_step_runs:
  assumes s: "ready s" and step: "postfix_step n ex base s = Some m" and ex: "\<not> at_kind TkEnd s \<Longrightarrow> runs b (bump s) ex"
    and n: "b \<longrightarrow> 2 * left s + 2 \<le> n"
  shows "\<not> at_kind TkEnd s \<and> ensures b (\<lambda>y. reaches (bump s) (snd y)) m"
proof -
  obtain p where p: "at_op p s"
    using step by (auto simp: postfix_step_def generic_call_ahead_def split: if_splits)
  then have on: "\<not> at_kind TkEnd s"
    by (auto simp: at_kind_def)
  note ex = ex [OF on]
  have r: "reaches (bump s) (bump s)"
    using bump_step [of s s "TkOp p"] s p reaches_self by auto
  have left: "b \<longrightarrow> 2 * left (bump s) + 2 \<le> n" "b \<longrightarrow> left (bump s) < n"
    using n by (auto simp: left_def)
  have generic: "ensures b (\<lambda>y. reaches (bump s) (snd y)) (generic_call n ex base q s)" if "at_op q s" for q
  proof -
    have "expect (TkOp q) w s = (peek s, bump s)" for w
      using that s by (auto simp: expect_def intro: advance_at)
    then have targs: "ensures b (\<lambda>y. reaches (bump s) (snd y)) (parse_type_arguments n (parse_type n) q cl s)" for cl
      unfolding parse_type_arguments_def
      using r left by (auto simp: case_prod_beta Let_def intro!: reaches_expect
          ensures_weaken [OF optional_list_runs [OF runs_within_runs [OF parse_type_runs left(1)] r left(2)]])
    have args: "ensures b (\<lambda>y. reaches (bump s) (snd y)) (call_arguments n ex base targs t)" if "reaches (bump s) t" for t targs
      using that left left_reaches [OF that] reaches_trans [OF that] by (intro ensures_weaken [OF call_arguments_runs [OF ex]]) auto
    show ?thesis
      unfolding generic_call_def by (auto simp: case_prod_beta intro!: reaches_expect args ensures_weaken [OF targs])
  qed
  have "ensures b (\<lambda>y. reaches (bump s) (snd y)) (index_access_expr ex base (bump s))"
    unfolding index_access_expr_def
    by (auto simp: case_prod_beta Let_def intro!: ensures_weaken [OF runs_call [OF ex r r]] reaches_expect)
  moreover have "ensures b (\<lambda>y. reaches (bump s) (snd y)) (call_arguments n ex base [] (bump s))"
    by (rule call_arguments_runs [OF ex r left(2)])
  moreover have "ensures b (\<lambda>y. reaches (bump s) (snd y)) (member_access_expr base (bump s))"
    unfolding member_access_expr_def using r by (auto simp: case_prod_beta intro!: reaches_expect_name)
  ultimately show ?thesis
    using step on by (auto simp: postfix_step_def generic_call_ahead_def split: if_splits intro!: generic)
qed

subsection \<open>Expressions\<close>

text \<open>Expressions return, and go past a token unless they are asked for at the end.\<close>

lemma combine_runs: "ensures b Q (combine op x y s) \<longleftrightarrow> Q (BinaryExpr (ps_next s) (from_to (expr_begin x) (expr_end y)) (tok_text op) x y, s\<lparr>ps_next := Suc (ps_next s)\<rparr>)"
  by (simp add: combine_def)

lemma finish_cast_runs:
  assumes "reaches s t" "b \<longrightarrow> 2 * left t + 2 \<le> n"
  shows "ensures b (\<lambda>y. reaches s (snd y)) (finish_cast n x t)"
proof -
  have "ensures b (\<lambda>y. reaches s (snd y)) (parse_type n (bump t))" if "at_kw KwAs t"
    using bump_step [OF assms(1) that] assms(2) by (intro typed_runs) auto
  then show ?thesis
    using assms(1) by (auto simp: finish_cast_def consume_def case_prod_beta elim!: ensures_weaken)
qed

lemma precedence_end: "precedence TkEnd = -1"
  by simp

lemma expr_runs:
  "ready s \<Longrightarrow> 0 \<le> p \<Longrightarrow> ensures (2 * left s + 4 \<le> n) (\<lambda>y. reaches (snd (advance s)) (snd y)) (parse_expr n p s)"
  "ready s \<Longrightarrow> 0 \<le> p \<Longrightarrow> ensures (2 * left s + 3 \<le> n) (\<lambda>y. reaches s (snd y)) (parse_binary n p x s)"
  "ready s \<Longrightarrow> ensures (2 * left s + 3 \<le> n) (\<lambda>y. reaches (snd (advance s)) (snd y)) (parse_prefix n s)"
  "ready s \<Longrightarrow> ensures (2 * left s + 3 \<le> n) (\<lambda>y. reaches s (snd y)) (parse_postfix n x s)"
proof (induction n arbitrary: s p x)
  case (Suc n)
  have moved: "left (bump s) < left s" "reaches s (bump s)" if "ready s" "\<not> at_kind TkEnd s" for s
    using bump_step [of s s "tok_kind (peek s)"] that by (auto simp: at_kind_def)
  have ex: "runs b (bump s) (parse_expr n p)" if "ready s" "\<not> at_kind TkEnd s" "b \<longrightarrow> 2 * left s + 3 \<le> Suc n" "0 \<le> p" for b s p
    unfolding runs_def
  proof (intro allI impI)
    fix t
    assume t: "reaches (bump s) t"
    then have "left t < left s" "ready t"
      using moved [OF that(1,2)] left_reaches [OF t] reaches_ready by auto
    moreover from this have adv: "reaches t (snd (advance t))"
      by auto
    ultimately show "ensures b (\<lambda>y. reaches t (snd y)) (parse_expr n p t)"
      using that(3,4) by (intro ensures_mono [OF Suc.IH(1)]) (auto intro: reaches_trans [OF adv])
  qed
  { case 1
    define b where "b \<longleftrightarrow> 2 * left s + 4 \<le> Suc n"
    let ?r = "snd (advance s)"
    have le: "left t \<le> left s" "ready t" if "reaches ?r t" for t
      using left_reaches [OF that] left_reaches [of s ?r] 1(1) reaches_ready [OF that] by auto
    have prefix: "ensures b (\<lambda>y. reaches ?r (snd y)) (parse_prefix n s)"
      using 1 by (intro ensures_mono [OF Suc.IH(3)]) (auto simp: b_def)
    have postfix: "ensures b (\<lambda>y. reaches ?r (snd y)) (parse_postfix n x t)" if "reaches ?r t" for x t
      using le [OF that] reaches_trans [OF that] by (intro ensures_mono [OF Suc.IH(4)]) (auto simp: b_def)
    have binary: "ensures b (\<lambda>y. reaches ?r (snd y)) (parse_binary n p x t)" if "reaches ?r t" for x t
      using le [OF that] reaches_trans [OF that] 1 by (intro ensures_mono [OF Suc.IH(2)]) (auto simp: b_def)
    have cast: "ensures b (\<lambda>y. reaches ?r (snd y)) (finish_cast n x t)" if "reaches ?r t" for x t
      using le [OF that] that by (intro finish_cast_runs) (auto simp: b_def)
    show ?case
      unfolding b_def [symmetric]
      by (auto simp: case_prod_beta intro!: ensures_weaken [OF prefix] ensures_weaken [OF postfix] ensures_weaken [OF binary] cast)
  next
    case 2
    define b where "b \<longleftrightarrow> 2 * left s + 3 \<le> Suc n"
    show ?case
    proof (cases "precedence (tok_kind (peek s)) < p")
      case False
      let ?q = "precedence (tok_kind (peek s)) + 1"
      have on: "\<not> at_kind TkEnd s"
        using False 2 by (auto simp: at_kind_def)
      note m = moved [OF 2(1) on]
      have r: "reaches (bump s) (bump s)"
        using m(2) reaches_self by blast
      have operand: "ensures b (\<lambda>y. reaches (bump s) (snd y)) (parse_expr n ?q (bump s))"
        using False 2 by (intro runsD [OF ex r] on) (auto simp: b_def)
      have more: "ensures b (\<lambda>y. reaches s (snd y)) (parse_binary n p z t)" if "reaches (bump s) t" for z t
        using m left_reaches [OF that] reaches_ready [OF that] reaches_trans [OF m(2)] reaches_trans [OF that] 2(2)
        by (intro ensures_mono [OF Suc.IH(2)]) (auto simp: b_def)
      show ?thesis
        unfolding b_def [symmetric] using False
        by (auto simp: case_prod_beta Let_def combine_runs advance_not_end [OF 2(1) on] intro!: ensures_weaken [OF operand] more)
    qed (use 2 in \<open>simp add: Let_def\<close>)
  next
    case 3
    define b where "b \<longleftrightarrow> 2 * left s + 3 \<le> Suc n"
    have operand: "runs b (bump s) (\<lambda>s. parse_prefix n s \<bind> (\<lambda>(x, s). parse_postfix n x s))" if on: "\<not> at_kind TkEnd s"
      unfolding runs_def
    proof (intro allI impI)
      fix t
      assume t: "reaches (bump s) t"
      have less: "left u < left s" "ready u" if "reaches t u" for u
        using moved [OF 3 on] left_reaches [OF reaches_trans [OF t that]] reaches_ready [OF that] by auto
      have self: "reaches t t" "reaches t (snd (advance t))"
        using reaches_self [OF t] by auto
      have prefix: "ensures b (\<lambda>y. reaches t (snd y)) (parse_prefix n t)"
        using less [OF self(1)] reaches_trans [OF self(2)] by (intro ensures_mono [OF Suc.IH(3)]) (auto simp: b_def)
      have "ensures b (\<lambda>y. reaches t (snd y)) (parse_postfix n x u)" if "reaches t u" for x u
        using less [OF that] reaches_trans [OF that] by (intro ensures_mono [OF Suc.IH(4)]) (auto simp: b_def)
      then show "ensures b (\<lambda>y. reaches t (snd y)) (parse_prefix n t \<bind> (\<lambda>(x, s). parse_postfix n x s))"
        by (auto simp: case_prod_beta intro!: ensures_weaken [OF prefix])
    qed
    show ?case
      unfolding b_def [symmetric] parse_prefix.simps
      using 3 by (intro prefix_expr_runs ex operand) (auto simp: b_def)
  next
    case 4
    define b where "b \<longleftrightarrow> 2 * left s + 3 \<le> Suc n"
    show ?case
    proof (cases "postfix_step n (parse_expr n 0) x s")
      case (Some m)
      have step: "\<not> at_kind TkEnd s \<and> ensures b (\<lambda>y. reaches (bump s) (snd y)) m"
        using 4 by (intro postfix_step_runs [OF _ Some] ex) (auto simp: b_def)
      then have r: "left (bump s) < left s" "reaches s (bump s)"
        using moved 4 by auto
      have "ensures b (\<lambda>y. reaches s (snd y)) (parse_postfix n z t)" if "reaches (bump s) t" for z t
        using r left_reaches [OF that] reaches_ready [OF that] reaches_trans [OF r(2)] reaches_trans [OF that]
        by (intro ensures_mono [OF Suc.IH(4)]) (auto simp: b_def)
      then show ?thesis
        unfolding b_def [symmetric] using step by (auto simp: Some case_prod_beta elim!: ensures_weaken)
    qed (use 4 in simp)
  }
qed simp_all

end
