(* ===== verification/ParseBlocks.thy ===== *)
theory ParseBlocks
  imports ParseTotal
begin

text \<open>Statements, blocks and functions are read to their end, whatever the tokens are.\<close>

subsection \<open>Statements\<close>

lemma plain_runs: "reaches r t \<Longrightarrow> b \<longrightarrow> 2 * left t + 4 \<le> n \<Longrightarrow> ensures b (\<lambda>y. reaches r (snd y)) (plain_expr n t)"
  using expr_runs(1) [of t 0 n] reaches_ready [of r t] reaches_trans [OF reaches_advance]
  unfolding plain_expr_def by (fastforce elim!: ensures_mono)

lemma plain_past: "ready t \<Longrightarrow> b \<longrightarrow> 2 * left t + 4 \<le> n \<Longrightarrow> ensures b (\<lambda>y. past t (snd y)) (plain_expr n t)"
  using expr_runs(1) [of t 0 n] past_then [OF past_advance]
  unfolding plain_expr_def by (fastforce elim!: ensures_mono)

lemma finish_line_runs: "reaches r t \<Longrightarrow> b \<longrightarrow> left t < n \<Longrightarrow> ensures b (reaches r) (finish_line n t)"
proof -
  assume t: "reaches r t" and b: "b \<longrightarrow> left t < n"
  have "ensures b (reaches r) (skip_newlines n (bump t))" if "at_kind k t" "k \<noteq> TkEnd" for k
    using bump_step [OF t that] b by (intro ensures_weaken [OF skip_runs [of r "bump t" b n]]) auto
  then show ?thesis
    unfolding finish_line_def using t by (auto simp: consume_def)
qed

lemma line_stmt_runs: "reaches r t \<Longrightarrow> b \<longrightarrow> left t < n \<Longrightarrow> ensures b (\<lambda>y. reaches r (snd y)) (line_stmt n f t)"
  unfolding line_stmt_def by (auto intro!: ensures_weaken [OF finish_line_runs])

lemma within_left: "reaches r t \<Longrightarrow> b \<longrightarrow> 2 * left r + k \<le> n \<Longrightarrow> b \<longrightarrow> 2 * left t + k \<le> n"
  using left_reaches [of r t] by auto

lemma left_within: "reaches r t \<Longrightarrow> b \<longrightarrow> 2 * left r + 4 \<le> n \<Longrightarrow> b \<longrightarrow> left t < n"
  using left_reaches [of r t] by auto

text \<open>Statements that start with a keyword are read from the state behind it.\<close>

lemma parse_let_runs:
  assumes r: "reaches r (snd (advance s))" and n: "b \<longrightarrow> 2 * left r + 4 \<le> n"
  shows "ensures b (\<lambda>y. reaches r (snd y)) (parse_let n s)"
proof -
  have let_mut: "reaches r (snd (let_mutability k t))" if "reaches r t" for k t
    using that by (auto simp: let_mutability_def)
  have after: "ensures b (\<lambda>y. reaches r (snd y)) (plain_expr n (bump t))"
    "ensures b (\<lambda>y. reaches r (snd y)) (parse_type n (bump t))" if "reaches r t" "at_op p t" for p t
    using bump_step [OF that] within_left [OF bump_step(1) [OF that] n]
    by (auto intro!: plain_runs typed_runs)
  have type: "ensures b (\<lambda>y. reaches r (snd y)) (optional_type n t)" if "reaches r t" for t
    unfolding optional_type_def using that
    by (auto simp: consume_def case_prod_beta intro!: ensures_weaken [OF after(2)])
  have init: "ensures b (\<lambda>y. reaches r (snd y)) (let_init n t)" if "reaches r t" for t
    unfolding let_init_def using that
    by (auto simp: consume_def case_prod_beta intro!: ensures_weaken [OF after(1)])
  show ?thesis
    unfolding parse_let_def using r n left_within
    by (auto simp: case_prod_beta Let_def intro!: ensures_weaken [OF type] ensures_weaken [OF init] line_stmt_runs let_mut reaches_expect)
qed

lemma parse_return_runs:
  assumes r: "reaches r (snd (advance s))" and n: "b \<longrightarrow> 2 * left r + 4 \<le> n"
  shows "ensures b (\<lambda>y. reaches r (snd y)) (parse_return n s)"
proof -
  have line: "ensures b (\<lambda>y. reaches r (snd y)) (line_stmt n f t)" if "reaches r t" for f t
    by (rule line_stmt_runs [OF that left_within [OF that n]])
  have "ensures b (\<lambda>y. reaches r (snd y)) (plain_expr n (snd (advance s)))"
    by (rule plain_runs [OF r within_left [OF r n]])
  then show ?thesis
    unfolding parse_return_def Let_def case_prod_beta using r
    by (auto intro!: line ensures_if elim!: ensures_weaken split del: if_split)
qed

lemma parse_fence_runs:
  assumes r: "reaches r (snd (advance s))" and n: "b \<longrightarrow> 2 * left r + 4 \<le> n"
  shows "ensures b (\<lambda>y. reaches r (snd y)) (parse_fence n s)"
proof -
  have line: "ensures b (\<lambda>y. reaches r (snd y)) (line_stmt n f t)" if "reaches r t" for f t
    by (rule line_stmt_runs [OF that left_within [OF that n]])
  show ?thesis
    unfolding parse_fence_def using r by (auto simp: case_prod_beta Let_def intro!: line reaches_expect reaches_errorI)
qed

lemma keyword_stmt_runs:
  assumes r: "reaches r (snd (advance s))" and n: "b \<longrightarrow> 2 * left r + 4 \<le> n"
  shows "ensures b (\<lambda>y. reaches r (snd y)) (keyword_stmt n f s)"
  unfolding keyword_stmt_def using line_stmt_runs [OF r left_within [OF r n]] by (simp add: case_prod_beta)

lemma parse_expr_stmt_past:
  assumes s: "ready s" and n: "b \<longrightarrow> 2 * left s + 4 \<le> n"
  shows "ensures b (\<lambda>y. past s (snd y)) (parse_expr_stmt n s)"
proof -
  have line: "ensures b (\<lambda>y. past s (snd y)) (line_stmt n f u)" if "past s t" "reaches t u" for f t u
  proof -
    have "reaches s u"
      using that past_reaches reaches_trans by blast
    then show ?thesis
      using past_then [OF that(1)] that(2) by (intro ensures_weaken [OF line_stmt_runs [of t u b n]] left_within [OF _ n]) auto
  qed
  have operand: "ensures b (\<lambda>y. reaches t (snd y)) (plain_expr n (snd (advance t)))" if "past s t" for t
  proof -
    note st = past_reaches [OF that]
    have "reaches t (snd (advance t))" "reaches s (snd (advance t))"
      by (rule reaches_advance reaches_self [OF st] st)+
    then show ?thesis
      by (auto intro!: plain_runs within_left [OF _ n])
  qed
  show ?thesis
    unfolding parse_expr_stmt_def case_prod_beta Let_def
    by (auto intro!: ensures_weaken [OF plain_past [OF s n]] ensures_if ensures_weaken [OF operand] line
        dest: past_reaches intro: reaches_self)
qed

lemma parse_while_runs:
  assumes r: "reaches r (snd (advance s))" and n: "b \<longrightarrow> 2 * left r + 4 \<le> n" and blk: "runs b r blk"
  shows "ensures b (\<lambda>y. reaches r (snd y)) (parse_while n blk s)"
  unfolding parse_while_def
  by (auto simp: case_prod_beta Let_def intro!: ensures_weaken [OF plain_runs [OF r within_left [OF r n]]] ensures_weaken [OF runs_call [OF blk]])

lemma block_stmt_runs:
  assumes r: "reaches r (snd (advance s))" and blk: "runs b r blk"
  shows "ensures b (\<lambda>y. reaches r (snd y)) (block_stmt f blk s)"
  unfolding block_stmt_def
  by (auto simp: case_prod_beta Let_def intro!: ensures_weaken [OF runs_call [OF blk r r]])

lemma parse_for_runs:
  assumes r: "reaches r (snd (advance s))" and n: "b \<longrightarrow> 2 * left r + 4 \<le> n" and blk: "runs b r blk"
  shows "ensures b (\<lambda>y. reaches r (snd y)) (parse_for n blk s)"
proof -
  have range: "ensures b (\<lambda>y. reaches r (snd y)) (plain_expr n t)" if "reaches r t" for t
    by (rule plain_runs [OF that within_left [OF that n]])
  have dots: "reaches r (snd (case consume (TkOp OpDotDotEq) t of (True, s) \<Rightarrow> (True, s) | (False, s) \<Rightarrow> (False, snd (expect (TkOp OpDotDot) w s))))"
    if "reaches r t" for w t
    using that by (auto simp: consume_def intro: reaches_expect)
  show ?thesis
    unfolding parse_for_def using r
    by (auto simp: case_prod_beta Let_def
        intro!: ensures_weaken [OF range] ensures_weaken [OF runs_call [OF blk]] dots [unfolded case_prod_beta] reaches_expect)
qed

lemma parse_if_runs:
  assumes blk: "runs b r blk"
  shows "reaches r t \<Longrightarrow> b \<longrightarrow> 2 * left t + 5 \<le> n \<Longrightarrow> ensures b (\<lambda>y. reaches r (snd y)) (parse_if n blk keyword t)"
proof (induction n arbitrary: t keyword)
  case (Suc n)
  have cond: "ensures b (\<lambda>y. reaches t (snd y)) (plain_expr n t)"
    using Suc.prems reaches_self by (intro plain_runs) auto
  have body: "ensures b (\<lambda>y. reaches t (snd y)) (blk u)" if "reaches t u" for u
    using runs_call [OF blk] that Suc.prems(1) reaches_trans by blast
  have otherwise: "ensures b (\<lambda>y. reaches r (snd y)) (parse_else (parse_if n blk) blk u)" if u: "reaches t u" for u
  proof (cases "at_kw KwElse u")
    case True
    have ru: "reaches r u"
      using Suc.prems(1) u reaches_trans by blast
    have "advance u = (peek u, bump u)"
      using True reaches_ready [OF u] by (intro advance_at) auto
    note next_state = this and step = bump_step [OF ru True]
    have less: "left v < left t" if "reaches (bump u) v" for v
      using left_reaches [OF that] step left_reaches [OF u] by simp
    have again: "reaches r (bump (bump u))" "reaches (bump u) (bump (bump u))" if "at_kw KwIf (bump u)"
      using bump_step [OF step(1) that] by auto
    have nested: "ensures b (\<lambda>y. reaches r (snd y)) (parse_if n blk k v)" if "reaches r v" "reaches (bump u) v" for k v
      using Suc.prems(2) less [OF that(2)] that(1) by (intro Suc.IH) auto
    have "reaches (bump u) (bump u)"
      using step(2) reaches_self by blast
    then show ?thesis
      unfolding parse_else_def using True step again
      by (auto simp: next_state consume_def case_prod_beta Let_def
          intro!: ensures_weaken [OF nested] ensures_weaken [OF runs_call [OF blk]])
  next
    case False
    have "reaches r u"
      using Suc.prems(1) u reaches_trans by blast
    then show ?thesis
      using False by (simp add: parse_else_def)
  qed
  show ?case
    by (auto simp: case_prod_beta intro!: ensures_weaken [OF cond] ensures_weaken [OF body] ensures_weaken [OF otherwise])
qed simp

lemma stmt_at_past:
  assumes s: "ready s" and n: "b \<longrightarrow> 2 * left s + 4 \<le> n"
    and blk: "\<not> at_kind TkEnd s \<Longrightarrow> runs b (bump s) blk"
    and brace: "at_op OpLBrace s \<Longrightarrow> ensures b (\<lambda>y. past s (snd y)) (blk s)"
  shows "ensures b (\<lambda>y. past s (snd y)) (stmt_at n blk s)"
proof (cases "at_kind TkEnd s")
  case True
  then show ?thesis
    using parse_expr_stmt_past [OF s n] by (auto simp: stmt_at_def at_kind_def)
next
  case False
  note blk = blk [OF False]
  have past: "past s (bump s)"
    using past_bump [OF s, of "tok_kind (peek s)"] False by (auto simp: at_kind_def)
  have r: "reaches (bump s) (snd (advance s))"
    using reaches_self [OF past_reaches [OF past]] by (simp add: advance_not_end [OF s False])
  have m: "b \<longrightarrow> 2 * left (bump s) + 4 \<le> n" "b \<longrightarrow> 2 * left (bump s) + 5 \<le> n"
    using n left_past [OF past False] by auto
  have lift: "ensures b (\<lambda>y. past s (snd y)) x" if "ensures b (\<lambda>y. reaches (bump s) (snd y)) x" for x :: "(stmt \<times> parser) option"
    using that past_then [OF past] by (auto elim!: ensures_weaken)
  have nested: "ensures b (\<lambda>y. past s (snd y)) (nested_block blk (snd (advance s)))"
    unfolding nested_block_def using runs_call [OF blk r r] past_then [OF past]
    by (auto simp: case_prod_beta elim!: ensures_weaken)
  have braces: "ensures b (\<lambda>y. past s (snd y)) (nested_block blk s)" if "at_op OpLBrace s"
    unfolding nested_block_def using brace [OF that] by (auto simp: case_prod_beta elim!: ensures_weaken)
  have ifs: "ensures b (\<lambda>y. past s (snd y)) (case advance s of (k, u) \<Rightarrow> parse_if n blk k u)"
    using lift [OF parse_if_runs [OF blk _ m(2)]] r by (simp add: advance_not_end [OF s False])
  note keyword = parse_let_runs [OF r m(1)] parse_return_runs [OF r m(1)] parse_fence_runs [OF r m(1)] keyword_stmt_runs [OF r m(1)]
    parse_while_runs [OF r m(1) blk] parse_for_runs [OF r m(1) blk] block_stmt_runs [OF r blk]
  have split: "(c \<Longrightarrow> ensures b Q x) \<Longrightarrow> ensures b Q y \<Longrightarrow> ensures b Q (if c then x else y)" for c Q and x y :: "(stmt \<times> parser) option"
    by simp
  show ?thesis
    unfolding stmt_at_def by (intro split lift [OF keyword(1)] lift [OF keyword(2)] lift [OF keyword(3)] lift [OF keyword(4)]
        lift [OF keyword(5)] lift [OF keyword(6)] lift [OF keyword(7)] ifs nested braces parse_expr_stmt_past s n)
qed

subsection \<open>Blocks\<close>

lemma begin_suite_runs:
  assumes "ready s" "b \<longrightarrow> left s < n"
  shows "ensures b (\<lambda>y. reaches (if at_op OpLBrace s then bump s else s) (snd y)) (begin_suite n s)"
proof (cases "at_op OpLBrace s")
  case True
  then show ?thesis
    using bump_step [of s s "TkOp OpLBrace"] assms reaches_ready by (auto simp: begin_suite_def)
next
  case False
  have skip: "ensures b (\<lambda>u. reaches s u) (skip_newlines n t)" if "reaches s t" for t
    using left_reaches [OF that] that assms(2) by (intro ensures_weaken [OF skip_runs [of s t b n]]) auto
  show ?thesis
    using False assms(1)
    by (auto simp: begin_suite_def Let_def intro!: ensures_weaken [OF skip] reaches_expect)
qed

lemma end_suite_past:
  assumes "reaches s t" "at_any (suite_end braces) t" "b \<longrightarrow> left t < n"
  shows "ensures b (past s) (end_suite n braces t)"
proof -
  let ?u = "snd (if braces then expect (TkOp OpRBrace) (ticked ''}'') t else expect TkDedent ''end of indented block'' t)"
  have t: "ready t"
    using assms(1) reaches_ready by blast
  have "past t ?u"
  proof (cases "at_kind TkEnd t")
    case True
    have "reaches t ?u"
      using t by (auto intro: reaches_expect)
    then show ?thesis
      using True by (simp add: past_def)
  qed (use assms(2) past_expect [OF t] in \<open>auto simp: suite_end_def split: if_splits\<close>)
  moreover have "b \<longrightarrow> left ?u < n"
    using left_reaches [OF past_reaches [OF \<open>past t ?u\<close>]] assms(3) by auto
  ultimately show ?thesis
    unfolding end_suite_def using assms(1) past_then [of s ?u] then_past [of s t ?u] past_reaches reaches_self
    by (intro ensures_weaken [OF skip_runs [of ?u ?u b n]]) blast+
qed

text \<open>A block is read past a token, from the state behind its opening brace if it has one.\<close>

lemma block_of_past:
  assumes s: "ready s" and n: "b \<longrightarrow> left s < n" "b \<longrightarrow> Suc (left r) < n"
    and r: "r = (if at_op OpLBrace s then bump s else s)"
    and stmt: "\<And>t. reaches r t \<Longrightarrow> ensures b (\<lambda>y. past t (snd y)) (stmt t)"
  shows "ensures b (\<lambda>y. past s (snd y)) (block_of n stmt s)"
proof -
  have sr: "reaches s r"
    using s bump_step [of s s "TkOp OpLBrace"] by (auto simp: r)
  have begin_at: "ensures b (\<lambda>y. reaches r (snd y)) (begin_suite n s)"
    unfolding r by (rule begin_suite_runs [OF s n(1)])
  have items: "ensures b (\<lambda>y. reaches r (snd y) \<and> at_any (suite_end braces) (snd y)) (suite_items n stmt braces t)"
    if t: "reaches r t" for braces t
  proof -
    have "ensures b (\<lambda>y. reaches u (snd y) \<and> (b \<longrightarrow> past u (snd y))) (stmt u)" if "reaches r u" for u
      using stmt [OF that] past_reaches by (auto elim!: ensures_weaken)
    then show ?thesis
      using t n(2) left_reaches [OF t] reaches_trans [OF t]
      by (intro ensures_weaken [OF suite_items_runs [of r b stmt t n braces]]) auto
  qed
  have end_at: "ensures b (past s) (end_suite n braces t)" if "reaches r t" "at_any (suite_end braces) t" for braces t
    using that n(2) left_reaches [OF that(1)] reaches_trans [OF sr] by (intro end_suite_past) auto
  show ?thesis
    unfolding block_of_def
    by (auto simp: case_prod_beta simp del: list_ex_iff intro!: ensures_weaken [OF begin_at] ensures_weaken [OF items] ensures_weaken [OF end_at])
qed

lemma block_runs:
  "ready s \<Longrightarrow> ensures (2 * left s + (if at_op OpLBrace s then 4 else 6) \<le> n) (\<lambda>y. past s (snd y)) (parse_block n s)"
  "ready s \<Longrightarrow> ensures (2 * left s + 5 \<le> n) (\<lambda>y. past s (snd y)) (parse_stmt n s)"
proof (induction n arbitrary: s)
  case (Suc n)
  { case 1
    define b where "b \<longleftrightarrow> 2 * left s + (if at_op OpLBrace s then 4 else 6) \<le> Suc n"
    define r where "r = (if at_op OpLBrace s then bump s else s)"
    have r: "left r + (if at_op OpLBrace s then 1 else 0) \<le> left s"
      using bump_step(3) [of s s "TkOp OpLBrace"] 1 by (auto simp: r_def)
    have "ensures b (\<lambda>y. past t (snd y)) (parse_stmt n t)" if "reaches r t" for t
      using left_reaches [OF that] reaches_ready [OF that] r
      by (intro ensures_mono [OF Suc.IH(2)]) (auto simp: b_def split: if_splits)
    then show ?case
      unfolding b_def [symmetric] parse_block.simps using 1 r
      by (intro block_of_past [where r = r]) (auto simp: b_def r_def split: if_splits)
  next
    case 2
    define b where "b \<longleftrightarrow> 2 * left s + 5 \<le> Suc n"
    have stmt: "ensures b (\<lambda>y. past s (snd y)) (stmt_at n (parse_block n) t)" if t: "reaches s t" for t
    proof -
      note le = left_reaches [OF t] reaches_ready [OF t]
      have "runs b (bump t) (parse_block n)" if on: "\<not> at_kind TkEnd t"
        unfolding runs_def
      proof (intro allI impI)
        fix u
        assume u: "reaches (bump t) u"
        have "left (bump t) < left t"
          using bump_step [OF t] on by (auto simp: at_kind_def)
        then show "ensures b (\<lambda>y. reaches u (snd y)) (parse_block n u)"
          using le left_reaches [OF u] reaches_ready [OF u] past_reaches
          by (intro ensures_mono [OF Suc.IH(1)]) (auto simp: b_def)
      qed
      moreover have "ensures b (\<lambda>y. past t (snd y)) (parse_block n t)" if "at_op OpLBrace t"
        using le that by (intro ensures_mono [OF Suc.IH(1)]) (auto simp: b_def)
      ultimately have "ensures b (\<lambda>y. past t (snd y)) (stmt_at n (parse_block n) t)"
        using le by (intro stmt_at_past) (auto simp: b_def)
      then show ?thesis
        using then_past [OF t] by (auto elim!: ensures_weaken)
    qed
    have "ensures b (\<lambda>t. reaches s t) (skip_newlines n s)"
      using 2 by (intro ensures_weaken [OF skip_runs [of s s b n]]) (auto simp: b_def)
    then show ?case
      unfolding b_def [symmetric] by (auto intro!: stmt elim!: ensures_weaken)
  }
qed simp_all

subsection \<open>Functions and implementations\<close>

lemma function_body_past:
  assumes s: "ready s" and n: "b \<longrightarrow> 2 * left s + 6 \<le> n"
  shows "ensures b (\<lambda>y. past s (snd y)) (function_body n omit s)"
proof -
  have line: "ensures b (past s) (finish_line n s)" if "at_any [TkNewline, TkOp OpSemicolon, TkEnd] s"
  proof (cases "at_kind TkEnd s")
    case True
    then show ?thesis
      using s by (auto simp: finish_line_def at_kind_def past_def)
  next
    case False
    then have "at_kind TkNewline s \<or> at_op OpSemicolon s"
      using that by simp
    then obtain k where k: "at_kind k s" "k \<in> {TkNewline, TkOp OpSemicolon}"
      by blast
    have p: "past s (bump s)"
      using k by (intro past_bump [OF s]) auto
    have "b \<longrightarrow> left (bump s) < n"
      using n by (auto simp: left_def)
    then have "ensures b (past s) (skip_newlines n (bump s))"
      using past_then [OF p] reaches_self [OF past_reaches [OF p]] by (intro ensures_weaken [OF skip_runs [of "bump s" "bump s" b n]]) auto
    then show ?thesis
      using k by (auto simp: finish_line_def at_kind_def)
  qed
  have "ensures b (\<lambda>y. past s (snd y)) (parse_block n s)"
    using n by (intro ensures_mono [OF block_runs(1) [OF s]]) auto
  then show ?thesis
    unfolding function_body_def case_prod_beta using line
    by (cases "omit \<and> at_any [TkNewline, TkOp OpSemicolon, TkEnd] s") (auto simp del: list_ex_iff elim!: ensures_weaken)
qed

lemma parse_function_past:
  assumes s: "ready s" and n: "b \<longrightarrow> 2 * left s + 6 \<le> n"
  shows "ensures b (\<lambda>y. past s (snd y)) (parse_function n m s)"
proof -
  have within: "b \<longrightarrow> 2 * left t + k \<le> n" if "reaches s t" "k \<le> 6" for t k
    using n left_reaches [OF that(1)] that(2) by auto
  have generics: "ensures b (\<lambda>y. reaches s (snd y)) (parse_generics n t)" if "reaches s t" for t
    by (rule runs_withinD [OF parse_generics_runs that within [OF that]]) simp
  have signature: "ensures b (\<lambda>y. reaches s (snd y)) (parse_signature n t)" if "reaches s t" for t
    by (rule runs_withinD [OF parse_signature_runs that within [OF that]]) simp
  have clause: "ensures b (\<lambda>y. reaches s (snd y)) (parse_where_clause n gs t)" if "reaches s t" for gs t
    by (rule runs_withinD [OF where_clause_runs that within [OF that]]) simp
  have body: "ensures b (\<lambda>y. past s (snd y)) (function_body n omit t)" if "reaches s t" for omit t
    using then_past [OF that] by (intro ensures_weaken [OF function_body_past [OF reaches_ready [OF that] within [OF that]]]) auto
  show ?thesis
    unfolding parse_function_def using s
    by (auto simp: case_prod_beta Let_def intro!: ensures_weaken [OF generics] ensures_weaken [OF signature]
        ensures_weaken [OF clause] ensures_weaken [OF body] reaches_expect)
qed

lemma method_modifiers_runs: "reaches r s \<Longrightarrow> b \<longrightarrow> left s < n \<Longrightarrow> ensures b (\<lambda>y. reaches r (snd y)) (method_modifiers n m s)"
proof (induction n arbitrary: m s)
  case (Suc n)
  have more: "ensures b (\<lambda>y. reaches r (snd y)) (method_modifiers n m (bump s))" if "at_kw k s" for k m
    using bump_step [OF Suc.prems(1) that] Suc.prems(2) by (intro Suc.IH) auto
  show ?case
    using Suc.prems(1) by (auto intro: more)
qed simp

lemma impl_entry_past:
  assumes s: "ready s" and n: "b \<longrightarrow> 2 * left s + 6 \<le> n"
  shows "ensures b (\<lambda>y. past s (snd y)) (impl_entry n s)"
proof -
  have within: "b \<longrightarrow> 2 * left t + 6 \<le> n" "b \<longrightarrow> left t < n" if "reaches s t" for t
    using n left_reaches [OF that] by auto
  have pass: "ensures b (past s) (finish_line n (bump s))" if "at_kw KwPass s"
  proof -
    have p: "past s (bump s)"
      using that by (intro past_bump [OF s]) auto
    show ?thesis
      using past_then [OF p] reaches_self [OF past_reaches [OF p]] within [OF past_reaches [OF p]]
      by (intro ensures_weaken [OF finish_line_runs]) auto
  qed
  have modifiers: "ensures b (\<lambda>y. reaches s (snd y)) (method_modifiers n no_modifiers s)"
    using s within [of s] by (intro method_modifiers_runs) auto
  have member: "ensures b (\<lambda>y. past s (snd y)) (parse_function n m t)" if "reaches s t" for m t
    using within [OF that] reaches_ready [OF that] then_past [OF that]
    by (intro ensures_weaken [OF parse_function_past]) auto
  show ?thesis
    unfolding impl_entry_def
    by (auto simp: consume_def case_prod_beta intro!: ensures_weaken [OF pass] ensures_weaken [OF modifiers] ensures_weaken [OF member])
qed

lemma impl_head_runs:
  assumes "reaches r s" "b \<longrightarrow> 2 * left r + 2 \<le> n"
  shows "ensures b (\<lambda>y. reaches r (snd y)) (impl_head n new_style s)"
proof -
  have type: "ensures b (\<lambda>y. reaches r (snd y)) (parse_type n t)" if "reaches r t" for t
    by (rule typed_runs [OF that within_left [OF that assms(2)]])
  have more: "reaches r (bump t)" if "reaches r t" "at_kw k t" for k t
    using bump_step(1) [OF that] by simp
  show ?thesis
    unfolding impl_head_def using assms(1)
    by (auto simp: consume_def case_prod_beta intro!: ensures_weaken [OF type] reaches_expect_name intro: more)
qed

text \<open>A suite with its opening and its end, when every entry is read past a token.\<close>

lemma suite_runs:
  assumes s: "reaches r s" and n: "b \<longrightarrow> Suc (left r) < n"
    and entry: "\<And>braces t. reaches r t \<Longrightarrow> \<not> at_kind TkEnd t \<Longrightarrow> ensures b (\<lambda>y. reaches t (snd y) \<and> (b \<longrightarrow> past t (snd y))) (entry braces t)"
  shows "ensures b (\<lambda>y. ensures b (\<lambda>z. ensures b (reaches r) (end_suite n (fst y) (snd z))) (suite_items n (entry (fst y)) (fst y) (snd y)))
    (begin_suite n s)"
proof -
  have le: "b \<longrightarrow> Suc (left t) < n" if "reaches r t" for t
    using n left_reaches [OF that] by auto
  have begin_at: "ensures b (\<lambda>y. reaches r (snd y)) (begin_suite n s)"
    using le [OF s] s bump_step [OF s, of "TkOp OpLBrace"] reaches_trans reaches_ready [OF s]
    by (intro ensures_weaken [OF begin_suite_runs]) (auto split: if_splits)
  have items: "ensures b (\<lambda>y. reaches r (snd y) \<and> at_any (suite_end braces) (snd y)) (suite_items n (entry braces) braces t)"
    if "reaches r t" for braces t
    using entry le [OF that] that reaches_trans [OF that]
    by (intro ensures_weaken [OF suite_items_runs [of r b "entry braces" t n braces]]) auto
  have end_at: "ensures b (reaches r) (end_suite n braces t)" if "reaches r t" "at_any (suite_end braces) t" for braces t
    using that le [OF that(1)] past_reaches by (intro ensures_weaken [OF end_suite_past [of r t braces]]) auto
  show ?thesis
    by (auto simp del: list_ex_iff intro!: ensures_weaken [OF begin_at] ensures_weaken [OF items] ensures_weaken [OF end_at])
qed

lemma parse_impl_runs: "runs_within 6 parse_impl"
proof -
  have "ensures b (\<lambda>y. reaches s (snd y)) (parse_impl n s)" if s: "ready s" and n: "b \<longrightarrow> 2 * left s + 6 \<le> n" for b n s
  proof -
    have entry: "ensures b (\<lambda>y. reaches t (snd y) \<and> (b \<longrightarrow> past t (snd y))) (impl_entry n t)" if "reaches s t" for t
      using n left_reaches [OF that] reaches_ready [OF that] past_reaches
      by (intro ensures_weaken [OF impl_entry_past]) auto
    have head: "ensures b (\<lambda>y. reaches s (snd y)) (impl_head n new_style t)" if "reaches s t" for new_style t
      using n that by (intro impl_head_runs) auto
    have "b \<longrightarrow> Suc (left s) < n"
      using n by auto
    note suite = suite_runs [OF _ this, where entry = "\<lambda>_. impl_entry n"]
    show ?thesis
      unfolding parse_impl_def using s
      by (auto simp: case_prod_beta Let_def intro!: ensures_weaken [OF head] ensures_weaken [OF suite] entry reaches_expect
          elim!: ensures_weaken)
  qed
  then show ?thesis
    unfolding runs_within_def by blast
qed

end
