(* ===== verification/ParseModule.thy ===== *)
theory ParseModule
  imports ParseBlocks LexerLayout
begin

text \<open>
  Modules: what the parser of functions promises on every token sequence, what holds of the modules
  that are read, and the inputs on which the loop over a module or over a suite never ends.
\<close>

subsection \<open>Functions\<close>

text \<open>
  C23: reading a function returns. With fuel of twice the number of tokens left and six more, the parser of
  functions, with the statements and expressions inside, returns on every sequence of tokens that
  ends with End; it stays inside the sequence, goes past a token unless it starts at End, and only
  adds diagnostics.
\<close>

theorem parse_function_returns:
  assumes "tok_kind (last (ps_toks s)) = TkEnd" "ps_pos s < length (ps_toks s)"
    and "2 * (length (ps_toks s) - 1 - ps_pos s) + 6 \<le> n"
  shows "\<exists>f t. parse_function n m s = Some (f, t) \<and> ps_toks t = ps_toks s \<and> ps_pos t < length (ps_toks s) \<and>
    (at_kind TkEnd s \<or> ps_pos s < ps_pos t) \<and> diag_le (ps_diags s) (ps_diags t)"
proof -
  have "ready s" "2 * left s + 6 \<le> n"
    using assms by (auto simp: ready_def left_def)
  from ensuresD [OF parse_function_past [OF this(1), of True n m]] this(2) show ?thesis
    by (auto simp: past_def reaches_def ready_def)
qed

text \<open>Witness of C23: a function header that breaks off.\<close>

lemma parse_function_returns_witness:
  "\<exists>f t. parse_function 14 no_modifiers (new_parser (fst (lex ''f'' ''fn g('' no_diagnostics)) no_diagnostics) = Some (f, t)"
proof -
  let ?s = "new_parser (fst (lex ''f'' ''fn g('' no_diagnostics)) no_diagnostics"
  have k: "map tok_kind (ps_toks ?s) = [TkKw KwFn, TkIdentifier, TkOp OpLParen, TkNewline, TkEnd]"
    by (simp add: new_parser_def) code_simp
  have l: "length (ps_toks ?s) = 5"
    using arg_cong [OF k, of length] by simp
  have "tok_kind (last (ps_toks ?s)) = TkEnd"
    using arg_cong [OF k, of last] l by (subst last_map [symmetric]) auto
  moreover have "ps_pos ?s = 0"
    by (simp add: new_parser_def)
  ultimately show ?thesis
    using parse_function_returns [of ?s 14 no_modifiers] l by auto
qed

subsection \<open>Inputs that are never read\<close>



lemma at_kind_error [simp]: "at_kind k (parse_error r c msg s) = at_kind k s"
  by (simp add: at_kind_def peek_at_def parse_error_def)





lemma kinds_ahead_error [simp]: "kinds_ahead (parse_error r c msg s) = kinds_ahead s"
  by (simp add: kinds_ahead_def parse_error_def)












subsection \<open>Requirements\<close>

text \<open>Items and requirements only add diagnostics, whether or not they are read to their end.\<close>

lemma partial_call: "runs_within k p \<Longrightarrow> reaches s t \<Longrightarrow> ensures False (\<lambda>y. reaches s (snd y)) (p n t)"
  by (rule runs_withinD) auto

lemma partial_line: "reaches s t \<Longrightarrow> ensures False (reaches s) (finish_line n t)"
  by (rule finish_line_runs) auto

lemma parse_struct_partial:
  assumes s: "ready s"
  shows "ensures False (\<lambda>y. reaches s (snd y)) (parse_struct n pub s)"
proof -
  have parsed: "ensures False (\<lambda>y. reaches t (snd y)) (parse_field n t)" if "reaches s t" for t
    unfolding parse_field_def using reaches_self [OF that]
    by (auto simp: case_prod_beta Let_def intro!: ensures_weaken [OF partial_call [OF parse_type_runs, of t]]
        reaches_consume reaches_expect reaches_expect_name)
  have sep: "reaches t (bump u)" if "reaches t u" "at_op p u" for p t u
    using bump_step(1) [OF that] by simp
  have field: "ensures False (\<lambda>y. reaches t (snd y) \<and> (False \<longrightarrow> past t (snd y))) (struct_field n braces t)" if "reaches s t" for braces t
    unfolding struct_field_def
    by (auto simp: case_prod_beta consume_def intro!: ensures_weaken [OF parsed [OF that]] ensures_weaken [OF partial_line] intro: sep)
  note suite = suite_runs [where b = False, simplified, OF _ field [simplified]]
  show ?thesis
    unfolding parse_struct_def using s
    by (auto simp: case_prod_beta Let_def intro!: ensures_weaken [OF partial_call [OF parse_generics_runs]]
        ensures_weaken [OF partial_call [OF where_clause_runs]] ensures_weaken [OF suite] reaches_expect elim!: ensures_weaken)
qed

lemma parse_trait_partial:
  assumes s: "ready s"
  shows "ensures False (\<lambda>y. reaches s (snd y)) (parse_trait n pub s)"
proof -
  have member: "ensures False (\<lambda>y. reaches t (snd y) \<and> (False \<longrightarrow> past t (snd y))) (parse_trait_method n braces t)"
    if "reaches s t" for braces t
    unfolding parse_trait_method_def using reaches_self [OF that]
    by (auto simp: case_prod_beta Let_def intro!: ensures_weaken [OF partial_call [OF parse_signature_runs, of t]]
        ensures_weaken [OF partial_line] reaches_consume reaches_expect)
  note suite = suite_runs [where b = False, simplified, OF _ member [simplified]]
  show ?thesis
    unfolding parse_trait_def using s
    by (auto simp: case_prod_beta Let_def intro!: ensures_weaken [OF partial_call [OF parse_generics_runs]]
        ensures_weaken [OF suite] reaches_expect elim!: ensures_weaken)
qed

lemma parse_global_partial:
  assumes s: "ready s"
  shows "ensures False (\<lambda>y. reaches s (snd y)) (parse_global n m is_const is_static s)"
proof -
  have sep: "reaches s (bump u)" if "reaches s u" "at_kw k u" for k u
    using bump_step(1) [OF that] by simp
  have mutable: "reaches s (snd (global_mutability is_const is_static s))"
    unfolding global_mutability_def Let_def using s
    by (auto simp: consume_def intro!: sep reaches_errorI reaches_expect)
  have init: "ensures False (\<lambda>y. reaches s (snd y)) (plain_expr n t)" if "reaches s t" for t
    using that by (rule plain_runs) simp
  show ?thesis
    unfolding parse_global_def
    by (auto simp: case_prod_beta Let_def intro!: ensures_weaken [OF partial_call [OF parse_type_runs, of s]]
        ensures_weaken [OF init] ensures_weaken [OF partial_line] mutable reaches_expect)
qed

lemma parse_marker_partial:
  assumes s: "ready s"
  shows "ensures False (\<lambda>y. reaches s (snd y)) (parse_marker n s)"
  unfolding parse_marker_def using s
  by (auto simp: case_prod_beta Let_def intro!: ensures_weaken [OF partial_call [OF parse_type_runs, of s]]
      ensures_weaken [OF partial_call [OF where_clause_runs, of s]] ensures_weaken [OF partial_line])

lemma synchronize_partial: "reaches s t \<Longrightarrow> ensures False (reaches s) (synchronize_item n t)"
proof (induction n arbitrary: t)
  case (Suc n)
  have "reaches s (bump t)" if "at_any [TkNewline, TkOp OpSemicolon] t"
    using that bump_step(1) [OF Suc.prems] by auto
  then show ?case
    using Suc.prems Suc.IH [OF reaches_advance [OF Suc.prems]] by auto
qed simp

lemma parse_item_partial:
  assumes s: "ready s"
  shows "ensures False (\<lambda>y. reaches s (snd y)) (parse_item n m s)"
proof -
  have bad: "ensures False (\<lambda>y. reaches s (snd y)) (bad_item n code msg s)" for code msg
    unfolding bad_item_def using s by (auto intro!: ensures_weaken [OF synchronize_partial] reaches_errorI)
  have parsed: "ensures False (\<lambda>y. reaches s (snd y)) (parse_function n m s)"
    using past_reaches by (intro ensures_weaken [OF parse_function_past [OF s]]) auto
  have impl: "ensures False (\<lambda>y. reaches s (snd y)) (parse_impl n s)"
    using s by (intro partial_call [OF parse_impl_runs]) simp
  have lift: "ensures False (\<lambda>y. reaches s (snd y)) (as_item f r)" if "ensures False (\<lambda>y. reaches s (snd y)) r" for f :: "'a \<Rightarrow> item" and r
    using that by (cases r) (auto simp: as_item_def)
  show ?thesis
    unfolding parse_item_def
    by (intro ensures_if bad lift [OF parsed] lift [OF impl] lift [OF parse_struct_partial [OF s]] lift [OF parse_trait_partial [OF s]]
        lift [OF parse_global_partial [OF s]] lift [OF parse_marker_partial [OF s]])
qed

lemma item_modifiers_partial: "reaches r s \<Longrightarrow> ensures False (\<lambda>y. reaches r (snd y)) (item_modifiers n m s)"
proof (induction n arbitrary: m s)
  case (Suc n)
  have more: "ensures False (\<lambda>y. reaches r (snd y)) (item_modifiers n m (bump s))" if "at_kw k s" for k m
    using bump_step(1) [OF Suc.prems that] by (intro Suc.IH) simp
  have abi: "ensures False (\<lambda>y. reaches r (snd y)) (item_modifiers n m (snd (advance (bump s))))" if "at_kw k s" for k m
    using reaches_advance [OF bump_step(1) [OF Suc.prems that]] by (intro Suc.IH) simp
  show ?case
    using Suc.prems by (auto simp: Let_def case_prod_beta intro: more abi)
qed simp

text \<open>What holds of the requirements of a module while it is read.\<close>

definition requirements_ok :: "ast_module \<Rightarrow> diagnostics \<Rightarrow> bool" where
  "requirements_ok m ds \<longleftrightarrow> (has_errors ds \<or> set (am_needs m) \<inter> set (am_dontneeds m) = {}) \<and>
     distinct (am_needs m) \<and> distinct (am_dontneeds m) \<and> (am_no_std m \<longleftrightarrow> ''std'' \<in> set (am_dontneeds m))"

lemma requirements_later: "requirements_ok m ds \<Longrightarrow> diag_le ds ds' \<Longrightarrow> requirements_ok m ds'"
  using diag_le_has_errors by (auto simp: requirements_ok_def)

lemma record_requirement_ok:
  assumes "requirements_ok m (ps_diags s)"
  shows "requirements_ok (fst (record_requirement r disabled name m s)) (ps_diags (snd (record_requirement r disabled name m s)))"
  using assms by (auto simp: record_requirement_def requirements_ok_def Let_def add_bound_def parse_error_def)

lemma record_requirement_reaches: "reaches r s \<Longrightarrow> reaches r (snd (record_requirement x disabled name m s))"
  by (auto simp: record_requirement_def Let_def reaches_errorI)

definition step_ok :: "ast_module \<Rightarrow> parser \<Rightarrow> ast_module \<times> parser \<Rightarrow> bool" where
  "step_ok m s y \<longleftrightarrow> reaches s (snd y) \<and> (requirements_ok m (ps_diags s) \<longrightarrow> requirements_ok (fst y) (ps_diags (snd y)))"

lemma requirements_reached: "reaches s t \<Longrightarrow> requirements_ok m (ps_diags s) \<Longrightarrow> requirements_ok m (ps_diags t)"
  using requirements_later by (auto simp: reaches_def)

lemma parse_requirement_ok:
  assumes s: "ready s"
  shows "ensures False (step_ok m s) (parse_requirement n disabled m s)"
proof -
  have dotted: "ensures False (\<lambda>y. reaches s (snd y)) (dotted_name n name t)" if "reaches s t" for n name t
    using that
  proof (induction n arbitrary: name t)
    case (Suc n)
    have "ensures False (\<lambda>y. reaches s (snd y)) (dotted_name n x (snd (expect TkIdentifier w (bump t))))" if "at_op OpDot t" for x w
      using bump_step(1) [OF Suc.prems that] by (intro Suc.IH reaches_expect) simp
    then show ?case
      using Suc.prems by (auto simp: consume_def case_prod_beta)
  qed simp
  have name: "ensures False (\<lambda>y. reaches s (snd y)) (parse_requirement_name n t)" if "reaches s t" for t
    unfolding parse_requirement_name_def using that
    by (auto simp: case_prod_beta intro!: dotted reaches_errorI)
  have ok: "ensures False (\<lambda>y. step_ok m s (fst (record_requirement r disabled x m t), y)) (finish_line n (snd (record_requirement r disabled x m t)))"
    if t: "reaches s t" for r x t
  proof -
    let ?y = "record_requirement r disabled x m t"
    have y: "reaches s (snd ?y)"
      by (rule record_requirement_reaches [OF t])
    have line: "ensures False (reaches (snd ?y)) (finish_line n (snd ?y))"
      by (rule partial_line [OF reaches_self [OF y]])
    show ?thesis
      using reaches_trans [OF y] record_requirement_ok [OF requirements_reached [OF t]] requirements_reached
      by (intro ensures_weaken [OF line]) (auto simp: step_ok_def)
  qed
  show ?thesis
    unfolding parse_requirement_def using s
    by (auto simp: case_prod_beta Let_def intro!: ensures_weaken [OF name] ensures_weaken [OF ok])
qed

lemma parse_smp_mode_ok:
  assumes s: "ready s"
  shows "ensures False (step_ok m s) (parse_smp_mode n m s)"
proof -
  have after: "reaches s (snd (advance s))"
    using s by auto
  have sep: "reaches s (bump (snd (advance s)))" if "at_kw k (snd (advance s))" for k
    using bump_step(1) [OF after that] by simp
  have same: "requirements_ok m' (ps_diags t)" if "reaches s t" "requirements_ok m (ps_diags s)"
      "am_needs m' = am_needs m" "am_dontneeds m' = am_dontneeds m" "am_no_std m' = am_no_std m" for m' t
    using requirements_reached [OF that(1,2)] that(3-) by (simp add: requirements_ok_def)
  show ?thesis
    unfolding parse_smp_mode_def
    by (auto simp: case_prod_beta Let_def step_ok_def intro!: ensures_weaken [OF partial_line] intro: sep same after reaches_errorI)
qed

lemma module_step_ok:
  assumes s: "ready s"
  shows "ensures False (step_ok m s) (module_step n m s)"
proof -
  have item: "ensures False (\<lambda>y. reaches s (snd y)) (parse_item n x t)" if "reaches s t" for x t
    using reaches_trans [OF that] by (intro ensures_weaken [OF parse_item_partial]) (auto intro: reaches_ready [OF that])
  have modifiers: "ensures False (\<lambda>y. reaches s (snd y)) (item_modifiers n x s)" for x
    using s by (intro item_modifiers_partial) simp
  have skip: "ensures False (reaches s) (skip_newlines n t)" if "reaches s t" for t
    using that by (intro ensures_weaken [OF skip_runs [of s t False n]]) auto
  have same: "requirements_ok (add_item x m) (ps_diags t)" if "reaches s t" "requirements_ok m (ps_diags s)" for x t
    using requirements_reached [OF that] by (simp add: requirements_ok_def add_item_def split: option.split)
  show ?thesis
    unfolding module_step_def using parse_requirement_ok [OF s] parse_smp_mode_ok [OF s]
    by (auto simp: case_prod_beta step_ok_def intro!: ensures_weaken [OF modifiers] ensures_weaken [OF item] ensures_weaken [OF skip] same)
qed

lemma module_loop_ok: "ready s \<Longrightarrow> ensures False (step_ok m s) (module_loop n m s)"
proof (induction n arbitrary: m s)
  case (Suc n)
  have more: "ensures False (step_ok m s) (module_loop n (fst y) (snd y))" if "step_ok m s y" for y
    using that reaches_trans [of s "snd y"] reaches_ready [of s "snd y"]
    by (intro ensures_weaken [OF Suc.IH]) (auto simp: step_ok_def)
  have "step_ok m s (m, s)"
    using Suc.prems by (simp add: step_ok_def)
  then show ?case
    by (auto simp: case_prod_beta intro!: more ensures_weaken [OF module_step_ok [OF Suc.prems]])
qed simp

text \<open>
  C31: requirements. When a module is read without a diagnostic, no component is both needed and disabled;
  none is listed twice, and the module does without the standard library exactly when std is among
  the disabled components. Reading never removes a diagnostic.
\<close>

theorem module_requirements:
  assumes "parse_module n file ts ds = Some (m, ds')" "ts \<noteq> []" "tok_kind (last ts) = TkEnd"
  shows "diag_le ds ds' \<and> (\<not> has_errors ds' \<longrightarrow> set (am_needs m) \<inter> set (am_dontneeds m) = {}) \<and>
    distinct (am_needs m) \<and> distinct (am_dontneeds m) \<and> (am_no_std m \<longleftrightarrow> ''std'' \<in> set (am_dontneeds m))"
proof -
  let ?s = "new_parser ts ds"
  have s: "ready ?s"
    using assms(2,3) by (simp add: ready_def new_parser_def)
  have skip: "ensures False (reaches ?s) (skip_newlines n ?s)"
    using s by (intro ensures_weaken [OF skip_runs [of ?s ?s False n]]) auto
  have new: "requirements_ok (new_module file) d" for d
    by (simp add: requirements_ok_def new_module_def)
  have loop: "ensures False (\<lambda>y. reaches ?s (snd y) \<and> requirements_ok (fst y) (ps_diags (snd y))) (module_loop n (new_module file) t)"
    if "reaches ?s t" for t
    using new reaches_trans [OF that]
    by (intro ensures_weaken [OF module_loop_ok]) (auto simp: step_ok_def intro: reaches_ready [OF that])
  have "ensures False (\<lambda>y. diag_le ds (snd y) \<and> requirements_ok (fst y) (snd y)) (parse_module n file ts ds)"
  proof -
    have "diag_le ds (ps_diags t)" if "reaches ?s t" for t
      using that by (simp add: reaches_def new_parser_def)
    then show ?thesis
      unfolding parse_module_def by (auto simp: case_prod_beta intro!: ensures_weaken [OF skip] ensures_weaken [OF loop])
  qed
  then show ?thesis
    using assms(1) by (auto simp: requirements_ok_def)
qed

text \<open>Witness of C31: a module that needs one component and disables another.\<close>

lemma module_requirements_witness:
  "\<exists>m ds. parse_module 9 ''f'' (fst (lex ''f'' (''need net'' @ [CHR 0x0A] @ ''dontneed std'') no_diagnostics)) no_diagnostics = Some (m, ds) \<and>
     set (am_needs m) \<inter> set (am_dontneeds m) = {} \<and> am_no_std m"
proof -
  let ?ts = "fst (lex ''f'' (''need net'' @ [CHR 0x0A] @ ''dontneed std'') no_diagnostics)"
  have run: "map_option (\<lambda>(m, ds). (has_errors ds, am_dontneeds m)) (parse_module 9 ''f'' ?ts no_diagnostics) = Some (False, [''std''])"
    by code_simp
  then obtain m ds where m: "parse_module 9 ''f'' ?ts no_diagnostics = Some (m, ds)" "\<not> has_errors ds" "am_dontneeds m = [''std'']"
    by (cases "parse_module 9 ''f'' ?ts no_diagnostics") auto
  have "?ts \<noteq> [] \<and> tok_kind (last ?ts) = TkEnd"
    by code_simp
  with module_requirements [OF m(1)] m show ?thesis
    by auto
qed

end
