(* ===== verification/ParseRound.thy ===== *)
theory ParseRound
  imports ParseExpr Lexer
begin

text \<open>
  Round trip of expressions: an expression that is written out with the fewest parentheses the
  precedences allow is read back as itself.
\<close>

subsection \<open>Expressions without their positions\<close>


subsection \<open>Writing\<close>

type_synonym spelling = "token_kind \<times> string"










subsection \<open>What enough fuel gives\<close>

definition yields :: "(nat \<Rightarrow> 'a option) \<Rightarrow> 'a \<Rightarrow> bool" where
  "yields p r \<longleftrightarrow> (\<exists>N. \<forall>n \<ge> N. p n = Some r)"

lemma yields_const [simp]: "yields (\<lambda>n. Some x) r \<longleftrightarrow> x = r"
  by (auto simp: yields_def)



subsection \<open>The words ahead\<close>

definition ahead :: "parser \<Rightarrow> spelling list" where
  "ahead s = map (\<lambda>t. (tok_kind t, tok_text t)) (drop (ps_pos s) (ps_toks s))"


lemma ahead_at:
  assumes "ahead s = (k, w) # ws"
  shows "at_kind j s \<longleftrightarrow> j = k" "tok_kind (peek s) = k" "tok_text (peek s) = w" "ahead (bump s) = ws"
proof -
  have p: "ps_pos s < length (ps_toks s)"
    using assms by (auto simp: ahead_def intro: ccontr)
  then have "drop (ps_pos s) (ps_toks s) = peek s # drop (Suc (ps_pos s)) (ps_toks s)"
    by (simp add: peek_at_def min_def Cons_nth_drop_Suc)
  with assms show "at_kind j s \<longleftrightarrow> j = k" "tok_kind (peek s) = k" "tok_text (peek s) = w" "ahead (bump s) = ws"
    by (auto simp: ahead_def at_kind_def bump_def)
qed

lemma ahead_advance:
  assumes "ahead s = (k, w) # ws" "ws \<noteq> []"
  shows "advance s = (peek s, bump s)"
proof -
  have "length (drop (ps_pos s) (ps_toks s)) = Suc (length ws)"
    using assms(1) by (metis ahead_def length_Cons length_map)
  then show ?thesis
    using assms(2) by (cases ws) (auto simp: advance_def)
qed


lemma ahead_simps [simp]:
  "ahead (s\<lparr>ps_next := i\<rparr>) = ahead s" "ps_diags (bump s) = ps_diags s" "ps_next (bump s) = ps_next s"
  by (simp_all add: ahead_def bump_def)

subsection \<open>Reading\<close>

text \<open>The operand of a prefix operator, and what a binary expression starts with.\<close>

definition operand :: "nat \<Rightarrow> expr_parser" where
  "operand n s = parse_prefix n s \<bind> (\<lambda>(x, s). parse_postfix n x s)"



















subsection \<open>Prefix operators\<close>







subsection \<open>Postfix forms\<close>








text \<open>The brackets in the words of an expression match.\<close>

definition matched :: "spelling list \<Rightarrow> bool" where
  "matched w \<longleftrightarrow> (\<forall>d ks. 0 < d \<longrightarrow> call_scan (TkOp OpLBracket) (TkOp OpRBracket) d (map fst w @ ks) =
     call_scan (TkOp OpLBracket) (TkOp OpRBracket) d ks)"

lemma matched_Nil [simp]: "matched []"
  by (simp add: matched_def)













subsection \<open>Binary operators\<close>



subsection \<open>The round trip\<close>












subsection \<open>Where the grammar departs from its look\<close>

text \<open>A name in front of a brace opens a structure, also where the brace opens the body of a loop.\<close>

lemma name_opens_structure:
  assumes "ahead s = (TkIdentifier, x) # (TkOp OpLBrace, w) # ws" "parse_prefix n s = Some (e, t)"
  shows "\<exists>i r fs. e = StructLiteralExpr i r x [] fs"
proof -
  note at = ahead_at [OF assms(1)] and at' = ahead_at [OF ahead_at(4) [OF assms(1)]]
  have "struct_literal_ahead (bump s)"
    by (simp add: struct_literal_ahead_def at')
  then have "prefix_expr m ex operand s = parse_struct_literal m ex (peek s) (bump s)" for m ex operand
    using ahead_advance [OF assms(1)] by (simp add: prefix_expr_def Let_def at parse_name_def)
  with assms(2) show ?thesis
    by (cases n) (auto simp: parse_struct_literal_def at at' node_def Let_def bind_eq_Some_conv split_def)
qed

text \<open>No operator may follow a cast: the expression ends behind the type.\<close>

lemma cast_ends_expression:
  "map_option (\<lambda>(x, t). map fst (ahead t)) (parse_expr 6 0 (new_parser
     (map (\<lambda>(k, w). \<lparr>tok_kind = k, tok_text = w, tok_range = initial_range\<rparr>)
       [(TkIdentifier, ''a''), (TkKw KwAs, ''as''), (TkIdentifier, ''t''), (TkOp OpPlus, ''+''), (TkIdentifier, ''b''), (TkEnd, [])])
     no_diagnostics)) = Some [TkOp OpPlus, TkIdentifier, TkEnd]"
  by code_simp

end
