(* ===== verification/LlvmText.thy ===== *)
theory LlvmText
  imports MirOpt
begin

text \<open>
  The words of the generated code: the target, types, names and literals of LLVM's assembly
  (src/codegen.cpp) and the choice of operations, orderings and intrinsics
  (src/codegen_internal.hpp).
\<close>

subsection \<open>Target, types, names and literals\<close>

record target_info =
  ti_triple :: string
  ti_data_layout :: string
  ti_arch :: string

definition from_triple :: "string \<Rightarrow> target_info" where
  "from_triple triple =
     (let arch = takeWhile (\<lambda>c. c \<noteq> CHR ''-'') triple in
      \<lparr>ti_triple = triple,
       ti_data_layout =
         (if arch = ''x86_64'' then
            ''e-m:e-p270:32:32-p271:32:32-p272:64:64-i64:64-f80:128-n8:16:32:64-S128''
          else if arch = ''aarch64'' then ''e-m:e-i8:8:32-i16:16:32-i64:64-i128:128-n32:64-S128''
          else if arch = ''riscv64'' then ''e-m:e-p:64:64-i64:64-i128:128-n32:64-S128''
          else ''e-p:64:64-i64:64-n8:16:32:64-S128''),
       ti_arch = arch\<rparr>)"

definition name_char :: "char \<Rightarrow> bool" where
  "name_char c \<longleftrightarrow> char_isalnum c \<or> c = CHR ''_'' \<or> c = CHR ''.''"

definition escape_name_char :: "char \<Rightarrow> string" where
  "escape_name_char c = (if name_char c then [c] else ''_'' @ nat_to_string (of_char c) @ ''_'')"

definition llvm_name :: "string \<Rightarrow> string" where
  "llvm_name name =
     (let out = concat (map escape_name_char name)
      in if out = [] \<or> char_isdigit (hd out) then CHR ''_'' # out else out)"

definition struct_name :: "ty \<Rightarrow> string" where
  "struct_name t = ty_name t @ concat (map (\<lambda>a. CHR ''$'' # type_str a) (ty_args t))"

definition llvm_type :: "ty \<Rightarrow> string" where
  "llvm_type t = (case ty_kind t of
      KUnit \<Rightarrow> ''void'' | KNever \<Rightarrow> ''void'' | KBool \<Rightarrow> ''i1''
    | KI8 \<Rightarrow> ''i8'' | KU8 \<Rightarrow> ''i8'' | KI16 \<Rightarrow> ''i16'' | KU16 \<Rightarrow> ''i16''
    | KI32 \<Rightarrow> ''i32'' | KU32 \<Rightarrow> ''i32'' | KChar \<Rightarrow> ''i32''
    | KI64 \<Rightarrow> ''i64'' | KU64 \<Rightarrow> ''i64'' | KIsize \<Rightarrow> ''i64'' | KUsize \<Rightarrow> ''i64''
    | KI128 \<Rightarrow> ''i128'' | KU128 \<Rightarrow> ''i128''
    | KF32 \<Rightarrow> ''float'' | KF64 \<Rightarrow> ''double''
    | KRef \<Rightarrow> ''ptr'' | KRawPtr \<Rightarrow> ''ptr'' | KStr \<Rightarrow> ''ptr''
    | KNamed \<Rightarrow>
        if ty_name t = ''Future'' \<and> ty_args t \<noteq> [] then ''%uinx.future''
        else ''%struct.'' @ llvm_name (struct_name t)
    | KGeneric \<Rightarrow> ''ptr''
    | KError \<Rightarrow> ''i8'')"

definition hex_digit :: "nat \<Rightarrow> char" where
  "hex_digit n = (if n < 10 then char_of (48 + n) else char_of (55 + n))"

definition escape_ir_char :: "char \<Rightarrow> string" where
  "escape_ir_char c =
     (let n = of_char c :: nat in
      if 32 \<le> n \<and> n \<le> 126 \<and> c \<noteq> CHR 0x22 \<and> c \<noteq> CHR 0x5C then [c]
      else [CHR 0x5C, hex_digit (n div 16), hex_digit (n mod 16)])"

definition escape_ir_string :: "string \<Rightarrow> string" where
  "escape_ir_string s = concat (map escape_ir_char s)"

definition escape_asm :: "string \<Rightarrow> string" where
  "escape_asm s = concat (map (\<lambda>c. if c = CHR 0x22 \<or> c = CHR 0x5C then [CHR 0x5C, c] else [c]) s)"

subsection \<open>Integer literals\<close>

definition base_unit :: nat where
  "base_unit = 1000000000"

definition literal_digit :: "char \<Rightarrow> nat option" where
  "literal_digit c =
     (let n = of_char c :: nat in
      if 48 \<le> n \<and> n \<le> 57 then Some (n - 48)
      else if 97 \<le> n \<and> n \<le> 102 then Some (n - 97 + 10)
      else if 65 \<le> n \<and> n \<le> 70 then Some (n - 65 + 10)
      else None)"

text \<open>
  The magnitude in base 1,000,000,000, lowest digit first, each a \<open>uint32_t\<close>; the products are
  computed in \<open>uint64_t\<close>.
\<close>

fun times_plus :: "nat \<Rightarrow> nat \<Rightarrow> nat list \<Rightarrow> nat list" where
  "times_plus base carry [] = (if carry \<noteq> 0 then [carry mod 2 ^ 32] else [])"
| "times_plus base carry (d # ds) =
     (let next_digit = (d * base + carry) mod 2 ^ 64
      in (next_digit mod base_unit) mod 2 ^ 32 # times_plus base (next_digit div base_unit) ds)"

fun scan_digits :: "nat \<Rightarrow> bool \<Rightarrow> nat list \<Rightarrow> string \<Rightarrow> (bool \<times> nat list) option" where
  "scan_digits base seen ds [] = Some (seen, ds)"
| "scan_digits base seen ds (c # cs) =
     (if c = CHR ''_'' then scan_digits base seen ds cs
      else case literal_digit c of
        None \<Rightarrow> None
      | Some v \<Rightarrow> if base \<le> v then None else scan_digits base True (times_plus base v ds) cs)"

fun drop_zeros :: "nat list \<Rightarrow> nat list" where
  "drop_zeros (0 # d # ds) = drop_zeros (d # ds)"
| "drop_zeros ds = ds"

definition padded_chunk :: "nat \<Rightarrow> string" where
  "padded_chunk d = replicate (9 - length (nat_to_string d)) (CHR ''0'') @ nat_to_string d"

definition show_magnitude :: "bool \<Rightarrow> nat list \<Rightarrow> string" where
  "show_magnitude negative ds =
     (let high = drop_zeros (rev ds) in
      if high = [0] then ''0''
      else (if negative then ''-'' else []) @ nat_to_string (hd high) @ concat (map padded_chunk (tl high)))"

definition literal_base :: "string \<Rightarrow> nat \<times> string" where
  "literal_base s =
     (if 2 \<le> length s \<and> s ! 0 = CHR ''0'' then
        (if s ! 1 = CHR ''x'' \<or> s ! 1 = CHR ''X'' then (16, drop 2 s)
         else if s ! 1 = CHR ''b'' \<or> s ! 1 = CHR ''B'' then (2, drop 2 s)
         else if s ! 1 = CHR ''o'' \<or> s ! 1 = CHR ''O'' then (8, drop 2 s)
         else (10, s))
      else (10, s))"

definition llvm_integer_constant :: "string \<Rightarrow> string" where
  "llvm_integer_constant literal =
     (let negative = (literal \<noteq> [] \<and> hd literal = CHR ''-'');
          (base, body) = literal_base (if negative then tl literal else literal)
      in case scan_digits base False [0] body of
           Some (True, ds) \<Rightarrow> show_magnitude negative ds
         | _ \<Rightarrow> literal)"

subsection \<open>Operations\<close>

definition integer_bits :: "ty \<Rightarrow> nat" where
  "integer_bits t = (case ty_kind t of
      KI8 \<Rightarrow> 8 | KU8 \<Rightarrow> 8 | KI16 \<Rightarrow> 16 | KU16 \<Rightarrow> 16 | KI32 \<Rightarrow> 32 | KU32 \<Rightarrow> 32 | KChar \<Rightarrow> 32
    | KI128 \<Rightarrow> 128 | KU128 \<Rightarrow> 128 | _ \<Rightarrow> 64)"

definition arithmetic_opcode :: "ty \<Rightarrow> string \<Rightarrow> string" where
  "arithmetic_opcode t op =
     (if op = ''+'' then (if is_float t then ''fadd'' else ''add'')
      else if op = ''-'' then (if is_float t then ''fsub'' else ''sub'')
      else if op = ''*'' then (if is_float t then ''fmul'' else ''mul'')
      else if op = ''/'' then
        (if is_float t then ''fdiv'' else if unsigned_integer_kind (ty_kind t) then ''udiv'' else ''sdiv'')
      else if op = ''%'' then (if unsigned_integer_kind (ty_kind t) then ''urem'' else ''srem'')
      else if op = ''&&'' \<or> op = ''&'' then ''and''
      else if op = ''||'' \<or> op = ''|'' then ''or''
      else if op = ''^'' then ''xor''
      else if op = ''<<'' then ''shl''
      else if op = ''>>'' then (if unsigned_integer_kind (ty_kind t) then ''lshr'' else ''ashr'')
      else ''add'')"

definition type_alignment :: "ty \<Rightarrow> nat" where
  "type_alignment t = (case ty_kind t of
      KBool \<Rightarrow> 1 | KI8 \<Rightarrow> 1 | KU8 \<Rightarrow> 1 | KI16 \<Rightarrow> 2 | KU16 \<Rightarrow> 2
    | KI32 \<Rightarrow> 4 | KU32 \<Rightarrow> 4 | KChar \<Rightarrow> 4 | KF32 \<Rightarrow> 4 | KI128 \<Rightarrow> 16 | KU128 \<Rightarrow> 16 | _ \<Rightarrow> 8)"

definition compare_predicate :: "ty \<Rightarrow> string \<Rightarrow> string" where
  "compare_predicate t op =
     (if is_float t then
        (if op = ''=='' then ''oeq'' else if op = ''!='' then ''une'' else if op = ''<'' then ''olt''
         else if op = ''<='' then ''ole'' else if op = ''>'' then ''ogt'' else ''oge'')
      else let u = unsigned_integer_kind (ty_kind t) in
        (if op = ''=='' then ''eq'' else if op = ''!='' then ''ne''
         else if op = ''<'' then (if u then ''ult'' else ''slt'')
         else if op = ''<='' then (if u then ''ule'' else ''sle'')
         else if op = ''>'' then (if u then ''ugt'' else ''sgt'')
         else (if u then ''uge'' else ''sge'')))"

subsection \<open>Atomic operations and system calls\<close>

definition atomic_rmw_opcode :: "string \<Rightarrow> string" where
  "atomic_rmw_opcode op =
     (if op = ''+'' then ''add'' else if op = ''-'' then ''sub'' else if op = ''&'' then ''and''
      else if op = ''|'' then ''or'' else if op = ''^'' then ''xor'' else ''xchg'')"

definition atomic_order_from_abi :: "string \<Rightarrow> string option" where
  "atomic_order_from_abi v =
     map_of [(''0'', ''monotonic''), (''1'', ''acquire''), (''2'', ''release''), (''3'', ''acq_rel''),
       (''4'', ''seq_cst'')] v"

definition cmpxchg_failure_order :: "string \<Rightarrow> string" where
  "cmpxchg_failure_order order =
     (if order = ''release'' then ''monotonic'' else if order = ''acq_rel'' then ''acquire'' else order)"

definition valid_atomic_load_order :: "string \<Rightarrow> bool" where
  "valid_atomic_load_order order \<longleftrightarrow> order = ''monotonic'' \<or> order = ''acquire'' \<or> order = ''seq_cst''"

definition valid_atomic_store_order :: "string \<Rightarrow> bool" where
  "valid_atomic_store_order order \<longleftrightarrow> order = ''monotonic'' \<or> order = ''release'' \<or> order = ''seq_cst''"

definition valid_atomic_rmw_order :: "string \<Rightarrow> bool" where
  "valid_atomic_rmw_order order \<longleftrightarrow>
     order = ''monotonic'' \<or> order = ''acquire'' \<or> order = ''release'' \<or> order = ''acq_rel'' \<or> order = ''seq_cst''"

definition order_strength :: "string \<Rightarrow> int" where
  "order_strength order =
     (if order = ''monotonic'' then 0 else if order = ''acquire'' \<or> order = ''release'' then 1
      else if order = ''acq_rel'' then 2 else if order = ''seq_cst'' then 3 else - 1)"

definition downgrade_cmpxchg_failure :: "string \<Rightarrow> string \<Rightarrow> string" where
  "downgrade_cmpxchg_failure success failure =
     (let failure = cmpxchg_failure_order failure in
      if order_strength failure > order_strength success then
        (if success = ''monotonic'' \<or> success = ''release'' then ''monotonic'' else ''acquire'')
      else failure)"

record atomic_intrinsic =
  at_llvm_type :: string
  at_align :: nat
  at_rmw_op :: string

definition strip_prefix :: "string \<Rightarrow> string \<Rightarrow> string option" where
  "strip_prefix p s = (if starts_with s p then Some (drop (length p) s) else None)"

text \<open>The operations in the order the code tries them, with the name of what is emitted.\<close>

definition atomic_operations :: "(string \<times> string) list" where
  "atomic_operations =
     [(''compare_exchange'', ''cmpxchg''), (''fetch_add'', ''add''), (''fetch_sub'', ''sub''),
      (''fetch_and'', ''and''), (''fetch_or'', ''or''), (''fetch_xor'', ''xor''), (''exchange'', ''xchg''),
      (''load'', ''load''), (''store'', ''store'')]"

fun atomic_operation :: "(string \<times> string) list \<Rightarrow> string \<Rightarrow> (string \<times> string) option" where
  "atomic_operation [] rest = None"
| "atomic_operation ((op, rmw) # ops) rest =
     (case strip_prefix op rest of Some width \<Rightarrow> Some (rmw, width) | None \<Rightarrow> atomic_operation ops rest)"

definition atomic_widths :: "(string \<times> string \<times> nat) list" where
  "atomic_widths = [(''u8'', ''i8'', 1), (''u16'', ''i16'', 2), (''u32'', ''i32'', 4), (''u64'', ''i64'', 8)]"

definition parse_atomic_intrinsic :: "string \<Rightarrow> atomic_intrinsic option" where
  "parse_atomic_intrinsic name =
     (case strip_prefix ''uinx_atomic_'' name of
       None \<Rightarrow> None
     | Some rest \<Rightarrow>
         (case atomic_operation atomic_operations rest of
           None \<Rightarrow> None
         | Some (rmw, rest) \<Rightarrow>
             (case strip_prefix ''_'' rest of
               None \<Rightarrow> None
             | Some width \<Rightarrow>
                 (case map_of atomic_widths width of
                   None \<Rightarrow> None
                 | Some (t, a) \<Rightarrow> Some \<lparr>at_llvm_type = t, at_align = a, at_rmw_op = rmw\<rparr>))))"

definition syscall_arity_from_name :: "string \<Rightarrow> nat option" where
  "syscall_arity_from_name name =
     (case strip_prefix ''uinx_syscall'' name of
       None \<Rightarrow> None
     | Some ending \<Rightarrow>
         if length ending \<noteq> 1 then None
         else let n = of_char (hd ending) :: nat in if n < 48 \<or> 54 < n then None else Some (n - 48))"

text \<open>The operation a cast becomes.\<close>

definition cast_opcode :: "ty \<Rightarrow> ty \<Rightarrow> string" where
  "cast_opcode src to =
     (if ty_kind src = KRawPtr \<and> is_integer to then ''ptrtoint''
      else if is_integer src \<and> ty_kind to = KRawPtr then ''inttoptr''
      else if is_integer src \<and> is_integer to then
        (if integer_bits src < integer_bits to
         then (if unsigned_integer_kind (ty_kind src) then ''zext'' else ''sext'')
         else if integer_bits to < integer_bits src then ''trunc'' else ''bitcast'')
      else if ty_kind src = KBool \<and> is_integer to then ''zext''
      else if is_integer src \<and> is_float to then
        (if unsigned_integer_kind (ty_kind src) then ''uitofp'' else ''sitofp'')
      else if is_float src \<and> is_integer to then
        (if unsigned_integer_kind (ty_kind to) then ''fptoui'' else ''fptosi'')
      else if is_float src \<and> is_float to then
        (if ty_kind src = KF32 then ''fpext'' else ''fptrunc'')
      else ''bitcast'')"

end
