(* ===== verification/LlvmAsm.thy ===== *)
theory LlvmAsm
  imports LlvmText
begin

text \<open>
  The state of the emission of a function, inline assembly and system calls
  (src/codegen_asm.cpp). The output is the list of the pieces of text written, most of them lines.
  \<open>ll_values\<close> and \<open>ll_types\<close> are the maps \<open>values\<close> and \<open>value_types\<close>, \<open>ll_counter\<close> is the counter
  that numbers the assembly statements. Reading \<open>args[k]\<close> beyond the end is \<open>!\<close>: the lowering
  never does it.
\<close>

record llvm_state =
  ll_out :: "string list"
  ll_values :: "string \<rightharpoonup> string"
  ll_types :: "string \<rightharpoonup> ty"
  ll_counter :: nat
  ll_diags :: diagnostics

definition piece :: "string list \<Rightarrow> 'a llvm_state_scheme \<Rightarrow> 'a llvm_state_scheme" where
  "piece parts s = s\<lparr>ll_out := ll_out s @ [concat parts]\<rparr>"

definition line :: "string list \<Rightarrow> 'a llvm_state_scheme \<Rightarrow> 'a llvm_state_scheme" where
  "line parts = piece (parts @ [[CHR 0x0A]])"

definition value_of :: "string \<Rightarrow> 'a llvm_state_scheme \<Rightarrow> string" where
  "value_of v s = (case ll_values s v of None \<Rightarrow> v | Some w \<Rightarrow> w)"

definition type_or :: "string \<Rightarrow> string \<Rightarrow> 'a llvm_state_scheme \<Rightarrow> ty" where
  "type_or name v s = (case ll_types s v of None \<Rightarrow> builtin_type name | Some t \<Rightarrow> t)"

definition set_type :: "string \<Rightarrow> ty \<Rightarrow> 'a llvm_state_scheme \<Rightarrow> 'a llvm_state_scheme" where
  "set_type v t s = s\<lparr>ll_types := (ll_types s)(v \<mapsto> t)\<rparr>"

definition set_value :: "string \<Rightarrow> string \<Rightarrow> ty \<Rightarrow> 'a llvm_state_scheme \<Rightarrow> 'a llvm_state_scheme" where
  "set_value v w t s = set_type v t (s\<lparr>ll_values := (ll_values s)(v \<mapsto> w)\<rparr>)"

definition quotation :: string where
  "quotation = [CHR 0x22]"

subsection \<open>Constraints\<close>

text \<open>
  \<open>std::stoi\<close>: white space, a sign, digits; what follows is ignored. \<open>None\<close> is the exception of a
  number that is missing or out of range.
\<close>

definition stoi :: "string \<Rightarrow> int option" where
  "stoi s =
     (let s = dropWhile is_space s;
          negative = (s \<noteq> [] \<and> hd s = CHR ''-'');
          s = (if s \<noteq> [] \<and> (hd s = CHR ''-'' \<or> hd s = CHR ''+'') then tl s else s)
      in case all_digits 10 0 (takeWhile char_isdigit s) of
           None \<Rightarrow> None
         | Some n \<Rightarrow>
             (let v = (if negative then - int n else int n) in
              if takeWhile char_isdigit s = [] \<or> v < - (2 ^ 31) \<or> 2 ^ 31 \<le> v then None else Some v))"

definition numbered_register :: "char \<Rightarrow> int \<Rightarrow> string \<Rightarrow> bool" where
  "numbered_register stem limit raw \<longleftrightarrow>
     2 \<le> length raw \<and> hd raw = stem \<and>
     (case stoi (tl raw) of None \<Rightarrow> False | Some n \<Rightarrow> 0 \<le> n \<and> n \<le> limit)"

definition x86_registers :: "string list" where
  "x86_registers =
     [''rax'', ''rbx'', ''rcx'', ''rdx'', ''rsi'', ''rdi'', ''rbp'', ''rsp'', ''r8'', ''r9'', ''r10'', ''r11'',
      ''r12'', ''r13'', ''r14'', ''r15'', ''eax'', ''ebx'', ''ecx'', ''edx'', ''xmm0'', ''xmm1'', ''xmm2'', ''xmm3'',
      ''xmm4'', ''xmm5'', ''xmm6'', ''xmm7'', ''xmm8'', ''xmm9'', ''xmm10'', ''xmm11'', ''xmm12'', ''xmm13'',
      ''xmm14'', ''xmm15'']"

definition riscv_registers :: "string list" where
  "riscv_registers =
     [''ra'', ''sp'', ''gp'', ''tp'', ''a0'', ''a1'', ''a2'', ''a3'', ''a4'', ''a5'', ''a6'', ''a7'', ''s0'', ''s1'',
      ''t0'', ''t1'', ''t2'']"

definition valid_register :: "string \<Rightarrow> string \<Rightarrow> bool" where
  "valid_register arch raw \<longleftrightarrow>
     (if arch = ''x86_64'' then raw \<in> set x86_registers
      else if arch = ''aarch64'' then
        numbered_register (CHR ''x'') 30 raw \<or> numbered_register (CHR ''w'') 30 raw \<or>
        numbered_register (CHR ''v'') 31 raw \<or> raw = ''sp''
      else if arch = ''riscv64'' then numbered_register (CHR ''x'') 31 raw \<or> raw \<in> set riscv_registers
      else True)"

definition braced :: "string \<Rightarrow> bool" where
  "braced s \<longleftrightarrow> s \<noteq> [] \<and> hd s = CHR ''{'' \<and> last s = CHR ''}''"

definition valid_constraint :: "string \<Rightarrow> string \<Rightarrow> bool" where
  "valid_constraint arch constraint \<longleftrightarrow>
     (let raw = dropWhile (\<lambda>c. c \<in> set ''=+&~'') constraint in
      raw \<in> {''memory'', ''cc'', ''r'', ''m'', ''i'', ''g''} \<or>
      valid_register arch (if 2 \<le> length raw \<and> braced raw then butlast (tl raw) else raw))"

definition validate_constraint ::
  "target_info \<Rightarrow> src_range \<Rightarrow> string \<Rightarrow> 'a llvm_state_scheme \<Rightarrow> 'a llvm_state_scheme" where
  "validate_constraint target r constraint s =
     (if valid_constraint (ti_arch target) constraint then s
      else s\<lparr>ll_diags := diag_error r ''E0600''
        (''asm constraint/register '' @ [CHR 0x27] @ constraint @ [CHR 0x27] @
         '' is not valid for target architecture '' @ [CHR 0x27] @ ti_arch target @ [CHR 0x27]) (ll_diags s)\<rparr>)"

subsection \<open>Inline assembly\<close>

definition asm_outputs :: "instr \<Rightarrow> mir_asm list" where
  "asm_outputs i = filter (\<lambda>a. ma_kind a = AsmOut \<or> ma_kind a = AsmInOut) (in_asm i)"

definition asm_inputs :: "instr \<Rightarrow> mir_asm list" where
  "asm_inputs i = filter (\<lambda>a. ma_kind a = AsmIn) (in_asm i)"

definition asm_clobbers :: "instr \<Rightarrow> mir_asm list" where
  "asm_clobbers i = filter (\<lambda>a. ma_kind a = AsmClobber) (in_asm i)"

definition output_constraint :: "mir_asm \<Rightarrow> string" where
  "output_constraint a =
     (let c = dropWhile (\<lambda>c. c = CHR ''+'') (ma_constraint a)
      in if c = [] \<or> hd c \<noteq> CHR ''='' then CHR ''='' # c else c)"

text \<open>An empty register name, for which the code reads beyond the string, has no braces here.\<close>

definition clobber_constraint :: "mir_asm \<Rightarrow> string" where
  "clobber_constraint a =
     (if ma_constraint a = ''memory'' then ''~{memory}''
      else if ma_constraint a = ''cc'' then ''~{cc}''
      else if braced (ma_constraint a) then CHR ''~'' # ma_constraint a
      else ''~{'' @ ma_constraint a @ ''}'')"

text \<open>The tied constraints and the first arguments: outputs that are read as well.\<close>

fun inout_args ::
  "nat \<Rightarrow> mir_asm list \<Rightarrow> 'a llvm_state_scheme \<Rightarrow> (string list \<times> (ty \<times> string) list) \<times> 'a llvm_state_scheme" where
  "inout_args index [] s = (([], []), s)"
| "inout_args index (a # as) s =
     (if ma_kind a \<noteq> AsmInOut then inout_args (index + 1) as s
      else
        (let tmp = ''%asm.inout.'' @ nat_to_string (ll_counter s) @ ''.'' @ nat_to_string index;
             initial = (if ma_out_slot a \<noteq> [] then tmp
               else if ma_value a \<noteq> [] then value_of (ma_value a) s else ''undef'');
             s = (if ma_out_slot a \<noteq> []
               then line [''  '', tmp, '' = load '', llvm_type (ma_type a), '', ptr '', ma_out_slot a] s else s)
         in case inout_args (index + 1) as s of
           ((cs, args), s) \<Rightarrow> ((nat_to_string index # cs, (ma_type a, initial) # args), s)))"

definition asm_return_type :: "mir_asm list \<Rightarrow> string" where
  "asm_return_type outputs =
     (case outputs of
       [] \<Rightarrow> ''void''
     | [a] \<Rightarrow> llvm_type (ma_type a)
     | _ \<Rightarrow> ''{ '' @ separate '', '' (map (llvm_type \<circ> ma_type) outputs) @ '' }'')"

definition typed_args :: "(ty \<times> string) list \<Rightarrow> string" where
  "typed_args args = separate '', '' (map (\<lambda>(t, v). llvm_type t @ '' '' @ v) args)"

fun store_outputs ::
  "bool \<Rightarrow> string \<Rightarrow> string \<Rightarrow> nat \<Rightarrow> mir_asm list \<Rightarrow> 'a llvm_state_scheme \<Rightarrow> 'a llvm_state_scheme" where
  "store_outputs several rt result index [] s = s"
| "store_outputs several rt result index (a # as) s =
     (if ma_out_slot a = [] then store_outputs several rt result (index + 1) as s
      else
        (let v = (if several then ''%asm.out.'' @ nat_to_string (ll_counter s) @ ''.'' @ nat_to_string index else result);
             s = (if several
               then line [''  '', v, '' = extractvalue '', rt, '' '', result, '', '', nat_to_string index] s else s);
             s = line [''  store '', llvm_type (ma_type a), '' '', v, '', ptr '', ma_out_slot a] s
         in store_outputs several rt result (index + 1) as (set_type (ma_out_slot a) (ma_type a) s)))"

definition emit_inline_asm ::
  "target_info \<Rightarrow> instr \<Rightarrow> 'a llvm_state_scheme \<Rightarrow> 'a llvm_state_scheme" where
  "emit_inline_asm target i s =
     (let outputs = asm_outputs i;
          s = fold (\<lambda>a. validate_constraint target (in_range i) (ma_constraint a)) (in_asm i) s
      in case inout_args 0 outputs s of ((tied, first), s) \<Rightarrow>
        (let constraints = map output_constraint outputs @ tied @ map ma_constraint (asm_inputs i) @
               map clobber_constraint (asm_clobbers i);
             args = first @ map (\<lambda>a. (ma_type a, value_of (ma_value a) s)) (asm_inputs i);
             rt = asm_return_type outputs;
             result = (if outputs = [] then [] else ''%asm.result.'' @ nat_to_string (ll_counter s));
             s = line [''  '', if result = [] then [] else result @ '' = '', ''call '', rt, '' asm '',
               if in_flag i then ''sideeffect '' else [], quotation, escape_asm (in_text i), quotation, '', '',
               quotation, escape_asm (separate '','' constraints), quotation, ''('', typed_args args, '')''] s;
             s = store_outputs (1 < length outputs) rt result 0 outputs s
         in s\<lparr>ll_counter := ll_counter s + 1\<rparr>))"

subsection \<open>System calls\<close>

definition word_sized :: "ty \<Rightarrow> bool" where
  "word_sized t \<longleftrightarrow> type_str t \<in> {''i64'', ''u64'', ''usize'', ''isize''}"

fun syscall_args :: "nat \<Rightarrow> string list \<Rightarrow> 'a llvm_state_scheme \<Rightarrow> string list \<times> 'a llvm_state_scheme" where
  "syscall_args k [] s = ([], s)"
| "syscall_args k (a # as) s =
     (let raw = value_of a s; t = type_or ''i64'' a s;
          ext = ''%syscall.arg.'' @ nat_to_string (ll_counter s) @ ''.'' @ nat_to_string k;
          (v, s) = (if word_sized t then (raw, s)
            else (ext, line [''  '', ext, '' = zext '', llvm_type t, '' '', raw, '' to i64''] s))
      in case syscall_args (k + 1) as s of (vs, s) \<Rightarrow> (v # vs, s))"

text \<open>The result register, the argument registers, what the kernel clobbers and the trap.\<close>

definition syscall_convention :: "string \<Rightarrow> (string \<times> string list \<times> string list \<times> string) option" where
  "syscall_convention arch =
     (if arch = ''x86_64'' then
        Some (''={rax}'', [''rax'', ''rdi'', ''rsi'', ''rdx'', ''r10'', ''r8'', ''r9''], [''rcx'', ''r11''], ''syscall'')
      else if arch = ''aarch64'' then
        Some (''={x0}'', [''x8'', ''x0'', ''x1'', ''x2'', ''x3'', ''x4'', ''x5''], [''x16'', ''x17''], ''svc #0'')
      else if arch = ''riscv64'' then
        Some (''={a0}'', [''a7'', ''a0'', ''a1'', ''a2'', ''a3'', ''a4'', ''a5''], [''a6''], ''ecall'')
      else None)"

definition syscall_constraints :: "nat \<Rightarrow> string \<times> string list \<times> string list \<times> string \<Rightarrow> string list" where
  "syscall_constraints arity = (\<lambda>(result, regs, clobbers, _).
     result # map (\<lambda>r. ''{'' @ r @ ''}'') (take arity regs) @
     map (\<lambda>r. ''~{'' @ r @ ''}'') (clobbers @ [''memory'', ''cc'']))"

definition syscall_result :: "instr \<Rightarrow> string \<Rightarrow> 'a llvm_state_scheme \<Rightarrow> 'a llvm_state_scheme" where
  "syscall_result i result s =
     (if in_result i = [] then s
      else
        (let tmp = ''%syscall.trunc.'' @ nat_to_string (ll_counter s) in
         if llvm_type (in_type i) = ''i64'' then set_value (in_result i) result (in_type i) s
         else set_value (in_result i) tmp (in_type i)
           (line [''  '', tmp, '' = trunc i64 '', result, '' to '', llvm_type (in_type i)] s)))"

definition emit_syscall ::
  "target_info \<Rightarrow> instr \<Rightarrow> 'a llvm_state_scheme \<Rightarrow> bool \<times> 'a llvm_state_scheme" where
  "emit_syscall target i s =
     (let arity = length (in_args i) in
      if arity < 1 \<or> 7 < arity then (False, s)
      else case syscall_args 0 (in_args i) s of (args, s) \<Rightarrow>
        (case syscall_convention (ti_arch target) of
          None \<Rightarrow> (False, s\<lparr>ll_diags := diag_error (in_range i) ''E0601''
            (''no syscall trap sequence is defined for target architecture '' @ [CHR 0x27] @ ti_arch target @
             [CHR 0x27]) (ll_diags s)\<rparr>)
        | Some conv \<Rightarrow>
            (let result = ''%syscall.result.'' @ nat_to_string (ll_counter s);
                 s = line [''  '', result, '' = call i64 asm sideeffect '', quotation, snd (snd (snd conv)), quotation,
                   '', '', quotation, separate '','' (syscall_constraints arity conv), quotation, ''('',
                   separate '', '' (map (\<lambda>a. ''i64 '' @ a) args), '')''] s;
                 s = syscall_result i result s
             in (True, s\<lparr>ll_counter := ll_counter s + 1\<rparr>))))"

end
