(* ===== verification/LlvmFunction.thy ===== *)
theory LlvmFunction
  imports LlvmAsm
begin

text \<open>
  Functions that are not async (src/codegen_function.cpp): one case of the switch over the
  operations per definition.
\<close>

record sync_state = llvm_state +
  sy_bounds :: nat
  sy_atomic :: nat

definition arg :: "instr \<Rightarrow> nat \<Rightarrow> string" where
  "arg i k = in_args i ! k"

definition alias_value :: "instr \<Rightarrow> string \<Rightarrow> 'a llvm_state_scheme \<Rightarrow> 'a llvm_state_scheme" where
  "alias_value i v = set_value (in_result i) v (in_type i)"

definition own_value :: "instr \<Rightarrow> ty \<Rightarrow> 'a llvm_state_scheme \<Rightarrow> 'a llvm_state_scheme" where
  "own_value i t = set_value (in_result i) (in_result i) t"

subsection \<open>Constants and memory\<close>

definition string_address :: "string \<Rightarrow> string" where
  "string_address symbol = ''getelementptr inbounds (i8, ptr @'' @ llvm_name symbol @ '', i64 0)''"

fun insert_fields :: "instr \<Rightarrow> nat \<Rightarrow> string \<Rightarrow> string list \<Rightarrow> 'a llvm_state_scheme \<Rightarrow> 'a llvm_state_scheme" where
  "insert_fields i index aggregate [] s = s"
| "insert_fields i index aggregate (a # as) s =
     (let result = (if as = [] then in_result i else in_result i @ ''.field.'' @ nat_to_string index);
          s = line [''  '', result, '' = insertvalue '', llvm_type (in_type i), '' '', aggregate, '', '',
            llvm_type (type_or ''i32'' a s), '' '', value_of a s, '', '', nat_to_string index] s
      in insert_fields i (index + 1) result as s)"

definition emit_struct_init :: "instr \<Rightarrow> 'a llvm_state_scheme \<Rightarrow> 'a llvm_state_scheme" where
  "emit_struct_init i s =
     (if in_args i = [] then alias_value i ''zeroinitializer'' s
      else own_value i (in_type i) (insert_fields i 0 ''poison'' (in_args i) s))"

definition atomic_word :: "instr \<Rightarrow> string" where
  "atomic_word i = (if in_flag i then ''atomic '' else [])"

definition atomic_suffix :: "instr \<Rightarrow> string" where
  "atomic_suffix i = (if in_flag i
     then '' '' @ in_text i @ '', align '' @ nat_to_string (type_alignment (in_type i)) else [])"

definition emit_load :: "instr \<Rightarrow> 'a llvm_state_scheme \<Rightarrow> 'a llvm_state_scheme" where
  "emit_load i s = own_value i (in_type i)
     (line [''  '', in_result i, '' = load '', atomic_word i, llvm_type (in_type i), '', ptr '',
        value_of (arg i 0) s, atomic_suffix i] s)"

definition emit_store :: "instr \<Rightarrow> 'a llvm_state_scheme \<Rightarrow> 'a llvm_state_scheme" where
  "emit_store i s =
     line [''  store '', atomic_word i, llvm_type (in_type i), '' '', value_of (arg i 0) s, '', ptr '',
       value_of (arg i 1) s, atomic_suffix i] s"

definition emit_atomic_rmw :: "instr \<Rightarrow> sync_state \<Rightarrow> sync_state" where
  "emit_atomic_rmw i s =
     (line [''  %atomic.'', nat_to_string (sy_atomic s), '' = atomicrmw '', atomic_rmw_opcode (in_text i), '' ptr '',
        value_of (arg i 0) s, '', '', llvm_type (in_type i), '' '', value_of (arg i 1) s, '' '', arg i 2,
        '', align '', nat_to_string (type_alignment (in_type i))] s)\<lparr>sy_atomic := sy_atomic s + 1\<rparr>"

definition emit_fence :: "instr \<Rightarrow> 'a llvm_state_scheme \<Rightarrow> 'a llvm_state_scheme" where
  "emit_fence i = line [''  fence '', in_text i]"

definition emit_compiler_fence :: "instr \<Rightarrow> 'a llvm_state_scheme \<Rightarrow> 'a llvm_state_scheme" where
  "emit_compiler_fence i = line [''  fence syncscope('', quotation, ''singlethread'', quotation, '') '', in_text i]"

definition emit_field_address :: "instr \<Rightarrow> 'a llvm_state_scheme \<Rightarrow> 'a llvm_state_scheme" where
  "emit_field_address i s = own_value i (raw_ptr_type (in_type i) True)
     (line [''  '', in_result i, '' = getelementptr inbounds '', llvm_type (in_aux i), '', ptr '',
        value_of (arg i 0) s, '', i32 0, i32 '', in_text i] s)"

text \<open>
  The test of an index of type \<open>t\<close> against a length of type \<open>i64\<close>: the lines, the value of the test
  and the index as an \<open>i64\<close>. An index wider than the length is compared at its own width.
\<close>

definition bounds_test :: "string \<Rightarrow> string \<Rightarrow> ty \<Rightarrow> string \<Rightarrow> string \<Rightarrow> string list \<times> string \<times> string" where
  "bounds_test stem ending t index len =
     (let width = llvm_type t;
          u = unsigned_integer_kind (ty_kind t);
          var = (\<lambda>n. stem @ n @ ending);
          ln = (\<lambda>parts. concat parts @ [CHR 0x0A])
      in if 64 < integer_bits t then
           ([ln [''  '', var ''len.'', '' = zext i64 '', len, '' to '', width],
             ln [''  '', var ''lt.'', '' = icmp ult '', width, '' '', index, '', '', var ''len.'']] @
            (if u then []
             else [ln [''  '', var ''nonneg.'', '' = icmp sge '', width, '' '', index, '', 0''],
                   ln [''  '', var ''ok.'', '' = and i1 '', var ''nonneg.'', '', '', var ''lt.'']]) @
            [ln [''  '', var ''index.'', '' = trunc '', width, '' '', index, '' to i64'']],
            if u then var ''lt.'' else var ''ok.'', var ''index.'')
         else
           (let index64 = (if integer_bits t < 64 then var ''index.'' else index) in
            ((if integer_bits t < 64
              then [ln [''  '', index64, '' = '', if u then ''zext'' else ''sext'', '' '', width, '' '', index, '' to i64'']]
              else []) @
             [ln [''  '', var ''ok.'', '' = icmp ult i64 '', index64, '', '', len]],
             var ''ok.'', index64)))"

text \<open>What follows the test: the branch and the trap.\<close>

definition bounds_branch :: "string \<Rightarrow> string \<Rightarrow> string \<Rightarrow> 'a llvm_state_scheme \<Rightarrow> 'a llvm_state_scheme" where
  "bounds_branch labels ending ok s =
     line [labels, ''ok.'', ending, '':'']
       (line [''  unreachable''] (line [''  call void @llvm.trap()''] (line [labels, ''fail.'', ending, '':'']
         (line [''  br i1 '', ok, '', label %'', labels, ''ok.'', ending, '', label %'', labels, ''fail.'', ending] s))))"

definition emit_index_address :: "instr \<Rightarrow> sync_state \<Rightarrow> sync_state" where
  "emit_index_address i s =
     (let data = value_of (arg i 0) s;
          ending = nat_to_string (sy_bounds s);
          (lines, ok, index64) =
            bounds_test ''%bound.'' ending (in_aux i) (value_of (arg i 1) s) (value_of (arg i 2) s);
          s = bounds_branch ''bounds.'' ending ok (s\<lparr>sy_bounds := sy_bounds s + 1, ll_out := ll_out s @ lines\<rparr>);
          s = line [''  '', in_result i, '' = getelementptr inbounds '', llvm_type (in_type i), '', ptr '', data,
            '', i64 '', index64] s
      in own_value i (raw_ptr_type (in_type i) True) s)"

subsection \<open>Operators\<close>

definition pointer_arithmetic :: "instr \<Rightarrow> bool" where
  "pointer_arithmetic i \<longleftrightarrow> ty_kind (in_type i) = KRawPtr \<and> (in_text i = ''+'' \<or> in_text i = ''-'') \<and>
     length (in_args i) = 2"

definition pointer_element :: "instr \<Rightarrow> ty" where
  "pointer_element i = (case ty_pointee (in_type i) of Some t \<Rightarrow> t | None \<Rightarrow> builtin_type ''u8'')"

definition all_ones :: "instr \<Rightarrow> string" where
  "all_ones i = (if ty_kind (in_type i) = KBool then ''true'' else ''-1'')"

definition emit_pointer_arithmetic :: "instr \<Rightarrow> 'a llvm_state_scheme \<Rightarrow> 'a llvm_state_scheme" where
  "emit_pointer_arithmetic i s =
     (let t = type_or ''isize'' (arg i 1) s; index = value_of (arg i 1) s; neg = in_result i @ ''.neg'';
          s' = (if in_text i = ''-'' then line [''  '', neg, '' = sub '', llvm_type t, '' 0, '', index] s else s);
          index = (if in_text i = ''-'' then neg else index)
      in line [''  '', in_result i, '' = getelementptr '', llvm_type (pointer_element i), '', ptr '',
           value_of (arg i 0) s', '', '', llvm_type t, '' '', index] s')"

definition emit_binary :: "instr \<Rightarrow> 'a llvm_state_scheme \<Rightarrow> 'a llvm_state_scheme" where
  "emit_binary i s = own_value i (in_type i)
     (if pointer_arithmetic i then emit_pointer_arithmetic i s
      else if in_text i = ''!'' \<or> in_text i = ''~'' then
        line [''  '', in_result i, '' = xor '', llvm_type (in_type i), '' '', value_of (arg i 0) s, '', '', all_ones i] s
      else line [''  '', in_result i, '' = '', arithmetic_opcode (in_type i) (in_text i), '' '', llvm_type (in_type i),
        '' '', value_of (arg i 0) s, '', '', value_of (arg i 1) s] s)"

definition emit_compare :: "instr \<Rightarrow> 'a llvm_state_scheme \<Rightarrow> 'a llvm_state_scheme" where
  "emit_compare i s = own_value i (builtin_type ''bool'')
     (line [''  '', in_result i, '' = '', if is_float (in_type i) then ''fcmp '' else ''icmp '',
        compare_predicate (in_type i) (in_text i), '' '', llvm_type (in_type i), '' '', value_of (arg i 0) s,
        '', '', value_of (arg i 1) s] s)"

definition is_pointer :: "ty \<Rightarrow> bool" where
  "is_pointer t \<longleftrightarrow> ty_kind t = KRef \<or> ty_kind t = KRawPtr"

definition emit_cast :: "instr \<Rightarrow> 'a llvm_state_scheme \<Rightarrow> 'a llvm_state_scheme" where
  "emit_cast i s =
     (let src = type_or ''i32'' (arg i 0) s in
      if ty_kind src = KStr \<and> ty_kind (in_type i) = KRawPtr \<or> is_pointer src \<and> is_pointer (in_type i)
      then alias_value i (value_of (arg i 0) s) s
      else own_value i (in_type i)
        (line [''  '', in_result i, '' = '', cast_opcode src (in_type i), '' '', llvm_type src, '' '',
          value_of (arg i 0) s, '' to '', llvm_type (in_type i)] s))"

subsection \<open>Calls\<close>

definition callee_params :: "(string \<rightharpoonup> mir_function) \<Rightarrow> string \<Rightarrow> ty list" where
  "callee_params functions name =
     (case functions name of None \<Rightarrow> [] | Some f \<Rightarrow> map mp_type (mf_params f))"

definition volatile_load :: "instr \<Rightarrow> bool" where
  "volatile_load i \<longleftrightarrow> in_text i \<in> {''uinx_volatile_load_u8'', ''uinx_volatile_load_u32'', ''uinx_volatile_load_u64''} \<and>
     length (in_args i) = 1"

definition volatile_store :: "instr \<Rightarrow> bool" where
  "volatile_store i \<longleftrightarrow>
     in_text i \<in> {''uinx_volatile_store_u8'', ''uinx_volatile_store_u32'', ''uinx_volatile_store_u64''} \<and>
     length (in_args i) = 2"

definition emit_volatile_load :: "instr \<Rightarrow> 'a llvm_state_scheme \<Rightarrow> 'a llvm_state_scheme" where
  "emit_volatile_load i s = own_value i (in_type i)
     (line [''  '', in_result i, '' = load volatile '', llvm_type (in_type i), '', ptr '', value_of (arg i 0) s,
        '', align '', nat_to_string (type_alignment (in_type i))] s)"

definition emit_volatile_store :: "ty list \<Rightarrow> instr \<Rightarrow> 'a llvm_state_scheme \<Rightarrow> 'a llvm_state_scheme" where
  "emit_volatile_store params i s =
     (let t = (if 1 < length params then params ! 1 else builtin_type ''u64'') in
      line [''  store volatile '', llvm_type t, '' '', value_of (arg i 1) s, '', ptr '', value_of (arg i 0) s,
        '', align '', nat_to_string (type_alignment t)] s)"

text \<open>The ordering an argument of an intrinsic names, when the operation admits it.\<close>

definition order_argument :: "(string \<Rightarrow> bool) \<Rightarrow> instr \<Rightarrow> nat \<Rightarrow> 'a llvm_state_scheme \<Rightarrow> string option" where
  "order_argument valid i k s =
     (case atomic_order_from_abi (value_of (arg i k) s) of
       None \<Rightarrow> None | Some order \<Rightarrow> if valid order then Some order else None)"

definition aligned :: "atomic_intrinsic \<Rightarrow> string" where
  "aligned a = '', align '' @ nat_to_string (at_align a)"

definition emit_compare_exchange ::
  "atomic_intrinsic \<Rightarrow> string \<Rightarrow> string \<Rightarrow> instr \<Rightarrow> sync_state \<Rightarrow> sync_state" where
  "emit_compare_exchange a success failure i s =
     (let t = at_llvm_type a; id = nat_to_string (sy_atomic s);
          expected = ''%cas.expected.'' @ id; pair = ''%cas.pair.'' @ id;
          old = ''%cas.old.'' @ id; ok = ''%cas.ok.'' @ id;
          result = (if in_result i = [] then ''%cas.result.'' @ id else in_result i);
          place = value_of (arg i 1) s;
          s = s\<lparr>sy_atomic := sy_atomic s + 1\<rparr>;
          s = line [''  '', expected, '' = load '', t, '', ptr '', place, aligned a] s;
          s = line [''  '', pair, '' = cmpxchg ptr '', value_of (arg i 0) s, '', '', t, '' '', expected, '', '', t, '' '',
            value_of (arg i 2) s, '' '', success, '' '', downgrade_cmpxchg_failure success failure, aligned a] s;
          s = line [''  '', old, '' = extractvalue { '', t, '', i1 } '', pair, '', 0''] s;
          s = line [''  '', ok, '' = extractvalue { '', t, '', i1 } '', pair, '', 1''] s;
          s = line [''  store '', t, '' '', old, '', ptr '', place, aligned a] s;
          s = line [''  '', result, '' = zext i1 '', ok, '' to i32''] s
      in if in_result i = [] then s else set_value (in_result i) result (in_type i) s)"

text \<open>\<open>None\<close>: the call is not one of the intrinsics, or its ordering is not valid.\<close>

definition emit_atomic :: "atomic_intrinsic \<Rightarrow> instr \<Rightarrow> sync_state \<Rightarrow> sync_state option" where
  "emit_atomic a i s =
     (let op = at_rmw_op a; t = at_llvm_type a; n = length (in_args i) in
      if op = ''load'' \<and> n = 2 then
        map_option (\<lambda>order. own_value i (in_type i)
          (line [''  '', in_result i, '' = load atomic '', t, '', ptr '', value_of (arg i 0) s, '' '', order, aligned a] s))
          (order_argument valid_atomic_load_order i 1 s)
      else if op = ''store'' \<and> n = 3 then
        map_option (\<lambda>order. line [''  store atomic '', t, '' '', value_of (arg i 1) s, '', ptr '', value_of (arg i 0) s,
            '' '', order, aligned a] s)
          (order_argument valid_atomic_store_order i 2 s)
      else if op \<in> {''add'', ''sub'', ''and'', ''or'', ''xor'', ''xchg''} \<and> n = 3 then
        map_option (\<lambda>order. own_value i (in_type i)
          (line [''  '', in_result i, '' = atomicrmw '', op, '' ptr '', value_of (arg i 0) s, '', '', t, '' '',
            value_of (arg i 1) s, '' '', order, aligned a] s))
          (order_argument valid_atomic_rmw_order i 2 s)
      else if op = ''cmpxchg'' \<and> n = 5 then
        (case (order_argument valid_atomic_rmw_order i 3 s,
               order_argument (\<lambda>f. valid_atomic_load_order f \<or> f = ''monotonic'') i 4 s) of
          (Some success, Some failure) \<Rightarrow> Some (emit_compare_exchange a success failure i s)
        | _ \<Rightarrow> None)
      else None)"

fun typed_arguments :: "ty list \<Rightarrow> string list \<Rightarrow> 'a llvm_state_scheme \<Rightarrow> (ty \<times> string) list" where
  "typed_arguments params [] s = []"
| "typed_arguments [] (a # as) s = (type_or ''i32'' a s, value_of a s) # typed_arguments [] as s"
| "typed_arguments (p # ps) (a # as) s = (p, value_of a s) # typed_arguments ps as s"

definition emit_plain_call :: "ty list \<Rightarrow> instr \<Rightarrow> 'a llvm_state_scheme \<Rightarrow> 'a llvm_state_scheme" where
  "emit_plain_call params i s =
     (let named = (in_result i \<noteq> []);
          s = line [''  '', if named then in_result i @ '' = '' else [], ''call '', llvm_type (in_type i), '' @'',
            llvm_name (in_text i), ''('', typed_args (typed_arguments params (in_args i) s), '')''] s
      in if named then own_value i (in_type i) s else s)"

definition is_syscall :: "instr \<Rightarrow> bool" where
  "is_syscall i \<longleftrightarrow>
     (case syscall_arity_from_name (in_text i) of None \<Rightarrow> False | Some n \<Rightarrow> length (in_args i) = n + 1)"

definition emit_call_instr :: "target_info \<Rightarrow> (string \<rightharpoonup> mir_function) \<Rightarrow> instr \<Rightarrow> sync_state \<Rightarrow> sync_state" where
  "emit_call_instr target functions i s =
     (case (if is_syscall i then emit_syscall target i s else (False, s)) of
       (True, s) \<Rightarrow> s
     | (False, s) \<Rightarrow>
         (let params = callee_params functions (in_text i) in
          if volatile_load i then emit_volatile_load i s
          else if volatile_store i then emit_volatile_store params i s
          else case (case parse_atomic_intrinsic (in_text i) of None \<Rightarrow> None | Some a \<Rightarrow> emit_atomic a i s) of
            Some s \<Rightarrow> s
          | None \<Rightarrow> emit_plain_call params i s))"

subsection \<open>The function\<close>

definition drop_symbol :: "ty \<Rightarrow> string" where
  "drop_symbol t = llvm_name (ty_name t @ ''__drop'')"

definition emit_return :: "instr \<Rightarrow> 'a llvm_state_scheme \<Rightarrow> 'a llvm_state_scheme" where
  "emit_return i s =
     (if in_args i = [] then line [''  ret void''] s
      else line [''  ret '', llvm_type (in_type i), '' '', value_of (arg i 0) s] s)"

definition emit_instr :: "target_info \<Rightarrow> (string \<rightharpoonup> mir_function) \<Rightarrow> instr \<Rightarrow> sync_state \<Rightarrow> sync_state" where
  "emit_instr target functions i s = (case in_op i of
      OpAlloca \<Rightarrow> set_type (in_result i) (raw_ptr_type (in_type i) True)
        (line [''  '', in_result i, '' = alloca '', llvm_type (in_type i)] s)
    | OpConstInt \<Rightarrow> alias_value i (llvm_integer_constant (in_text i)) s
    | OpConstFloat \<Rightarrow> alias_value i (in_text i) s
    | OpConstBool \<Rightarrow> alias_value i (in_text i) s
    | OpConstChar \<Rightarrow> alias_value i (in_text i) s
    | OpConstString \<Rightarrow> alias_value i (string_address (in_text i)) s
    | OpStructInit \<Rightarrow> emit_struct_init i s
    | OpLoad \<Rightarrow> emit_load i s
    | OpStore \<Rightarrow> emit_store i s
    | OpAtomicRmw \<Rightarrow> emit_atomic_rmw i s
    | OpFence \<Rightarrow> emit_fence i s
    | OpCompilerFence \<Rightarrow> emit_compiler_fence i s
    | OpFieldAddr \<Rightarrow> emit_field_address i s
    | OpIndexAddr \<Rightarrow> emit_index_address i s
    | OpAddressOf \<Rightarrow> alias_value i (value_of (arg i 0) s) s
    | OpBinary \<Rightarrow> emit_binary i s
    | OpCompare \<Rightarrow> emit_compare i s
    | OpCall \<Rightarrow> emit_call_instr target functions i s
    | OpCast \<Rightarrow> emit_cast i s
    | OpAwait \<Rightarrow> s\<lparr>ll_diags := diag_error (in_range i) ''E0602''
        ''internal: await reached synchronous LLVM lowering'' (ll_diags s)\<rparr>
    | OpInlineAsm \<Rightarrow> emit_inline_asm target i s
    | OpDrop \<Rightarrow> line [''  call void @'', drop_symbol (in_type i), ''(ptr '', value_of (arg i 0) s, '')''] s
    | OpJump \<Rightarrow> line [''  br label %'', llvm_name (arg i 0)] s
    | OpCondJump \<Rightarrow> line [''  br i1 '', value_of (arg i 0) s, '', label %'', llvm_name (arg i 1), '', label %'',
        llvm_name (arg i 2)] s
    | OpReturn \<Rightarrow> emit_return i s)"

definition emit_block :: "target_info \<Rightarrow> (string \<rightharpoonup> mir_function) \<Rightarrow> basic_block \<Rightarrow> sync_state \<Rightarrow> sync_state" where
  "emit_block target functions b s =
     fold (emit_instr target functions) (bb_instrs b) (line [llvm_name (bb_label b), '':''] s)"

definition param_name :: "mir_param \<Rightarrow> string" where
  "param_name p = ''%arg.'' @ mp_name p"

definition formal_params :: "mir_function \<Rightarrow> string" where
  "formal_params f = separate '', '' (map (\<lambda>p. llvm_type (mp_type p) @ '' %arg.'' @ llvm_name (mp_name p)) (mf_params f))"

definition start_function :: "mir_function \<Rightarrow> string list \<Rightarrow> diagnostics \<Rightarrow> sync_state" where
  "start_function f out ds =
     \<lparr>ll_out = out, ll_values = Map.empty,
      ll_types = fold (\<lambda>p m. m(param_name p \<mapsto> mp_type p)) (mf_params f) Map.empty,
      ll_counter = 0, ll_diags = ds, sy_bounds = 0, sy_atomic = 0\<rparr>"

definition return_type :: "mir_function \<Rightarrow> string" where
  "return_type f = (if mf_is_async f then ''%uinx.future'' else llvm_type (mf_result f))"

definition emit_declaration :: "mir_function \<Rightarrow> string list \<Rightarrow> string list" where
  "emit_declaration f out = out @ [''declare '' @ return_type f @ '' @'' @ llvm_name (mf_name f) @ ''('' @
     separate '', '' (map (llvm_type \<circ> mp_type) (mf_params f)) @ '')'' @ [CHR 0x0A, CHR 0x0A]]"

definition emit_sync_function ::
  "target_info \<Rightarrow> (string \<rightharpoonup> mir_function) \<Rightarrow> mir_function \<Rightarrow> string list \<Rightarrow> diagnostics \<Rightarrow>
     string list \<times> diagnostics" where
  "emit_sync_function target functions f out ds =
     (let s = start_function f out ds;
          s = line [''define '', return_type f, '' @'', llvm_name (mf_name f), ''('', formal_params f, '') {''] s;
          s = fold (emit_block target functions) (mf_blocks f) s;
          s = line [''}'' @ [CHR 0x0A]] s
      in (ll_out s, ll_diags s))"

end
