(* ===== verification/LlvmAsync.thy ===== *)
theory LlvmAsync
  imports LlvmFunction
begin

text \<open>
  Async functions (src/codegen_async.cpp): every value lives in a frame on the heap, the function
  itself only fills the frame, \<open>__poll\<close> runs the body as a state machine whose states are the
  \<open>await\<close> expressions, and \<open>__drop\<close> releases what a suspended frame holds.
\<close>

subsection \<open>The frame\<close>

record frame_field =
  ff_type :: ty
  ff_index :: nat
  ff_address :: bool

type_synonym frame = "(string \<times> frame_field) list"

text \<open>Fields in the order they are added; a name that is empty or known is skipped.\<close>

definition add_field :: "string \<Rightarrow> ty \<Rightarrow> bool \<Rightarrow> frame \<Rightarrow> frame" where
  "add_field key t address fs =
     (if key = [] \<or> map_of fs key \<noteq> None then fs
      else fs @ [(key, \<lparr>ff_type = t, ff_index = length fs + 1, ff_address = address\<rparr>)])"

definition add_result :: "instr \<Rightarrow> frame \<Rightarrow> frame" where
  "add_result i fs =
     (if in_result i = [] then fs
      else if in_op i = OpAlloca then add_field (in_result i) (in_type i) True fs
      else if in_op i = OpFieldAddr \<or> in_op i = OpIndexAddr
      then add_field (in_result i) (raw_ptr_type (in_type i) True) False fs
      else add_field (in_result i) (in_type i) False fs)"

definition function_instrs :: "mir_function \<Rightarrow> instr list" where
  "function_instrs f = concat (map bb_instrs (mf_blocks f))"

definition frame_fields :: "mir_function \<Rightarrow> frame" where
  "frame_fields f = fold add_result (function_instrs f)
     (fold (\<lambda>p. add_field (param_name p) (mp_type p) False) (mf_params f) [])"

text \<open>The \<open>await\<close> instructions with their numbers, from 1.\<close>

definition awaits :: "mir_function \<Rightarrow> (instr \<times> nat) list" where
  "awaits f = (let is = filter (\<lambda>i. in_op i = OpAwait) (function_instrs f) in zip is [1..<length is + 1])"

record async_state = llvm_state +
  as_frame_type :: string
  as_fields :: frame
  as_temp :: nat
  as_bounds :: nat
  as_await :: nat

definition frame_type :: "mir_function \<Rightarrow> string" where
  "frame_type f = ''%uinx.async.frame.'' @ llvm_name (mf_name f)"

definition field_slot :: "string \<Rightarrow> string \<Rightarrow> nat \<Rightarrow> string list" where
  "field_slot result ft index = [''  '', result, '' = getelementptr inbounds '', ft, '', ptr %frame, i32 0, i32 '',
     nat_to_string index]"

definition frame_addr :: "string \<Rightarrow> async_state \<Rightarrow> string \<times> async_state" where
  "frame_addr key s = (case map_of (as_fields s) key of
      None \<Rightarrow> (key, s)
    | Some field \<Rightarrow>
        (let tmp = ''%af.addr.'' @ nat_to_string (as_temp s) in
         (tmp, line (field_slot tmp (as_frame_type s) (ff_index field)) (s\<lparr>as_temp := as_temp s + 1\<rparr>))))"

definition frame_value :: "string \<Rightarrow> async_state \<Rightarrow> string \<times> async_state" where
  "frame_value v s = (case map_of (as_fields s) v of
      None \<Rightarrow> (v, s)
    | Some field \<Rightarrow>
        (case frame_addr v s of (address, s) \<Rightarrow>
          (if ff_address field then (address, s)
           else let tmp = ''%af.load.'' @ nat_to_string (as_temp s) in
             (tmp, line [''  '', tmp, '' = load '', llvm_type (ff_type field), '', ptr '', address]
               (s\<lparr>as_temp := as_temp s + 1\<rparr>)))))"

definition store_result :: "instr \<Rightarrow> string \<Rightarrow> async_state \<Rightarrow> async_state" where
  "store_result i v s =
     (if in_result i = [] then s
      else case map_of (as_fields s) (in_result i) of
        None \<Rightarrow> s
      | Some field \<Rightarrow>
          if ff_address field then s
          else case frame_addr (in_result i) s of (address, s) \<Rightarrow>
            line [''  store '', llvm_type (ff_type field), '' '', v, '', ptr '', address] s)"

definition mir_label :: "string \<Rightarrow> string" where
  "mir_label l = ''mir.'' @ llvm_name l"

definition fresh_temp :: "string \<Rightarrow> async_state \<Rightarrow> string \<times> async_state" where
  "fresh_temp stem s = (stem @ nat_to_string (as_temp s), s\<lparr>as_temp := as_temp s + 1\<rparr>)"

fun frame_values :: "string list \<Rightarrow> async_state \<Rightarrow> string list \<times> async_state" where
  "frame_values [] s = ([], s)"
| "frame_values (v # vs) s =
     (case frame_value v s of (w, s) \<Rightarrow> (case frame_values vs s of (ws, s) \<Rightarrow> (w # ws, s)))"

subsection \<open>Instructions\<close>

fun async_fields :: "instr \<Rightarrow> nat \<Rightarrow> string \<Rightarrow> string list \<Rightarrow> async_state \<Rightarrow> string \<times> async_state" where
  "async_fields i index aggregate [] s = (aggregate, s)"
| "async_fields i index aggregate (a # as) s =
     (case frame_value a s of (v, s) \<Rightarrow>
       (case fresh_temp ''%af.insert.'' s of (result, s) \<Rightarrow>
         async_fields i (index + 1) result as
           (line [''  '', result, '' = insertvalue '', llvm_type (in_type i), '' '', aggregate, '', '',
              llvm_type (type_or ''i32'' a s), '' '', v, '', '', nat_to_string index] s)))"

definition async_struct_init :: "instr \<Rightarrow> async_state \<Rightarrow> async_state" where
  "async_struct_init i s =
     (if in_args i = [] then store_result i ''zeroinitializer'' s
      else case async_fields i 0 ''poison'' (in_args i) s of (aggregate, s) \<Rightarrow> store_result i aggregate s)"

definition async_load :: "instr \<Rightarrow> async_state \<Rightarrow> async_state" where
  "async_load i s =
     (case frame_value (arg i 0) s of (address, s) \<Rightarrow>
       (case fresh_temp ''%af.op.'' s of (result, s) \<Rightarrow>
         store_result i result (line [''  '', result, '' = load '', atomic_word i, llvm_type (in_type i), '', ptr '',
           address, atomic_suffix i] s)))"

definition async_store :: "instr \<Rightarrow> async_state \<Rightarrow> async_state" where
  "async_store i s =
     (case frame_value (arg i 0) s of (v, s) \<Rightarrow>
       (case frame_value (arg i 1) s of (address, s) \<Rightarrow>
         line [''  store '', atomic_word i, llvm_type (in_type i), '' '', v, '', ptr '', address, atomic_suffix i] s))"

definition async_atomic_rmw :: "instr \<Rightarrow> async_state \<Rightarrow> async_state" where
  "async_atomic_rmw i s =
     (case frame_value (arg i 0) s of (address, s) \<Rightarrow>
       (case frame_value (arg i 1) s of (v, s) \<Rightarrow>
         (case fresh_temp ''%af.atomic.'' s of (result, s) \<Rightarrow>
           line [''  '', result, '' = atomicrmw '', atomic_rmw_opcode (in_text i), '' ptr '', address, '', '',
             llvm_type (in_type i), '' '', v, '' '', arg i 2, '', align '',
             nat_to_string (type_alignment (in_type i))] s)))"

definition async_field_address :: "instr \<Rightarrow> async_state \<Rightarrow> async_state" where
  "async_field_address i s =
     (case frame_value (arg i 0) s of (base, s) \<Rightarrow>
       (case fresh_temp ''%af.field.'' s of (result, s) \<Rightarrow>
         store_result i result (line [''  '', result, '' = getelementptr inbounds '', llvm_type (in_aux i), '', ptr '',
           base, '', i32 0, i32 '', in_text i] s)))"

definition async_index_address :: "instr \<Rightarrow> async_state \<Rightarrow> async_state" where
  "async_index_address i s =
     (case frame_value (arg i 0) s of (data, s) \<Rightarrow>
       (case frame_value (arg i 1) s of (index, s) \<Rightarrow>
         (case frame_value (arg i 2) s of (len, s) \<Rightarrow>
           (let ending = nat_to_string (as_bounds s);
                (lines, ok, index64) = bounds_test ''%af.bound.'' ending (in_aux i) index len;
                s = bounds_branch ''async.bounds.'' ending ok (s\<lparr>as_bounds := as_bounds s + 1, ll_out := ll_out s @ lines\<rparr>);
                result = ''%af.index.'' @ ending
            in store_result i result (line [''  '', result, '' = getelementptr inbounds '', llvm_type (in_type i),
                 '', ptr '', data, '', i64 '', index64] s)))))"

definition async_binary :: "instr \<Rightarrow> async_state \<Rightarrow> async_state" where
  "async_binary i s =
     (case frame_value (arg i 0) s of (lhs, s) \<Rightarrow>
       (case fresh_temp ''%af.bin.'' s of (result, s) \<Rightarrow>
         (if pointer_arithmetic i then
            (case frame_value (arg i 1) s of (rhs, s) \<Rightarrow>
              (let t = type_or ''isize'' (arg i 1) s;
                   (index, s) = (if in_text i = ''-''
                     then (case fresh_temp ''%af.ptr.neg.'' s of (index, s) \<Rightarrow>
                       (index, line [''  '', index, '' = sub '', llvm_type t, '' 0, '', rhs] s))
                     else (rhs, s))
               in store_result i result (line [''  '', result, '' = getelementptr '', llvm_type (pointer_element i),
                    '', ptr '', lhs, '', '', llvm_type t, '' '', index] s)))
          else if in_text i = ''!'' \<or> in_text i = ''~'' then
            store_result i result (line [''  '', result, '' = xor '', llvm_type (in_type i), '' '', lhs, '', '', all_ones i] s)
          else case frame_value (arg i 1) s of (rhs, s) \<Rightarrow>
            store_result i result (line [''  '', result, '' = '', arithmetic_opcode (in_type i) (in_text i), '' '',
              llvm_type (in_type i), '' '', lhs, '', '', rhs] s))))"

definition async_compare :: "instr \<Rightarrow> async_state \<Rightarrow> async_state" where
  "async_compare i s =
     (case frame_value (arg i 0) s of (lhs, s) \<Rightarrow>
       (case frame_value (arg i 1) s of (rhs, s) \<Rightarrow>
         (case fresh_temp ''%af.cmp.'' s of (result, s) \<Rightarrow>
           store_result i result (line [''  '', result, '' = '', if is_float (in_type i) then ''fcmp '' else ''icmp '',
             compare_predicate (in_type i) (in_text i), '' '', llvm_type (in_type i), '' '', lhs, '', '', rhs] s))))"

text \<open>\<open>value_of\<close> of the arguments runs before the call, which reads the map of their values.\<close>

fun syscall_values :: "string list \<Rightarrow> async_state \<Rightarrow> async_state" where
  "syscall_values [] s = s"
| "syscall_values (a # as) s =
     (case frame_value a s of (v, s) \<Rightarrow> syscall_values as (s\<lparr>ll_values := (ll_values s)(a \<mapsto> v)\<rparr>))"

definition async_syscall :: "target_info \<Rightarrow> instr \<Rightarrow> async_state \<Rightarrow> bool \<times> async_state" where
  "async_syscall target i s =
     (let counter = ll_counter s;
          s = syscall_values (in_args i) (s\<lparr>ll_values := Map.empty\<rparr>)
      in case emit_syscall target i (s\<lparr>ll_counter := as_temp s\<rparr>) of
        (done, s) \<Rightarrow>
          (let values = ll_values s;
               s = s\<lparr>as_temp := ll_counter s, ll_counter := counter, ll_values := Map.empty\<rparr>
           in (done, if done \<and> in_result i \<noteq> []
                 then (case values (in_result i) of None \<Rightarrow> s | Some v \<Rightarrow> store_result i v s) else s)))"

fun async_arguments :: "ty list \<Rightarrow> string list \<Rightarrow> string list \<Rightarrow> async_state \<Rightarrow> (ty \<times> string) list" where
  "async_arguments params (a # as) (v # vs) s =
     (case params of
       [] \<Rightarrow> (type_or ''i32'' a s, v) # async_arguments [] as vs s
     | p # ps \<Rightarrow> (p, v) # async_arguments ps as vs s)"
| "async_arguments params _ _ s = []"

definition async_plain_call :: "(string \<rightharpoonup> mir_function) \<Rightarrow> instr \<Rightarrow> async_state \<Rightarrow> async_state" where
  "async_plain_call functions i s =
     (case frame_values (in_args i) s of (args, s) \<Rightarrow>
       (case (if in_result i = [] then ([], s) else fresh_temp ''%af.call.'' s) of (result, s) \<Rightarrow>
         (let s = line [''  '', if result = [] then [] else result @ '' = '', ''call '', llvm_type (in_type i), '' @'',
                llvm_name (in_text i), ''('',
                typed_args (async_arguments (callee_params functions (in_text i)) (in_args i) args s), '')''] s
          in if result = [] then s else store_result i result s)))"

definition async_call :: "target_info \<Rightarrow> (string \<rightharpoonup> mir_function) \<Rightarrow> instr \<Rightarrow> async_state \<Rightarrow> async_state" where
  "async_call target functions i s =
     (case (if is_syscall i then async_syscall target i s else (False, s)) of
       (True, s) \<Rightarrow> s
     | (False, s) \<Rightarrow> async_plain_call functions i s)"

definition async_cast :: "instr \<Rightarrow> async_state \<Rightarrow> async_state" where
  "async_cast i s =
     (case frame_value (arg i 0) s of (v, s) \<Rightarrow>
       (let src = type_or ''i32'' (arg i 0) s in
        if ty_kind src = KStr \<and> ty_kind (in_type i) = KRawPtr then store_result i v s
        else case fresh_temp ''%af.cast.'' s of (result, s) \<Rightarrow>
          store_result i result (line [''  '', result, '' = '', cast_opcode src (in_type i), '' '', llvm_type src,
            '' '', v, '' to '', llvm_type (in_type i)] s)))"

subsection \<open>Suspension\<close>

text \<open>The test of the result of polling the awaited future, and the way out of the function.\<close>

definition await_suspend :: "string \<Rightarrow> async_state \<Rightarrow> async_state" where
  "await_suspend k s =
     (let a = ''async.await.'' @ k;
          s = line [''  %await.pending.'', k, '' = icmp eq i32 %await.rc.'', k, '', 0''] s;
          s = line [''  br i1 %await.pending.'', k, '', label %'', a, ''.pending, label %'', a, ''.nonpending''] s;
          s = line [a, ''.pending:''] s;
          s = line [''  store i32 '', k, '', ptr %state.addr''] s;
          s = line [''  ret i32 0''] s;
          s = line [a, ''.nonpending:''] s;
          s = line [''  %await.failed.'', k, '' = icmp slt i32 %await.rc.'', k, '', 0''] s;
          s = line [''  br i1 %await.failed.'', k, '', label %'', a, ''.error, label %'', a, ''.ready''] s;
          s = line [a, ''.error:''] s
      in line [''  ret i32 %await.rc.'', k] s)"

definition async_await :: "instr \<Rightarrow> async_state \<Rightarrow> async_state" where
  "async_await i s =
     (let k = nat_to_string (as_await s + 1); a = ''async.await.'' @ k; t = llvm_type (in_type i);
          s = s\<lparr>as_await := as_await s + 1\<rparr>;
          s = line [''  br label %'', a, ''.poll''] s;
          s = line [a, ''.poll:''] s
      in case frame_value (arg i 0) s of (future, s) \<Rightarrow>
       (let s = line [''  %await.state.'', k, '' = extractvalue %uinx.future '', future, '', 0''] s;
            s = line [''  %await.vtable.'', k, '' = extractvalue %uinx.future '', future, '', 1''] s;
            s = line [''  %await.poll.addr.'', k, '' = getelementptr inbounds %uinx.future.vtable, ptr %await.vtable.'', k,
              '', i32 0, i32 0''] s;
            s = line [''  %await.drop.addr.'', k, '' = getelementptr inbounds %uinx.future.vtable, ptr %await.vtable.'', k,
              '', i32 0, i32 1''] s;
            s = line [''  %await.pollfn.'', k, '' = load ptr, ptr %await.poll.addr.'', k] s;
            s = line [''  %await.dropfn.'', k, '' = load ptr, ptr %await.drop.addr.'', k] s;
            s = line [''  %await.out.'', k, '' = alloca '', t] s;
            s = line [''  %await.rc.'', k, '' = call i32 %await.pollfn.'', k, ''(ptr %await.state.'', k,
              '', ptr %await.out.'', k, '')''] s;
            s = await_suspend k s;
            s = line [a, ''.ready:''] s;
            s = line [''  %await.value.'', k, '' = load '', t, '', ptr %await.out.'', k] s;
            s = line [''  call void %await.dropfn.'', k, ''(ptr %await.state.'', k, '')''] s;
            s = line [''  store i32 0, ptr %state.addr''] s;
            s = store_result i (''%await.value.'' @ k) s;
            s = line [''  br label %'', a, ''.cont''] s
        in line [a, ''.cont:''] s))"

fun asm_places :: "mir_asm list \<Rightarrow> async_state \<Rightarrow> mir_asm list \<times> async_state" where
  "asm_places [] s = ([], s)"
| "asm_places (a # as) s =
     (let s = (if ma_value a = [] then s
            else case frame_value (ma_value a) s of (v, s) \<Rightarrow> s\<lparr>ll_values := (ll_values s)(ma_value a \<mapsto> v)\<rparr>)
      in case (if ma_out_slot a = [] then ([], s) else frame_value (ma_out_slot a) s) of
         (slot, s) \<Rightarrow> (case asm_places as s of (as, s) \<Rightarrow> (a\<lparr>ma_out_slot := slot\<rparr> # as, s)))"

definition async_asm :: "target_info \<Rightarrow> instr \<Rightarrow> async_state \<Rightarrow> async_state" where
  "async_asm target i s =
     (case asm_places (in_asm i) (s\<lparr>ll_values := Map.empty\<rparr>) of
       (as, s) \<Rightarrow> (emit_inline_asm target (i\<lparr>in_asm := as\<rparr>) s)\<lparr>ll_values := Map.empty\<rparr>)"

definition async_return :: "instr \<Rightarrow> async_state \<Rightarrow> async_state" where
  "async_return i s =
     (let s = (if in_args i = [] then s
            else case frame_value (arg i 0) s of (v, s) \<Rightarrow>
              line [''  store '', llvm_type (in_type i), '' '', v, '', ptr %output''] s);
          s = line [''  store i32 -1, ptr %state.addr''] s
      in line [''  ret i32 1''] s)"

definition async_drop :: "instr \<Rightarrow> async_state \<Rightarrow> async_state" where
  "async_drop i s =
     (case frame_value (arg i 0) s of (address, s) \<Rightarrow>
       line [''  call void @'', drop_symbol (in_type i), ''(ptr '', address, '')''] s)"

definition async_branch :: "instr \<Rightarrow> async_state \<Rightarrow> async_state" where
  "async_branch i s =
     (case frame_value (arg i 0) s of (condition, s) \<Rightarrow>
       line [''  br i1 '', condition, '', label %'', mir_label (arg i 1), '', label %'', mir_label (arg i 2)] s)"

definition async_instr :: "target_info \<Rightarrow> (string \<rightharpoonup> mir_function) \<Rightarrow> instr \<Rightarrow> async_state \<Rightarrow> async_state" where
  "async_instr target functions i s = (case in_op i of
      OpAlloca \<Rightarrow> s
    | OpConstInt \<Rightarrow> store_result i (llvm_integer_constant (in_text i)) s
    | OpConstFloat \<Rightarrow> store_result i (in_text i) s
    | OpConstBool \<Rightarrow> store_result i (in_text i) s
    | OpConstChar \<Rightarrow> store_result i (in_text i) s
    | OpConstString \<Rightarrow> store_result i (string_address (in_text i)) s
    | OpStructInit \<Rightarrow> async_struct_init i s
    | OpLoad \<Rightarrow> async_load i s
    | OpStore \<Rightarrow> async_store i s
    | OpAtomicRmw \<Rightarrow> async_atomic_rmw i s
    | OpFence \<Rightarrow> emit_fence i s
    | OpCompilerFence \<Rightarrow> emit_compiler_fence i s
    | OpFieldAddr \<Rightarrow> async_field_address i s
    | OpIndexAddr \<Rightarrow> async_index_address i s
    | OpAddressOf \<Rightarrow> (case frame_value (arg i 0) s of (v, s) \<Rightarrow> store_result i v s)
    | OpBinary \<Rightarrow> async_binary i s
    | OpCompare \<Rightarrow> async_compare i s
    | OpCall \<Rightarrow> async_call target functions i s
    | OpCast \<Rightarrow> async_cast i s
    | OpAwait \<Rightarrow> async_await i s
    | OpInlineAsm \<Rightarrow> async_asm target i s
    | OpDrop \<Rightarrow> async_drop i s
    | OpJump \<Rightarrow> line [''  br label %'', mir_label (arg i 0)] s
    | OpCondJump \<Rightarrow> async_branch i s
    | OpReturn \<Rightarrow> async_return i s)"

definition async_block :: "target_info \<Rightarrow> (string \<rightharpoonup> mir_function) \<Rightarrow> basic_block \<Rightarrow> async_state \<Rightarrow> async_state" where
  "async_block target functions b s =
     fold (async_instr target functions) (bb_instrs b) (line [mir_label (bb_label b), '':''] s)"

subsection \<open>The three functions\<close>

text \<open>The type of the frame, the table of the future and the function that makes the future.\<close>

definition store_param :: "mir_function \<Rightarrow> mir_param \<Rightarrow> async_state \<Rightarrow> async_state" where
  "store_param f p s =
     (let index = ff_index (the (map_of (as_fields s) (param_name p))); slot = ''%param.addr.'' @ nat_to_string index;
          s = line (field_slot slot (frame_type f) index) s
      in line [''  store '', llvm_type (mp_type p), '' %arg.'', llvm_name (mp_name p), '', ptr '', slot] s)"

definition emit_async_start :: "mir_function \<Rightarrow> async_state \<Rightarrow> async_state" where
  "emit_async_start f s =
     (let name = llvm_name (mf_name f); ft = frame_type f;
          s = line [ft, '' = type { i32'', concat (map (\<lambda>(_, field). '', '' @ llvm_type (ff_type field)) (as_fields s)), '' }''] s;
          s = line [''@'', name, ''__vtable = private constant %uinx.future.vtable { ptr @'', name, ''__poll, ptr @'', name,
            ''__drop }''] s;
          s = line [''define %uinx.future @'', name, ''('', formal_params f, '') {''] s;
          s = line [''entry:''] s;
          s = line [''  %frame.size.ptr = getelementptr '', ft, '', ptr null, i32 1''] s;
          s = line [''  %frame.size = ptrtoint ptr %frame.size.ptr to i64''] s;
          s = line [''  %frame = call ptr @malloc(i64 %frame.size)''] s;
          s = line [''  %oom = icmp eq ptr %frame, null''] s;
          s = line [''  br i1 %oom, label %async.oom, label %async.init''] s;
          s = line [''async.oom:''] s;
          s = line [''  call void @abort()''] s;
          s = line [''  unreachable''] s;
          s = line [''async.init:''] s;
          s = line (field_slot ''%state.addr'' ft 0) s;
          s = line [''  store i32 0, ptr %state.addr''] s;
          s = fold (store_param f) (mf_params f) s;
          s = line [''  %future.0 = insertvalue %uinx.future poison, ptr %frame, 0''] s;
          s = line [''  %future.1 = insertvalue %uinx.future %future.0, ptr @'', name, ''__vtable, 1''] s;
          s = line [''  ret %uinx.future %future.1''] s
      in line [''}'' @ [CHR 0x0A]] s)"

definition resume_case :: "nat \<Rightarrow> string" where
  "resume_case k = '' i32 '' @ nat_to_string k @ '', label %async.resume.'' @ nat_to_string k"

definition resume_line :: "nat \<Rightarrow> async_state \<Rightarrow> async_state" where
  "resume_line k s =
     line [''  br label %async.await.'', nat_to_string k, ''.poll''] (line [''async.resume.'', nat_to_string k, '':''] s)"

definition emit_async_poll ::
  "target_info \<Rightarrow> (string \<rightharpoonup> mir_function) \<Rightarrow> mir_function \<Rightarrow> async_state \<Rightarrow> async_state" where
  "emit_async_poll target functions f s =
     (let first = (case mf_blocks f of [] \<Rightarrow> ''entry'' | b # _ \<Rightarrow> bb_label b); ids = map snd (awaits f);
          s = line [''define i32 @'', llvm_name (mf_name f), ''__poll(ptr %frame, ptr %output) {''] s;
          s = line [''entry:''] s;
          s = line (field_slot ''%state.addr'' (frame_type f) 0) s;
          s = line [''  %state = load i32, ptr %state.addr''] s;
          s = line [''  switch i32 %state, label %async.invalid [ i32 0, label %'', mir_label first,
            concat (map resume_case ids), '' i32 -1, label %async.completed ]''] s;
          s = line [''async.invalid:''] s;
          s = line [''  ret i32 -22''] s;
          s = line [''async.completed:''] s;
          s = line [''  ret i32 1''] s;
          s = fold resume_line ids s;
          s = fold (async_block target functions) (mf_blocks f) s
      in line [''}'' @ [CHR 0x0A]] s)"

definition cleanup_child :: "frame_field \<Rightarrow> string \<Rightarrow> mir_function \<Rightarrow> async_state \<Rightarrow> async_state" where
  "cleanup_child field k f s =
     (let s = line (field_slot (''%c.addr.'' @ k) (frame_type f) (ff_index field)) s;
          s = line [''  %c.future.'', k, '' = load %uinx.future, ptr %c.addr.'', k] s;
          s = line [''  %c.state.'', k, '' = extractvalue %uinx.future %c.future.'', k, '', 0''] s;
          s = line [''  %c.vtable.'', k, '' = extractvalue %uinx.future %c.future.'', k, '', 1''] s;
          s = line [''  %c.drop.addr.'', k, '' = getelementptr inbounds %uinx.future.vtable, ptr %c.vtable.'', k,
            '', i32 0, i32 1''] s;
          s = line [''  %c.drop.'', k, '' = load ptr, ptr %c.drop.addr.'', k] s
      in line [''  call void %c.drop.'', k, ''(ptr %c.state.'', k, '')''] s)"

definition cleanup :: "mir_function \<Rightarrow> instr \<times> nat \<Rightarrow> async_state \<Rightarrow> async_state" where
  "cleanup f = (\<lambda>(i, n) s.
     (let k = nat_to_string n;
          s = line [''cleanup.'', k, '':''] s;
          s = (if in_args i = [] then s
               else case map_of (as_fields s) (arg i 0) of None \<Rightarrow> s | Some field \<Rightarrow> cleanup_child field k f s)
      in line [''  br label %free''] s))"

definition emit_async_drop :: "mir_function \<Rightarrow> async_state \<Rightarrow> async_state" where
  "emit_async_drop f s =
     (let s = line [''define void @'', llvm_name (mf_name f), ''__drop(ptr %frame) {''] s;
          s = line [''entry:''] s;
          s = line (field_slot ''%state.addr'' (frame_type f) 0) s;
          s = line [''  %state = load i32, ptr %state.addr''] s;
          s = (if awaits f = [] then line [''  br label %free''] s
               else fold (cleanup f) (awaits f)
                 (line [''  switch i32 %state, label %free ['',
                    concat (map (\<lambda>(_, n). '' i32 '' @ nat_to_string n @ '', label %cleanup.'' @ nat_to_string n) (awaits f)),
                    '' ]''] s));
          s = line [''free:''] s;
          s = line [''  call void @free(ptr %frame)''] s;
          s = line [''  ret void''] s
      in line [''}'' @ [CHR 0x0A]] s)"

definition start_async :: "mir_function \<Rightarrow> string list \<Rightarrow> diagnostics \<Rightarrow> async_state" where
  "start_async f out ds =
     \<lparr>ll_out = out, ll_values = Map.empty,
      ll_types = map_option ff_type \<circ> map_of (frame_fields f),
      ll_counter = 0, ll_diags = ds, as_frame_type = frame_type f, as_fields = frame_fields f,
      as_temp = 0, as_bounds = 0, as_await = 0\<rparr>"

definition emit_async_function ::
  "target_info \<Rightarrow> (string \<rightharpoonup> mir_function) \<Rightarrow> mir_function \<Rightarrow> string list \<Rightarrow> diagnostics \<Rightarrow>
     string list \<times> diagnostics" where
  "emit_async_function target functions f out ds =
     (let s = emit_async_drop f (emit_async_poll target functions f (emit_async_start f (start_async f out ds)))
      in (ll_out s, ll_diags s))"

definition emit_function ::
  "target_info \<Rightarrow> (string \<rightharpoonup> mir_function) \<Rightarrow> mir_function \<Rightarrow> string list \<times> diagnostics \<Rightarrow>
     string list \<times> diagnostics" where
  "emit_function target functions f = (\<lambda>(out, ds).
     if mf_is_extern f then (emit_declaration f out, ds)
     else if mf_is_async f then emit_async_function target functions f out ds
     else emit_sync_function target functions f out ds)"

end
