(* ===== verification/LlvmModule.thy ===== *)
theory LlvmModule
  imports LlvmAsync
begin

text \<open>
  The generated module (\<open>LLVMCodegen::emit\<close> of src/codegen.cpp): declarations of what the code
  needs, the structures, globals and strings, and the functions. The tables of needed structures
  and of destructors are iterated in an order the language leaves open; here it is the order in
  which their entries are added.
\<close>

definition module_instrs :: "mir_module \<Rightarrow> instr list" where
  "module_instrs m = concat (map function_instrs (mm_functions m))"

definition names_future :: "ty \<Rightarrow> bool" where
  "names_future t \<longleftrightarrow> ty_kind t = KNamed \<and> ty_name t = ''Future''"

definition has_future :: "mir_module \<Rightarrow> bool" where
  "has_future m \<longleftrightarrow>
     list_ex (\<lambda>f. mf_is_async f \<or> names_future (mf_result f)) (mm_functions m) \<or>
     list_ex (\<lambda>i. in_op i = OpAwait \<or> names_future (in_type i)) (module_instrs m)"

definition has_async_definition :: "mir_module \<Rightarrow> bool" where
  "has_async_definition m \<longleftrightarrow> list_ex (\<lambda>f. mf_is_async f \<and> \<not> mf_is_extern f) (mm_functions m)"

definition has_bounds_checks :: "mir_module \<Rightarrow> bool" where
  "has_bounds_checks m \<longleftrightarrow> list_ex (\<lambda>i. in_op i = OpIndexAddr) (module_instrs m)"

definition lines :: "string list \<Rightarrow> string list" where
  "lines = map (\<lambda>l. l @ [CHR 0x0A])"

definition emit_prologue :: "target_info \<Rightarrow> mir_module \<Rightarrow> string list" where
  "emit_prologue target m =
     lines [''; Uinx LLVM IR - generated by JiTianYu391'',
       ''target datalayout = '' @ quotation @ ti_data_layout target @ quotation,
       ''target triple = '' @ quotation @ ti_triple target @ quotation, []] @
     (if has_future m then lines [''%uinx.future.vtable = type { ptr, ptr }'', ''%uinx.future = type { ptr, ptr }'']
      else []) @
     (if has_async_definition m
      then lines [''declare noalias ptr @malloc(i64)'', ''declare void @free(ptr)'', ''declare void @abort()''] else []) @
     (if has_bounds_checks m then lines [''declare void @llvm.trap()''] else []) @
     (if has_future m \<or> has_async_definition m \<or> has_bounds_checks m then lines [[]] else [])"

subsection \<open>Structures\<close>

type_synonym struct_table = "string \<rightharpoonup> struct_decl"

definition struct_table :: "mir_module \<Rightarrow> struct_table" where
  "struct_table m = fold (\<lambda>d t. t(sd_name d \<mapsto> d)) (mm_structs m) Map.empty"

fun collect_type :: "struct_table \<Rightarrow> ty \<Rightarrow> (string \<times> ty) list \<Rightarrow> (string \<times> ty) list" where
  "collect_type decls (Ty k n as p mu nl) needed =
     (if k = KNamed \<and> n \<noteq> ''Future'' then
        fold (collect_type decls) as
          (if decls n \<noteq> None
           then AList.update (type_str (Ty k n as p mu nl)) (Ty k n as p mu nl) needed else needed)
      else needed)"

definition instr_types :: "instr \<Rightarrow> ty list" where
  "instr_types i = in_type i # in_aux i # map ma_type (in_asm i)"

definition function_types :: "mir_function \<Rightarrow> ty list" where
  "function_types f = mf_result f # map mp_type (mf_params f) @ concat (map instr_types (function_instrs f))"

definition module_types :: "mir_module \<Rightarrow> ty list" where
  "module_types m = map mg_type (mm_globals m) @ concat (map function_types (mm_functions m))"

definition needed_structs :: "mir_module \<Rightarrow> (string \<times> ty) list" where
  "needed_structs m = fold (collect_type (struct_table m)) (module_types m) []"

definition field_types :: "struct_decl \<Rightarrow> ty \<Rightarrow> ty list" where
  "field_types d t =
     (let names = map gp_name (sd_generics d);
          sub = fold (\<lambda>(g, a) m. m(g \<mapsto> a)) (zip names (ty_args t)) Map.empty
      in map (\<lambda>f. substitute_type (type_from_ast (fld_type f) (set names)) sub) (sd_fields d))"

definition emit_struct :: "struct_table \<Rightarrow> string \<times> ty \<Rightarrow> string list" where
  "emit_struct decls = (\<lambda>(_, t).
     (case decls (ty_name t) of
       None \<Rightarrow> []
     | Some d \<Rightarrow> lines [llvm_type t @ '' = type { '' @ separate '', '' (map llvm_type (field_types d t)) @ '' }'']))"

definition emit_structs :: "mir_module \<Rightarrow> string list" where
  "emit_structs m = concat (map (emit_struct (struct_table m)) (needed_structs m)) @
     (if needed_structs m = [] then [] else lines [[]])"

subsection \<open>Globals, strings and destructors\<close>

definition emit_global :: "mir_global \<Rightarrow> string" where
  "emit_global g =
     ''@'' @ llvm_name (mg_name g) @ '' = '' @ (if mg_is_percpu g then ''thread_local(localexec) '' else []) @
     (if mg_is_mut g then ''global '' else ''constant '') @ llvm_type (mg_type g) @ '' '' @
     (if is_integer (mg_type g) then llvm_integer_constant (mg_init g) else mg_init g) @
     '', align '' @ nat_to_string (type_alignment (mg_type g))"

definition emit_string :: "string_constant \<Rightarrow> string" where
  "emit_string c =
     (let bytes = sc_value c @ [CHR 0x00] in
      ''@'' @ llvm_name (sc_symbol c) @ '' = private unnamed_addr constant ['' @ nat_to_string (length bytes) @
      '' x i8] c'' @ quotation @ escape_ir_string bytes @ quotation @ '', align 1'')"

definition section_of :: "string list \<Rightarrow> string list" where
  "section_of ls = (if ls = [] then [] else lines (ls @ [[]]))"

definition function_table :: "mir_module \<Rightarrow> (string \<rightharpoonup> mir_function)" where
  "function_table m = fold (\<lambda>f t. t(mf_name f \<mapsto> f)) (mm_functions m) Map.empty"

definition drop_types :: "mir_module \<Rightarrow> string list" where
  "drop_types m = remdups (map (ty_name \<circ> in_type) (filter (\<lambda>i. in_op i = OpDrop) (module_instrs m)))"

definition emit_drop_declarations :: "mir_module \<Rightarrow> string list" where
  "emit_drop_declarations m =
     concat (map (\<lambda>t. if function_table m (t @ ''__drop'') = None
         then lines [''declare void @'' @ llvm_name (t @ ''__drop'') @ ''(ptr)''] else []) (drop_types m)) @
     (if drop_types m = [] then [] else lines [[]])"

definition emit_module :: "target_info \<Rightarrow> mir_module \<Rightarrow> diagnostics \<Rightarrow> string \<times> diagnostics" where
  "emit_module target m ds =
     (let out = emit_prologue target m @ emit_structs m @ section_of (map emit_global (mm_globals m)) @
            section_of (map emit_string (mm_strings m)) @ emit_drop_declarations m
      in case fold (emit_function target (function_table m)) (mm_functions m) (out, ds) of
           (out, ds) \<Rightarrow> (concat out, ds))"

end
