(* ===== verification/Spec2Isabelle.thy ===== *)
theory Spec2Isabelle
  imports LexerRound LexerLayout TraitAnswers BorrowExclusive BorrowMoves BorrowJoin
    MirFlow MirSem MirFold TypeRun ParseModule ParseRound LlvmModule
begin

text \<open>
  The Uinx compiler.
\<close>

end
